(* ===== verification/Prelude.thy ===== *)
theory Prelude
  imports Complex_Main "HOL-Library.AList" "HOL-Library.Sublist" "HOL-Library.List_Lexorder"
    "HOL-Library.Char_ord" "HOL-Library.Multiset"
begin

text \<open>
  What the components share: the parts of the Go language and of its standard library that
  the sources use (strings, \<open>any\<close> values, maps, \<open>float64\<close> comparisons, time), and the
  generic lemmas about them.

  \<^item> A Go string is a \<open>string\<close> (a list of bytes). Functions that Go defines on runes are
    modelled on bytes, which agrees with Go on ASCII text.
  \<^item> A Go \<open>map\<close> with string keys is an association list with distinct keys. The order of the
    list is the order in which a \<open>range\<close> over the map happens to visit it: Go leaves that
    order open, so a theorem about every list is a theorem about every order.
  \<^item> \<open>time.Time\<close> is the number of nanoseconds since year 1, so the zero time is 0, and a
    \<open>time.Duration\<close> is a number of nanoseconds. The clock is an argument of each operation.
  \<^item> The identifiers drawn by \<open>crypto/rand\<close> are arguments of the operations that draw them.
\<close>

named_theorems frame_simps \<open>which fields and which keys an operation leaves alone\<close>
named_theorems inv_intros \<open>operations preserve their component's invariant\<close>

section \<open>Strings\<close>

definition HasPrefix :: "string \<Rightarrow> string \<Rightarrow> bool" where
  "HasPrefix s p = prefix p s"

definition HasSuffix :: "string \<Rightarrow> string \<Rightarrow> bool" where
  "HasSuffix s p = prefix (rev p) (rev s)"

fun Contains :: "string \<Rightarrow> string \<Rightarrow> bool" where
  "Contains [] sub = (sub = [])"
| "Contains (c # s) sub = (prefix sub (c # s) \<or> Contains s sub)"

definition TrimPrefix :: "string \<Rightarrow> string \<Rightarrow> string" where
  "TrimPrefix s p = (if prefix p s then drop (length p) s else s)"

definition TrimSuffix :: "string \<Rightarrow> string \<Rightarrow> string" where
  "TrimSuffix s p = (if HasSuffix s p then take (length s - length p) s else s)"

definition is_space :: "char \<Rightarrow> bool" where
  "is_space c = (c = CHR '' '' \<or> c = CHR 0x09 \<or> c = CHR 0x0A \<or> c = CHR 0x0B \<or> c = CHR 0x0C
     \<or> c = CHR 0x0D)"

definition TrimSpace :: "string \<Rightarrow> string" where
  "TrimSpace s = rev (dropWhile is_space (rev (dropWhile is_space s)))"

definition lower_char :: "char \<Rightarrow> char" where
  "lower_char c = (let n = (of_char c :: nat) in if 65 \<le> n \<and> n \<le> 90 then char_of (n + 32) else c)"

definition ToLower :: "string \<Rightarrow> string" where
  "ToLower s = map lower_char s"

definition upper_char :: "char \<Rightarrow> char" where
  "upper_char c = (let n = (of_char c :: nat) in if 97 \<le> n \<and> n \<le> 122 then char_of (n - 32) else c)"

definition ToUpper :: "string \<Rightarrow> string" where
  "ToUpper s = map upper_char s"

fun Split :: "char \<Rightarrow> string \<Rightarrow> string list" where
  "Split c [] = [[]]"
| "Split c (x # xs) =
     (if x = c then [] # Split c xs
      else (case Split c xs of [] \<Rightarrow> [[x]] | w # ws \<Rightarrow> (x # w) # ws))"

fun Join :: "string list \<Rightarrow> string \<Rightarrow> string" where
  "Join [] sep = []"
| "Join [w] sep = w"
| "Join (w # ws) sep = w @ sep @ Join ws sep"

definition CountChar :: "string \<Rightarrow> char \<Rightarrow> nat" where
  "CountChar s c = length (filter ((=) c) s)"

fun digits_aux :: "nat \<Rightarrow> nat \<Rightarrow> string" where
  "digits_aux 0 n = []"
| "digits_aux (Suc fuel) n =
     (if n < 10 then [char_of (48 + n)] else digits_aux fuel (n div 10) @ [char_of (48 + n mod 10)])"

definition Itoa :: "int \<Rightarrow> string" where
  "Itoa i = (if i < 0 then CHR ''-'' # digits_aux (Suc (nat (- i))) (nat (- i))
             else digits_aux (Suc (nat i)) (nat i))"

abbreviation nl :: string where
  "nl \<equiv> [CHR 0x0A]"

text \<open>The \<open>%q\<close> verb of fmt (\<open>strconv.Quote\<close>) on ASCII text.\<close>

definition hex_digit :: "nat \<Rightarrow> char" where
  "hex_digit n = (if n < 10 then char_of (48 + n) else char_of (87 + n))"

definition quote_char :: "char \<Rightarrow> string" where
  "quote_char c =
     (let n = (of_char c :: nat) in
      if c = CHR 0x22 then [CHR 0x5C, CHR 0x22]
      else if c = CHR 0x5C then [CHR 0x5C, CHR 0x5C]
      else if n = 7 then [CHR 0x5C, CHR ''a'']
      else if n = 8 then [CHR 0x5C, CHR ''b'']
      else if n = 12 then [CHR 0x5C, CHR ''f'']
      else if n = 10 then [CHR 0x5C, CHR ''n'']
      else if n = 13 then [CHR 0x5C, CHR ''r'']
      else if n = 9 then [CHR 0x5C, CHR ''t'']
      else if n = 11 then [CHR 0x5C, CHR ''v'']
      else if n < 32 \<or> n = 127 then [CHR 0x5C, CHR ''x'', hex_digit (n div 16), hex_digit (n mod 16)]
      else [c])"

definition Quote :: "string \<Rightarrow> string" where
  "Quote s = [CHR 0x22] @ concat (map quote_char s) @ [CHR 0x22]"

text \<open>The em dash of the messages, in UTF-8.\<close>

abbreviation emdash :: string where
  "emdash \<equiv> [CHR 0xE2, CHR 0x80, CHR 0x94]"

lemma HasPrefix_append [simp]: "HasPrefix (p @ s) p"
  by (simp add: HasPrefix_def)

lemma HasPrefix_Nil [simp]: "HasPrefix s []"
  by (simp add: HasPrefix_def)

lemma HasPrefix_refl [simp]: "HasPrefix s s"
  by (simp add: HasPrefix_def)

lemma TrimPrefix_append [simp]: "TrimPrefix (p @ s) p = s"
  by (simp add: TrimPrefix_def)

lemma HasSuffix_append [simp]: "HasSuffix (s @ p) p"
  by (simp add: HasSuffix_def)

lemma HasSuffix_iff: "HasSuffix s p \<longleftrightarrow> suffix p s"
  by (simp add: HasSuffix_def suffix_to_prefix)

lemma TrimSuffix_append [simp]: "TrimSuffix (s @ p) p = s"
  by (simp add: TrimSuffix_def)

lemma Contains_iff: "Contains s sub \<longleftrightarrow> (\<exists>u v. s = u @ sub @ v)"
proof (induction s)
  case Nil
  then show ?case by auto
next
  case (Cons c s)
  show ?case
  proof
    assume "Contains (c # s) sub"
    then consider "prefix sub (c # s)" | u v where "s = u @ sub @ v"
      using Cons.IH by auto
    then show "\<exists>u v. c # s = u @ sub @ v"
    proof cases
      case 1
      then show ?thesis by (metis append_Nil prefix_def)
    next
      case 2
      then show ?thesis by (metis append_Cons)
    qed
  next
    assume "\<exists>u v. c # s = u @ sub @ v"
    then obtain u v where uv: "c # s = u @ sub @ v" by blast
    show "Contains (c # s) sub"
    proof (cases u)
      case Nil
      with uv have "prefix sub (c # s)" by (simp add: prefix_def)
      then show ?thesis by simp
    next
      case (Cons d u')
      with uv have "s = u' @ sub @ v" by simp
      with Cons.IH show ?thesis by auto
    qed
  qed
qed

lemma Split_nonempty [simp]: "Split c s \<noteq> []"
  by (cases s) (auto split: list.split)

lemma Join_Cons: "ws \<noteq> [] \<Longrightarrow> Join (w # ws) sep = w @ sep @ Join ws sep"
  by (cases ws) auto

lemma Join_Cons_head: "Join ((x # w) # ws) sep = x # Join (w # ws) sep"
  by (cases ws) auto

lemma Join_Split [simp]: "Join (Split c s) [c] = s"
  by (induction s) (auto simp: Join_Cons Join_Cons_head split: list.split)

lemma length_Split: "length (Split c s) = Suc (CountChar s c)"
  by (induction s) (auto simp: CountChar_def split: list.split)

lemma Split_no_sep: "\<forall>w \<in> set (Split c s). c \<notin> set w"
  by (induction s) (auto split: list.splits)

section \<open>Numbers and values\<close>

text \<open>
  \<open>float64\<close>: the finite values are kept as the rationals they denote, and comparisons with a
  NaN are false except \<open>!=\<close>. Conversions between numbers and text (\<open>strconv.ParseFloat\<close>,
  the \<open>%v\<close> verb on a float) are the fields of \<open>go_rt\<close>, an argument of whatever uses them.
\<close>

datatype flt = Fin rat | PInf | NInf | NaN

fun flt_lt :: "flt \<Rightarrow> flt \<Rightarrow> bool" where
  "flt_lt (Fin a) (Fin b) = (a < b)"
| "flt_lt (Fin a) PInf = True"
| "flt_lt NInf (Fin b) = True"
| "flt_lt NInf PInf = True"
| "flt_lt _ _ = False"

fun flt_eq :: "flt \<Rightarrow> flt \<Rightarrow> bool" where
  "flt_eq NaN _ = False"
| "flt_eq _ NaN = False"
| "flt_eq a b = (a = b)"

definition flt_le :: "flt \<Rightarrow> flt \<Rightarrow> bool" where
  "flt_le a b = (flt_lt a b \<or> flt_eq a b)"

record go_rt =
  rt_FormatFloat :: "flt \<Rightarrow> string"
  rt_ParseFloat :: "string \<Rightarrow> flt option"

datatype gval =
    VNil
  | VBool bool
  | VInt int
  | VNum flt
  | VStr string
  | VList "gval list"
  | VMap "(string \<times> gval) list"

text \<open>A \<open>map[string]any\<close>: \<open>None\<close> is the nil map, which reads as empty but encodes as null.\<close>

type_synonym params = "(string \<times> gval) list option"

definition entries :: "params \<Rightarrow> (string \<times> gval) list" where
  "entries p = (case p of None \<Rightarrow> [] | Some m \<Rightarrow> m)"

definition pget :: "params \<Rightarrow> string \<Rightarrow> gval option" where
  "pget p k = map_of (entries p) k"

definition pstring :: "params \<Rightarrow> string \<Rightarrow> string" where
  "pstring p k = (case pget p k of Some (VStr s) \<Rightarrow> s | _ \<Rightarrow> [])"

text \<open>
  The \<open>%v\<close> verb of fmt. Maps print with their keys sorted.
\<close>

fun Sprint :: "go_rt \<Rightarrow> gval \<Rightarrow> string" where
  "Sprint rt VNil = ''<nil>''"
| "Sprint rt (VBool b) = (if b then ''true'' else ''false'')"
| "Sprint rt (VInt i) = Itoa i"
| "Sprint rt (VNum f) = rt_FormatFloat rt f"
| "Sprint rt (VStr s) = s"
| "Sprint rt (VList vs) = ''['' @ Join (map (Sprint rt) vs) '' '' @ '']''"
| "Sprint rt (VMap m) =
     ''map['' @ Join (map snd (sort_key fst (map (\<lambda>(k, v). (k, k @ '':'' @ Sprint rt v)) m))) '' '' @ '']''"

definition SprintParams :: "go_rt \<Rightarrow> params \<Rightarrow> string" where
  "SprintParams rt p = Sprint rt (VMap (entries p))"

text \<open>
  \<open>json.Marshal\<close>, up to the injective rendering of the result as bytes: object keys are
  sorted, integers and floats print alike, and a value with a NaN or an infinity cannot be
  encoded. Two values have equal encodings exactly when their canonical forms are equal.
\<close>

fun json_ok :: "gval \<Rightarrow> bool" where
  "json_ok (VNum f) = (case f of Fin _ \<Rightarrow> True | _ \<Rightarrow> False)"
| "json_ok (VList vs) = list_all json_ok vs"
| "json_ok (VMap m) = list_all (\<lambda>(k, v). json_ok v) m"
| "json_ok _ = True"

fun canon :: "gval \<Rightarrow> gval" where
  "canon (VInt i) = VNum (Fin (of_int i))"
| "canon (VList vs) = VList (map canon vs)"
| "canon (VMap m) = VMap (sort_key fst (map (\<lambda>(k, v). (k, canon v)) m))"
| "canon v = v"

definition Marshal :: "params \<Rightarrow> gval option" where
  "Marshal p =
     (case p of
        None \<Rightarrow> Some VNil
      | Some m \<Rightarrow> if json_ok (VMap m) then Some (canon (VMap m)) else None)"

section \<open>Maps, lists and options\<close>

type_synonym time = int
type_synonym duration = int

abbreviation second :: duration where
  "second \<equiv> 1000000000"

abbreviation minute :: duration where
  "minute \<equiv> 60 * second"

abbreviation zero_time :: time where
  "zero_time \<equiv> 0"

definition keys_distinct :: "('k \<times> 'v) list \<Rightarrow> bool" where
  "keys_distinct m = distinct (map fst m)"

lemma keys_distinct_update [intro, simp]: "keys_distinct m \<Longrightarrow> keys_distinct (AList.update k v m)"
  by (simp add: keys_distinct_def distinct_update)

lemma keys_distinct_delete [intro, simp]: "keys_distinct m \<Longrightarrow> keys_distinct (AList.delete k m)"
  by (simp add: keys_distinct_def distinct_delete)

lemma keys_distinct_Nil [simp]: "keys_distinct []"
  by (simp add: keys_distinct_def)

lemma keys_distinct_filter [intro, simp]: "keys_distinct m \<Longrightarrow> keys_distinct (filter P m)"
  by (simp add: keys_distinct_def distinct_map_filter)

lemma map_of_update [simp]:
  "map_of (AList.update k v m) k' = (if k' = k then Some v else map_of m k')"
  by (simp add: update_conv')

lemma map_of_delete [simp]:
  "map_of (AList.delete k m) k' = (if k' = k then None else map_of m k')"
  by (simp add: delete_conv')

lemma find_append:
  "find P (xs @ ys) = (case find P xs of Some x \<Rightarrow> Some x | None \<Rightarrow> find P ys)"
  by (induction xs) auto

lemma find_SomeD: "find P xs = Some x \<Longrightarrow> x \<in> set xs \<and> P x"
  by (induction xs) (auto split: if_splits)

lemma find_None_conv: "find P xs = None \<longleftrightarrow> (\<forall>x \<in> set xs. \<not> P x)"
  by (induction xs) auto

lemma list_ex_key: "list_ex (\<lambda>e. f e = k) xs \<longleftrightarrow> k \<in> f ` set xs"
  by (induction xs) auto

end
