(* ===== verification/Glob.thy ===== *)
theory Glob
  imports Prelude
begin

text \<open>
  Wildcard patterns (\<open>internal/match/match.go\<close>): \<open>Glob\<close> and \<open>GlobAny\<close>, over a model of
  \<open>path/filepath.Match\<close> as it runs on Unix, with the separator \<open>/\<close>. The model follows the
  library's algorithm: the pattern is cut into chunks at its stars, each chunk is matched at
  the first place it fits, and there is no backtracking. \<open>Match_plain\<close> shows that for
  patterns without classes and escapes this search decides the usual meaning of a wildcard
  pattern (\<open>wild\<close>), in which a star or a question mark never stands for a \<open>/\<close>.
\<close>

section \<open>filepath.Match\<close>

datatype chunk_result = ErrBadPattern | NoMatch | Matched string

fun chunk_split :: "bool \<Rightarrow> string \<Rightarrow> string \<times> string" where
  "chunk_split inrange [] = ([], [])"
| "chunk_split inrange (c # cs) =
     (if c = CHR 0x5C then
        (case cs of
           [] \<Rightarrow> ([c], [])
         | d # ds \<Rightarrow> (let (a, b) = chunk_split inrange ds in (c # d # a, b)))
      else if c = CHR ''['' then (let (a, b) = chunk_split True cs in (c # a, b))
      else if c = CHR '']'' then (let (a, b) = chunk_split False cs in (c # a, b))
      else if c = CHR ''*'' \<and> \<not> inrange then ([], c # cs)
      else (let (a, b) = chunk_split inrange cs in (c # a, b)))"

definition scanChunk :: "string \<Rightarrow> bool \<times> string \<times> string" where
  "scanChunk pattern =
     (let p = dropWhile ((=) (CHR ''*'')) pattern
      in (pattern \<noteq> [] \<and> hd pattern = CHR ''*'', chunk_split False p))"

definition getEsc :: "string \<Rightarrow> (char \<times> string) option" where
  "getEsc chunk =
     (case chunk of
        [] \<Rightarrow> None
      | c # cs \<Rightarrow>
          if c = CHR ''-'' \<or> c = CHR '']'' then None
          else if c = CHR 0x5C then
            (case cs of [] \<Rightarrow> None | d # ds \<Rightarrow> if ds = [] then None else Some (d, ds))
          else if cs = [] then None else Some (c, cs))"

lemma getEsc_shorter: "getEsc chunk = Some (r, rest) \<Longrightarrow> length rest < length chunk"
  by (auto simp: getEsc_def split: list.splits if_splits)

text \<open>The ranges of a character class, after its \<open>[\<close> and its negation sign.\<close>

function parse_class :: "string \<Rightarrow> char \<Rightarrow> bool \<Rightarrow> bool \<Rightarrow> (bool \<times> string) option" where
  "parse_class chunk r seen matched =
     (if chunk \<noteq> [] \<and> hd chunk = CHR '']'' \<and> seen then Some (matched, tl chunk)
      else
        (case getEsc chunk of
           None \<Rightarrow> None
         | Some (lo, rest) \<Rightarrow>
             if hd rest = CHR ''-'' then
               (case getEsc (tl rest) of
                  None \<Rightarrow> None
                | Some (hi, rest') \<Rightarrow>
                    parse_class rest' r True (matched \<or> (lo \<le> r \<and> r \<le> hi)))
             else parse_class rest r True (matched \<or> lo = r)))"
  by pat_completeness auto
termination
  by (relation "measure (\<lambda>(chunk, _). length chunk)") (auto dest!: getEsc_shorter)

declare parse_class.simps [simp del]

lemma parse_class_shorter:
  "parse_class chunk r seen matched = Some (m, rest) \<Longrightarrow> length rest < length chunk"
proof (induction chunk r seen matched rule: parse_class.induct)
  case (1 chunk r seen matched)
  show ?case
  proof (cases "chunk \<noteq> [] \<and> hd chunk = CHR '']'' \<and> seen")
    case True
    with "1.prems" show ?thesis by (cases chunk) (auto simp: parse_class.simps [of "_ # _"])
  next
    case False
    with "1.prems" obtain lo r1 where e: "getEsc chunk = Some (lo, r1)"
      by (auto simp: parse_class.simps [of chunk] split: option.splits)
    note shorter = getEsc_shorter [OF e]
    show ?thesis
    proof (cases "hd r1 = CHR ''-''")
      case True
      with "1.prems" False e obtain hi r2 where e2: "getEsc (tl r1) = Some (hi, r2)"
        by (auto simp: parse_class.simps [of chunk] split: option.splits)
      with "1.prems" False e True
      have "parse_class r2 r True (matched \<or> (lo \<le> r \<and> r \<le> hi)) = Some (m, rest)"
        by (auto simp: parse_class.simps [of chunk])
      with "1.IH"(1) [OF False e refl True e2 refl] shorter getEsc_shorter [OF e2]
      show ?thesis by simp
    next
      case False2: False
      with "1.prems" False e have "parse_class r1 r True (matched \<or> lo = r) = Some (m, rest)"
        by (auto simp: parse_class.simps [of chunk])
      with "1.IH"(2) [OF False e refl False2] shorter show ?thesis by simp
    qed
  qed
qed

text \<open>
  The second argument is what is left of the name, or \<open>None\<close> once the match has failed: the
  rest of the chunk is then only checked for well-formedness.
\<close>

function matchChunk :: "string \<Rightarrow> string option \<Rightarrow> chunk_result" where
  "matchChunk [] st = (case st of None \<Rightarrow> NoMatch | Some s \<Rightarrow> Matched s)"
| "matchChunk (c # cs) st0 =
     (let st = (if st0 = Some [] then None else st0) in
      if c = CHR ''['' then
        (let r = (case st of None \<Rightarrow> CHR 0x00 | Some s \<Rightarrow> hd s);
             negated = (cs \<noteq> [] \<and> hd cs = CHR ''^'');
             body = (if negated then tl cs else cs) in
         (case parse_class body r False False of
            None \<Rightarrow> ErrBadPattern
          | Some (m, rest) \<Rightarrow>
              matchChunk rest (if m = negated then None else map_option tl st)))
      else if c = CHR ''?'' then
        matchChunk cs
          (case st of None \<Rightarrow> None | Some s \<Rightarrow> if hd s = CHR ''/'' then None else Some (tl s))
      else if c = CHR 0x5C then
        (case cs of
           [] \<Rightarrow> ErrBadPattern
         | d # ds \<Rightarrow>
             matchChunk ds (case st of None \<Rightarrow> None | Some s \<Rightarrow> if d = hd s then Some (tl s) else None))
      else matchChunk cs (case st of None \<Rightarrow> None | Some s \<Rightarrow> if c = hd s then Some (tl s) else None))"
  by pat_completeness auto
termination
  by (relation "measure (\<lambda>(chunk, _). length chunk)") (auto dest: parse_class_shorter split: if_splits)

datatype skip_result = SkipErr | SkipNone | SkipTo string

fun skipStar :: "string \<Rightarrow> bool \<Rightarrow> string \<Rightarrow> skip_result" where
  "skipStar chunk final [] = SkipNone"
| "skipStar chunk final (c # cs) =
     (if c = CHR ''/'' then SkipNone
      else (case matchChunk chunk (Some cs) of
              ErrBadPattern \<Rightarrow> SkipErr
            | NoMatch \<Rightarrow> skipStar chunk final cs
            | Matched t \<Rightarrow> if final \<and> t \<noteq> [] then skipStar chunk final cs else SkipTo t))"

lemma chunk_split_append: "chunk_split b p = (u, v) \<Longrightarrow> u @ v = p"
  by (induction b p arbitrary: u v rule: chunk_split.induct) (auto split: if_splits list.splits prod.splits)

lemma scanChunk_shorter:
  assumes "scanChunk p = (star, chunk, rest)" and "p \<noteq> []"
  shows "length rest < length p"
proof -
  let ?q = "dropWhile ((=) (CHR ''*'')) p"
  from assms(1) have split: "chunk_split False ?q = (chunk, rest)"
    by (simp add: scanChunk_def Let_def)
  have len: "length chunk + length rest = length ?q"
    using chunk_split_append [OF split] by (metis length_append)
  show ?thesis
  proof (cases "hd p = CHR ''*''")
    case True
    with assms(2) have "length ?q < length p"
      by (cases p) (auto intro: le_imp_less_Suc length_dropWhile_le)
    with len show ?thesis by simp
  next
    case False
    with assms(2) have q: "?q = p" by (cases p) auto
    have "chunk \<noteq> []"
      using split assms(2) False by (cases p) (auto simp: q split: if_splits list.splits prod.splits)
    with len q show ?thesis by (cases chunk) auto
  qed
qed

text \<open>
  Once the match has failed, the rest of the pattern is still checked, so that a malformed
  pattern is an error whatever the name.
\<close>

function check_rest :: "string \<Rightarrow> bool option" where
  "check_rest pattern =
     (if pattern = [] then Some False
      else (case scanChunk pattern of (star, chunk, rest) \<Rightarrow>
              if matchChunk chunk (Some []) = ErrBadPattern then None else check_rest rest))"
  by pat_completeness auto
termination
  by (relation "measure length") (auto dest: scanChunk_shorter [OF sym])

declare check_rest.simps [simp del]

text \<open>\<open>None\<close> is \<open>filepath.ErrBadPattern\<close>.\<close>

fun remaining :: "chunk_result \<Rightarrow> string" where
  "remaining (Matched t) = t"
| "remaining _ = []"

function Match :: "string \<Rightarrow> string \<Rightarrow> bool option" where
  "Match pattern name =
     (if pattern = [] then Some (name = [])
      else (case scanChunk pattern of (star, chunk, rest) \<Rightarrow>
        if star \<and> chunk = [] then Some (CHR ''/'' \<notin> set name)
        else
          (let m = matchChunk chunk (Some name) in
           if m = ErrBadPattern then None
           else if m \<noteq> NoMatch \<and> (remaining m = [] \<or> rest \<noteq> []) then Match rest (remaining m)
           else if star then
             (case skipStar chunk (rest = []) name of
                SkipErr \<Rightarrow> None
              | SkipTo t \<Rightarrow> Match rest t
              | SkipNone \<Rightarrow> check_rest rest)
           else check_rest rest)))"
  by pat_completeness auto
termination
  by (relation "measure (\<lambda>(pattern, _). length pattern)") (auto dest: scanChunk_shorter [OF sym])

declare Match.simps [simp del]

section \<open>match.go\<close>

definition Glob :: "string \<Rightarrow> string \<Rightarrow> bool" where
  "Glob pattern value =
     (if pattern = ''*'' then True else (case Match pattern value of Some b \<Rightarrow> b | None \<Rightarrow> False))"

fun GlobAny :: "string list \<Rightarrow> string \<Rightarrow> bool" where
  "GlobAny [] value = False"
| "GlobAny (p # ps) value = (if p = value \<or> Glob p value then True else GlobAny ps value)"

lemma GlobAny_iff: "GlobAny ps v \<longleftrightarrow> (\<exists>p \<in> set ps. p = v \<or> Glob p v)"
  by (induction ps) auto

section \<open>What a plain pattern means\<close>

text \<open>
  The declarative reading: a star is any text without a \<open>/\<close>, a question mark any one
  character but \<open>/\<close>, everything else itself.
\<close>

fun wild :: "string \<Rightarrow> string \<Rightarrow> bool" where
  "wild [] s = (s = [])"
| "wild (p # ps) s =
     (if p = CHR ''*'' then
        wild ps s \<or> (case s of [] \<Rightarrow> False | c # t \<Rightarrow> c \<noteq> CHR ''/'' \<and> wild (p # ps) t)
      else (case s of
              [] \<Rightarrow> False
            | c # t \<Rightarrow> (if p = CHR ''?'' then c \<noteq> CHR ''/'' else p = c) \<and> wild ps t))"

definition plain :: "string \<Rightarrow> bool" where
  "plain p = (CHR ''['' \<notin> set p \<and> CHR 0x5C \<notin> set p)"

fun fits :: "string \<Rightarrow> string \<Rightarrow> bool" where
  "fits [] s = True"
| "fits (p # ps) [] = False"
| "fits (p # ps) (c # t) = ((if p = CHR ''?'' then c \<noteq> CHR ''/'' else p = c) \<and> fits ps t)"

definition star_free :: "string \<Rightarrow> bool" where
  "star_free p = (plain p \<and> CHR ''*'' \<notin> set p)"

lemma plain_simps [simp]:
  "plain []" "plain (c # p) = (c \<noteq> CHR ''['' \<and> c \<noteq> CHR 0x5C \<and> plain p)"
  "plain (p @ q) = (plain p \<and> plain q)"
  by (auto simp: plain_def)

lemma star_free_simps [simp]:
  "star_free []" "star_free (c # p) = (c \<noteq> CHR ''['' \<and> c \<noteq> CHR 0x5C \<and> c \<noteq> CHR ''*'' \<and> star_free p)"
  by (auto simp: star_free_def)

lemma matchChunk_None: "star_free chunk \<Longrightarrow> matchChunk chunk None = NoMatch"
  by (induction chunk) auto

lemma matchChunk_fits:
  "star_free chunk \<Longrightarrow>
   matchChunk chunk (Some s) = (if fits chunk s then Matched (drop (length chunk) s) else NoMatch)"
  by (induction chunk s rule: fits.induct) (auto simp: matchChunk_None)

lemma wild_chunk:
  "star_free chunk \<Longrightarrow> wild (chunk @ rest) s = (fits chunk s \<and> wild rest (drop (length chunk) s))"
  by (induction chunk s rule: fits.induct) (auto split: list.split)

lemma wild_star:
  "wild (CHR ''*'' # p) s = (\<exists>n \<le> length s. CHR ''/'' \<notin> set (take n s) \<and> wild p (drop n s))"
proof (induction s)
  case Nil
  then show ?case by auto
next
  case (Cons c s)
  have "wild (CHR ''*'' # p) (c # s) =
     (wild p (c # s) \<or> c \<noteq> CHR ''/'' \<and> (\<exists>n \<le> length s. CHR ''/'' \<notin> set (take n s) \<and> wild p (drop n s)))"
    using Cons.IH by auto
  also have "\<dots> = (\<exists>n \<le> length (c # s). CHR ''/'' \<notin> set (take n (c # s)) \<and> wild p (drop n (c # s)))"
    (is "?l = ?r")
  proof
    assume ?l
    then consider "wild p (c # s)"
      | n where "c \<noteq> CHR ''/''" "n \<le> length s" "CHR ''/'' \<notin> set (take n s)" "wild p (drop n s)"
      by auto
    then show ?r
    proof cases
      case 1 then show ?thesis by (intro exI [of _ 0]) simp
    next
      case 2 then show ?thesis by (intro exI [of _ "Suc n"]) auto
    qed
  next
    assume ?r
    then obtain n where n: "n \<le> length (c # s)" "CHR ''/'' \<notin> set (take n (c # s))" "wild p (drop n (c # s))"
      by blast
    then show ?l by (cases n) auto
  qed
  finally show ?case .
qed

lemma wild_stars: "wild (CHR ''*'' # CHR ''*'' # p) s = wild (CHR ''*'' # p) s"
proof (induction s)
  case Nil
  then show ?case by simp
next
  case (Cons c s)
  then show ?case by (auto simp del: wild.simps(2) simp: wild.simps(2) [of _ _ "_ # _"])
qed

lemma wild_dropStars:
  "wild (CHR ''*'' # dropWhile ((=) (CHR ''*'')) p) s = wild (CHR ''*'' # p) s"
  by (induction p) (auto simp del: wild.simps simp: wild_stars)

lemma fits_nth:
  "fits ch s \<Longrightarrow> i < length ch \<Longrightarrow>
   i < length s \<and> (if ch ! i = CHR ''?'' then s ! i \<noteq> CHR ''/'' else ch ! i = s ! i)"
  by (induction ch s arbitrary: i rule: fits.induct) (auto simp: less_Suc_eq_0_disj split: if_splits)

lemma fits_length: "fits ch s \<Longrightarrow> length ch \<le> length s"
  by (induction ch s rule: fits.induct) auto

lemma chunk_split_plain:
  "plain p \<Longrightarrow> chunk_split False p = (ch, rest) \<Longrightarrow>
   star_free ch \<and> plain rest \<and> (rest = [] \<or> hd rest = CHR ''*'') \<and> p = ch @ rest"
  by (induction p arbitrary: ch rest) (auto split: if_splits prod.splits)

lemma plain_dropWhile: "plain p \<Longrightarrow> plain (dropWhile Q p)"
  by (induction p) auto

lemma hd_dropStars: "dropWhile ((=) c) p = [] \<or> hd (dropWhile ((=) c) p) \<noteq> c"
  by (induction p) auto

lemma scanChunk_plain:
  assumes "plain p" and "scanChunk p = (star, ch, rest)"
  shows "star_free ch" and "plain rest" and "rest = [] \<or> hd rest = CHR ''*''"
    and "star \<Longrightarrow> wild p s = wild (CHR ''*'' # ch @ rest) s"
    and "\<not> star \<Longrightarrow> p = ch @ rest" and "ch = [] \<Longrightarrow> rest = []"
proof -
  let ?q = "dropWhile ((=) (CHR ''*'')) p"
  have split: "chunk_split False ?q = (ch, rest)" and star: "star = (p \<noteq> [] \<and> hd p = CHR ''*'')"
    using assms(2) by (auto simp: scanChunk_def Let_def)
  note c = chunk_split_plain [OF plain_dropWhile [OF assms(1)] split]
  show "star_free ch" "plain rest" "rest = [] \<or> hd rest = CHR ''*''" using c by auto
  show "wild p s = wild (CHR ''*'' # ch @ rest) s" if star
  proof -
    from that star obtain p' where p: "p = CHR ''*'' # p'" by (cases p) auto
    have q: "?q = dropWhile ((=) (CHR ''*'')) p'" by (simp add: p)
    from c have "ch @ rest = dropWhile ((=) (CHR ''*'')) p'" by (simp add: q)
    then show ?thesis by (simp only: p wild_dropStars)
  qed
  show "p = ch @ rest" if "\<not> star"
    using that star c by (cases p) auto
  show "rest = []" if "ch = []"
  proof -
    from that c have "?q = rest" by simp
    moreover have "?q = [] \<or> hd ?q \<noteq> CHR ''*''" by (rule hd_dropStars)
    ultimately show ?thesis using c by auto
  qed
qed

lemma check_rest_plain: "plain p \<Longrightarrow> check_rest p = Some False"
proof (induction p rule: check_rest.induct)
  case (1 p)
  show ?case
  proof (cases "p = []")
    case True
    then show ?thesis by (simp add: check_rest.simps [of "[]"])
  next
    case False
    obtain star ch rest where sc: "scanChunk p = (star, ch, rest)" by (metis prod_cases3)
    note scp = scanChunk_plain [OF "1.prems" sc]
    have "matchChunk ch (Some []) \<noteq> ErrBadPattern" by (simp add: matchChunk_fits [OF scp(1)])
    with "1.IH" [OF False sc [symmetric] refl] False sc scp(2) show ?thesis
      by (simp add: check_rest.simps [of p])
  qed
qed

definition lands :: "string \<Rightarrow> bool \<Rightarrow> string \<Rightarrow> nat \<Rightarrow> bool" where
  "lands ch final s n =
     (n \<le> length s \<and> CHR ''/'' \<notin> set (take n s) \<and> fits ch (drop n s)
        \<and> (final \<longrightarrow> drop (n + length ch) s = []))"

lemma lands_Suc: "lands ch final (c # s) (Suc n) = (c \<noteq> CHR ''/'' \<and> lands ch final s n)"
  by (auto simp: lands_def)

lemma skipStar_spec:
  assumes "star_free ch"
  shows "case skipStar ch final s of
           SkipErr \<Rightarrow> False
         | SkipNone \<Rightarrow> (\<forall>n. \<not> lands ch final s (Suc n))
         | SkipTo t \<Rightarrow> (\<exists>n. lands ch final s (Suc n) \<and> t = drop (Suc n + length ch) s
                         \<and> (\<forall>k < n. \<not> lands ch final s (Suc k)))"
proof (induction s)
  case Nil
  then show ?case by (simp add: lands_def)
next
  case (Cons c s)
  show ?case
  proof (cases "c = CHR ''/'' ")
    case True
    then show ?thesis by (simp add: lands_Suc)
  next
    case c: False
    show ?thesis
    proof (cases "lands ch final s 0")
      case True
      then have "skipStar ch final (c # s) = SkipTo (drop (length ch) s)"
        using c by (auto simp: lands_def matchChunk_fits [OF assms])
      with True c show ?thesis by (auto simp: lands_Suc intro!: exI [of _ 0])
    next
      case False
      have eq: "skipStar ch final (c # s) = skipStar ch final s"
        using False c by (auto simp: lands_def matchChunk_fits [OF assms])
      show ?thesis
      proof (cases "skipStar ch final s")
        case SkipNone
        with Cons.IH False c show ?thesis
          unfolding eq by (auto simp: lands_Suc) (metis not0_implies_Suc)
      next
        case (SkipTo t)
        with Cons.IH obtain n where n: "lands ch final s (Suc n)" "t = drop (Suc n + length ch) s"
            "\<forall>k < n. \<not> lands ch final s (Suc k)" by auto
        have "\<forall>k < Suc n. \<not> lands ch final (c # s) (Suc k)"
          using n(3) False c by (auto simp: lands_Suc less_Suc_eq_0_disj)
        with n(1,2) c SkipTo show ?thesis
          unfolding eq by (auto simp: lands_Suc intro!: exI [of _ "Suc n"])
      qed (use Cons.IH in auto)
    qed
  qed
qed

lemma no_slash_in_chunk:
  assumes "fits ch (drop n1 s)" and "fits ch (drop n2 s)" and "n1 < n2" and "n2 \<le> length s"
    and ns: "CHR ''/'' \<notin> set (take n2 s)"
  shows "i < length ch \<Longrightarrow> ch ! i \<noteq> CHR ''/''"
proof (induction i rule: less_induct)
  case (less i)
  show ?case
  proof
    assume slash: "ch ! i = CHR ''/''"
    have at1: "s ! (n1 + i) = CHR ''/''"
      using fits_nth [OF assms(1) less.prems] slash assms(3,4) by auto
    have "\<not> n1 + i < n2"
    proof
      assume lt: "n1 + i < n2"
      then have "s ! (n1 + i) \<in> set (take n2 s)"
        using assms(4) by (metis (no_types, lifting) in_set_conv_nth length_take min.absorb2 nth_take)
      with at1 ns show False by simp
    qed
    then obtain j where j: "n1 + i = n2 + j" by (metis add.commute le_Suc_ex not_less)
    with assms(3) have ji: "j < i" by simp
    with less.prems have jl: "j < length ch" by simp
    have "s ! (n2 + j) = CHR ''/''" using at1 j by simp
    with fits_nth [OF assms(2) jl] assms(4) have "ch ! j = CHR ''/''"
      by (auto split: if_splits)
    with less.IH [OF ji jl] show False by simp
  qed
qed

lemma greedy_first:
  assumes f1: "fits ch (drop n1 s)" and f2: "fits ch (drop n2 s)" and le: "n1 \<le> n2"
    and len: "n2 \<le> length s" and ns: "CHR ''/'' \<notin> set (take n2 s)"
    and w: "wild (CHR ''*'' # r) (drop (n2 + length ch) s)"
  shows "wild (CHR ''*'' # r) (drop (n1 + length ch) s)"
proof (cases "n1 = n2")
  case True
  with w show ?thesis by simp
next
  case False
  with le have lt: "n1 < n2" by simp
  let ?L = "length ch"
  from w obtain m where m: "CHR ''/'' \<notin> set (take m (drop (n2 + ?L) s))"
    "wild r (drop m (drop (n2 + ?L) s))" and ml: "m \<le> length (drop (n2 + ?L) s)"
    by (auto simp only: wild_star)
  have L2: "?L + n2 \<le> length s" using fits_length [OF f2] len by simp
  define m' where "m' = (n2 - n1) + m"
  have a: "drop m' (drop (n1 + ?L) s) = drop m (drop (n2 + ?L) s)"
    using lt by (simp add: m'_def add.commute add.left_commute)
  have b: "CHR ''/'' \<notin> set (take m' (drop (n1 + ?L) s))"
  proof
    assume "CHR ''/'' \<in> set (take m' (drop (n1 + ?L) s))"
    then obtain q where q: "q < m'" "n1 + ?L + q < length s" "s ! (n1 + ?L + q) = CHR ''/''"
      by (auto simp: in_set_conv_nth add.assoc)
    let ?i = "n1 + ?L + q"
    consider "?i < n2" | "n2 \<le> ?i" "?i < n2 + ?L" | "n2 + ?L \<le> ?i" by linarith
    then show False
    proof cases
      case 1
      then have "s ! ?i \<in> set (take n2 s)"
        using q(2) by (metis in_set_conv_nth length_take min_less_iff_conj nth_take)
      with q(3) ns show False by simp
    next
      case 2
      define j where "j = ?i - n2"
      have j: "?i = n2 + j" "j < ?L" using 2 by (auto simp: j_def)
      from fits_nth [OF f2 j(2)] q(3) j(1) len have "ch ! j = CHR ''/''"
        by (auto split: if_splits)
      with no_slash_in_chunk [OF f1 f2 lt len ns j(2)] show False by simp
    next
      case 3
      define j where "j = ?i - (n2 + ?L)"
      have j: "?i = n2 + ?L + j" "j < m" using 3 q(1) lt by (auto simp: j_def m'_def)
      have "s ! (n2 + ?L + j) \<in> set (take m (drop (n2 + ?L) s))"
        using j q(2) unfolding j(1) by (auto simp: in_set_conv_nth intro!: exI [of _ j])
      with q(3) m(1) show False by (simp only: j(1))
    qed
  qed
  have c: "m' \<le> length (drop (n1 + ?L) s)" using ml lt L2 by (simp add: m'_def)
  show ?thesis unfolding wild_star using a b c m(2) by (intro exI [of _ m']) simp
qed

lemma wild_star_lands:
  assumes "star_free ch" and "rest = [] \<or> hd rest = CHR ''*''"
  shows "wild (CHR ''*'' # ch @ rest) s \<longleftrightarrow>
     (\<exists>n. lands ch (rest = []) s n \<and> wild rest (drop (n + length ch) s))"
  unfolding wild_star
  by (auto simp: wild_chunk [OF assms(1)] lands_def add.commute)

lemma lands_0: "lands ch final s 0 = (fits ch s \<and> (final \<longrightarrow> drop (length ch) s = []))"
  by (simp add: lands_def)

text \<open>The first place where a chunk fits decides whether the rest can match at all.\<close>

lemma first_landing:
  assumes "star_free ch" and rest: "rest = [] \<or> hd rest = CHR ''*''"
    and n: "lands ch (rest = []) s n" and first: "\<And>k. k < n \<Longrightarrow> \<not> lands ch (rest = []) s k"
  shows "wild (CHR ''*'' # ch @ rest) s = wild rest (drop (n + length ch) s)"
proof
  assume "wild (CHR ''*'' # ch @ rest) s"
  then obtain n2 where n2: "lands ch (rest = []) s n2" "wild rest (drop (n2 + length ch) s)"
    using wild_star_lands [OF assms(1) rest] by blast
  with first have le: "n \<le> n2" by (metis not_less)
  show "wild rest (drop (n + length ch) s)"
  proof (cases "rest = []")
    case True
    with n show ?thesis by (simp add: lands_def)
  next
    case False
    with rest obtain r where r: "rest = CHR ''*'' # r" by (cases rest) auto
    have "wild (CHR ''*'' # r) (drop (n + length ch) s)"
      by (rule greedy_first [of ch n s n2 r]) (use n n2 le r in \<open>auto simp only: lands_def\<close>)
    then show ?thesis by (simp only: r)
  qed
next
  assume "wild rest (drop (n + length ch) s)"
  with n show "wild (CHR ''*'' # ch @ rest) s"
    using wild_star_lands [OF assms(1) rest] by blast
qed

lemma Match_plain: "plain p \<Longrightarrow> Match p s = Some (wild p s)"
proof (induction p s rule: Match.induct)
  case (1 p s)
  show ?case
  proof (cases "p = []")
    case True
    then show ?thesis by (simp add: Match.simps [of "[]"])
  next
    case p: False
    obtain star ch rest where sc: "scanChunk p = (star, ch, rest)" by (metis prod_cases3)
    note scp = scanChunk_plain [OF "1.prems" sc]
    note mc = matchChunk_fits [OF scp(1)]
    let ?ok = "fits ch s \<and> (drop (length ch) s = [] \<or> rest \<noteq> [])"
    note IH = "1.IH" [OF p sc [symmetric] refl]
    show ?thesis
    proof (cases "star \<and> ch = []")
      case True
      with scp(6) have "rest = []" by simp
      with True scp(4) have "wild p s = wild ''*'' s" by simp
      also have "\<dots> = (CHR ''/'' \<notin> set s)" by (simp only: wild_star) (auto intro: exI [of _ "length s"])
      finally show ?thesis using p sc True by (simp add: Match.simps [of p])
    next
      case nc: False
      have ok0: "lands ch (rest = []) s 0 = ?ok" by (auto simp: lands_0)
      show ?thesis
      proof (cases ?ok)
        case True
        then have M: "Match p s = Match rest (drop (length ch) s)"
          using p sc nc mc by (auto simp: Match.simps [of p])
        have "Match rest (drop (length ch) s) = Some (wild rest (drop (length ch) s))"
          using IH(1) [OF nc refl] True mc scp(2) by auto
        moreover have "wild p s = wild rest (drop (length ch) s)"
        proof (cases star)
          case True2: True
          with scp(4) first_landing [OF scp(1,3), of s 0] ok0 True show ?thesis by simp
        next
          case False
          with scp(5) True wild_chunk [OF scp(1)] show ?thesis by simp
        qed
        ultimately show ?thesis using M by simp
      next
        case nok: False
        show ?thesis
        proof (cases star)
          case False
          then have "Match p s = check_rest rest"
            using p sc nc mc nok by (auto simp: Match.simps [of p])
          moreover have "\<not> wild p s"
            using scp(5) False nok wild_chunk [OF scp(1)] by auto
          ultimately show ?thesis using check_rest_plain [OF scp(2)] by simp
        next
          case star: True
          note sk = skipStar_spec [OF scp(1), of "rest = []" s]
          show ?thesis
          proof (cases "skipStar ch (rest = []) s")
            case SkipErr
            with sk show ?thesis by simp
          next
            case SkipNone
            with sk ok0 nok have "\<not> lands ch (rest = []) s n" for n by (cases n) auto
            then have "\<not> wild p s" using scp(4) [OF star] wild_star_lands [OF scp(1,3)] by auto
            moreover have "Match p s = check_rest rest"
              using p sc nc mc nok star SkipNone by (auto simp: Match.simps [of p])
            ultimately show ?thesis using check_rest_plain [OF scp(2)] by simp
          next
            case (SkipTo t)
            with sk obtain n where n: "lands ch (rest = []) s (Suc n)"
              "t = drop (Suc n + length ch) s" "\<forall>k < n. \<not> lands ch (rest = []) s (Suc k)" by auto
            have first: "\<not> lands ch (rest = []) s k" if "k < Suc n" for k
              using that n(3) ok0 nok by (cases k) auto
            have "Match p s = Match rest t"
              using p sc nc mc nok star SkipTo by (auto simp: Match.simps [of p])
            moreover have "Match rest t = Some (wild rest t)"
              using IH(2) [OF nc refl] nok mc star SkipTo scp(2) by auto
            moreover have "wild p s = wild rest t"
              using scp(4) [OF star] first_landing [OF scp(1,3) n(1) first] n(2) by simp
            ultimately show ?thesis by simp
          qed
        qed
      qed
    qed
  qed
qed

definition meta_free :: "string \<Rightarrow> bool" where
  "meta_free p = (star_free p \<and> CHR ''?'' \<notin> set p)"

lemma meta_free_plain: "meta_free p \<Longrightarrow> plain p"
  by (simp add: meta_free_def star_free_def)

lemma wild_meta_free: "meta_free p \<Longrightarrow> wild p s \<longleftrightarrow> p = s"
  by (induction p s rule: wild.induct) (auto simp: meta_free_def split: list.splits)

section \<open>The interface the stores and the policy engine rely on\<close>

text \<open>
  What the policy engine, the grants and the emergency stops need to know about patterns: the
  pattern \<open>*\<close> covers every name, and a name without wildcard characters covers itself only.
\<close>

locale matcher =
  fixes covers :: "string \<Rightarrow> string \<Rightarrow> bool"
  assumes catch_all: "covers ''*'' v"
    and literal: "meta_free p \<Longrightarrow> covers p v \<longleftrightarrow> p = v"
begin

lemma literal_self: "meta_free p \<Longrightarrow> covers p p"
  by (simp add: literal)

lemma literals_disjoint: "meta_free p \<Longrightarrow> meta_free q \<Longrightarrow> covers p v \<Longrightarrow> covers q v \<Longrightarrow> p = q"
  by (simp add: literal)

lemma catch_all_any: "''*'' \<in> set ps \<Longrightarrow> \<exists>p \<in> set ps. covers p v"
  using catch_all by blast

end

lemma Glob_literal: "meta_free p \<Longrightarrow> Glob p v \<longleftrightarrow> p = v"
  by (auto simp: Glob_def Match_plain meta_free_plain wild_meta_free)
    (auto simp: meta_free_def star_free_def)

interpretation go_glob: matcher Glob
  by unfold_locales (simp_all add: Glob_literal, simp add: Glob_def)

text \<open>
  C34. For a pattern without character classes and escapes, Glob decides the declarative
  meaning of the pattern: the greedy search of filepath.Match, which never backtracks into an
  earlier chunk, misses no match and invents none. The pattern \<open>*\<close> alone also covers names
  with a \<open>/\<close>.
\<close>

theorem Glob_plain: "plain p \<Longrightarrow> Glob p s \<longleftrightarrow> p = ''*'' \<or> wild p s"
  by (simp add: Glob_def Match_plain)

theorem Glob_plain_witness:
  "plain ''fs.*_?'' \<and> Glob ''fs.*_?'' ''fs.read_x'' \<and> \<not> Glob ''fs.*_?'' ''fs.a/b_x''"
proof -
  have p: "plain ''fs.*_?''" by (simp add: plain_def)
  show ?thesis
    using p Glob_plain [OF p, of "''fs.read_x''"] Glob_plain [OF p, of "''fs.a/b_x''"] by simp
qed

end
