(* ===== verification/Config.thy ===== *)
theory Config
  imports Glob
begin

text \<open>
  The configuration (\<open>config/config.go\<close>): policies, rules, conditions, CLI tools, the approval
  and supervisor sections, and what \<open>Load\<close> and \<open>LoadPolicies\<close> check and fill in. The YAML
  library is third-party code: the parsed document is an argument. So are the directory
  listing of \<open>policy_dir\<close> and the expansion of environment variables.
\<close>

section \<open>time.ParseDuration\<close>

text \<open>
  The standard library's duration syntax, \<open>[-+]? (digits [. digits] unit)+\<close>, in nanoseconds.
  A fraction is scaled exactly and rounded down.
\<close>

definition is_digit :: "char \<Rightarrow> bool" where
  "is_digit c = (let n = (of_char c :: nat) in 48 \<le> n \<and> n \<le> 57)"

definition digit_val :: "char \<Rightarrow> int" where
  "digit_val c = int (of_char c) - 48"

definition number_val :: "string \<Rightarrow> int" where
  "number_val ds = foldl (\<lambda>acc c. 10 * acc + digit_val c) 0 ds"

definition unit_ns :: "string \<Rightarrow> int option" where
  "unit_ns u =
     (if u = ''ns'' then Some 1
      else if u = ''us'' \<or> u = [CHR 0xC2, CHR 0xB5, CHR ''s''] \<or> u = [CHR 0xCE, CHR 0xBC, CHR ''s'']
      then Some 1000
      else if u = ''ms'' then Some 1000000
      else if u = ''s'' then Some second
      else if u = ''m'' then Some minute
      else if u = ''h'' then Some (60 * minute)
      else None)"

lemma dropWhile_shorter: "takeWhile P s \<noteq> [] \<Longrightarrow> length (dropWhile P s) < length s"
  by (cases s) (auto simp: less_Suc_eq_le length_dropWhile_le split: if_splits)

lemma takeWhile_nonempty: "takeWhile P s \<noteq> [] \<longleftrightarrow> s \<noteq> [] \<and> P (hd s)"
  by (cases s) auto

function duration_terms :: "string \<Rightarrow> int \<Rightarrow> int option" where
  "duration_terms s d =
     (if s = [] then Some d
      else
        (let ds = takeWhile is_digit s; s1 = dropWhile is_digit s;
             dot = (s1 \<noteq> [] \<and> hd s1 = CHR ''.'');
             fs = (if dot then takeWhile is_digit (tl s1) else []);
             s2 = (if dot then dropWhile is_digit (tl s1) else s1);
             u = takeWhile (\<lambda>c. c \<noteq> CHR ''.'' \<and> \<not> is_digit c) s2;
             s3 = dropWhile (\<lambda>c. c \<noteq> CHR ''.'' \<and> \<not> is_digit c) s2 in
         if (ds = [] \<and> fs = []) \<or> u = [] then None
         else (case unit_ns u of
                 None \<Rightarrow> None
               | Some w \<Rightarrow>
                   (let v = number_val ds * w + number_val fs * w div 10 ^ length fs in
                    if number_val ds > 2 ^ 63 div w \<or> v > 2 ^ 63 \<or> d + v > 2 ^ 63 then None
                    else duration_terms s3 (d + v)))))"
  by pat_completeness auto

termination
proof (relation "measure (\<lambda>(s, d). length s)", goal_cases)
  case 1
  show ?case by simp
next
  case (2 s d ds s1 dot fs s2 u s3 w v)
  let ?P = "\<lambda>c. c \<noteq> CHR ''.'' \<and> \<not> is_digit c"
  have "length s2 \<le> length s"
    unfolding 2(6) 2(3) using length_dropWhile_le [of is_digit s]
      length_dropWhile_le [of is_digit "tl (dropWhile is_digit s)"] by auto
  moreover have "length s3 < length s2"
    unfolding 2(8) by (rule dropWhile_shorter) (use 2(9) 2(7) in blast)
  ultimately show ?case by simp
qed

declare duration_terms.simps [simp del]

definition ParseDuration :: "string \<Rightarrow> duration option" where
  "ParseDuration s =
     (let neg = (s \<noteq> [] \<and> hd s = CHR ''-'');
          body = (if s \<noteq> [] \<and> (hd s = CHR ''-'' \<or> hd s = CHR ''+'') then tl s else s) in
      if body = ''0'' then Some 0
      else if body = [] then None
      else (case duration_terms body 0 of
              None \<Rightarrow> None
            | Some d \<Rightarrow> if neg then Some (- d) else if d > 2 ^ 63 - 1 then None else Some d))"

section \<open>The configuration types\<close>

record cond_value =
  cv_Num :: flt
  cv_IsNum :: bool
  cv_Strings :: "string list"

record condition =
  c_Field :: string
  c_Operator :: string
  c_Value :: cond_value

record rule =
  r_Tools :: "string list"
  r_Action :: string
  r_Condition :: "condition option"

record rate_limit =
  rl_MaxPerMinute :: int
  rl_MaxTotal :: int

record policy =
  p_Name :: string
  p_Agent :: string
  p_RateLimit :: "rate_limit option"
  p_Rules :: "rule list"
  p_SourceFile :: string

record cli_command_config =
  cc_AllowedArgs :: "string list option"
  cc_Timeout :: string

record cli_tool_config =
  ct_Name :: string
  ct_Bin :: string
  ct_DefaultAction :: string
  ct_Strict :: bool
  ct_WorkingDir :: string
  ct_Env :: "(string \<times> string) list"
  ct_Commands :: "(string \<times> cli_command_config) list"
  ct_Bare :: "cli_command_config option"

record approval_config =
  ac_TimeoutSeconds :: int
  ac_NotifyURL :: string
  ac_Channel :: string
  ac_WaitSeconds :: flt

record supervisor_config =
  sc_Enabled :: "bool option"
  sc_ExposeContent :: "bool option"
  sc_AutoApprove :: "bool option"
  sc_MinApprovals :: int
  sc_AutoApproveWrites :: bool
  sc_SupervisorAgents :: "string list"

record openapi_config =
  oa_URL :: string
  oa_File :: string
  oa_BackendURL :: string

record mcp_server_config =
  ms_Name :: string
  ms_Transport :: string
  ms_Command :: string
  ms_Args :: "string list"
  ms_Env :: "(string \<times> string) list"
  ms_URL :: string
  ms_Headers :: "(string \<times> string) list"
  ms_ForwardIdentity :: bool

record jwt_config =
  jc_JWKSURL :: string
  jc_Issuer :: string
  jc_Audience :: string
  jc_AgentClaim :: string
  jc_UserClaim :: string
  jc_AllowLegacy :: bool

record auth_config =
  au_JWT :: "jwt_config option"
  au_AdminToken :: string
  au_RequireAuthentication :: bool

record tls_config =
  tls_CertFile :: string
  tls_KeyFile :: string

definition tls_Enabled :: "tls_config \<Rightarrow> bool" where
  "tls_Enabled t = (tls_CertFile t \<noteq> [] \<and> tls_KeyFile t \<noteq> [])"

record config =
  cfg_Port :: int
  cfg_StoragePath :: string
  cfg_TraceFile :: string
  cfg_OTELEndpoint :: string
  cfg_OTELHeaders :: "(string \<times> string) list"
  cfg_OTELCACert :: string
  cfg_OTELInsecureSkipVerify :: bool
  cfg_Auth :: auth_config
  cfg_TLS :: tls_config
  cfg_Approval :: approval_config
  cfg_Supervisor :: supervisor_config
  cfg_MemoryURL :: string
  cfg_MemoryToken :: string
  cfg_Policies :: "policy list"
  cfg_PolicyDir :: string
  cfg_MCPServers :: "mcp_server_config list"
  cfg_CLITools :: "cli_tool_config list"
  cfg_OpenAPIs :: "openapi_config list"
  cfg_HideDeniedTools :: bool
  cfg_PinTools :: bool

definition IsEnabled :: "supervisor_config \<Rightarrow> bool" where
  "IsEnabled s = (case sc_Enabled s of None \<Rightarrow> False | Some b \<Rightarrow> b)"

definition ShouldExposeContent :: "supervisor_config \<Rightarrow> bool" where
  "ShouldExposeContent s = (case sc_ExposeContent s of None \<Rightarrow> True | Some b \<Rightarrow> b)"

definition IsAutoApproveEnabled :: "supervisor_config \<Rightarrow> bool" where
  "IsAutoApproveEnabled s = (case sc_AutoApprove s of None \<Rightarrow> True | Some b \<Rightarrow> b)"

definition GetMinApprovals :: "supervisor_config \<Rightarrow> int" where
  "GetMinApprovals s = (if sc_MinApprovals s \<le> 0 then 3 else sc_MinApprovals s)"

definition CondNum :: "go_rt \<Rightarrow> flt \<Rightarrow> cond_value" where
  "CondNum rt f = \<lparr>cv_Num = f, cv_IsNum = True, cv_Strings = [rt_FormatFloat rt f]\<rparr>"

definition CondText :: "string list \<Rightarrow> cond_value" where
  "CondText s = \<lparr>cv_Num = Fin 0, cv_IsNum = False, cv_Strings = s\<rparr>"

text \<open>
  The decoded JSON of a condition value, as \<open>UnmarshalJSON\<close> reads it: a number, a string, or a
  list of strings. Decoding null into a float, a string or a slice succeeds and leaves the zero
  value, so null reads as the number 0; inside a list it reads as the empty string.
\<close>

fun json_strings :: "gval list \<Rightarrow> string list option" where
  "json_strings [] = Some []"
| "json_strings (VStr s # vs) = map_option (Cons s) (json_strings vs)"
| "json_strings (VNil # vs) = map_option (Cons []) (json_strings vs)"
| "json_strings (_ # vs) = None"

definition CondValue_UnmarshalJSON :: "go_rt \<Rightarrow> gval \<Rightarrow> cond_value option" where
  "CondValue_UnmarshalJSON rt v =
     (case v of
        VNum f \<Rightarrow> Some (CondNum rt f)
      | VNil \<Rightarrow> Some (CondNum rt (Fin 0))
      | VStr s \<Rightarrow> Some (CondText [s])
      | VList vs \<Rightarrow> map_option CondText (json_strings vs)
      | _ \<Rightarrow> None)"

definition CondValue_MarshalJSON :: "cond_value \<Rightarrow> gval" where
  "CondValue_MarshalJSON c =
     (if cv_IsNum c then VNum (cv_Num c)
      else (case cv_Strings c of [s] \<Rightarrow> VStr s | ss \<Rightarrow> VList (map VStr ss)))"

section \<open>Validation\<close>

datatype config_error =
    ReadError string
  | ParseError string
  | UnknownChannel string
  | PolicyDirError string
  | PolicyFileRead string
  | PolicyFileParse string
  | PolicyFileNoName string
  | DuplicatePolicy string
  | CLINameRequired nat
  | CLIBinRequired nat string
  | CLIDuplicateName nat string
  | CLIInvalidAction nat string string
  | CLIBareAndCommands nat string
  | CLIStrictBare nat string
  | CLIBareTimeout nat string string
  | CLIStrictNoCommands nat string
  | CLICommandTimeout nat string string string
  | OpenAPINoSource nat
  | OpenAPITwoSources nat

fun validateOpenAPIs_from :: "nat \<Rightarrow> openapi_config list \<Rightarrow> config_error option" where
  "validateOpenAPIs_from i [] = None"
| "validateOpenAPIs_from i (oa # oas) =
     (if oa_URL oa = [] \<and> oa_File oa = [] then Some (OpenAPINoSource i)
      else if oa_URL oa \<noteq> [] \<and> oa_File oa \<noteq> [] then Some (OpenAPITwoSources i)
      else validateOpenAPIs_from (Suc i) oas)"

definition validateOpenAPIs :: "config \<Rightarrow> config_error option" where
  "validateOpenAPIs c = validateOpenAPIs_from 0 (cfg_OpenAPIs c)"

fun validatePolicyNames_from :: "string list \<Rightarrow> policy list \<Rightarrow> config_error option" where
  "validatePolicyNames_from seen [] = None"
| "validatePolicyNames_from seen (p # ps) =
     (if p_Name p \<in> set seen then Some (DuplicatePolicy (p_Name p))
      else validatePolicyNames_from (p_Name p # seen) ps)"

definition validatePolicyNames :: "config \<Rightarrow> config_error option" where
  "validatePolicyNames c = validatePolicyNames_from [] (cfg_Policies c)"

definition bad_timeout :: "string \<Rightarrow> bool" where
  "bad_timeout t = (t \<noteq> [] \<and> ParseDuration t = None)"

fun bad_command :: "nat \<Rightarrow> string \<Rightarrow> (string \<times> cli_command_config) list \<Rightarrow> config_error option" where
  "bad_command i n [] = None"
| "bad_command i n ((cmdName, cmd) # cs) =
     (if bad_timeout (cc_Timeout cmd) then Some (CLICommandTimeout i n cmdName (cc_Timeout cmd))
      else bad_command i n cs)"

definition validateCLITool :: "nat \<Rightarrow> string list \<Rightarrow> cli_tool_config \<Rightarrow> config_error option" where
  "validateCLITool i seen ct =
     (if ct_Name ct = [] then Some (CLINameRequired i)
      else if ct_Bin ct = [] then Some (CLIBinRequired i (ct_Name ct))
      else if ct_Name ct \<in> set seen then Some (CLIDuplicateName i (ct_Name ct))
      else if ct_DefaultAction ct \<notin> {[], ''allow'', ''deny'', ''human_approval''}
      then Some (CLIInvalidAction i (ct_Name ct) (ct_DefaultAction ct))
      else
        (case (case ct_Bare ct of
                 None \<Rightarrow> None
               | Some bare \<Rightarrow>
                   if ct_Commands ct \<noteq> [] then Some (CLIBareAndCommands i (ct_Name ct))
                   else if ct_Strict ct then Some (CLIStrictBare i (ct_Name ct))
                   else if bad_timeout (cc_Timeout bare)
                   then Some (CLIBareTimeout i (ct_Name ct) (cc_Timeout bare))
                   else None) of
           Some e \<Rightarrow> Some e
         | None \<Rightarrow>
             if ct_Strict ct \<and> ct_Commands ct = [] then Some (CLIStrictNoCommands i (ct_Name ct))
             else bad_command i (ct_Name ct) (ct_Commands ct)))"

fun validateCLITools_from ::
  "nat \<Rightarrow> string list \<Rightarrow> cli_tool_config list \<Rightarrow> config_error option" where
  "validateCLITools_from i seen [] = None"
| "validateCLITools_from i seen (ct # cts) =
     (case validateCLITool i seen ct of
        Some e \<Rightarrow> Some e
      | None \<Rightarrow> validateCLITools_from (Suc i) (ct_Name ct # seen) cts)"

definition validateCLITools :: "config \<Rightarrow> config_error option" where
  "validateCLITools c = validateCLITools_from 0 [] (cfg_CLITools c)"

section \<open>Loading\<close>

text \<open>
  An entry of \<open>policy_dir\<close> as the loader meets it, in the order of \<open>os.ReadDir\<close> (sorted by
  file name): its name, whether it is a directory, and its content, unreadable, not a policy,
  or a parsed policy.
\<close>

datatype file_content = Unreadable | NotYAML | PolicyDoc policy

record dir_entry =
  de_Name :: string
  de_IsDir :: bool
  de_Content :: file_content

datatype dir_listing = DirMissing | DirUnreadable | DirEntries "dir_entry list"

fun load_entries :: "policy list \<Rightarrow> dir_entry list \<Rightarrow> config_error + policy list" where
  "load_entries acc [] = Inr acc"
| "load_entries acc (e # es) =
     (if de_IsDir e \<or> \<not> HasSuffix (de_Name e) ''.yaml'' then load_entries acc es
      else (case de_Content e of
              Unreadable \<Rightarrow> Inl (PolicyFileRead (de_Name e))
            | NotYAML \<Rightarrow> Inl (PolicyFileParse (de_Name e))
            | PolicyDoc p \<Rightarrow>
                if p_Name p = [] then Inl (PolicyFileNoName (de_Name e))
                else load_entries (acc @ [p\<lparr>p_SourceFile := de_Name e\<rparr>]) es))"

definition loadPolicyDir :: "dir_listing \<Rightarrow> config \<Rightarrow> config_error + config" where
  "loadPolicyDir dir c =
     (if cfg_PolicyDir c = [] then Inr c
      else (case dir of
              DirMissing \<Rightarrow> Inr c
            | DirUnreadable \<Rightarrow> Inl (PolicyDirError (cfg_PolicyDir c))
            | DirEntries es \<Rightarrow>
                (case load_entries (cfg_Policies c) es of
                   Inl e \<Rightarrow> Inl e
                 | Inr ps \<Rightarrow> Inr (c\<lparr>cfg_Policies := ps\<rparr>))))"

definition apply_defaults :: "(string \<Rightarrow> string) \<Rightarrow> config \<Rightarrow> config" where
  "apply_defaults expand c =
     (let a = cfg_Approval c in
      c\<lparr>cfg_Port := (if cfg_Port c = 0 then 9090 else cfg_Port c),
        cfg_OTELHeaders := map (\<lambda>(k, v). (k, expand v)) (cfg_OTELHeaders c),
        cfg_MCPServers :=
          map (\<lambda>m. m\<lparr>ms_Headers := map (\<lambda>(k, v). (k, expand v)) (ms_Headers m)\<rparr>) (cfg_MCPServers c),
        cfg_MemoryToken := expand (cfg_MemoryToken c),
        cfg_Approval :=
          a\<lparr>ac_TimeoutSeconds := (if ac_TimeoutSeconds a = 0 then 300 else ac_TimeoutSeconds a),
            ac_Channel := (if ac_Channel a = [] then ''tty-fallback'' else ac_Channel a)\<rparr>\<rparr>)"

text \<open>The document is \<open>Inl\<close> when the file cannot be read or is not YAML.\<close>

definition Load ::
  "(string \<Rightarrow> string) \<Rightarrow> dir_listing \<Rightarrow> config_error + config \<Rightarrow> config_error + config" where
  "Load expand dir doc =
     (case doc of
        Inl e \<Rightarrow> Inl e
      | Inr parsed \<Rightarrow>
          (let c = apply_defaults expand parsed in
           if ac_Channel (cfg_Approval c) \<notin> {''queue'', ''tty'', ''tty-fallback''}
           then Inl (UnknownChannel (ac_Channel (cfg_Approval c)))
           else
             (case loadPolicyDir dir c of
                Inl e \<Rightarrow> Inl e
              | Inr c' \<Rightarrow>
                  (case validatePolicyNames c' of
                     Some e \<Rightarrow> Inl e
                   | None \<Rightarrow>
                       (case validateCLITools c' of
                          Some e \<Rightarrow> Inl e
                        | None \<Rightarrow> (case validateOpenAPIs c' of Some e \<Rightarrow> Inl e | None \<Rightarrow> Inr c'))))))"

definition LoadPolicies :: "dir_listing \<Rightarrow> config_error + config \<Rightarrow> config_error + policy list" where
  "LoadPolicies dir doc =
     (case doc of
        Inl e \<Rightarrow> Inl e
      | Inr parsed \<Rightarrow>
          (case loadPolicyDir dir parsed of
             Inl e \<Rightarrow> Inl e
           | Inr c \<Rightarrow>
               (case validatePolicyNames c of
                  Some e \<Rightarrow> Inl e
                | None \<Rightarrow> Inr (cfg_Policies c))))"

section \<open>What the validators accept\<close>

lemma validateOpenAPIs_from_iff:
  "validateOpenAPIs_from i oas = None \<longleftrightarrow> (\<forall>oa \<in> set oas. (oa_URL oa = []) \<noteq> (oa_File oa = []))"
  by (induction i oas rule: validateOpenAPIs_from.induct) auto

lemma validatePolicyNames_from_iff:
  "validatePolicyNames_from seen ps = None
     \<longleftrightarrow> distinct (map p_Name ps) \<and> set (map p_Name ps) \<inter> set seen = {}"
  by (induction seen ps rule: validatePolicyNames_from.induct) auto

lemma bad_command_iff:
  "bad_command i n cs = None \<longleftrightarrow> (\<forall>(k, cmd) \<in> set cs. \<not> bad_timeout (cc_Timeout cmd))"
  by (induction i n cs rule: bad_command.induct) auto

definition valid_cli_tool :: "cli_tool_config \<Rightarrow> bool" where
  "valid_cli_tool ct =
     (ct_Name ct \<noteq> [] \<and> ct_Bin ct \<noteq> []
      \<and> ct_DefaultAction ct \<in> {[], ''allow'', ''deny'', ''human_approval''}
      \<and> (case ct_Bare ct of
            None \<Rightarrow> True
          | Some bare \<Rightarrow> ct_Commands ct = [] \<and> \<not> ct_Strict ct \<and> \<not> bad_timeout (cc_Timeout bare))
      \<and> (ct_Strict ct \<longrightarrow> ct_Commands ct \<noteq> [])
      \<and> (\<forall>(k, cmd) \<in> set (ct_Commands ct). \<not> bad_timeout (cc_Timeout cmd)))"

lemma validateCLITool_iff:
  "validateCLITool i seen ct = None \<longleftrightarrow> valid_cli_tool ct \<and> ct_Name ct \<notin> set seen"
  by (auto simp: validateCLITool_def valid_cli_tool_def bad_command_iff split: option.splits)

lemma validateCLITools_from_iff:
  "validateCLITools_from i seen cts = None
     \<longleftrightarrow> (\<forall>ct \<in> set cts. valid_cli_tool ct) \<and> distinct (map ct_Name cts)
        \<and> set (map ct_Name cts) \<inter> set seen = {}"
proof (induction cts arbitrary: i seen)
  case Nil
  then show ?case by simp
next
  case (Cons ct cts)
  show ?case
    by (cases "validateCLITool i seen ct") (use validateCLITool_iff [of i seen ct] Cons.IH in auto)
qed

lemmas validators_iff =
  validateOpenAPIs_from_iff validatePolicyNames_from_iff validateCLITools_from_iff

definition valid_config :: "config \<Rightarrow> bool" where
  "valid_config c =
     (distinct (map p_Name (cfg_Policies c)) \<and> distinct (map ct_Name (cfg_CLITools c))
      \<and> (\<forall>ct \<in> set (cfg_CLITools c). valid_cli_tool ct)
      \<and> (\<forall>oa \<in> set (cfg_OpenAPIs c). (oa_URL oa = []) \<noteq> (oa_File oa = [])))"

lemma validators_valid_config:
  "validatePolicyNames c = None \<and> validateCLITools c = None \<and> validateOpenAPIs c = None
     \<longleftrightarrow> valid_config c"
  by (auto simp: valid_config_def validatePolicyNames_def validateCLITools_def validateOpenAPIs_def
      validators_iff)

section \<open>Properties\<close>

text \<open>
  Load succeeds exactly when the document parses, its approval channel (after the default)
  is one of the three known ones, the policy directory loads, and the result is a valid
  configuration: policy names and CLI tool names distinct, every CLI tool with a name, a binary,
  a known default action and parseable timeouts, strict only with commands, bare only without,
  and every OpenAPI entry with exactly one of url and file.
\<close>

theorem Load_iff_valid:
  "Load expand dir doc = Inr c \<longleftrightarrow>
     (\<exists>parsed. doc = Inr parsed
        \<and> ac_Channel (cfg_Approval (apply_defaults expand parsed)) \<in> {''queue'', ''tty'', ''tty-fallback''}
        \<and> loadPolicyDir dir (apply_defaults expand parsed) = Inr c
        \<and> valid_config c)"
  by (auto simp: Load_def Let_def validators_valid_config [symmetric]
      split: sum.splits option.splits)

text \<open>
  A condition value survives the JSON round trip of the policy listing: decoding what
  MarshalJSON writes gives back the value, for a number and for any list of strings.
\<close>

theorem CondValue_roundtrip:
  "CondValue_UnmarshalJSON rt (CondValue_MarshalJSON (CondNum rt f)) = Some (CondNum rt f)
   \<and> CondValue_UnmarshalJSON rt (CondValue_MarshalJSON (CondText ss)) = Some (CondText ss)"
proof -
  have "json_strings (map VStr ss) = Some ss" for ss
    by (induction ss) auto
  then show ?thesis
    by (auto simp: CondValue_UnmarshalJSON_def CondValue_MarshalJSON_def CondNum_def CondText_def
        split: list.split)
qed

end
