(* ===== verification/Policy.thy ===== *)
theory Policy
  imports Config
begin

text \<open>
  The policy engine (\<open>policy/engine.go\<close>, \<open>policy/tighten.go\<close>): \<open>Evaluate\<close> walks the policies
  from the most specific agent pattern to the catch-all and takes the first rule whose tools
  and condition match, \<open>Explain\<close> says before any call where that walk can end, and \<open>Tighten\<close>
  joins a decision with a floor. The abstract specification of \<open>Evaluate\<close> is a search in the
  flat list of (policy, rule) pairs.
\<close>

section \<open>Decisions and engines\<close>

record decision =
  d_Action :: string
  d_Rule :: string
  d_Reason :: string

record engine =
  en_policies :: "policy list"

definition agentSpecificity :: "string \<Rightarrow> int" where
  "agentSpecificity pattern =
     (if pattern = ''*'' then 0
      else if CHR ''*'' \<in> set pattern \<or> CHR ''?'' \<in> set pattern then 1
      else 2)"

text \<open>\<open>sort.SliceStable\<close> with the greater specificity first.\<close>

definition sortPolicies :: "policy list \<Rightarrow> policy list" where
  "sortPolicies policies = sort_key (\<lambda>p. - agentSpecificity (p_Agent p)) policies"

definition NewEngine :: "policy list \<Rightarrow> engine" where
  "NewEngine policies = \<lparr>en_policies = sortPolicies policies\<rparr>"

definition Policies :: "engine \<Rightarrow> policy list" where
  "Policies e = en_policies e"

definition Reload :: "policy list \<Rightarrow> engine \<Rightarrow> engine" where
  "Reload policies e = e\<lparr>en_policies := sortPolicies policies\<rparr>"

section \<open>Conditions\<close>

fun follow :: "string list \<Rightarrow> gval \<Rightarrow> gval" where
  "follow [] current = current"
| "follow (part # parts) (VMap m) =
     follow parts (case map_of m part of None \<Rightarrow> VNil | Some v \<Rightarrow> v)"
| "follow (part # parts) current = VNil"

definition extractField :: "string \<Rightarrow> params \<Rightarrow> gval" where
  "extractField field data = follow (Split (CHR ''.'') field) (VMap (entries data))"

fun toFloat :: "go_rt \<Rightarrow> gval \<Rightarrow> flt option" where
  "toFloat rt (VNum f) = Some f"
| "toFloat rt (VInt i) = Some (Fin (of_int i))"
| "toFloat rt (VStr s) = rt_ParseFloat rt s"
| "toFloat rt _ = None"

fun anyOf :: "string list \<Rightarrow> (string \<Rightarrow> bool) \<Rightarrow> bool" where
  "anyOf [] pred = False"
| "anyOf (it # items) pred = (if pred it then True else anyOf items pred)"

definition evaluateString :: "condition \<Rightarrow> string \<Rightarrow> bool" where
  "evaluateString cond haystack =
     (let needles = cv_Strings (c_Value cond); op = c_Operator cond in
      if needles = [] then False
      else if op = ''contains'' then anyOf needles (Contains haystack)
      else if op = ''not_contains'' then \<not> anyOf needles (Contains haystack)
      else if op = ''starts_with'' then anyOf needles (HasPrefix haystack)
      else if op = ''not_starts_with'' then \<not> anyOf needles (HasPrefix haystack)
      else if op = ''ends_with'' then anyOf needles (HasSuffix haystack)
      else if op = ''not_ends_with'' then \<not> anyOf needles (HasSuffix haystack)
      else False)"

definition string_operators :: "string list" where
  "string_operators =
     [''contains'', ''not_contains'', ''starts_with'', ''not_starts_with'', ''ends_with'',
      ''not_ends_with'']"

definition compare_text :: "string \<Rightarrow> string list \<Rightarrow> string \<Rightarrow> bool" where
  "compare_text op operands strVal =
     (if op = ''=='' then anyOf operands (\<lambda>s. strVal = s)
      else if op = ''!='' then \<not> anyOf operands (\<lambda>s. strVal = s)
      else False)"

definition compare_number :: "string \<Rightarrow> flt \<Rightarrow> flt \<Rightarrow> bool" where
  "compare_number op numVal operand =
     (if op = ''<'' then flt_lt numVal operand
      else if op = ''<='' then flt_le numVal operand
      else if op = ''>'' then flt_lt operand numVal
      else if op = ''>='' then flt_le operand numVal
      else if op = ''=='' then flt_eq numVal operand
      else if op = ''!='' then \<not> flt_eq numVal operand
      else False)"

definition evaluateCondition :: "go_rt \<Rightarrow> condition \<Rightarrow> params \<Rightarrow> bool" where
  "evaluateCondition rt cond params =
     (let val = extractField (c_Field cond) params in
      if val = VNil then False
      else if c_Operator cond \<in> set string_operators then evaluateString cond (Sprint rt val)
      else
        (case toFloat rt val of
           None \<Rightarrow> compare_text (c_Operator cond) (cv_Strings (c_Value cond)) (Sprint rt val)
         | Some numVal \<Rightarrow>
             if \<not> cv_IsNum (c_Value cond)
             then compare_text (c_Operator cond) (cv_Strings (c_Value cond)) (Sprint rt val)
             else compare_number (c_Operator cond) numVal (cv_Num (c_Value cond))))"

section \<open>Evaluate\<close>

definition matchAgent :: "string \<Rightarrow> string \<Rightarrow> bool" where
  "matchAgent pattern agentID = Glob pattern agentID"

definition matchTool :: "string list \<Rightarrow> string \<Rightarrow> bool" where
  "matchTool tools toolName = GlobAny tools toolName"

definition decide :: "policy \<Rightarrow> rule \<Rightarrow> string \<Rightarrow> decision" where
  "decide pol r toolName =
     \<lparr>d_Action = r_Action r, d_Rule = p_Name pol,
      d_Reason = ''policy='' @ p_Name pol @ '' tool='' @ toolName @ '' action='' @ r_Action r\<rparr>"

definition default_deny :: decision where
  "default_deny =
     \<lparr>d_Action = ''deny'', d_Rule = ''default'',
      d_Reason = ''no matching policy '' @ emdash @ '' fail closed''\<rparr>"

fun evaluate_rules ::
  "go_rt \<Rightarrow> policy \<Rightarrow> string \<Rightarrow> params \<Rightarrow> rule list \<Rightarrow> decision option" where
  "evaluate_rules rt pol toolName params [] = None"
| "evaluate_rules rt pol toolName params (r # rs) =
     (if \<not> matchTool (r_Tools r) toolName then evaluate_rules rt pol toolName params rs
      else (case r_Condition r of
              Some c \<Rightarrow>
                if \<not> evaluateCondition rt c params then evaluate_rules rt pol toolName params rs
                else Some (decide pol r toolName)
            | None \<Rightarrow> Some (decide pol r toolName)))"

fun evaluate_policies ::
  "go_rt \<Rightarrow> string \<Rightarrow> string \<Rightarrow> params \<Rightarrow> policy list \<Rightarrow> decision" where
  "evaluate_policies rt agentID toolName params [] = default_deny"
| "evaluate_policies rt agentID toolName params (pol # pols) =
     (if \<not> matchAgent (p_Agent pol) agentID then evaluate_policies rt agentID toolName params pols
      else (case evaluate_rules rt pol toolName params (p_Rules pol) of
              Some d \<Rightarrow> d
            | None \<Rightarrow> evaluate_policies rt agentID toolName params pols))"

definition Evaluate :: "go_rt \<Rightarrow> engine \<Rightarrow> string \<Rightarrow> string \<Rightarrow> params \<Rightarrow> decision" where
  "Evaluate rt e agentID toolName params =
     evaluate_policies rt agentID toolName params (en_policies e)"

section \<open>Explain\<close>

record conditional_rule =
  cr_Action :: string
  cr_Rule :: string
  cr_Field :: string
  cr_Operator :: string

record static_decision =
  sd_Action :: string
  sd_Rule :: string
  sd_Conditional :: "conditional_rule list"
  sd_SourceFile :: string
  sd_RuleIndex :: int
  sd_PolicyAgent :: string

definition conditional_of :: "policy \<Rightarrow> rule \<Rightarrow> condition \<Rightarrow> conditional_rule" where
  "conditional_of pol r c =
     \<lparr>cr_Action = r_Action r, cr_Rule = p_Name pol, cr_Field = c_Field c, cr_Operator = c_Operator c\<rparr>"

text \<open>\<open>Inr\<close> is the decision found, \<open>Inl\<close> the conditional rules collected so far.\<close>

fun explain_rules ::
  "policy \<Rightarrow> string \<Rightarrow> nat \<Rightarrow> conditional_rule list \<Rightarrow> rule list
     \<Rightarrow> conditional_rule list + static_decision" where
  "explain_rules pol toolName i acc [] = Inl acc"
| "explain_rules pol toolName i acc (r # rs) =
     (if \<not> matchTool (r_Tools r) toolName then explain_rules pol toolName (Suc i) acc rs
      else (case r_Condition r of
              Some c \<Rightarrow> explain_rules pol toolName (Suc i) (acc @ [conditional_of pol r c]) rs
            | None \<Rightarrow>
                Inr \<lparr>sd_Action = r_Action r, sd_Rule = p_Name pol, sd_Conditional = acc,
                     sd_SourceFile = p_SourceFile pol, sd_RuleIndex = int i,
                     sd_PolicyAgent = p_Agent pol\<rparr>))"

fun explain_policies ::
  "string \<Rightarrow> string \<Rightarrow> conditional_rule list \<Rightarrow> policy list \<Rightarrow> static_decision" where
  "explain_policies agentID toolName acc [] =
     \<lparr>sd_Action = ''deny'', sd_Rule = ''default'', sd_Conditional = acc, sd_SourceFile = [],
      sd_RuleIndex = -1, sd_PolicyAgent = []\<rparr>"
| "explain_policies agentID toolName acc (pol # pols) =
     (if \<not> matchAgent (p_Agent pol) agentID then explain_policies agentID toolName acc pols
      else (case explain_rules pol toolName 0 acc (p_Rules pol) of
              Inr sd \<Rightarrow> sd
            | Inl acc' \<Rightarrow> explain_policies agentID toolName acc' pols))"

definition Explain :: "engine \<Rightarrow> string \<Rightarrow> string \<Rightarrow> static_decision" where
  "Explain e agentID toolName = explain_policies agentID toolName [] (en_policies e)"

section \<open>Tighten\<close>

definition actionSeverity :: "string \<Rightarrow> nat" where
  "actionSeverity action =
     (if action = ''allow'' then 0
      else if action = ''human_approval'' then 1
      else if action = ''deny'' then 2
      else 2)"

definition Tighten :: "decision \<Rightarrow> string \<Rightarrow> decision" where
  "Tighten d limit =
     (if limit = [] \<or> actionSeverity limit \<le> actionSeverity (d_Action d) then d
      else
        \<lparr>d_Action = limit, d_Rule = ''default_action'',
         d_Reason = ''dynamic dispatcher floor: default_action='' @ limit @ '' (policy '' @ d_Rule d
           @ '' returned '' @ d_Action d @ '')''\<rparr>)"


section \<open>Evaluate is first match in the flat rule list\<close>

definition rule_list :: "policy list \<Rightarrow> (policy \<times> rule) list" where
  "rule_list ps = concat (map (\<lambda>p. map (Pair p) (p_Rules p)) ps)"

definition names_call :: "string \<Rightarrow> string \<Rightarrow> policy \<times> rule \<Rightarrow> bool" where
  "names_call agentID toolName pr =
     (matchAgent (p_Agent (fst pr)) agentID \<and> matchTool (r_Tools (snd pr)) toolName)"

definition applies :: "go_rt \<Rightarrow> string \<Rightarrow> string \<Rightarrow> params \<Rightarrow> policy \<times> rule \<Rightarrow> bool" where
  "applies rt agentID toolName params pr =
     (names_call agentID toolName pr
      \<and> (case r_Condition (snd pr) of None \<Rightarrow> True | Some c \<Rightarrow> evaluateCondition rt c params))"

definition first_match ::
  "go_rt \<Rightarrow> policy list \<Rightarrow> string \<Rightarrow> string \<Rightarrow> params \<Rightarrow> (policy \<times> rule) option" where
  "first_match rt ps agentID toolName params =
     find (applies rt agentID toolName params) (rule_list ps)"

lemma evaluate_rules_find:
  "matchAgent (p_Agent pol) agentID \<Longrightarrow>
   evaluate_rules rt pol toolName params rs =
     map_option (\<lambda>pr. decide (fst pr) (snd pr) toolName)
       (find (applies rt agentID toolName params) (map (Pair pol) rs))"
  by (induction rs) (auto simp: applies_def names_call_def split: option.splits)

lemma find_unmatched_agent:
  "\<not> matchAgent (p_Agent pol) agentID \<Longrightarrow>
   find (applies rt agentID toolName params) (map (Pair pol) rs) = None"
  by (auto simp: find_None_conv applies_def names_call_def)

lemma evaluate_policies_find:
  "evaluate_policies rt agentID toolName params ps =
     (case first_match rt ps agentID toolName params of
        Some (pol, r) \<Rightarrow> decide pol r toolName
      | None \<Rightarrow> default_deny)"
proof (induction ps)
  case Nil
  then show ?case by (simp add: first_match_def rule_list_def)
next
  case (Cons pol ps)
  then show ?case
    by (cases "matchAgent (p_Agent pol) agentID")
      (auto simp: first_match_def rule_list_def find_append evaluate_rules_find find_unmatched_agent
        split: option.splits prod.splits)
qed

lemma Evaluate_first_match:
  "Evaluate rt e agentID toolName params =
     (case first_match rt (en_policies e) agentID toolName params of
        Some (pol, r) \<Rightarrow> decide pol r toolName
      | None \<Rightarrow> default_deny)"
  by (simp add: Evaluate_def evaluate_policies_find)

lemma first_match_SomeD:
  assumes "first_match rt ps agentID toolName params = Some (pol, r)"
  shows "pol \<in> set ps" and "r \<in> set (p_Rules pol)" and "applies rt agentID toolName params (pol, r)"
  using find_SomeD [OF assms [unfolded first_match_def]] by (auto simp: rule_list_def)

lemma find_sorted_max:
  assumes "sorted_wrt (\<lambda>x y. f y \<le> f x) xs" and "find P xs = Some x" and "y \<in> set xs" and "P y"
  shows "f y \<le> (f x :: int)"
  using assms by (induction xs) (auto split: if_splits)

lemma sorted_wrt_rule_list:
  "sorted_wrt (\<lambda>p q. f q \<le> f p) ps \<Longrightarrow>
   sorted_wrt (\<lambda>x y. f (fst y) \<le> (f (fst x) :: int)) (rule_list ps)"
  by (induction ps) (auto simp: rule_list_def sorted_wrt_append sorted_wrt_map)

lemma sortPolicies_sorted:
  "sorted_wrt (\<lambda>p q. agentSpecificity (p_Agent q) \<le> agentSpecificity (p_Agent p)) (sortPolicies ps)"
proof -
  have "sorted (map (\<lambda>p. - agentSpecificity (p_Agent p)) (sortPolicies ps))"
    by (simp add: sortPolicies_def)
  then show ?thesis by (simp add: sorted_wrt_map)
qed

lemma set_sortPolicies [simp]: "set (sortPolicies ps) = set ps"
  by (simp add: sortPolicies_def)

lemma sortPolicies_stable:
  "filter (\<lambda>p. agentSpecificity (p_Agent p) = k) (sortPolicies ps)
     = filter (\<lambda>p. agentSpecificity (p_Agent p) = k) ps"
  using sort_key_stable [of "\<lambda>p. - agentSpecificity (p_Agent p)" "- k" ps]
  by (simp add: sortPolicies_def)

lemma sortPolicies_idem [simp]: "sortPolicies (sortPolicies ps) = sortPolicies ps"
  unfolding sortPolicies_def by (simp add: sort_key_id_if_sorted)

section \<open>Conditions\<close>

lemma anyOf_iff: "anyOf items pred \<longleftrightarrow> (\<exists>s \<in> set items. pred s)"
  by (induction items) auto

lemma evaluateCondition_missing:
  "extractField (c_Field cond) params = VNil \<Longrightarrow> \<not> evaluateCondition rt cond params"
  by (simp add: evaluateCondition_def)

lemma compare_text_unknown: "op \<notin> {''=='', ''!=''} \<Longrightarrow> \<not> compare_text op xs s"
  by (auto simp: compare_text_def)

section \<open>Explain and Evaluate agree\<close>

definition unconditional :: "policy \<times> rule \<Rightarrow> bool" where
  "unconditional pr = (r_Condition (snd pr) = None)"

definition named_rules :: "policy list \<Rightarrow> string \<Rightarrow> string \<Rightarrow> (policy \<times> rule) list" where
  "named_rules ps agentID toolName = filter (names_call agentID toolName) (rule_list ps)"

fun conditional_prefix :: "(policy \<times> rule) list \<Rightarrow> (condition \<times> conditional_rule) list" where
  "conditional_prefix [] = []"
| "conditional_prefix ((pol, r) # prs) =
     (case r_Condition r of
        None \<Rightarrow> []
      | Some c \<Rightarrow> (c, conditional_of pol r c) # conditional_prefix prs)"

lemma conditional_prefix_append:
  "conditional_prefix (xs @ ys) =
     conditional_prefix xs @ (if find unconditional xs = None then conditional_prefix ys else [])"
  by (induction xs rule: conditional_prefix.induct) (auto simp: unconditional_def split: option.splits)

lemma named_rules_Cons:
  "named_rules (pol # ps) agentID toolName =
     (if matchAgent (p_Agent pol) agentID
      then filter (names_call agentID toolName) (map (Pair pol) (p_Rules pol)) else [])
     @ named_rules ps agentID toolName"
  by (auto simp: named_rules_def rule_list_def names_call_def)

lemma explain_rules_walk:
  fixes agentID toolName pol
  defines "l \<equiv> \<lambda>rs. filter (names_call agentID toolName) (map (Pair pol) rs)"
  assumes agent: "matchAgent (p_Agent pol) agentID"
  shows "case explain_rules pol toolName i acc rs of
           Inl acc' \<Rightarrow> find unconditional (l rs) = None
             \<and> acc' = acc @ map snd (conditional_prefix (l rs))
         | Inr sd \<Rightarrow> (\<exists>r. find unconditional (l rs) = Some (pol, r) \<and> sd_Action sd = r_Action r
             \<and> sd_Rule sd = p_Name pol
             \<and> sd_Conditional sd = acc @ map snd (conditional_prefix (l rs)))"
  unfolding l_def
proof (induction rs arbitrary: i acc)
  case Nil
  then show ?case by simp
next
  case (Cons r rs)
  show ?case
  proof (cases "matchTool (r_Tools r) toolName")
    case False
    with Cons.IH [of acc "Suc i"] agent show ?thesis
      by (simp add: names_call_def split: sum.splits)
  next
    case True
    show ?thesis
    proof (cases "r_Condition r")
      case None
      with True agent show ?thesis by (simp add: names_call_def unconditional_def)
    next
      case (Some c)
      with True agent Cons.IH [of "acc @ [conditional_of pol r c]" "Suc i"] show ?thesis
        by (simp add: names_call_def unconditional_def split: sum.splits)
    qed
  qed
qed

lemma explain_policies_walk:
  "sd_Conditional (explain_policies agentID toolName acc ps)
     = acc @ map snd (conditional_prefix (named_rules ps agentID toolName))
   \<and> (sd_Action (explain_policies agentID toolName acc ps),
        sd_Rule (explain_policies agentID toolName acc ps))
     = (case find unconditional (named_rules ps agentID toolName) of
          Some (pol, r) \<Rightarrow> (r_Action r, p_Name pol)
        | None \<Rightarrow> (''deny'', ''default''))"
proof (induction ps arbitrary: acc)
  case Nil
  then show ?case by (simp add: named_rules_def rule_list_def)
next
  case (Cons pol ps)
  show ?case
  proof (cases "matchAgent (p_Agent pol) agentID")
    case False
    with Cons.IH show ?thesis by (simp add: named_rules_Cons)
  next
    case True
    note walk = explain_rules_walk [OF True, where toolName = toolName and i = 0 and acc = acc and rs = "p_Rules pol"]
    show ?thesis
    proof (cases "explain_rules pol toolName 0 acc (p_Rules pol)")
      case (Inl acc')
      with walk True Cons.IH [of acc'] show ?thesis
        by (simp add: named_rules_Cons conditional_prefix_append find_append)
    next
      case (Inr sd)
      with walk True show ?thesis
        by (auto simp: named_rules_Cons conditional_prefix_append find_append)
    qed
  qed
qed

lemmas explain_conditional = explain_policies_walk [THEN conjunct1]
lemmas explain_action = explain_policies_walk [THEN conjunct2]

lemma find_applies_named:
  "find (applies rt agentID toolName params) (rule_list ps) =
     find (applies rt agentID toolName params) (named_rules ps agentID toolName)"
proof -
  have "find (applies rt agentID toolName params) xs =
      find (applies rt agentID toolName params) (filter (names_call agentID toolName) xs)" for xs
    by (induction xs) (auto simp: applies_def)
  then show ?thesis by (simp add: named_rules_def)
qed

definition outcome :: "decision \<Rightarrow> string \<times> string" where
  "outcome d = (d_Action d, d_Rule d)"

lemma evaluate_walk:
  assumes "\<forall>pr \<in> set prs. names_call agentID toolName pr"
  shows "(case find (applies rt agentID toolName params) prs of
            Some (pol, r) \<Rightarrow> (r_Action r, p_Name pol)
          | None \<Rightarrow> (''deny'', ''default'')) =
         (case find (\<lambda>(c, cr). evaluateCondition rt c params) (conditional_prefix prs) of
            Some (c, cr) \<Rightarrow> (cr_Action cr, cr_Rule cr)
          | None \<Rightarrow> (case find unconditional prs of
                       Some (pol, r) \<Rightarrow> (r_Action r, p_Name pol)
                     | None \<Rightarrow> (''deny'', ''default'')))"
  using assms
  by (induction prs rule: conditional_prefix.induct)
    (auto simp: applies_def unconditional_def conditional_of_def split: option.splits)

text \<open>The conditions behind the conditional rules that \<open>Explain\<close> lists, in the same order.\<close>

definition explain_conditions :: "engine \<Rightarrow> string \<Rightarrow> string \<Rightarrow> condition list" where
  "explain_conditions e agentID toolName =
     map fst (conditional_prefix (named_rules (en_policies e) agentID toolName))"

lemma Explain_sound:
  "outcome (Evaluate rt e agentID toolName params) =
     (case find (\<lambda>(c, cr). evaluateCondition rt c params)
             (zip (explain_conditions e agentID toolName) (sd_Conditional (Explain e agentID toolName))) of
        Some (c, cr) \<Rightarrow> (cr_Action cr, cr_Rule cr)
      | None \<Rightarrow> (sd_Action (Explain e agentID toolName), sd_Rule (Explain e agentID toolName)))"
proof -
  let ?l = "named_rules (en_policies e) agentID toolName"
  have zip: "zip (explain_conditions e agentID toolName) (sd_Conditional (Explain e agentID toolName))
      = conditional_prefix ?l"
    by (simp add: explain_conditions_def Explain_def explain_conditional zip_map_fst_snd)
  have "outcome (Evaluate rt e agentID toolName params) =
      (case find (applies rt agentID toolName params) ?l of
         Some (pol, r) \<Rightarrow> (r_Action r, p_Name pol)
       | None \<Rightarrow> (''deny'', ''default''))"
    by (auto simp: Evaluate_first_match first_match_def find_applies_named outcome_def decide_def
        default_deny_def split: option.split)
  also have "\<dots> = (case find (\<lambda>(c, cr). evaluateCondition rt c params) (conditional_prefix ?l) of
        Some (c, cr) \<Rightarrow> (cr_Action cr, cr_Rule cr)
      | None \<Rightarrow> (sd_Action (Explain e agentID toolName), sd_Rule (Explain e agentID toolName)))"
    unfolding Explain_def explain_action
    by (rule evaluate_walk) (simp add: named_rules_def)
  finally show ?thesis by (simp only: zip)
qed

lemma Evaluate_action_listed:
  "d_Action (Evaluate rt e agentID toolName params)
     \<in> insert (sd_Action (Explain e agentID toolName))
         (cr_Action ` set (sd_Conditional (Explain e agentID toolName)))"
proof -
  let ?sd = "Explain e agentID toolName"
  let ?z = "zip (explain_conditions e agentID toolName) (sd_Conditional ?sd)"
  have z: "snd p \<in> set (sd_Conditional ?sd)" if "p \<in> set ?z" for p
    using that by (metis prod.collapse set_zip_rightD)
  show ?thesis
    using Explain_sound [of rt e agentID toolName params] z
    by (auto simp: outcome_def split: option.splits prod.splits dest!: find_SomeD)
qed

section \<open>Floors\<close>

text \<open>
  The interface of a floor: joining a decision with an action keeps the stricter of the two,
  and the decision itself when the floor adds nothing.
\<close>

locale flooring =
  fixes sev :: "string \<Rightarrow> nat" and act :: "'d \<Rightarrow> string" and tight :: "'d \<Rightarrow> string \<Rightarrow> 'd"
  assumes tight_noop: "f = [] \<or> sev f \<le> sev (act d) \<Longrightarrow> tight d f = d"
    and tight_raise: "f \<noteq> [] \<Longrightarrow> sev (act d) < sev f \<Longrightarrow> act (tight d f) = f"
begin

lemma tight_severity: "f \<noteq> [] \<Longrightarrow> sev (act (tight d f)) = max (sev (act d)) (sev f)"
  using tight_noop [of f d] tight_raise [of f d] by (cases "sev f \<le> sev (act d)") auto

lemma tight_never_widens: "sev (act d) \<le> sev (act (tight d f))"
  using tight_noop [of f d] tight_severity [of f d] by (cases "f = []") auto

lemma tight_idem: "act (tight (tight d f) f) = act (tight d f)"
  using tight_noop [of f "tight d f"] tight_severity [of f d] by (cases "f = []") (auto simp: tight_noop)

lemma tight_commute_severity:
  "sev (act (tight (tight d f) g)) = sev (act (tight (tight d g) f))"
  by (cases "f = []"; cases "g = []") (simp_all add: tight_noop tight_severity)

lemma tight_top: "(\<And>a. sev a \<le> sev (act d)) \<Longrightarrow> tight d f = d"
  by (rule tight_noop) simp

end

interpretation floors: flooring actionSeverity d_Action Tighten
  by unfold_locales (auto simp: Tighten_def)

lemma actionSeverity_le2: "actionSeverity a \<le> 2"
  by (simp add: actionSeverity_def)

lemma actionSeverity_simps [simp]:
  "actionSeverity ''allow'' = 0" "actionSeverity ''human_approval'' = 1" "actionSeverity ''deny'' = 2"
  by (simp_all add: actionSeverity_def)

lemma Tighten_deny [simp]: "d_Action d = ''deny'' \<Longrightarrow> Tighten d f = d"
  by (rule floors.tight_top) (simp add: actionSeverity_le2)

lemma Tighten_Nil [simp]: "Tighten d [] = d"
  by (simp add: floors.tight_noop)

section \<open>Properties\<close>

text \<open>
  C17. The decision of an engine built from a list of policies is the first applicable rule of
  the flat list of (policy, rule) pairs, policies in order of agent specificity and rules in
  file order, where a rule applies when its policy's agent pattern, its tools and its condition
  (if any) all match; when no rule applies the call is denied by the rule "default". This holds
  for the engine after any number of reloads too.
\<close>

theorem Evaluate_is_first_match:
  "Evaluate rt (Reload ps e) agentID toolName params
     = (case find (applies rt agentID toolName params) (rule_list (sortPolicies ps)) of
          Some (pol, r) \<Rightarrow> decide pol r toolName
        | None \<Rightarrow> default_deny)"
  by (simp add: Evaluate_first_match first_match_def Reload_def)

text \<open>
  Sorting policies loses and duplicates none, puts exact agent patterns before globs and
  globs before the catch-all, and keeps the file order among policies of equal specificity.
\<close>

theorem sortPolicies_spec:
  "mset (sortPolicies ps) = mset ps
   \<and> sorted_wrt (\<lambda>p q. agentSpecificity (p_Agent q) \<le> agentSpecificity (p_Agent p)) (sortPolicies ps)
   \<and> filter (\<lambda>p. agentSpecificity (p_Agent p) = k) (sortPolicies ps)
       = filter (\<lambda>p. agentSpecificity (p_Agent p) = k) ps"
  using sortPolicies_sorted sortPolicies_stable by (simp add: sortPolicies_def)

text \<open>
  Whatever rule of whatever policy applies to a call, the decision comes from an applicable
  rule of a policy at least as specific about the agent: a catch-all policy never overrides a
  policy that names the agent.
\<close>

theorem Evaluate_most_specific:
  assumes "pol' \<in> set ps" and "r' \<in> set (p_Rules pol')"
    and "applies rt agentID toolName params (pol', r')"
  shows "\<exists>pol r. pol \<in> set ps \<and> r \<in> set (p_Rules pol) \<and> applies rt agentID toolName params (pol, r)
           \<and> Evaluate rt (NewEngine ps) agentID toolName params = decide pol r toolName
           \<and> agentSpecificity (p_Agent pol') \<le> agentSpecificity (p_Agent pol)"
proof -
  let ?l = "rule_list (sortPolicies ps)"
  have mem: "(pol', r') \<in> set ?l" using assms by (auto simp: rule_list_def)
  then obtain pol r where f: "find (applies rt agentID toolName params) ?l = Some (pol, r)"
    using assms(3) by (cases "find (applies rt agentID toolName params) ?l") (auto simp: find_None_conv)
  have "agentSpecificity (p_Agent pol') \<le> agentSpecificity (p_Agent pol)"
    using find_sorted_max [OF sorted_wrt_rule_list [OF sortPolicies_sorted] f mem assms(3)] by simp
  moreover have "pol \<in> set ps" "r \<in> set (p_Rules pol)" "applies rt agentID toolName params (pol, r)"
    using first_match_SomeD [OF f [folded first_match_def]] by simp_all
  moreover have "Evaluate rt (NewEngine ps) agentID toolName params = decide pol r toolName"
    using f by (simp add: Evaluate_first_match first_match_def NewEngine_def)
  ultimately show ?thesis by blast
qed

definition demo_rt :: go_rt where
  "demo_rt = \<lparr>rt_FormatFloat = (\<lambda>_. ''0''), rt_ParseFloat = (\<lambda>_. None)\<rparr>"

definition demo_policy :: "string \<Rightarrow> string \<Rightarrow> rule list \<Rightarrow> policy" where
  "demo_policy name agent rules =
     \<lparr>p_Name = name, p_Agent = agent, p_RateLimit = None, p_Rules = rules, p_SourceFile = []\<rparr>"

definition demo_rule :: "string \<Rightarrow> string \<Rightarrow> rule" where
  "demo_rule tool action = \<lparr>r_Tools = [tool], r_Action = action, r_Condition = None\<rparr>"

theorem Evaluate_most_specific_witness:
  "\<exists>pol r. pol \<in> set [demo_policy ''all'' ''*'' [demo_rule ''t'' ''allow''],
              demo_policy ''bot'' ''bot'' [demo_rule ''t'' ''deny'']]
       \<and> r \<in> set (p_Rules pol) \<and> applies demo_rt ''bot'' ''t'' None (pol, r)
       \<and> Evaluate demo_rt (NewEngine [demo_policy ''all'' ''*'' [demo_rule ''t'' ''allow''],
              demo_policy ''bot'' ''bot'' [demo_rule ''t'' ''deny'']]) ''bot'' ''t'' None
           = decide pol r ''t''
       \<and> agentSpecificity (p_Agent (demo_policy ''bot'' ''bot'' [demo_rule ''t'' ''deny'']))
           \<le> agentSpecificity (p_Agent pol)"
proof (rule Evaluate_most_specific [where r' = "demo_rule ''t'' ''deny''"])
  show "applies demo_rt ''bot'' ''t'' None
      (demo_policy ''bot'' ''bot'' [demo_rule ''t'' ''deny''], demo_rule ''t'' ''deny'')"
    by code_simp
qed (simp_all add: demo_policy_def)

text \<open>
  C18. What Explain says before any call is the whole story: for every parameter map the action
  and rule that Evaluate gives are those of the first listed conditional rule whose condition
  the parameters satisfy, and Explain's own action and rule when they satisfy none of them.
\<close>

theorem Explain_predicts_Evaluate:
  "(d_Action (Evaluate rt e agentID toolName params), d_Rule (Evaluate rt e agentID toolName params)) =
     (case find (\<lambda>(c, cr). evaluateCondition rt c params)
             (zip (explain_conditions e agentID toolName) (sd_Conditional (Explain e agentID toolName))) of
        Some (c, cr) \<Rightarrow> (cr_Action cr, cr_Rule cr)
      | None \<Rightarrow> (sd_Action (Explain e agentID toolName), sd_Rule (Explain e agentID toolName)))"
  using Explain_sound [of rt e agentID toolName params] by (simp add: outcome_def)

text \<open>
  A condition fails closed: it can hold only when its field is present in the parameters
  (and is not null) and its operator is one of the twelve the engine knows, negative operators
  such as not_contains and != included.
\<close>

theorem evaluateCondition_fails_closed:
  assumes "evaluateCondition rt cond params"
  shows "extractField (c_Field cond) params \<noteq> VNil
    \<and> c_Operator cond \<in> set (string_operators @ [''<'', ''<='', ''>'', ''>='', ''=='', ''!=''])
    \<and> (cv_IsNum (c_Value cond) \<or> cv_Strings (c_Value cond) \<noteq> [] \<or> c_Operator cond = ''!='')"
proof (cases "c_Operator cond \<in> set string_operators")
  case True
  then show ?thesis
    using assms by (auto simp: evaluateCondition_def evaluateString_def Let_def split: if_splits)
next
  case False
  then show ?thesis
    using assms
    by (auto simp: evaluateCondition_def compare_text_def compare_number_def Let_def
        split: if_splits option.splits)
qed

definition demo_cond :: condition where
  "demo_cond = \<lparr>c_Field = ''a.b'', c_Operator = ''not_contains'', c_Value = CondText [''x'']\<rparr>"

theorem evaluateCondition_fails_closed_witness:
  "evaluateCondition demo_rt demo_cond (Some [(''a'', VMap [(''b'', VStr ''hello'')])])
   \<and> extractField (c_Field demo_cond) (Some [(''a'', VMap [(''b'', VStr ''hello'')])]) \<noteq> VNil"
proof -
  have "evaluateCondition demo_rt demo_cond (Some [(''a'', VMap [(''b'', VStr ''hello'')])])"
    by code_simp
  with evaluateCondition_fails_closed show ?thesis by blast
qed

text \<open>
  Tighten is the join of a decision with a floor in the order allow, human_approval, deny
  (an unknown action counting as deny): the result is as strict as the stricter of the two, an
  empty floor changes nothing, a decision that already is as strict is returned unchanged, and
  the strictness reached does not depend on the order in which two floors are applied.
\<close>

theorem Tighten_is_join:
  "actionSeverity (d_Action (Tighten d f))
     = (if f = [] then actionSeverity (d_Action d)
        else max (actionSeverity (d_Action d)) (actionSeverity f))
   \<and> (Tighten d f = d \<or> d_Action (Tighten d f) = f \<and> d_Rule (Tighten d f) = ''default_action'')
   \<and> actionSeverity (d_Action (Tighten (Tighten d f) g))
       = actionSeverity (d_Action (Tighten (Tighten d g) f))"
  using floors.tight_severity [of f d] floors.tight_commute_severity [of d f g]
  by (auto simp: Tighten_def)

end
