(* ===== verification/Registry.thy ===== *)
theory Registry
  imports Policy
begin

text \<open>
  The tool registry (\<open>registry/registry.go\<close>, \<open>cli.go\<close>, \<open>mcp.go\<close>, \<open>openapi.go\<close>,
  \<open>classify.go\<close>): tools by name, how the three kinds of sources fill it, how a CLI name falls
  back to the dynamic dispatcher and the floor that dispatcher carries, and the classification
  that suggests a starting policy. A fetched OpenAPI document is its decoded JSON.
\<close>

section \<open>Tools\<close>

record param =
  pa_Name :: string
  pa_In :: string
  pa_Type :: string
  pa_Required :: bool
  pa_RawSchema :: "gval option"

record annotations =
  an_ReadOnly :: "bool option"
  an_Destructive :: "bool option"
  an_Idempotent :: "bool option"
  an_OpenWorld :: "bool option"

record cli_meta =
  cm_Bin :: string
  cm_Command :: string
  cm_AllowedArgs :: "string list option"
  cm_Timeout :: duration
  cm_WorkingDir :: string
  cm_Env :: "(string \<times> string) list"
  cm_Strict :: bool
  cm_DefaultAction :: string
  cm_IsCatchAll :: bool

record tool =
  tl_Name :: string
  tl_Description :: string
  tl_Method :: string
  tl_Path :: string
  tl_BaseURL :: string
  tl_Params :: "param list"
  tl_Headers :: "(string \<times> string) list"
  tl_Source :: string
  tl_MCPServer :: string
  tl_CLIMeta :: "cli_meta option"
  tl_Annotations :: "annotations option"

definition no_tool :: tool where
  "no_tool =
     \<lparr>tl_Name = [], tl_Description = [], tl_Method = [], tl_Path = [], tl_BaseURL = [],
      tl_Params = [], tl_Headers = [], tl_Source = [], tl_MCPServer = [], tl_CLIMeta = None,
      tl_Annotations = None\<rparr>"

definition DispatchFloor :: "tool option \<Rightarrow> string" where
  "DispatchFloor t =
     (case t of
        None \<Rightarrow> []
      | Some u \<Rightarrow>
          (case tl_CLIMeta u of
             None \<Rightarrow> []
           | Some m \<Rightarrow> if \<not> cm_IsCatchAll m then [] else cm_DefaultAction m))"

type_synonym registry = "(string \<times> tool) list"

definition registry_New :: registry where
  "registry_New = []"

definition registry_Get :: "registry \<Rightarrow> string \<Rightarrow> tool option" where
  "registry_Get r name = map_of r name"

definition registry_All :: "registry \<Rightarrow> tool list" where
  "registry_All r = map snd r"

definition registry_Remove :: "string \<Rightarrow> registry \<Rightarrow> registry" where
  "registry_Remove name r = AList.delete name r"

definition registry_set :: "string \<Rightarrow> tool \<Rightarrow> registry \<Rightarrow> registry" where
  "registry_set name t r = AList.update name t r"

definition LoadManual :: "tool \<Rightarrow> registry \<Rightarrow> registry" where
  "LoadManual t r = AList.update (tl_Name t) t r"

section \<open>CLI tools\<close>

definition plain_param :: "string \<Rightarrow> string \<Rightarrow> bool \<Rightarrow> param" where
  "plain_param name type required =
     \<lparr>pa_Name = name, pa_In = ''body'', pa_Type = type, pa_Required = required, pa_RawSchema = None\<rparr>"

definition cliCommandParams :: "cli_command_config \<Rightarrow> param list" where
  "cliCommandParams cmd =
     [plain_param ''args'' ''array'' False, plain_param ''flags'' ''object'' False,
      plain_param ''stdin'' ''string'' False]"

definition parseDuration :: "string \<Rightarrow> duration \<Rightarrow> duration" where
  "parseDuration s fallback =
     (if s = [] then fallback
      else (case ParseDuration s of None \<Rightarrow> fallback | Some d \<Rightarrow> d))"

definition default_action_of :: "cli_tool_config \<Rightarrow> string" where
  "default_action_of cfg = (if ct_DefaultAction cfg = [] then ''deny'' else ct_DefaultAction cfg)"

definition bare_tool :: "cli_tool_config \<Rightarrow> cli_command_config \<Rightarrow> tool" where
  "bare_tool cfg bare =
     no_tool\<lparr>tl_Name := ct_Name cfg @ ''.run'', tl_Description := ''Run '' @ ct_Bin cfg,
       tl_Source := ''cli'', tl_Params := cliCommandParams bare,
       tl_CLIMeta := Some
         \<lparr>cm_Bin = ct_Bin cfg, cm_Command = [], cm_AllowedArgs = cc_AllowedArgs bare,
          cm_Timeout = parseDuration (cc_Timeout bare) (30 * second),
          cm_WorkingDir = ct_WorkingDir cfg, cm_Env = ct_Env cfg, cm_Strict = True,
          cm_DefaultAction = default_action_of cfg, cm_IsCatchAll = False\<rparr>\<rparr>"

definition command_tool :: "cli_tool_config \<Rightarrow> string \<Rightarrow> cli_command_config \<Rightarrow> tool" where
  "command_tool cfg cmdName cmd =
     no_tool\<lparr>tl_Name := ct_Name cfg @ ''.'' @ cmdName,
       tl_Description := ''Run '' @ ct_Bin cfg @ '' '' @ cmdName,
       tl_Source := ''cli'', tl_Params := cliCommandParams cmd,
       tl_CLIMeta := Some
         \<lparr>cm_Bin = ct_Bin cfg, cm_Command = cmdName, cm_AllowedArgs = cc_AllowedArgs cmd,
          cm_Timeout = parseDuration (cc_Timeout cmd) (30 * second),
          cm_WorkingDir = ct_WorkingDir cfg, cm_Env = ct_Env cfg, cm_Strict = ct_Strict cfg,
          cm_DefaultAction = default_action_of cfg, cm_IsCatchAll = False\<rparr>\<rparr>"

definition dispatch_tool :: "cli_tool_config \<Rightarrow> tool" where
  "dispatch_tool cfg =
     no_tool\<lparr>tl_Name := ct_Name cfg @ ''.__dispatch'',
       tl_Description := ''Run '' @ ct_Bin cfg @ '' <command> (any subcommand)'',
       tl_Source := ''cli'',
       tl_Params := [plain_param ''command'' ''string'' True, plain_param ''args'' ''array'' False,
                     plain_param ''flags'' ''object'' False, plain_param ''stdin'' ''string'' False],
       tl_CLIMeta := Some
         \<lparr>cm_Bin = ct_Bin cfg, cm_Command = [], cm_AllowedArgs = None, cm_Timeout = 0,
          cm_WorkingDir = ct_WorkingDir cfg, cm_Env = ct_Env cfg, cm_Strict = False,
          cm_DefaultAction = default_action_of cfg, cm_IsCatchAll = True\<rparr>\<rparr>"

definition load_cli_tool :: "cli_tool_config \<Rightarrow> registry \<Rightarrow> registry" where
  "load_cli_tool cfg r =
     (case ct_Bare cfg of
        Some bare \<Rightarrow> registry_set (ct_Name cfg @ ''.run'') (bare_tool cfg bare) r
      | None \<Rightarrow>
          (let r1 = fold (\<lambda>c. registry_set (ct_Name cfg @ ''.'' @ fst c)
                            (command_tool cfg (fst c) (snd c))) (ct_Commands cfg) r in
           if \<not> ct_Strict cfg then registry_set (ct_Name cfg @ ''.__dispatch'') (dispatch_tool cfg) r1
           else r1))"

definition LoadCLI :: "cli_tool_config list \<Rightarrow> registry \<Rightarrow> registry" where
  "LoadCLI tools r = fold load_cli_tool tools r"

text \<open>The part of a name before its last dot, when it has one.\<close>

fun before_last_dot :: "string \<Rightarrow> string option" where
  "before_last_dot [] = None"
| "before_last_dot (c # s) =
     (case before_last_dot s of
        Some p \<Rightarrow> Some (c # p)
      | None \<Rightarrow> if c = CHR ''.'' then Some [] else None)"

definition ResolveCLI :: "registry \<Rightarrow> string \<Rightarrow> tool option" where
  "ResolveCLI r name =
     (let fallback = (case before_last_dot name of
                        Some p \<Rightarrow> map_of r (p @ ''.__dispatch'')
                      | None \<Rightarrow> None) in
      case map_of r name of
        Some t \<Rightarrow> if tl_Source t = ''cli'' then Some t else fallback
      | None \<Rightarrow> fallback)"

section \<open>MCP tools\<close>

record mcp_tool_def =
  mt_Name :: string
  mt_Description :: string
  mt_Params :: "param list"
  mt_Annotations :: "annotations option"

record mcp_prop_def =
  mp_Type :: string
  mp_RawSchema :: "gval option"

definition NewMCPToolDef ::
  "string \<Rightarrow> string \<Rightarrow> (string \<times> mcp_prop_def) list \<Rightarrow> string list \<Rightarrow> mcp_tool_def" where
  "NewMCPToolDef name description properties required =
     \<lparr>mt_Name = name, mt_Description = description,
      mt_Params =
        map (\<lambda>(pName, pr). \<lparr>pa_Name = pName, pa_In = ''body'', pa_Type = mp_Type pr,
               pa_Required = (pName \<in> set required), pa_RawSchema = mp_RawSchema pr\<rparr>) properties,
      mt_Annotations = None\<rparr>"

definition mcp_tool :: "string \<Rightarrow> mcp_tool_def \<Rightarrow> tool" where
  "mcp_tool serverName t =
     no_tool\<lparr>tl_Name := serverName @ ''.'' @ mt_Name t, tl_Description := mt_Description t,
       tl_Source := ''mcp'', tl_MCPServer := serverName, tl_Params := mt_Params t,
       tl_Annotations := mt_Annotations t\<rparr>"

definition LoadMCP :: "string \<Rightarrow> mcp_tool_def list \<Rightarrow> registry \<Rightarrow> registry" where
  "LoadMCP serverName tools r =
     fold (\<lambda>t. registry_set (serverName @ ''.'' @ mt_Name t) (mcp_tool serverName t)) tools r"

definition ByServer :: "registry \<Rightarrow> string \<Rightarrow> tool list" where
  "ByServer r serverName = filter (\<lambda>t. tl_MCPServer t = serverName) (map snd r)"

definition RemoveByServer :: "string \<Rightarrow> registry \<Rightarrow> registry" where
  "RemoveByServer serverName r = filter (\<lambda>(name, t). tl_MCPServer t \<noteq> serverName) r"

section \<open>OpenAPI tools\<close>

definition mget :: "(string \<times> gval) list \<Rightarrow> string \<Rightarrow> gval" where
  "mget m k = (case map_of m k of None \<Rightarrow> VNil | Some v \<Rightarrow> v)"

definition strVal :: "(string \<times> gval) list \<Rightarrow> string \<Rightarrow> string \<Rightarrow> string" where
  "strVal m key fallback = (case mget m key of VStr v \<Rightarrow> v | _ \<Rightarrow> fallback)"

definition boolVal :: "(string \<times> gval) list \<Rightarrow> string \<Rightarrow> bool" where
  "boolVal m key = (case mget m key of VBool v \<Rightarrow> v | _ \<Rightarrow> False)"

definition is_upper :: "char \<Rightarrow> bool" where
  "is_upper c = (let n = (of_char c :: nat) in 65 \<le> n \<and> n \<le> 90)"

definition toSnake :: "string \<Rightarrow> string" where
  "toSnake s =
     concat (map (\<lambda>(i, c). if is_upper c then (if i > 0 then ''_'' else []) @ [lower_char c] else [c])
       (enumerate 0 s))"

definition trim_underscores :: "string \<Rightarrow> string" where
  "trim_underscores s =
     rev (dropWhile ((=) CHR ''_'') (rev (dropWhile ((=) CHR ''_'') s)))"

definition buildToolName :: "string \<Rightarrow> string \<Rightarrow> (string \<times> gval) list \<Rightarrow> string" where
  "buildToolName method path op =
     (let opID = strVal op ''operationId'' [] in
      if opID \<noteq> [] then toSnake opID
      else
        ToLower method @ ''_''
          @ trim_underscores
              (concat (map (\<lambda>c. if c = CHR ''/'' \<or> c = CHR ''-'' then ''_''
                                else if c = CHR 0x7B \<or> c = CHR 0x7D then [] else [c]) path)))"

definition extract_param :: "gval \<Rightarrow> param list" where
  "extract_param rp =
     (case rp of
        VMap p \<Rightarrow>
          if strVal p ''name'' [] = [] then []
          else
            [\<lparr>pa_Name = strVal p ''name'' [], pa_In = strVal p ''in'' ''query'',
              pa_Type = (case mget p ''schema'' of
                           VMap schema \<Rightarrow> strVal schema ''type'' ''string''
                         | _ \<Rightarrow> strVal p ''type'' ''string''),
              pa_Required = boolVal p ''required'', pa_RawSchema = None\<rparr>]
      | _ \<Rightarrow> [])"

definition extractParams :: "(string \<times> gval) list \<Rightarrow> param list" where
  "extractParams op =
     (case mget op ''parameters'' of VList ps \<Rightarrow> concat (map extract_param ps) | _ \<Rightarrow> [])
     @ (if map_of op ''requestBody'' \<noteq> None then [plain_param ''body'' ''object'' True] else [])"

definition inferBaseURL :: "(string \<times> gval) list \<Rightarrow> string" where
  "inferBaseURL spec =
     (let fallback =
            (case mget spec ''schemes'' of VList (VStr s # _) \<Rightarrow> s | _ \<Rightarrow> ''https'')
              @ ''://'' @ strVal spec ''host'' ''localhost'' @ strVal spec ''basePath'' [] in
      case mget spec ''servers'' of
        VList (VMap s # _) \<Rightarrow> (case mget s ''url'' of VStr url \<Rightarrow> url | _ \<Rightarrow> fallback)
      | _ \<Rightarrow> fallback)"

definition load_operation ::
  "string \<Rightarrow> (string \<times> string) list \<Rightarrow> string \<Rightarrow> string \<times> gval \<Rightarrow> registry \<Rightarrow> registry" where
  "load_operation base headers path mo r =
     (let method = ToUpper (fst mo) in
      if method = ''OPTIONS'' \<or> method = ''HEAD'' then r
      else
        (case snd mo of
           VMap op \<Rightarrow>
             (let t = no_tool\<lparr>tl_Name := buildToolName method path op,
                        tl_Description := strVal op ''summary'' (strVal op ''description'' []),
                        tl_Method := method, tl_Path := path, tl_BaseURL := base,
                        tl_Headers := headers, tl_Params := extractParams op,
                        tl_Source := ''openapi''\<rparr> in
              registry_set (tl_Name t) t r)
         | _ \<Rightarrow> r))"

text \<open>\<open>None\<close> is the error return: the document is not a JSON object, or has no paths.\<close>

definition loadOpenAPISpec ::
  "gval option \<Rightarrow> string \<Rightarrow> (string \<times> string) list \<Rightarrow> registry \<Rightarrow> registry option" where
  "loadOpenAPISpec body backendURL headers r =
     (let load = (\<lambda>spec.
            (case mget spec ''paths'' of
               VMap paths \<Rightarrow>
                 (let base = (if backendURL = [] then inferBaseURL spec else backendURL) in
                  Some (fold (\<lambda>(path, methods).
                               case methods of
                                 VMap mm \<Rightarrow> fold (load_operation base headers path) mm
                               | _ \<Rightarrow> id) paths r))
             | _ \<Rightarrow> None)) in
      case body of
        Some (VMap spec) \<Rightarrow> load spec
      | Some VNil \<Rightarrow> load []
      | _ \<Rightarrow> None)"

section \<open>Classification\<close>

datatype family = FamilyNamed | FamilyGeneric

datatype access = AccessRead | AccessWrite | AccessUnknown

record classification =
  cl_Family :: family
  cl_Access :: access
  cl_Reasons :: "string list"

definition SuggestedAction :: "classification \<Rightarrow> string" where
  "SuggestedAction c =
     (if cl_Family c = FamilyNamed \<and> cl_Access c = AccessRead then ''allow'' else ''human_approval'')"

definition readVerbs :: "string list" where
  "readVerbs =
     [''get'', ''list'', ''find'', ''search'', ''read'', ''describe'', ''show'', ''fetch'',
      ''query'', ''view'', ''lookup'', ''inspect'', ''info'', ''tree'', ''status'', ''whoami'',
      ''count'', ''stat'', ''logs'', ''recall'']"

definition writeVerbs :: "string list" where
  "writeVerbs =
     [''create'', ''update'', ''delete'', ''remove'', ''send'', ''write'', ''edit'', ''move'',
      ''set'', ''put'', ''post'', ''patch'', ''execute'', ''exec'', ''run'', ''deploy'', ''drop'',
      ''insert'', ''upload'', ''modify'', ''rename'', ''archive'', ''trash'', ''apply'',
      ''destroy'', ''kill'', ''stop'', ''start'', ''restart'', ''push'', ''publish'', ''forget'',
      ''store'', ''save'', ''mark'', ''recover'', ''cast'', ''approve'', ''deny'', ''revoke'',
      ''purge'', ''prune'', ''draft'']"

definition languageParams :: "string list" where
  "languageParams =
     [''code'', ''script'', ''sql'', ''command'', ''cmd'', ''statement'', ''program'', ''expression'']"

definition runVerbs :: "string list" where
  "runVerbs = [''execute'', ''exec'', ''run'', ''sql'']"

definition hasAny :: "string list \<Rightarrow> string list \<Rightarrow> bool" where
  "hasAny tokens words = list_ex (\<lambda>t. t \<in> set words) tokens"

definition token_sep :: "char \<Rightarrow> bool" where
  "token_sep c = (c = CHR ''_'' \<or> c = CHR ''-'' \<or> c = CHR ''.'' \<or> c = CHR '' '' \<or> c = CHR ''/'')"

text \<open>\<open>strings.FieldsFunc\<close>: the maximal runs of characters that are no separators.\<close>

fun FieldsFunc :: "(char \<Rightarrow> bool) \<Rightarrow> string \<Rightarrow> string \<Rightarrow> string list" where
  "FieldsFunc sep word [] = (if word = [] then [] else [word])"
| "FieldsFunc sep word (c # s) =
     (if sep c then (if word = [] then [] else [word]) @ FieldsFunc sep [] s
      else FieldsFunc sep (word @ [c]) s)"

definition nameTokens :: "tool \<Rightarrow> string list" where
  "nameTokens t =
     (let name =
            (if tl_MCPServer t \<noteq> [] then TrimPrefix (tl_Name t) (tl_MCPServer t @ ''.'')
             else if CHR ''.'' \<in> set (tl_Name t) then tl (dropWhile ((\<noteq>) CHR ''.'') (tl_Name t))
             else tl_Name t) in
      FieldsFunc token_sep [] (ToLower name))"

text \<open>What a parameter says about the family: a reason when it makes the tool generic.\<close>

definition param_reason :: "string list \<Rightarrow> param \<Rightarrow> string option" where
  "param_reason tokens p =
     (if pa_Type p \<noteq> [] \<and> pa_Type p \<noteq> ''string'' then None
      else
        (let name = ToLower (pa_Name p) in
         if name \<in> set languageParams then Some (''argument '' @ Quote (pa_Name p) @ '' carries a language'')
         else if name = ''query'' \<and> hasAny tokens runVerbs
         then Some (''argument '' @ Quote (pa_Name p) @ '' is run, not searched'')
         else None))"

text \<open>A signal is a claim of reading or of writing, or a remark that claims neither.\<close>

datatype signal = SRead string | SWrite string | SNote string

fun signal_reason :: "signal \<Rightarrow> string" where
  "signal_reason (SRead s) = s"
| "signal_reason (SWrite s) = s"
| "signal_reason (SNote s) = s"

definition method_signals :: "tool \<Rightarrow> signal list" where
  "method_signals t =
     (let m = ToUpper (tl_Method t) in
      if m = [] then []
      else if m \<in> {''GET'', ''HEAD'', ''OPTIONS''} then [SRead (''HTTP '' @ m)]
      else [SWrite (''HTTP '' @ m)])"

definition annotation_signals :: "tool \<Rightarrow> signal list" where
  "annotation_signals t =
     (case tl_Annotations t of
        None \<Rightarrow> []
      | Some a \<Rightarrow>
          (case an_ReadOnly a of
             None \<Rightarrow> []
           | Some b \<Rightarrow> if b then [SRead ''annotation readOnlyHint=true'']
                       else [SWrite ''annotation readOnlyHint=false''])
          @ (if an_Destructive a = Some True then [SWrite ''annotation destructiveHint=true''] else [])
          @ (if an_OpenWorld a = Some True
             then [SNote ''annotation openWorldHint=true: reaches outside systems''] else []))"

definition token_signals :: "string list \<Rightarrow> signal list" where
  "token_signals tokens =
     concat (map (\<lambda>tok. if tok \<in> set writeVerbs then [SWrite (''name verb '' @ Quote tok)]
                       else if tok \<in> set readVerbs then [SRead (''name verb '' @ Quote tok)]
                       else []) tokens)"

definition tool_signals :: "tool \<Rightarrow> signal list" where
  "tool_signals t = method_signals t @ annotation_signals t @ token_signals (nameTokens t)"

fun is_write :: "signal \<Rightarrow> bool" where
  "is_write (SWrite s) = True"
| "is_write _ = False"

fun is_read :: "signal \<Rightarrow> bool" where
  "is_read (SRead s) = True"
| "is_read _ = False"

definition is_dispatcher :: "tool \<Rightarrow> bool" where
  "is_dispatcher t = (case tl_CLIMeta t of None \<Rightarrow> False | Some m \<Rightarrow> cm_IsCatchAll m)"

definition Classify :: "tool option \<Rightarrow> classification" where
  "Classify tool =
     (case tool of
        None \<Rightarrow> \<lparr>cl_Family = FamilyNamed, cl_Access = AccessUnknown, cl_Reasons = []\<rparr>
      | Some t \<Rightarrow>
          (let family_reasons =
                 (if is_dispatcher t then [''CLI dispatcher: the subcommand is an argument''] else [])
                 @ List.map_filter (param_reason (nameTokens t)) (tl_Params t);
               signals = tool_signals t;
               wr = list_ex is_write signals;
               rd = list_ex is_read signals in
           \<lparr>cl_Family = (if family_reasons \<noteq> [] then FamilyGeneric else FamilyNamed),
            cl_Access = (if wr then AccessWrite else if rd then AccessRead else AccessUnknown),
            cl_Reasons = family_reasons @ map signal_reason signals
              @ (if \<not> wr \<and> \<not> rd then [''no signal''] else [])\<rparr>))"

section \<open>What a registry holds\<close>

lemma registry_Get_set [simp]:
  "registry_Get (registry_set n t r) k = (if k = n then Some t else registry_Get r k)"
  by (simp add: registry_Get_def registry_set_def)

lemma keys_distinct_registry_set [inv_intros]: "keys_distinct r \<Longrightarrow> keys_distinct (registry_set n t r)"
  by (simp add: registry_set_def)

lemma keys_distinct_fold:
  "(\<And>x m. keys_distinct m \<Longrightarrow> keys_distinct (f x m)) \<Longrightarrow> keys_distinct m \<Longrightarrow> keys_distinct (fold f xs m)"
  by (induction xs arbitrary: m) auto

lemma keys_distinct_LoadMCP [inv_intros]: "keys_distinct r \<Longrightarrow> keys_distinct (LoadMCP s ts r)"
  unfolding LoadMCP_def by (rule keys_distinct_fold) (auto intro: inv_intros)

lemma keys_distinct_load_cli_tool [inv_intros]: "keys_distinct r \<Longrightarrow> keys_distinct (load_cli_tool ct r)"
  by (auto simp: load_cli_tool_def Let_def intro!: inv_intros keys_distinct_fold split: option.splits)

lemma keys_distinct_LoadCLI [inv_intros]: "keys_distinct r \<Longrightarrow> keys_distinct (LoadCLI cts r)"
  unfolding LoadCLI_def by (rule keys_distinct_fold) (auto intro: inv_intros)

text \<open>The tools one CLI section can give.\<close>

definition cli_tools_of :: "cli_tool_config \<Rightarrow> tool set" where
  "cli_tools_of ct =
     (case ct_Bare ct of
        Some bare \<Rightarrow> {bare_tool ct bare}
      | None \<Rightarrow> (\<lambda>c. command_tool ct (fst c) (snd c)) ` set (ct_Commands ct)
               \<union> (if ct_Strict ct then {} else {dispatch_tool ct}))"

lemmas tool_builder_defs = bare_tool_def command_tool_def dispatch_tool_def no_tool_def

lemma tool_builder_simps [simp]:
  "tl_Name (bare_tool ct bare) = ct_Name ct @ ''.run''"
  "tl_Name (command_tool ct k cmd) = ct_Name ct @ ''.'' @ k"
  "tl_Name (dispatch_tool ct) = ct_Name ct @ ''.__dispatch''"
  "tl_Source (bare_tool ct bare) = ''cli''"
  "tl_Source (command_tool ct k cmd) = ''cli''"
  "tl_Source (dispatch_tool ct) = ''cli''"
  by (simp_all add: tool_builder_defs)

lemma is_dispatcher_simps [simp]:
  "\<not> is_dispatcher (bare_tool ct bare)"
  "\<not> is_dispatcher (command_tool ct k cmd)"
  "is_dispatcher (dispatch_tool ct)"
  by (simp_all add: is_dispatcher_def tool_builder_defs)

lemma DispatchFloor_simps [simp]:
  "DispatchFloor None = []"
  "DispatchFloor (Some (dispatch_tool ct)) = default_action_of ct"
  "\<not> is_dispatcher t \<Longrightarrow> DispatchFloor (Some t) = []"
  by (simp_all add: is_dispatcher_def DispatchFloor_def tool_builder_defs split: option.splits)

lemma fold_set_Get:
  "registry_Get (fold (\<lambda>x. registry_set (f x) (g x)) xs r) n =
     (case find (\<lambda>x. n = f x) (rev xs) of Some x \<Rightarrow> Some (g x) | None \<Rightarrow> registry_Get r n)"
  by (induction xs arbitrary: r) (auto simp: find_append split: option.splits)

lemma load_cli_tool_Get:
  "registry_Get (load_cli_tool ct r) n = Some t \<Longrightarrow>
   registry_Get r n = Some t \<or> (t \<in> cli_tools_of ct \<and> n = tl_Name t)"
  by (auto simp: load_cli_tool_def cli_tools_of_def Let_def fold_set_Get
      split: option.splits if_splits dest!: find_SomeD)

lemma LoadCLI_Get:
  "registry_Get (LoadCLI cts r) n = Some t \<Longrightarrow>
   registry_Get r n = Some t \<or> (\<exists>ct \<in> set cts. t \<in> cli_tools_of ct \<and> n = tl_Name t)"
proof (induction cts arbitrary: r)
  case Nil
  then show ?case by (simp add: LoadCLI_def)
next
  case (Cons ct cts)
  then show ?case using load_cli_tool_Get [of ct r n t] by (fastforce simp: LoadCLI_def)
qed

lemma LoadCLI_New_Get:
  "registry_Get (LoadCLI cts registry_New) n = Some t \<Longrightarrow>
   \<exists>ct \<in> set cts. t \<in> cli_tools_of ct \<and> n = tl_Name t"
  using LoadCLI_Get [of cts registry_New n t] by (simp add: registry_New_def registry_Get_def)

lemma LoadMCP_Get:
  "registry_Get (LoadMCP s ts r) n =
     (case find (\<lambda>t. n = s @ ''.'' @ mt_Name t) (rev ts) of
        Some t \<Rightarrow> Some (mcp_tool s t)
      | None \<Rightarrow> registry_Get r n)"
  by (simp only: LoadMCP_def fold_set_Get)

lemma RemoveByServer_Get:
  "keys_distinct r \<Longrightarrow>
   registry_Get (RemoveByServer s r) n =
     (case registry_Get r n of
        Some t \<Rightarrow> if tl_MCPServer t = s then None else Some t
      | None \<Rightarrow> None)"
proof (induction r)
  case Nil
  then show ?case by (simp add: RemoveByServer_def registry_Get_def)
next
  case (Cons p r)
  obtain k t where p: "p = (k, t)" by (cases p)
  have "map_of (filter (\<lambda>(name, t). tl_MCPServer t \<noteq> s) r) k = None"
    using Cons.prems by (auto simp: keys_distinct_def p map_of_eq_None_iff)
  with Cons show ?case
    by (auto simp: RemoveByServer_def registry_Get_def keys_distinct_def p)
qed

lemma mcp_tool_server [simp]: "tl_MCPServer (mcp_tool s t) = s"
  by (simp add: mcp_tool_def)

lemma before_last_dot_snoc:
  "CHR ''.'' \<notin> set q \<Longrightarrow> before_last_dot (p @ CHR ''.'' # q) = Some p"
proof (induction p)
  case Nil
  have "CHR ''.'' \<notin> set q \<Longrightarrow> before_last_dot q = None" by (induction q) auto
  with Nil show ?case by simp
qed simp

lemma ResolveCLI_cases:
  assumes "ResolveCLI r name = Some t"
  shows "registry_Get r name = Some t \<and> tl_Source t = ''cli''
    \<or> (\<exists>p. before_last_dot name = Some p \<and> registry_Get r (p @ ''.__dispatch'') = Some t)"
  using assms by (auto simp: ResolveCLI_def Let_def registry_Get_def split: option.splits if_splits)

section \<open>Properties\<close>

text \<open>
  The tools a valid CLI configuration gives carry a floor exactly when they are dynamic
  dispatchers: a dispatcher is named <tool>.__dispatch, comes from a section that is neither
  strict nor bare, and its floor is that section's default action, "deny" when it sets none;
  declared commands and bare binaries have no floor.
\<close>

theorem LoadCLI_floors:
  assumes "\<forall>ct \<in> set cts. valid_cli_tool ct"
    and "registry_Get (LoadCLI cts registry_New) name = Some t"
  shows "if is_dispatcher t
    then \<exists>ct \<in> set cts. name = ct_Name ct @ ''.__dispatch'' \<and> \<not> ct_Strict ct \<and> ct_Bare ct = None
           \<and> DispatchFloor (Some t) = (if ct_DefaultAction ct = [] then ''deny'' else ct_DefaultAction ct)
           \<and> DispatchFloor (Some t) \<in> {''allow'', ''deny'', ''human_approval''}
    else DispatchFloor (Some t) = []"
proof -
  obtain ct where ct: "ct \<in> set cts" "t \<in> cli_tools_of ct" "name = tl_Name t"
    using LoadCLI_New_Get [OF assms(2)] by blast
  show ?thesis
  proof (cases "is_dispatcher t")
    case True
    then have "ct_Bare ct = None" "\<not> ct_Strict ct" "t = dispatch_tool ct"
      using ct(2) by (auto simp: cli_tools_of_def split: option.splits if_splits)
    moreover have "valid_cli_tool ct" using assms(1) ct(1) by blast
    ultimately show ?thesis
      using ct by (auto simp: valid_cli_tool_def default_action_of_def intro!: bexI [OF _ ct(1)])
  next
    case False
    then show ?thesis by simp
  qed
qed

definition demo_cli :: "bool \<Rightarrow> cli_tool_config" where
  "demo_cli strict =
     \<lparr>ct_Name = ''gh'', ct_Bin = ''gh'', ct_DefaultAction = [], ct_Strict = strict,
      ct_WorkingDir = [], ct_Env = [],
      ct_Commands = [(''pr'', \<lparr>cc_AllowedArgs = None, cc_Timeout = ''5s''\<rparr>)], ct_Bare = None\<rparr>"

lemma demo_cli_valid: "valid_cli_tool (demo_cli strict)"
proof -
  have "ParseDuration ''5s'' = Some (5 * second)"
    by (simp add: ParseDuration_def duration_terms.simps is_digit_def unit_ns_def number_val_def
        digit_val_def Let_def)
  then show ?thesis
    by (simp add: valid_cli_tool_def demo_cli_def bad_timeout_def)
qed

theorem LoadCLI_floors_witness:
  "\<exists>t. registry_Get (LoadCLI [demo_cli False] registry_New) ''gh.__dispatch'' = Some t
     \<and> is_dispatcher t \<and> DispatchFloor (Some t) = ''deny''"
proof -
  have g: "registry_Get (LoadCLI [demo_cli False] registry_New) ''gh.__dispatch''
      = Some (dispatch_tool (demo_cli False))"
    by (simp add: LoadCLI_def load_cli_tool_def demo_cli_def)
  have d: "is_dispatcher (dispatch_tool (demo_cli False))" by simp
  have "\<exists>ct \<in> set [demo_cli False]. DispatchFloor (Some (dispatch_tool (demo_cli False)))
      = (if ct_DefaultAction ct = [] then ''deny'' else ct_DefaultAction ct)"
    using LoadCLI_floors [of "[demo_cli False]", OF _ g] d by (auto simp: demo_cli_valid)
  then show ?thesis using g d by (auto simp: demo_cli_def)
qed

text \<open>
  A strict CLI section is closed: when every section is strict or bare, no name at all,
  resolved directly or through the dispatcher fallback, reaches anything but a declared command
  or a declared bare binary.
\<close>

theorem strict_CLI_is_closed:
  assumes "\<forall>ct \<in> set cts. ct_Strict ct \<or> ct_Bare ct \<noteq> None"
    and "ResolveCLI (LoadCLI cts registry_New) name = Some t"
  shows "\<not> is_dispatcher t
    \<and> (\<exists>ct \<in> set cts. (\<exists>(k, cmd) \<in> set (ct_Commands ct). t = command_tool ct k cmd)
          \<or> (\<exists>bare. ct_Bare ct = Some bare \<and> t = bare_tool ct bare))"
proof -
  obtain n where "registry_Get (LoadCLI cts registry_New) n = Some t"
    using ResolveCLI_cases [OF assms(2)] by blast
  then obtain ct where "ct \<in> set cts" "t \<in> cli_tools_of ct"
    by (blast dest: LoadCLI_New_Get)
  with assms(1) show ?thesis
    by (fastforce simp: cli_tools_of_def split: option.splits if_splits)
qed

theorem strict_CLI_is_closed_witness:
  "\<exists>t. ResolveCLI (LoadCLI [demo_cli True] registry_New) ''gh.pr'' = Some t \<and> \<not> is_dispatcher t
     \<and> ResolveCLI (LoadCLI [demo_cli True] registry_New) ''gh.repo'' = None"
proof -
  let ?r = "LoadCLI [demo_cli True] registry_New"
  have r: "?r = [(''gh.pr'', command_tool (demo_cli True) ''pr'' \<lparr>cc_AllowedArgs = None, cc_Timeout = ''5s''\<rparr>)]"
    by (simp add: LoadCLI_def load_cli_tool_def demo_cli_def registry_New_def registry_set_def)
  then obtain t where t: "ResolveCLI ?r ''gh.pr'' = Some t"
    by (simp add: ResolveCLI_def)
  have "\<not> is_dispatcher t"
    using strict_CLI_is_closed [OF _ t] by (simp add: demo_cli_def)
  moreover have "ResolveCLI ?r ''gh.repo'' = None" by (simp add: r ResolveCLI_def)
  ultimately show ?thesis using t by blast
qed

text \<open>
  Only the last dot of a name counts for the dispatcher fallback: a name p.q whose own entry
  is absent resolves to the dispatcher of p, whatever dots p contains, and to nothing when p has
  none. A nested subcommand such as gh.pr.list is therefore not dispatched to gh.
\<close>

theorem ResolveCLI_last_dot:
  assumes "CHR ''.'' \<notin> set q" and "registry_Get r (p @ ''.'' @ q) = None"
  shows "ResolveCLI r (p @ ''.'' @ q) = registry_Get r (p @ ''.__dispatch'')"
  using assms by (simp add: ResolveCLI_def before_last_dot_snoc registry_Get_def)

theorem ResolveCLI_last_dot_witness:
  "ResolveCLI (LoadCLI [demo_cli False] registry_New) ''gh.repo'' = Some (dispatch_tool (demo_cli False))
   \<and> ResolveCLI (LoadCLI [demo_cli False] registry_New) ''gh.repo.list'' = None"
proof -
  let ?r = "LoadCLI [demo_cli False] registry_New"
  have g: "registry_Get ?r n =
      (if n = ''gh.__dispatch'' then Some (dispatch_tool (demo_cli False))
       else if n = ''gh.pr'' then Some (command_tool (demo_cli False) ''pr''
              \<lparr>cc_AllowedArgs = None, cc_Timeout = ''5s''\<rparr>) else None)" for n
    by (simp add: LoadCLI_def load_cli_tool_def demo_cli_def registry_New_def)
      (simp add: registry_Get_def)
  show ?thesis
    using ResolveCLI_last_dot [of "''repo''" ?r "''gh''"] ResolveCLI_last_dot [of "''list''" ?r "''gh.repo''"]
    by (simp add: g)
qed

text \<open>
  Refreshing an MCP server replaces its tools and touches no others: after loading a
  server's tools and removing that server, every name the server used is gone, and every other
  name reads as it did, minus the server's earlier tools.
\<close>

theorem RemoveByServer_LoadMCP:
  assumes "keys_distinct r"
  shows "registry_Get (RemoveByServer s (LoadMCP s ts r)) n =
      (if \<exists>t \<in> set ts. n = s @ ''.'' @ mt_Name t then None
       else (case registry_Get r n of
               Some t \<Rightarrow> if tl_MCPServer t = s then None else Some t
             | None \<Rightarrow> None))"
  using assms
  by (auto simp: RemoveByServer_Get keys_distinct_LoadMCP LoadMCP_Get find_None_conv
      split: option.splits dest!: find_SomeD)

theorem RemoveByServer_LoadMCP_witness:
  "keys_distinct [(''a.b'', no_tool)]
   \<and> registry_Get (RemoveByServer ''s''
        (LoadMCP ''s'' [\<lparr>mt_Name = ''t'', mt_Description = [], mt_Params = [], mt_Annotations = None\<rparr>]
          [(''a.b'', no_tool)])) ''a.b'' = Some no_tool"
  using RemoveByServer_LoadMCP [of "[(''a.b'', no_tool)]" "''s''"
      "[\<lparr>mt_Name = ''t'', mt_Description = [], mt_Params = [], mt_Annotations = None\<rparr>]" "''a.b''"]
  by (simp add: keys_distinct_def registry_Get_def no_tool_def)

text \<open>
  The classification never suggests to allow on conflicting evidence: "allow" is suggested
  exactly for a tool that is no dispatcher, takes no argument that carries a language, and shows
  at least one sign of reading and not a single sign of writing (HTTP method, annotations and
  name verbs together).
\<close>

theorem SuggestedAction_allow_iff:
  "SuggestedAction (Classify tool) = ''allow'' \<longleftrightarrow>
     (\<exists>t. tool = Some t \<and> \<not> is_dispatcher t
        \<and> (\<forall>p \<in> set (tl_Params t). param_reason (nameTokens t) p = None)
        \<and> (\<exists>s \<in> set (tool_signals t). is_read s) \<and> (\<forall>s \<in> set (tool_signals t). \<not> is_write s))"
proof -
  have "List.map_filter f xs = [] \<longleftrightarrow> (\<forall>x \<in> set xs. f x = None)" for f :: "param \<Rightarrow> string option" and xs
    by (induction xs) (auto simp: List.map_filter_simps split: option.splits)
  then show ?thesis
    by (auto simp: SuggestedAction_def Classify_def Let_def list_ex_iff split: option.splits)
qed

theorem SuggestedAction_allow_iff_witness:
  "SuggestedAction (Classify (Some (no_tool\<lparr>tl_Name := ''fs.read_file''\<rparr>))) = ''allow''
   \<and> SuggestedAction (Classify (Some (no_tool\<lparr>tl_Name := ''fs.read_and_delete''\<rparr>))) \<noteq> ''allow''
   \<and> \<not> is_dispatcher (no_tool\<lparr>tl_Name := ''fs.read_file''\<rparr>)"
proof -
  have a: "SuggestedAction (Classify (Some (no_tool\<lparr>tl_Name := ''fs.read_file''\<rparr>))) = ''allow''" by code_simp
  moreover have "SuggestedAction (Classify (Some (no_tool\<lparr>tl_Name := ''fs.read_and_delete''\<rparr>))) \<noteq> ''allow''"
    by code_simp
  ultimately show ?thesis
    using SuggestedAction_allow_iff [of "Some (no_tool\<lparr>tl_Name := ''fs.read_file''\<rparr>)"] by blast
qed

end
