(* ===== verification/Grants.thy ===== *)
theory Grants
  imports Registry
begin

text \<open>
  Temporal grants (\<open>grant/store.go\<close>, \<open>grant/persist.go\<close>): the list of grants in memory, in the
  order they were added, and the table of the state database that mirrors it. The interface
  \<open>restorable\<close> says what an emergency stop needs of such a store: taking the selected grants
  away and putting them back. A write to the database that fails is only logged by the source,
  and is not modelled.
\<close>

section \<open>The store\<close>

record origin =
  og_ApprovalID :: string
  og_TraceID :: string

definition no_origin :: origin where
  "no_origin = \<lparr>og_ApprovalID = [], og_TraceID = []\<rparr>"

record grant =
  g_ID :: string
  g_Agent :: string
  g_Tools :: string
  g_ExpiresAt :: time
  g_GrantedBy :: string
  g_CreatedAt :: time
  g_Origin :: origin

text \<open>\<open>gs_db\<close> is the rows of the table, \<open>None\<close> when no database is attached.\<close>

record grant_store =
  gs_grants :: "grant list"
  gs_db :: "grant list option"

definition grant_IsExpired :: "time \<Rightarrow> grant \<Rightarrow> bool" where
  "grant_IsExpired now g = (now > g_ExpiresAt g)"

definition grant_Remaining :: "time \<Rightarrow> grant \<Rightarrow> duration" where
  "grant_Remaining now g = (let r = g_ExpiresAt g - now in if r < 0 then 0 else r)"

definition grant_NewStore :: grant_store where
  "grant_NewStore = \<lparr>gs_grants = [], gs_db = None\<rparr>"

definition grant_SetDB :: "grant list \<Rightarrow> grant_store \<Rightarrow> grant_store" where
  "grant_SetDB rows s = s\<lparr>gs_db := Some rows\<rparr>"

text \<open>\<open>INSERT OR REPLACE\<close> and \<open>DELETE\<close>, keyed by id.\<close>

definition grant_dbSave :: "grant \<Rightarrow> grant_store \<Rightarrow> grant_store" where
  "grant_dbSave g s =
     s\<lparr>gs_db := map_option (\<lambda>rows. filter (\<lambda>r. g_ID r \<noteq> g_ID g) rows @ [g]) (gs_db s)\<rparr>"

definition grant_dbDelete :: "string \<Rightarrow> grant_store \<Rightarrow> grant_store" where
  "grant_dbDelete gid s = s\<lparr>gs_db := map_option (filter (\<lambda>r. g_ID r \<noteq> gid)) (gs_db s)\<rparr>"

definition AddWithOrigin ::
  "time \<Rightarrow> string \<Rightarrow> string \<Rightarrow> string \<Rightarrow> string \<Rightarrow> duration \<Rightarrow> origin \<Rightarrow> grant_store
     \<Rightarrow> grant \<times> grant_store" where
  "AddWithOrigin now newID agent tools grantedBy dur origin s =
     (let g = \<lparr>g_ID = newID, g_Agent = agent, g_Tools = tools, g_ExpiresAt = now + dur,
               g_GrantedBy = grantedBy, g_CreatedAt = now, g_Origin = origin\<rparr> in
      (g, grant_dbSave g (s\<lparr>gs_grants := gs_grants s @ [g]\<rparr>)))"

definition grant_Add ::
  "time \<Rightarrow> string \<Rightarrow> string \<Rightarrow> string \<Rightarrow> string \<Rightarrow> duration \<Rightarrow> grant_store \<Rightarrow> grant \<times> grant_store" where
  "grant_Add now newID agent tools grantedBy dur s =
     AddWithOrigin now newID agent tools grantedBy dur no_origin s"

definition matchPattern :: "string \<Rightarrow> string \<Rightarrow> bool" where
  "matchPattern pattern value = Glob pattern value"

fun check_grants :: "time \<Rightarrow> string \<Rightarrow> string \<Rightarrow> grant list \<Rightarrow> grant option" where
  "check_grants now agentID toolName [] = None"
| "check_grants now agentID toolName (g # gs) =
     (if grant_IsExpired now g then check_grants now agentID toolName gs
      else if \<not> matchPattern (g_Agent g) agentID then check_grants now agentID toolName gs
      else if \<not> matchPattern (g_Tools g) toolName then check_grants now agentID toolName gs
      else Some g)"

definition grant_Check :: "time \<Rightarrow> string \<Rightarrow> string \<Rightarrow> grant_store \<Rightarrow> grant option" where
  "grant_Check now agentID toolName s = check_grants now agentID toolName (gs_grants s)"

definition id_matches :: "string \<Rightarrow> string \<Rightarrow> bool" where
  "id_matches full gid =
     (full = gid \<or> (length gid \<ge> 4 \<and> length full \<ge> length gid \<and> take (length gid) full = gid))"

fun revoke_first :: "string \<Rightarrow> grant list \<Rightarrow> (grant \<times> grant list) option" where
  "revoke_first gid [] = None"
| "revoke_first gid (g # gs) =
     (if id_matches (g_ID g) gid then Some (g, gs)
      else map_option (\<lambda>(h, rest). (h, g # rest)) (revoke_first gid gs))"

definition grant_Revoke :: "string \<Rightarrow> grant_store \<Rightarrow> bool \<times> grant_store" where
  "grant_Revoke gid s =
     (case revoke_first gid (gs_grants s) of
        Some (g, rest) \<Rightarrow> (True, grant_dbDelete (g_ID g) (s\<lparr>gs_grants := rest\<rparr>))
      | None \<Rightarrow> (False, s))"

definition RevokeWhere :: "time \<Rightarrow> (grant \<Rightarrow> bool) \<Rightarrow> grant_store \<Rightarrow> grant list \<times> grant_store" where
  "RevokeWhere now selects s =
     (let gone = (\<lambda>g. \<not> grant_IsExpired now g \<and> selects g);
          revoked = filter gone (gs_grants s) in
      (revoked,
       (fold (\<lambda>g. grant_dbDelete (g_ID g)) revoked s)\<lparr>gs_grants := filter (\<lambda>g. \<not> gone g) (gs_grants s)\<rparr>))"

definition grant_Restore :: "time \<Rightarrow> grant \<Rightarrow> grant_store \<Rightarrow> bool \<times> grant_store" where
  "grant_Restore now g s =
     (if grant_IsExpired now g then (False, s)
      else if list_ex (\<lambda>existing. g_ID existing = g_ID g) (gs_grants s) then (False, s)
      else (True, grant_dbSave g (s\<lparr>gs_grants := gs_grants s @ [g]\<rparr>)))"

definition grant_List :: "time \<Rightarrow> grant_store \<Rightarrow> grant list" where
  "grant_List now s = filter (\<lambda>g. \<not> grant_IsExpired now g) (gs_grants s)"

definition grant_Cleanup :: "time \<Rightarrow> grant_store \<Rightarrow> nat \<times> grant_store" where
  "grant_Cleanup now s =
     (length (filter (grant_IsExpired now) (gs_grants s)),
      s\<lparr>gs_grants := filter (\<lambda>g. \<not> grant_IsExpired now g) (gs_grants s)\<rparr>)"

text \<open>
  \<open>LoadAll\<close>: the table is first cleaned of the rows whose expiry is before now, as texts in
  RFC 3339 format; \<open>text_before\<close> is that comparison. Rows that are expired all the same are
  skipped.
\<close>

definition grant_dbCleanup :: "(time \<Rightarrow> time \<Rightarrow> bool) \<Rightarrow> time \<Rightarrow> grant_store \<Rightarrow> grant_store" where
  "grant_dbCleanup text_before now s =
     s\<lparr>gs_db := map_option (filter (\<lambda>r. \<not> text_before (g_ExpiresAt r) now)) (gs_db s)\<rparr>"

definition grant_LoadAll :: "(time \<Rightarrow> time \<Rightarrow> bool) \<Rightarrow> time \<Rightarrow> grant_store \<Rightarrow> nat \<times> grant_store" where
  "grant_LoadAll text_before now s =
     (case gs_db s of
        None \<Rightarrow> (0, s)
      | Some _ \<Rightarrow>
          (let s1 = grant_dbCleanup text_before now s;
               fresh = filter (\<lambda>g. \<not> grant_IsExpired now g) (the (gs_db s1)) in
           (length fresh, s1\<lparr>gs_grants := gs_grants s1 @ fresh\<rparr>)))"

section \<open>Live grants\<close>

definition live :: "time \<Rightarrow> grant_store \<Rightarrow> grant set" where
  "live now s = {g \<in> set (gs_grants s). \<not> grant_IsExpired now g}"

definition covers :: "grant \<Rightarrow> string \<Rightarrow> string \<Rightarrow> bool" where
  "covers g agentID toolName = (Glob (g_Agent g) agentID \<and> Glob (g_Tools g) toolName)"

lemma check_grants_find:
  "check_grants now a t gs = find (\<lambda>g. \<not> grant_IsExpired now g \<and> covers g a t) gs"
  by (induction gs) (auto simp: covers_def matchPattern_def)

lemma grant_Check_SomeD:
  "grant_Check now a t s = Some g \<Longrightarrow> g \<in> live now s \<and> covers g a t"
  by (auto simp: grant_Check_def check_grants_find live_def dest: find_SomeD)

lemma grant_Check_None_iff:
  "grant_Check now a t s = None \<longleftrightarrow> (\<forall>g \<in> live now s. \<not> covers g a t)"
  by (auto simp: grant_Check_def check_grants_find live_def find_None_conv)

lemma live_mono: "now \<le> now' \<Longrightarrow> live now' s \<subseteq> live now s"
  by (auto simp: live_def grant_IsExpired_def)

definition ids :: "grant_store \<Rightarrow> string set" where
  "ids s = g_ID ` set (gs_grants s)"

definition grants_inv :: "grant_store \<Rightarrow> bool" where
  "grants_inv s = distinct (map g_ID (gs_grants s))"

lemma gs_grants_db [simp]:
  "gs_grants (grant_dbSave g s) = gs_grants s"
  "gs_grants (grant_dbDelete gid s) = gs_grants s"
  "gs_grants (fold (\<lambda>g. grant_dbDelete (g_ID g)) gs s) = gs_grants s"
proof -
  show "gs_grants (fold (\<lambda>g. grant_dbDelete (g_ID g)) gs s) = gs_grants s"
    by (induction gs arbitrary: s) (auto simp: grant_dbDelete_def)
qed (simp_all add: grant_dbSave_def grant_dbDelete_def)

lemma distinct_map_inj:
  "distinct (map f xs) \<Longrightarrow> x \<in> set xs \<Longrightarrow> y \<in> set xs \<Longrightarrow> f x = f y \<Longrightarrow> x = y"
  by (auto simp: distinct_map dest: inj_onD)

section \<open>What an emergency stop needs of a store\<close>

locale restorable =
  fixes inv :: "'s \<Rightarrow> bool"
    and live_at :: "int \<Rightarrow> 's \<Rightarrow> 'g set"
    and keys :: "'s \<Rightarrow> 'k set"
    and key :: "'g \<Rightarrow> 'k"
    and valid :: "int \<Rightarrow> 'g \<Rightarrow> bool"
    and revoke :: "int \<Rightarrow> ('g \<Rightarrow> bool) \<Rightarrow> 's \<Rightarrow> 'g list \<times> 's"
    and restore :: "int \<Rightarrow> 'g \<Rightarrow> 's \<Rightarrow> 's"
  assumes revoke_inv: "inv s \<Longrightarrow> inv (snd (revoke now sel s))"
    and revoke_set: "set (fst (revoke now sel s)) = {g \<in> live_at now s. sel g}"
    and revoke_live: "inv s \<Longrightarrow> live_at t (snd (revoke now sel s)) = live_at t s - set (fst (revoke now sel s))"
    and revoke_keys: "inv s \<Longrightarrow> keys (snd (revoke now sel s)) \<inter> key ` set (fst (revoke now sel s)) = {}"
    and revoke_distinct: "inv s \<Longrightarrow> distinct (map key (fst (revoke now sel s)))"
    and restore_inv: "inv s \<Longrightarrow> key g \<notin> keys s \<Longrightarrow> inv (restore now g s)"
    and restore_live: "inv s \<Longrightarrow> key g \<notin> keys s \<Longrightarrow>
          live_at now (restore now g s) = live_at now s \<union> (if valid now g then {g} else {})"
    and restore_keys: "keys (restore now g s) \<subseteq> insert (key g) (keys s)"
    and live_valid: "live_at t s \<subseteq> {g. valid t g}"
    and live_mono: "t \<le> t' \<Longrightarrow> live_at t' s = {g \<in> live_at t s. valid t' g}"
begin

lemma restore_all:
  assumes "inv s" and "distinct (map key gs)" and "keys s \<inter> key ` set gs = {}"
  shows "inv (fold (restore now) gs s)
    \<and> live_at now (fold (restore now) gs s) = live_at now s \<union> {g \<in> set gs. valid now g}"
  using assms
proof (induction gs arbitrary: s)
  case Nil
  then show ?case by simp
next
  case (Cons g gs)
  have "keys (restore now g s) \<inter> key ` set gs = {}"
    using Cons.prems by (auto dest!: subsetD [OF restore_keys]) (metis imageI)
  moreover have "inv (restore now g s)" using Cons.prems by (intro restore_inv) auto
  ultimately show ?case
    using Cons.IH [of "restore now g s"] Cons.prems restore_live [of s g now] by auto
qed

lemma stop_then_resume:
  assumes "inv s" and "now \<le> later"
  shows "live_at later (fold (restore later) (fst (revoke now sel s)) (snd (revoke now sel s)))
    = live_at later s"
proof -
  let ?gs = "fst (revoke now sel s)" and ?s = "snd (revoke now sel s)"
  have "live_at later (fold (restore later) ?gs ?s) = live_at later ?s \<union> {g \<in> set ?gs. valid later g}"
    using restore_all [of ?s ?gs later] revoke_inv [OF assms(1)] revoke_distinct [OF assms(1)]
      revoke_keys [OF assms(1)] by simp
  also have "\<dots> = live_at later s"
    using assms live_mono [OF assms(2), of s] by (auto simp: revoke_live revoke_set)
  finally show ?thesis .
qed

lemma stopped_gone:
  assumes "inv s" and "now \<le> later" and "g \<in> live_at later (snd (revoke now sel s))"
  shows "\<not> sel g"
  using assms live_mono [OF assms(2), of s] by (auto simp: revoke_live revoke_set)

end

interpretation grant_halt: restorable grants_inv live ids g_ID "\<lambda>now g. \<not> grant_IsExpired now g"
  RevokeWhere "\<lambda>now g s. snd (grant_Restore now g s)"
proof unfold_locales
  fix s now sel t
  assume inv: "grants_inv s"
  note inj = distinct_map_inj [OF inv [unfolded grants_inv_def]]
  show "grants_inv (snd (RevokeWhere now sel s))"
    using inv by (simp add: grants_inv_def RevokeWhere_def Let_def distinct_map_filter)
  show "live t (snd (RevokeWhere now sel s)) = live t s - set (fst (RevokeWhere now sel s))"
    by (auto simp: live_def RevokeWhere_def Let_def)
  show "ids (snd (RevokeWhere now sel s)) \<inter> g_ID ` set (fst (RevokeWhere now sel s)) = {}"
    by (auto simp: ids_def RevokeWhere_def Let_def dest: inj)
  show "distinct (map g_ID (fst (RevokeWhere now sel s)))"
    using inv by (simp add: grants_inv_def RevokeWhere_def Let_def distinct_map_filter)
next
  fix s and g :: grant and now
  assume "grants_inv s" and "g_ID g \<notin> ids s"
  then have "\<not> list_ex (\<lambda>existing. g_ID existing = g_ID g) (gs_grants s)"
    by (simp add: ids_def list_ex_key)
  with \<open>grants_inv s\<close> \<open>g_ID g \<notin> ids s\<close> show "grants_inv (snd (grant_Restore now g s))"
    and "live now (snd (grant_Restore now g s))
      = live now s \<union> (if \<not> grant_IsExpired now g then {g} else {})"
    by (auto simp: grants_inv_def grant_Restore_def live_def ids_def)
next
  show "ids (snd (grant_Restore now g s)) \<subseteq> insert (g_ID g) (ids s)" for now s and g :: grant
    by (auto simp: grant_Restore_def ids_def)
  show "set (fst (RevokeWhere now sel s)) = {g \<in> live now s. sel g}" for now s and sel :: "grant \<Rightarrow> bool"
    by (auto simp: RevokeWhere_def live_def Let_def)
qed (auto simp: live_def grant_IsExpired_def)

section \<open>Reachable stores\<close>

text \<open>
  A store with a database after any sequence of operations, with the clock moving forward and
  fresh identifiers (\<open>crypto/rand\<close> does not repeat one).
\<close>

definition row_ids :: "grant_store \<Rightarrow> string set" where
  "row_ids s = (case gs_db s of None \<Rightarrow> {} | Some rows \<Rightarrow> g_ID ` set rows)"

inductive grant_step :: "time \<times> grant_store \<Rightarrow> time \<times> grant_store \<Rightarrow> bool" where
  tick: "now \<le> now' \<Longrightarrow> grant_step (now, s) (now', s)"
| add: "i \<notin> ids s \<Longrightarrow> i \<notin> row_ids s \<Longrightarrow>
    grant_step (now, s) (now, snd (AddWithOrigin now i agent tools grantor dur orig s))"
| revoke: "grant_step (now, s) (now, snd (grant_Revoke i s))"
| revoke_where: "grant_step (now, s) (now, snd (RevokeWhere now sel s))"
| restore: "grant_step (now, s) (now, snd (grant_Restore now g s))"
| cleanup: "grant_step (now, s) (now, snd (grant_Cleanup now s))"

text \<open>
  The mirror invariant: identifiers are distinct in memory and in the table, and the two agree
  on every grant that has not expired.
\<close>

definition rows_of :: "grant_store \<Rightarrow> grant list" where
  "rows_of s = (case gs_db s of None \<Rightarrow> [] | Some rows \<Rightarrow> rows)"

definition mirrored :: "time \<times> grant_store \<Rightarrow> bool" where
  "mirrored ts =
     (let now = fst ts; s = snd ts in
      gs_db s \<noteq> None \<and> grants_inv s \<and> distinct (map g_ID (rows_of s))
      \<and> (\<forall>g. \<not> grant_IsExpired now g \<longrightarrow> (g \<in> set (rows_of s) \<longleftrightarrow> g \<in> set (gs_grants s))))"

lemma fold_dbDelete:
  "gs_db (fold (\<lambda>g. grant_dbDelete (g_ID g)) gs s)
     = map_option (filter (\<lambda>r. g_ID r \<notin> g_ID ` set gs)) (gs_db s)"
proof (induction gs arbitrary: s)
  case Nil
  then show ?case by (cases "gs_db s") auto
next
  case (Cons g gs)
  then show ?case by (cases "gs_db s") (auto simp: grant_dbDelete_def intro!: filter_cong)
qed

lemma revoke_first_SomeD:
  "revoke_first i gs = Some (g, rest) \<Longrightarrow>
   \<exists>us vs. gs = us @ g # vs \<and> rest = us @ vs \<and> id_matches (g_ID g) i
     \<and> (\<forall>u \<in> set us. \<not> id_matches (g_ID u) i)"
proof (induction gs arbitrary: g rest)
  case Nil
  then show ?case by simp
next
  case (Cons h gs)
  show ?case
  proof (cases "id_matches (g_ID h) i")
    case True
    with Cons.prems have "h # gs = [] @ g # gs \<and> rest = [] @ gs \<and> id_matches (g_ID g) i" by simp
    then show ?thesis by fastforce
  next
    case False
    with Cons.prems obtain rest' where r: "revoke_first i gs = Some (g, rest')" "rest = h # rest'"
      by auto
    from Cons.IH [OF r(1)] obtain us vs where
      "gs = us @ g # vs \<and> rest' = us @ vs \<and> id_matches (g_ID g) i
        \<and> (\<forall>u \<in> set us. \<not> id_matches (g_ID u) i)" by blast
    with r(2) False show ?thesis by (intro exI [of _ "h # us"] exI [of _ vs]) auto
  qed
qed

lemma revoke_first_None_iff: "revoke_first i gs = None \<longleftrightarrow> (\<forall>g \<in> set gs. \<not> id_matches (g_ID g) i)"
  by (induction gs) (auto split: option.splits)

lemma rows_of_simps [simp]:
  "gs_db s \<noteq> None \<Longrightarrow> rows_of (grant_dbSave g s) = filter (\<lambda>r. g_ID r \<noteq> g_ID g) (rows_of s) @ [g]"
  "rows_of (grant_dbDelete i s) = filter (\<lambda>r. g_ID r \<noteq> i) (rows_of s)"
  "rows_of (fold (\<lambda>g. grant_dbDelete (g_ID g)) gs s) = filter (\<lambda>r. g_ID r \<notin> g_ID ` set gs) (rows_of s)"
  "rows_of (s\<lparr>gs_grants := gs\<rparr>) = rows_of s"
  by (auto simp: rows_of_def grant_dbSave_def grant_dbDelete_def fold_dbDelete split: option.splits)

lemma gs_db_None [simp]:
  "gs_db (grant_dbSave g s) = None \<longleftrightarrow> gs_db s = None"
  "gs_db (grant_dbDelete i s) = None \<longleftrightarrow> gs_db s = None"
  "gs_db (fold (\<lambda>g. grant_dbDelete (g_ID g)) gs s) = None \<longleftrightarrow> gs_db s = None"
  by (auto simp: grant_dbSave_def grant_dbDelete_def fold_dbDelete)

lemma mirroredI:
  assumes "gs_db s \<noteq> None" and "grants_inv s" and "distinct (map g_ID (rows_of s))"
    and "\<And>g. \<not> grant_IsExpired now g \<Longrightarrow> g \<in> set (rows_of s) \<longleftrightarrow> g \<in> set (gs_grants s)"
  shows "mirrored (now, s)"
  using assms by (simp add: mirrored_def)

lemma mirroredD:
  assumes "mirrored (now, s)"
  shows "gs_db s \<noteq> None" and "grants_inv s" and "distinct (map g_ID (rows_of s))"
    and "\<And>g. \<not> grant_IsExpired now g \<Longrightarrow> g \<in> set (rows_of s) \<longleftrightarrow> g \<in> set (gs_grants s)"
  using assms by (simp_all add: mirrored_def Let_def)

lemma row_ids_rows_of: "row_ids s = g_ID ` set (rows_of s)"
  by (simp add: row_ids_def rows_of_def split: option.splits)

lemma mirrored_add:
  assumes m: "mirrored (now, s)" and i: "i \<notin> ids s" "i \<notin> row_ids s"
  shows "mirrored (now, snd (AddWithOrigin now i agent tools grantor dur orig s))"
proof -
  note m = mirroredD [OF m]
  show ?thesis
  proof (rule mirroredI)
    fix g assume "\<not> grant_IsExpired now g"
    with m(4) [of g] i(2) show "g \<in> set (rows_of (snd (AddWithOrigin now i agent tools grantor dur orig s)))
        \<longleftrightarrow> g \<in> set (gs_grants (snd (AddWithOrigin now i agent tools grantor dur orig s)))"
      using m(1) by (auto simp: AddWithOrigin_def Let_def row_ids_rows_of)
  qed (use m i in \<open>auto simp: AddWithOrigin_def Let_def grants_inv_def ids_def distinct_map_filter
      row_ids_rows_of\<close>)
qed

lemma mirrored_revoke:
  assumes m: "mirrored (now, s)"
  shows "mirrored (now, snd (grant_Revoke i s))"
proof (cases "revoke_first i (gs_grants s)")
  case None
  with m show ?thesis by (simp add: grant_Revoke_def)
next
  case (Some p)
  obtain g rest where p: "p = (g, rest)" by (cases p)
  note m = mirroredD [OF m]
  from revoke_first_SomeD [OF Some [unfolded p]] obtain us vs where
    split: "gs_grants s = us @ g # vs" "rest = us @ vs" by blast
  have rest: "h \<in> set rest \<longleftrightarrow> h \<in> set (gs_grants s) \<and> g_ID h \<noteq> g_ID g" for h
    using m(2) by (auto simp: split grants_inv_def) (metis imageI)+
  have dist: "distinct (map g_ID rest)"
    using m(2) by (auto simp: split grants_inv_def)
  show ?thesis
    using m dist by (intro mirroredI) (auto simp: grant_Revoke_def Some p grants_inv_def rest distinct_map_filter)
qed

lemma mirrored_revoke_where:
  assumes m: "mirrored (now, s)"
  shows "mirrored (now, snd (RevokeWhere now sel s))"
proof -
  note m = mirroredD [OF m]
  let ?s = "snd (RevokeWhere now sel s)"
  have "g \<in> set (rows_of ?s) \<longleftrightarrow> g \<in> set (gs_grants ?s)" if "\<not> grant_IsExpired now g" for g
    using that m(4) [of g] distinct_map_inj [OF m(2) [unfolded grants_inv_def]]
    by (auto simp: RevokeWhere_def Let_def)
  then show ?thesis
    using m by (intro mirroredI) (auto simp: RevokeWhere_def Let_def grants_inv_def distinct_map_filter)
qed

lemma mirrored_restore:
  assumes m: "mirrored (now, s)"
  shows "mirrored (now, snd (grant_Restore now g s))"
proof (cases "grant_IsExpired now g \<or> g_ID g \<in> ids s")
  case True
  with m show ?thesis by (auto simp: grant_Restore_def list_ex_key ids_def)
next
  case False
  then have s': "snd (grant_Restore now g s) = grant_dbSave g (s\<lparr>gs_grants := gs_grants s @ [g]\<rparr>)"
    by (simp add: grant_Restore_def list_ex_key ids_def)
  note m = mirroredD [OF m]
  show ?thesis
    unfolding s'
  proof (rule mirroredI)
    fix h assume "\<not> grant_IsExpired now h"
    with m(4) [of h] False show "h \<in> set (rows_of (grant_dbSave g (s\<lparr>gs_grants := gs_grants s @ [g]\<rparr>)))
        \<longleftrightarrow> h \<in> set (gs_grants (grant_dbSave g (s\<lparr>gs_grants := gs_grants s @ [g]\<rparr>)))"
      using m(1) by (auto simp: ids_def) (metis imageI)
  qed (use m False in \<open>auto simp: grants_inv_def ids_def distinct_map_filter\<close>)
qed

lemma mirrored_cleanup:
  assumes m: "mirrored (now, s)"
  shows "mirrored (now, snd (grant_Cleanup now s))"
  using mirroredD [OF m]
  by (intro mirroredI) (auto simp: grant_Cleanup_def grants_inv_def distinct_map_filter)

lemma mirrored_tick:
  assumes m: "mirrored (now, s)" and "now \<le> now'"
  shows "mirrored (now', s)"
  using mirroredD [OF m] assms(2) by (intro mirroredI) (auto simp: grant_IsExpired_def)

lemma mirrored_step: "grant_step x y \<Longrightarrow> mirrored x \<Longrightarrow> mirrored y"
  by (induction rule: grant_step.induct)
    (auto intro: mirrored_tick mirrored_add mirrored_revoke mirrored_revoke_where mirrored_restore
      mirrored_cleanup)

lemma mirrored_steps: "grant_step\<^sup>*\<^sup>* x y \<Longrightarrow> mirrored x \<Longrightarrow> mirrored y"
  by (induction rule: rtranclp_induct) (auto intro: mirrored_step)

lemma mirrored_start: "mirrored (now, grant_SetDB [] grant_NewStore)"
  by (simp add: mirrored_def grant_SetDB_def grant_NewStore_def grants_inv_def rows_of_def)

section \<open>Properties\<close>

text \<open>
  Check is sound, complete and time-bounded: it returns a grant of the store exactly when
  some unexpired grant covers the agent and the tool, the grant it returns is such a one, and
  it was issued for a period that has not ended.
\<close>

theorem grant_Check_spec:
  "(case grant_Check now a t s of
      Some g \<Rightarrow> g \<in> set (gs_grants s) \<and> now \<le> g_ExpiresAt g \<and> Glob (g_Agent g) a \<and> Glob (g_Tools g) t
    | None \<Rightarrow> \<forall>g \<in> set (gs_grants s). now \<le> g_ExpiresAt g \<longrightarrow> \<not> (Glob (g_Agent g) a \<and> Glob (g_Tools g) t))"
proof (cases "grant_Check now a t s")
  case None
  then show ?thesis
    unfolding grant_Check_None_iff by (auto simp: None live_def covers_def grant_IsExpired_def)
next
  case (Some g)
  then show ?thesis
    using grant_Check_SomeD [OF Some] by (auto simp: live_def covers_def grant_IsExpired_def)
qed

definition demo_grants :: grant_store where
  "demo_grants = snd (grant_Add 0 ''01234567'' ''*'' ''fs.*'' ''me'' 100 grant_NewStore)"

theorem grant_Check_spec_witness:
  "\<exists>g. grant_Check 100 ''bot'' ''fs.read'' demo_grants = Some g \<and> 100 \<le> g_ExpiresAt g
     \<and> grant_Check 101 ''bot'' ''fs.read'' demo_grants = None"
proof -
  have "grant_Check 100 ''bot'' ''fs.read'' demo_grants \<noteq> None" by code_simp
  then obtain g where g: "grant_Check 100 ''bot'' ''fs.read'' demo_grants = Some g" by auto
  have "grant_Check 101 ''bot'' ''fs.read'' demo_grants = None" by code_simp
  with g grant_Check_spec [where now = 100 and a = "''bot''" and t = "''fs.read''" and s = demo_grants] show ?thesis by auto
qed

text \<open>
  Revoking by identifier removes at most one grant, the first whose identifier equals or
  (from four characters on) starts with the given text, leaves the others in place and in
  order, and answers false and changes nothing exactly when none matches.
\<close>

theorem grant_Revoke_spec:
  "(\<exists>us g vs. gs_grants s = us @ g # vs \<and> gs_grants (snd (grant_Revoke i s)) = us @ vs
      \<and> (g_ID g = i \<or> 4 \<le> length i \<and> HasPrefix (g_ID g) i)
      \<and> (\<forall>u \<in> set us. \<not> (g_ID u = i \<or> 4 \<le> length i \<and> HasPrefix (g_ID u) i))
      \<and> fst (grant_Revoke i s))
   \<or> ((\<forall>u \<in> set (gs_grants s). \<not> (g_ID u = i \<or> 4 \<le> length i \<and> HasPrefix (g_ID u) i))
      \<and> grant_Revoke i s = (False, s))"
proof -
  have m: "id_matches full i \<longleftrightarrow> full = i \<or> 4 \<le> length i \<and> HasPrefix full i" for full
    by (auto simp: id_matches_def HasPrefix_def prefix_def) (metis append_take_drop_id)
  show ?thesis
  proof (cases "revoke_first i (gs_grants s)")
    case None
    then have "grant_Revoke i s = (False, s)" by (simp add: grant_Revoke_def)
    with None show ?thesis by (simp add: revoke_first_None_iff m)
  next
    case (Some p)
    then obtain g rest where "revoke_first i (gs_grants s) = Some (g, rest)" by (cases p) auto
    then obtain us vs where
      uv: "gs_grants s = us @ g # vs" "rest = us @ vs" "id_matches (g_ID g) i"
        "\<forall>u \<in> set us. \<not> id_matches (g_ID u) i"
      using revoke_first_SomeD by blast
    have "grant_Revoke i s = (True, grant_dbDelete (g_ID g) (s\<lparr>gs_grants := rest\<rparr>))"
      by (simp add: grant_Revoke_def \<open>revoke_first i (gs_grants s) = Some (g, rest)\<close>)
    with uv show ?thesis by (intro disjI1 exI [of _ us] exI [of _ g] exI [of _ vs]) (simp add: m)
  qed
qed

theorem grant_Revoke_spec_witness:
  "grant_Revoke ''0123'' demo_grants = (True, demo_grants\<lparr>gs_grants := []\<rparr>)
   \<and> grant_Revoke ''012'' demo_grants = (False, demo_grants)"
proof -
  have g: "gs_grants demo_grants = [\<lparr>g_ID = ''01234567'', g_Agent = ''*'', g_Tools = ''fs.*'',
      g_ExpiresAt = 100, g_GrantedBy = ''me'', g_CreatedAt = 0, g_Origin = no_origin\<rparr>]"
    by (simp add: demo_grants_def grant_Add_def AddWithOrigin_def Let_def grant_NewStore_def)
  have "grant_Revoke ''0123'' demo_grants = (True, demo_grants\<lparr>gs_grants := []\<rparr>)"
    by (simp add: grant_Revoke_def g id_matches_def grant_dbDelete_def)
      (simp add: demo_grants_def grant_Add_def AddWithOrigin_def Let_def grant_NewStore_def grant_dbSave_def)
  moreover have "grant_Revoke ''012'' demo_grants = (False, demo_grants)"
    using grant_Revoke_spec [of demo_grants "''012''"] by (auto simp: g Cons_eq_append_conv)
  ultimately show ?thesis by blast
qed

text \<open>
  Taking grants away and restoring them later is transparent: once every revoked grant has
  been restored, each agent and tool is covered exactly when it would have been had nothing
  been revoked, and a grant that expired in the meantime does not come back.
\<close>

theorem revoke_then_restore:
  assumes "grants_inv s" and "now \<le> later"
  shows "grant_Check later a t
       (fold (\<lambda>g s. snd (grant_Restore later g s)) (fst (RevokeWhere now sel s)) (snd (RevokeWhere now sel s)))
       = None \<longleftrightarrow> grant_Check later a t s = None"
  unfolding grant_Check_None_iff
  by (simp only: grant_halt.stop_then_resume [OF assms])

theorem revoke_then_restore_witness:
  "grant_Check 50 ''bot'' ''fs.read'' (fold (\<lambda>g s. snd (grant_Restore 50 g s))
      (fst (RevokeWhere 10 (\<lambda>_. True) demo_grants)) (snd (RevokeWhere 10 (\<lambda>_. True) demo_grants))) \<noteq> None
   \<and> grant_Check 50 ''bot'' ''fs.read'' (snd (RevokeWhere 10 (\<lambda>_. True) demo_grants)) = None"
proof -
  have inv: "grants_inv demo_grants"
    by (simp add: grants_inv_def demo_grants_def grant_Add_def AddWithOrigin_def Let_def grant_NewStore_def)
  have "grant_Check 50 ''bot'' ''fs.read'' demo_grants \<noteq> None" by code_simp
  moreover have "grant_Check 50 ''bot'' ''fs.read'' (snd (RevokeWhere 10 (\<lambda>_. True) demo_grants)) = None"
    by code_simp
  ultimately show ?thesis
    using revoke_then_restore [OF inv, of 10 50 "''bot''" "''fs.read''" "\<lambda>_. True"] by simp
qed

text \<open>
  Grants survive a restart: after any sequence of operations on a store with a database, a
  new process that loads the table has live grants only of the old store, and all of them but
  possibly those within a second of expiry: the clean-up compares the texts of two times, which
  orders them correctly when they are a second or more apart.
\<close>

theorem grants_survive_restart:
  assumes reach: "grant_step\<^sup>*\<^sup>* (t0, grant_SetDB [] grant_NewStore) (now, s)"
    and cmp: "\<And>e. text_before e now \<Longrightarrow> e < now + second"
  shows "live now (snd (grant_LoadAll text_before now (grant_SetDB (rows_of s) grant_NewStore)))
           \<subseteq> live now s
    \<and> {g \<in> live now s. now + second \<le> g_ExpiresAt g}
           \<subseteq> live now (snd (grant_LoadAll text_before now (grant_SetDB (rows_of s) grant_NewStore)))"
proof -
  have m: "mirrored (now, s)"
    by (rule mirrored_steps [OF reach mirrored_start])
  have rows: "live now (snd (grant_LoadAll text_before now (grant_SetDB (rows_of s) grant_NewStore)))
      = {g \<in> set (rows_of s). \<not> text_before (g_ExpiresAt g) now \<and> \<not> grant_IsExpired now g}"
    by (auto simp: grant_LoadAll_def grant_dbCleanup_def grant_SetDB_def grant_NewStore_def live_def
        Let_def)
  show ?thesis
    unfolding rows using mirroredD(4) [OF m] cmp by (fastforce simp: live_def)
qed

definition demo_table :: grant_store where
  "demo_table =
     snd (AddWithOrigin 0 ''a'' ''*'' ''*'' ''me'' (100 * second) no_origin (grant_SetDB [] grant_NewStore))"

theorem grants_survive_restart_witness:
  "live (50 * second)
     (snd (grant_LoadAll (<) (50 * second) (grant_SetDB (rows_of demo_table) grant_NewStore)))
    \<subseteq> live (50 * second) demo_table"
proof -
  have "grant_step (0, grant_SetDB [] grant_NewStore) (0, demo_table)"
    unfolding demo_table_def
    by (rule grant_step.add) (simp_all add: ids_def row_ids_def grant_SetDB_def grant_NewStore_def)
  moreover have "grant_step (0, demo_table) (50 * second, demo_table)" by (rule grant_step.tick) simp
  ultimately have "grant_step\<^sup>*\<^sup>* (0, grant_SetDB [] grant_NewStore) (50 * second, demo_table)"
    by (rule converse_rtranclp_into_rtranclp [OF _ r_into_rtranclp])
  from grants_survive_restart [OF this, of "(<)"] show ?thesis by simp
qed

end
