(* ===== verification/Halts.thy ===== *)
theory Halts
  imports Grants
begin

text \<open>
  The emergency stop (\<open>halt/halt.go\<close>): the halts in force as one process sees them, the table
  of the state database it shares with the others, and the bounded staleness of that copy. The
  environment of an operation is its clock, whether the database answers, and the text format
  of a time (RFC 3339), by which the table is ordered.
\<close>

section \<open>Halts\<close>

record halt =
  h_ID :: string
  h_Scope :: string
  h_Target :: string
  h_Reason :: string
  h_CreatedBy :: string
  h_CreatedAt :: time
  h_ResumedBy :: string
  h_ResumedAt :: time
  h_RevokedGrants :: "grant list"

definition Covers :: "halt \<Rightarrow> string \<Rightarrow> string \<Rightarrow> bool" where
  "Covers h agentID sessionID =
     (if h_Scope h = ''all'' then True
      else if h_Scope h = ''agent'' then Glob (h_Target h) agentID
      else if h_Scope h = ''session'' then sessionID \<noteq> [] \<and> sessionID = h_Target h
      else False)"

definition Describe :: "halt \<Rightarrow> string" where
  "Describe h =
     (if h_Scope h = ''all'' then ''all agents''
      else if h_Scope h = ''agent'' then ''agent '' @ h_Target h
      else if h_Scope h = ''session'' then ''session '' @ h_Target h
      else h_Scope h)"

definition halt_Message :: "halt \<Rightarrow> string" where
  "halt_Message h =
     ''halted by operator ('' @ Describe h @ '')'' @
     (if h_Reason h \<noteq> [] then '': '' @ h_Reason h else []) @
     ''. No tool call goes through until the halt is lifted.''"

text \<open>A row of the table is active while its \<open>resumed_at\<close> is empty: the zero time here.\<close>

record halt_store =
  hs_active :: "halt list"
  hs_lastSync :: time
  hs_db :: "halt list option"

record halt_env =
  he_now :: time
  he_read_ok :: bool
  he_write_ok :: bool
  he_text :: "time \<Rightarrow> string"

datatype halt_error = HaltNeedsTarget string | HaltUnknownScope string | HaltDBError | HaltNotFound

definition active_rows :: "halt_env \<Rightarrow> halt list \<Rightarrow> halt list" where
  "active_rows env rows =
     sort_key (\<lambda>h. he_text env (h_CreatedAt h)) (filter (\<lambda>h. h_ResumedAt h = zero_time) rows)"

text \<open>\<open>reload\<close>; the flag is false when the query fails, which leaves the store as it was.\<close>

definition halt_reload :: "halt_env \<Rightarrow> halt_store \<Rightarrow> bool \<times> halt_store" where
  "halt_reload env s =
     (case hs_db s of
        None \<Rightarrow> (False, s)
      | Some rows \<Rightarrow>
          if \<not> he_read_ok env then (False, s)
          else (True, s\<lparr>hs_active := active_rows env rows, hs_lastSync := he_now env\<rparr>))"

definition syncIfStale :: "halt_env \<Rightarrow> halt_store \<Rightarrow> halt_store" where
  "syncIfStale env s =
     (if hs_db s = None then s
      else if he_now env - hs_lastSync s < second then s
      else snd (halt_reload env s))"

definition halt_NewStore :: "halt_env \<Rightarrow> halt list option \<Rightarrow> halt_error + halt_store" where
  "halt_NewStore env db =
     (let s = \<lparr>hs_active = [], hs_lastSync = zero_time, hs_db = db\<rparr> in
      if db \<noteq> None then (case halt_reload env s of (ok, s') \<Rightarrow> if ok then Inr s' else Inl HaltDBError)
      else Inr s)"

definition halt_dbInsert :: "halt_env \<Rightarrow> halt \<Rightarrow> halt_store \<Rightarrow> bool \<times> halt_store" where
  "halt_dbInsert env h s =
     (case hs_db s of
        None \<Rightarrow> (True, s)
      | Some rows \<Rightarrow> if he_write_ok env then (True, s\<lparr>hs_db := Some (rows @ [h])\<rparr>) else (False, s))"

definition halt_dbUpdateRevoked :: "halt_env \<Rightarrow> halt \<Rightarrow> halt_store \<Rightarrow> halt_store" where
  "halt_dbUpdateRevoked env h s =
     (if \<not> he_write_ok env then s
      else
        s\<lparr>hs_db := map_option (map (\<lambda>r. if h_ID r = h_ID h
             then r\<lparr>h_RevokedGrants := h_RevokedGrants h\<rparr> else r)) (hs_db s)\<rparr>)"

definition halt_dbResume :: "halt_env \<Rightarrow> halt \<Rightarrow> halt_store \<Rightarrow> bool \<times> halt_store" where
  "halt_dbResume env h s =
     (case hs_db s of
        None \<Rightarrow> (True, s)
      | Some rows \<Rightarrow>
          if he_write_ok env
          then (True, s\<lparr>hs_db := Some (map (\<lambda>r. if h_ID r = h_ID h
                  then r\<lparr>h_ResumedBy := h_ResumedBy h, h_ResumedAt := h_ResumedAt h\<rparr> else r) rows)\<rparr>)
          else (False, s))"

definition normal_target :: "string \<Rightarrow> string \<Rightarrow> halt_error + string" where
  "normal_target scope target =
     (let t = TrimSpace target in
      if scope = ''all'' then Inr []
      else if scope = ''agent'' \<or> scope = ''session''
      then (if t = [] then Inl (HaltNeedsTarget scope) else Inr t)
      else Inl (HaltUnknownScope scope))"

definition halt_Start ::
  "halt_env \<Rightarrow> string \<Rightarrow> string \<Rightarrow> string \<Rightarrow> string \<Rightarrow> string \<Rightarrow> halt_store
     \<Rightarrow> (halt_error + halt \<times> bool) \<times> halt_store" where
  "halt_Start env newID scope target reason by s =
     (case normal_target scope target of
        Inl e \<Rightarrow> (Inl e, s)
      | Inr t \<Rightarrow>
          (let s1 = syncIfStale env s in
           case find (\<lambda>h. h_Scope h = scope \<and> h_Target h = t) (hs_active s1) of
             Some h \<Rightarrow> (Inr (h, False), s1)
           | None \<Rightarrow>
               (let h = \<lparr>h_ID = newID, h_Scope = scope, h_Target = t, h_Reason = reason,
                         h_CreatedBy = by, h_CreatedAt = he_now env, h_ResumedBy = [],
                         h_ResumedAt = zero_time, h_RevokedGrants = []\<rparr> in
                case halt_dbInsert env h s1 of
                  (False, s2) \<Rightarrow> (Inl HaltDBError, s2)
                | (True, s2) \<Rightarrow> (Inr (h, True), s2\<lparr>hs_active := hs_active s2 @ [h]\<rparr>))))"

fun record_in :: "string \<Rightarrow> grant list \<Rightarrow> halt list \<Rightarrow> (halt \<times> halt list) option" where
  "record_in i gs [] = None"
| "record_in i gs (h # hs) =
     (if h_ID h = i
      then (let h' = h\<lparr>h_RevokedGrants := h_RevokedGrants h @ gs\<rparr> in Some (h', h' # hs))
      else map_option (\<lambda>(k, rest). (k, h # rest)) (record_in i gs hs))"

definition RecordRevoked :: "halt_env \<Rightarrow> string \<Rightarrow> grant list \<Rightarrow> halt_store \<Rightarrow> halt_store" where
  "RecordRevoked env i gs s =
     (case record_in i gs (hs_active s) of
        None \<Rightarrow> s
      | Some (h, active) \<Rightarrow> halt_dbUpdateRevoked env h (s\<lparr>hs_active := active\<rparr>))"

definition halt_matches :: "string \<Rightarrow> halt \<Rightarrow> bool" where
  "halt_matches i h = (h_ID h = i \<or> (length i \<ge> 4 \<and> HasPrefix (h_ID h) i))"

text \<open>
  \<open>Resume\<close> stamps the halt before it writes to the database; when that fails the halt stays
  active, with its stamp.
\<close>

definition halt_Resume ::
  "halt_env \<Rightarrow> string \<Rightarrow> string \<Rightarrow> halt_store \<Rightarrow> (halt_error + halt) \<times> halt_store" where
  "halt_Resume env i by s =
     (let s1 = syncIfStale env s;
          before = takeWhile (\<lambda>h. \<not> halt_matches i h) (hs_active s1) in
      case dropWhile (\<lambda>h. \<not> halt_matches i h) (hs_active s1) of
        [] \<Rightarrow> (Inl HaltNotFound, s1)
      | h # after \<Rightarrow>
          (let h' = h\<lparr>h_ResumedBy := by, h_ResumedAt := he_now env\<rparr> in
           case halt_dbResume env h' s1 of
             (False, s2) \<Rightarrow> (Inl HaltDBError, s2\<lparr>hs_active := before @ h' # after\<rparr>)
           | (True, s2) \<Rightarrow> (Inr h', s2\<lparr>hs_active := before @ after\<rparr>)))"

definition halt_Active :: "halt_env \<Rightarrow> halt_store \<Rightarrow> halt list \<times> halt_store" where
  "halt_Active env s = (let s1 = syncIfStale env s in (hs_active s1, s1))"

definition rank :: "string \<Rightarrow> nat" where
  "rank sc = (if sc = ''all'' then 0 else if sc = ''agent'' then 1 else 2)"

fun match_halts :: "string \<Rightarrow> string \<Rightarrow> halt option \<Rightarrow> halt list \<Rightarrow> halt option" where
  "match_halts a sid found [] = found"
| "match_halts a sid found (h # hs) =
     match_halts a sid
       (if Covers h a sid \<and> (found = None \<or> rank (h_Scope h) < rank (h_Scope (the found)))
        then Some h else found) hs"

definition halt_Match :: "halt_env \<Rightarrow> string \<Rightarrow> string \<Rightarrow> halt_store \<Rightarrow> halt option \<times> halt_store" where
  "halt_Match env agentID sessionID s =
     (let s1 = syncIfStale env s in (match_halts agentID sessionID None (hs_active s1), s1))"

section \<open>Facts\<close>

lemma match_halts_spec:
  "case match_halts a sid found hs of
     None \<Rightarrow> found = None \<and> (\<forall>h \<in> set hs. \<not> Covers h a sid)
   | Some h \<Rightarrow> (h \<in> set hs \<and> Covers h a sid \<or> found = Some h)
       \<and> (\<forall>k \<in> set hs. Covers k a sid \<longrightarrow> rank (h_Scope h) \<le> rank (h_Scope k))
       \<and> (\<forall>k. found = Some k \<longrightarrow> rank (h_Scope h) \<le> rank (h_Scope k))"
proof (induction hs arbitrary: found)
  case Nil
  then show ?case by (cases found) auto
next
  case (Cons h hs)
  let ?f = "if Covers h a sid \<and> (found = None \<or> rank (h_Scope h) < rank (h_Scope (the found)))
            then Some h else found"
  show ?case
    using Cons.IH [where found = ?f] by (cases found) (auto split: option.splits if_splits)
qed

lemma match_halts_None_iff: "match_halts a sid None hs = None \<longleftrightarrow> (\<forall>h \<in> set hs. \<not> Covers h a sid)"
  using match_halts_spec [where a = a and sid = sid and found = None and hs = hs] by (auto split: option.splits)

lemma hs_db_sync [simp]: "hs_db (syncIfStale env s) = hs_db s"
  by (auto simp: syncIfStale_def halt_reload_def split: option.splits)

lemma set_active_rows [simp]: "set (active_rows env rows) = {h \<in> set rows. h_ResumedAt h = zero_time}"
  by (auto simp: active_rows_def)

lemma sync_stale:
  "hs_db s = Some rows \<Longrightarrow> second \<le> he_now env - hs_lastSync s \<Longrightarrow> he_read_ok env \<Longrightarrow>
   hs_active (syncIfStale env s) = active_rows env rows"
  by (simp add: syncIfStale_def halt_reload_def)

lemma sync_keeps:
  "hs_db s = None \<or> he_now env - hs_lastSync s < second \<or> \<not> he_read_ok env \<Longrightarrow> syncIfStale env s = s"
  by (auto simp: syncIfStale_def halt_reload_def split: option.splits)

definition stopped :: "halt_store \<Rightarrow> string \<Rightarrow> string \<Rightarrow> bool" where
  "stopped s a sid = (\<exists>h \<in> set (hs_active s). Covers h a sid)"

lemma halt_Match_None_iff: "fst (halt_Match env a sid s) = None \<longleftrightarrow> \<not> stopped (syncIfStale env s) a sid"
  by (simp add: halt_Match_def match_halts_None_iff stopped_def Let_def)

lemma halt_Start_cases:
  assumes "halt_Start env i scope target reason by s = (Inr (h, new), s')"
  obtains t where "normal_target scope target = Inr t" "h_Scope h = scope" "h_Target h = t"
    "h \<in> set (hs_active s')" "hs_lastSync s' = hs_lastSync (syncIfStale env s)"
    "new \<Longrightarrow> h_ResumedAt h = zero_time" "new \<Longrightarrow> hs_db s' = map_option (\<lambda>rows. rows @ [h]) (hs_db s)"
    "\<not> new \<Longrightarrow> s' = syncIfStale env s"
proof -
  obtain t where t: "normal_target scope target = Inr t"
    using assms by (auto simp: halt_Start_def split: sum.splits)
  show thesis
  proof (cases "find (\<lambda>h. h_Scope h = scope \<and> h_Target h = t) (hs_active (syncIfStale env s))")
    case None
    with assms t show ?thesis
      by (intro that [of t]) (auto simp: halt_Start_def Let_def halt_dbInsert_def
          split: option.splits if_splits bool.splits prod.splits)
  next
    case (Some k)
    with assms t show ?thesis
      by (intro that [of t]) (auto simp: halt_Start_def Let_def dest!: find_SomeD)
  qed
qed

lemma halt_Resume_InrD:
  assumes "halt_Resume env i by s = (Inr h, s')"
  shows "\<exists>us k vs. hs_active (syncIfStale env s) = us @ k # vs \<and> halt_matches i k
    \<and> (\<forall>u \<in> set us. \<not> halt_matches i u) \<and> hs_active s' = us @ vs
    \<and> h = k\<lparr>h_ResumedBy := by, h_ResumedAt := he_now env\<rparr>
    \<and> hs_db s' = map_option (map (\<lambda>r. if h_ID r = h_ID k
        then r\<lparr>h_ResumedBy := by, h_ResumedAt := he_now env\<rparr> else r)) (hs_db s)"
proof -
  let ?hs = "hs_active (syncIfStale env s)"
  let ?us = "takeWhile (\<lambda>h. \<not> halt_matches i h) ?hs"
  obtain k vs where k: "dropWhile (\<lambda>h. \<not> halt_matches i h) ?hs = k # vs"
    using assms by (cases "dropWhile (\<lambda>h. \<not> halt_matches i h) ?hs") (auto simp: halt_Resume_def Let_def)
  have "?hs = ?us @ k # vs" by (metis k takeWhile_dropWhile_id)
  moreover have "halt_matches i k"
    using hd_dropWhile [of "\<lambda>h. \<not> halt_matches i h" ?hs] k by auto
  moreover have "\<forall>u \<in> set ?us. \<not> halt_matches i u" by (auto dest: set_takeWhileD)
  moreover have "hs_active s' = ?us @ vs \<and> h = k\<lparr>h_ResumedBy := by, h_ResumedAt := he_now env\<rparr>
    \<and> hs_db s' = map_option (map (\<lambda>r. if h_ID r = h_ID k
        then r\<lparr>h_ResumedBy := by, h_ResumedAt := he_now env\<rparr> else r)) (hs_db s)"
    using assms by (auto simp: halt_Resume_def Let_def k halt_dbResume_def split: option.splits if_splits)
  ultimately show ?thesis by blast
qed

section \<open>Properties\<close>

definition demo_env :: "time \<Rightarrow> bool \<Rightarrow> halt_env" where
  "demo_env now ok = \<lparr>he_now = now, he_read_ok = ok, he_write_ok = ok, he_text = Itoa\<rparr>"

definition demo_halts :: halt_store where
  "demo_halts = \<lparr>hs_active = [], hs_lastSync = 0, hs_db = Some []\<rparr>"

definition demo_halt :: halt where
  "demo_halt = \<lparr>h_ID = ''h1'', h_Scope = ''agent'', h_Target = ''bot-*'', h_Reason = [],
     h_CreatedBy = ''op'', h_CreatedAt = 5 * second, h_ResumedBy = [], h_ResumedAt = zero_time,
     h_RevokedGrants = []\<rparr>"

text \<open>
  Match answers for the halts known after the bounded-staleness refresh: it returns a halt
  exactly when one of them covers the call, the halt it returns is such a one, and none that
  covers the call is broader (all before agent before session).
\<close>

theorem halt_Match_spec:
  "case fst (halt_Match env a sid s) of
     None \<Rightarrow> \<forall>h \<in> set (hs_active (syncIfStale env s)). \<not> Covers h a sid
   | Some h \<Rightarrow> h \<in> set (hs_active (syncIfStale env s)) \<and> Covers h a sid
       \<and> (\<forall>k \<in> set (hs_active (syncIfStale env s)). Covers k a sid \<longrightarrow> rank (h_Scope h) \<le> rank (h_Scope k))"
  using match_halts_spec [where found = None and a = a and sid = sid and hs = "hs_active (syncIfStale env s)"]
  by (auto simp: halt_Match_def Let_def split: option.splits)

theorem halt_Match_spec_witness:
  "\<exists>h. fst (halt_Match (demo_env 9 True) ''bot-1'' ''s''
      \<lparr>hs_active = [demo_halt, demo_halt\<lparr>h_Scope := ''all''\<rparr>], hs_lastSync = 5, hs_db = None\<rparr>) = Some h
    \<and> h_Scope h = ''all''"
proof -
  let ?s = "\<lparr>hs_active = [demo_halt, demo_halt\<lparr>h_Scope := ''all''\<rparr>], hs_lastSync = 5, hs_db = None\<rparr>"
  have s: "syncIfStale (demo_env 9 True) ?s = ?s" by (simp add: syncIfStale_def)
  have "Covers (demo_halt\<lparr>h_Scope := ''all''\<rparr>) ''bot-1'' ''s''" by (simp add: Covers_def)
  then obtain h where h: "fst (halt_Match (demo_env 9 True) ''bot-1'' ''s'' ?s) = Some h"
    using halt_Match_spec [where env = "demo_env 9 True" and a = "''bot-1''" and sid = "''s''" and s = ?s] by (auto simp: s split: option.splits)
  with halt_Match_spec [where env = "demo_env 9 True" and a = "''bot-1''" and sid = "''s''" and s = ?s]
  have "rank (h_Scope h) \<le> rank ''all''"
    by (simp add: s) (simp add: Covers_def)
  then have "h_Scope h = ''all''" by (auto simp: rank_def split: if_splits)
  with h show ?thesis by blast
qed

text \<open>
  A stop takes effect: after Start has opened a halt, every call the halt covers is matched
  by some halt, at any later time and whether or not the database answers then.
\<close>

theorem started_halt_matches:
  assumes "halt_Start env i scope target reason by s = (Inr (h, True), s')" and "Covers h a sid"
  shows "fst (halt_Match env' a sid s') \<noteq> None"
proof -
  obtain t where st: "h \<in> set (hs_active s')" "h_ResumedAt h = zero_time"
      "hs_db s' = map_option (\<lambda>rows. rows @ [h]) (hs_db s)"
    using halt_Start_cases [OF assms(1)] by blast
  have "h \<in> set (hs_active (syncIfStale env' s'))"
    using st by (auto simp: syncIfStale_def halt_reload_def split: option.splits)
  with assms(2) show ?thesis by (auto simp: halt_Match_None_iff stopped_def)
qed

lemma demo_start:
  "halt_Start (demo_env (5 * second) True) ''h1'' ''agent'' ''bot-*'' [] ''op'' demo_halts
     = (Inr (demo_halt, True),
        \<lparr>hs_active = [demo_halt], hs_lastSync = 5 * second, hs_db = Some [demo_halt]\<rparr>)"
  by (simp add: halt_Start_def normal_target_def TrimSpace_def is_space_def demo_env_def demo_halts_def
      syncIfStale_def halt_reload_def active_rows_def halt_dbInsert_def demo_halt_def Let_def)

theorem started_halt_matches_witness:
  "fst (halt_Match (demo_env (60 * second) False) ''bot-7'' ''s'' 
     \<lparr>hs_active = [demo_halt], hs_lastSync = 5 * second, hs_db = Some [demo_halt]\<rparr>) \<noteq> None"
proof (rule started_halt_matches [OF demo_start])
  show "Covers demo_halt ''bot-7'' ''s''" by code_simp
qed

text \<open>
  Start is idempotent: asking again for a stop that has just been opened opens no second
  one; it answers with an active halt of the same scope and target and writes nothing.
\<close>

theorem halt_Start_idempotent:
  assumes "halt_Start env i scope target reason by s = (Inr (h, True), s')"
  shows "\<exists>h'. halt_Start env' i' scope target reason' by' s' = (Inr (h', False), syncIfStale env' s')
    \<and> h_Scope h' = h_Scope h \<and> h_Target h' = h_Target h"
proof -
  obtain t where st: "normal_target scope target = Inr t" "h_Scope h = scope" "h_Target h = t"
      "h \<in> set (hs_active s')" "h_ResumedAt h = zero_time"
      "hs_db s' = map_option (\<lambda>rows. rows @ [h]) (hs_db s)"
    using halt_Start_cases [OF assms] by blast
  have "h \<in> set (hs_active (syncIfStale env' s'))"
    using st by (auto simp: syncIfStale_def halt_reload_def split: option.splits)
  with st obtain h' where
    "find (\<lambda>h. h_Scope h = scope \<and> h_Target h = t) (hs_active (syncIfStale env' s')) = Some h'"
    by (cases "find (\<lambda>h. h_Scope h = scope \<and> h_Target h = t) (hs_active (syncIfStale env' s'))")
      (auto simp: find_None_conv)
  with st show ?thesis by (auto simp: halt_Start_def Let_def dest!: find_SomeD)
qed

theorem halt_Start_idempotent_witness:
  "\<exists>h'. halt_Start (demo_env (9 * second) True) ''h2'' ''agent'' ''bot-*'' ''again'' ''op''
       \<lparr>hs_active = [demo_halt], hs_lastSync = 5 * second, hs_db = Some [demo_halt]\<rparr>
     = (Inr (h', False), syncIfStale (demo_env (9 * second) True)
          \<lparr>hs_active = [demo_halt], hs_lastSync = 5 * second, hs_db = Some [demo_halt]\<rparr>)
     \<and> h_Target h' = ''bot-*''"
  using halt_Start_idempotent [OF demo_start, where env' = "demo_env (9 * second) True" and i' = "''h2''"
      and reason' = "''again''" and by' = "''op''"]
  by (auto simp: demo_halt_def)

text \<open>
  C36. Another process's stop is seen within the staleness bound: once a second has passed since
  the last refresh and the database answers, a halt that is active in the table stops every
  call it covers, and only calls covered by an active row are stopped.
\<close>

theorem halts_seen_across_processes:
  assumes "hs_db s = Some rows" and "second \<le> he_now env - hs_lastSync s" and "he_read_ok env"
  shows "fst (halt_Match env a sid s) \<noteq> None
    \<longleftrightarrow> (\<exists>h \<in> set rows. h_ResumedAt h = zero_time \<and> Covers h a sid)"
  by (auto simp: halt_Match_None_iff stopped_def sync_stale [OF assms])

theorem halts_seen_across_processes_witness:
  "fst (halt_Match (demo_env (3 * second) True) ''bot-7'' [] (demo_halts\<lparr>hs_db := Some [demo_halt]\<rparr>)) \<noteq> None"
proof -
  have "Covers demo_halt ''bot-7'' []" by code_simp
  then show ?thesis
    using halts_seen_across_processes [of "demo_halts\<lparr>hs_db := Some [demo_halt]\<rparr>" "[demo_halt]"
        "demo_env (3 * second) True" "''bot-7''" "[]"]
    by (simp add: demo_halts_def demo_env_def demo_halt_def)
qed

text \<open>
  The stop fails closed: while the database neither answers nor accepts writes, no operation
  changes which calls are stopped. In particular a Resume that cannot be recorded lifts nothing.
\<close>

theorem failing_database_keeps_halts:
  assumes "hs_db s \<noteq> None" and "\<not> he_read_ok env" and "\<not> he_write_ok env"
  shows "stopped (snd (halt_Resume env i by s)) a sid = stopped s a sid
    \<and> stopped (snd (halt_Start env i scope target reason by s)) a sid = stopped s a sid
    \<and> stopped (snd (halt_Match env a' sid' s)) a sid = stopped s a sid
    \<and> (fst (halt_Match env a sid s) \<noteq> None) = stopped s a sid
    \<and> (\<forall>h. fst (halt_Resume env i by s) \<noteq> Inr h)"
proof -
  have sync: "syncIfStale env s = s" using assms by (intro sync_keeps) auto
  obtain rows where rows: "hs_db s = Some rows" using assms(1) by auto
  have C: "Covers (h\<lparr>h_ResumedBy := x, h_ResumedAt := y\<rparr>) a sid = Covers h a sid" for h x y
    by (simp add: Covers_def)
  have resume: "stopped (snd (halt_Resume env i by s)) a sid = stopped s a sid
      \<and> (\<forall>h. fst (halt_Resume env i by s) \<noteq> Inr h)"
  proof (cases "dropWhile (\<lambda>h. \<not> halt_matches i h) (hs_active s)")
    case Nil
    show ?thesis unfolding halt_Resume_def Let_def sync Nil by simp
  next
    case (Cons h after)
    have "set (hs_active s) = set (takeWhile (\<lambda>h. \<not> halt_matches i h) (hs_active s)) \<union> set (h # after)"
      by (metis Cons set_append takeWhile_dropWhile_id)
    then show ?thesis
      using assms(3) by (simp add: halt_Resume_def sync Cons halt_dbResume_def rows stopped_def C Let_def)
  qed
  moreover have "stopped (snd (halt_Start env i scope target reason by s)) a sid = stopped s a sid"
    using assms(3) by (auto simp: halt_Start_def sync Let_def halt_dbInsert_def rows split: sum.splits option.splits)
  ultimately show ?thesis
    by (auto simp: halt_Match_None_iff sync) (auto simp: halt_Match_def sync)
qed

theorem failing_database_keeps_halts_witness:
  "stopped (snd (halt_Resume (demo_env 9 False) ''h1'' ''op'' 
      \<lparr>hs_active = [demo_halt], hs_lastSync = 5, hs_db = Some [demo_halt]\<rparr>)) ''bot-1'' []"
proof -
  have "stopped \<lparr>hs_active = [demo_halt], hs_lastSync = 5, hs_db = Some [demo_halt]\<rparr> ''bot-1'' []"
    by code_simp
  then show ?thesis
    using failing_database_keeps_halts [of "\<lparr>hs_active = [demo_halt], hs_lastSync = 5, hs_db = Some [demo_halt]\<rparr>"
        "demo_env 9 False"]
    by (simp add: demo_env_def)
qed

text \<open>
  A successful Resume lifts exactly the first halt its identifier names, hands back the
  grants that halt had taken, and lifts it for good: it does not come back with a later refresh
  from the database.
\<close>

theorem halt_Resume_lifts:
  assumes "halt_Resume env i by s = (Inr h, s')" and "he_now env \<noteq> zero_time"
    and "distinct (map h_ID (hs_active (syncIfStale env s)))"
  shows "\<exists>us k vs. hs_active (syncIfStale env s) = us @ k # vs \<and> hs_active s' = us @ vs
      \<and> halt_matches i k \<and> (\<forall>u \<in> set us. \<not> halt_matches i u)
      \<and> h_ID h = h_ID k \<and> h_RevokedGrants h = h_RevokedGrants k
      \<and> (\<forall>env'. \<forall>u \<in> set (hs_active (syncIfStale env' s')). h_ID u \<noteq> h_ID k)"
proof -
  obtain us k vs where r: "hs_active (syncIfStale env s) = us @ k # vs" "halt_matches i k"
      "\<forall>u \<in> set us. \<not> halt_matches i u" "hs_active s' = us @ vs"
      "h = k\<lparr>h_ResumedBy := by, h_ResumedAt := he_now env\<rparr>"
      "hs_db s' = map_option (map (\<lambda>r. if h_ID r = h_ID k
         then r\<lparr>h_ResumedBy := by, h_ResumedAt := he_now env\<rparr> else r)) (hs_db s)"
    using halt_Resume_InrD [OF assms(1)] by blast
  have fresh: "h_ID k \<notin> h_ID ` set (us @ vs)" using assms(3) r(1) by (simp add: image_Un)
  have "h_ID u \<noteq> h_ID k" if "u \<in> set (hs_active (syncIfStale env' s'))" for env' u
  proof (cases "syncIfStale env' s' = s'")
    case True
    with that r(4) have "h_ID u \<in> h_ID ` set (us @ vs)" by simp
    with fresh show ?thesis by metis
  next
    case False
    then obtain rows where "hs_db s' = Some rows" "hs_active (syncIfStale env' s') = active_rows env' rows"
      by (auto simp: syncIfStale_def halt_reload_def split: option.splits if_splits)
    with that r(6) assms(2) show ?thesis by (cases "hs_db s") auto
  qed
  with r show ?thesis by (intro exI [of _ us] exI [of _ k] exI [of _ vs]) auto
qed

definition demo_halts1 :: halt_store where
  "demo_halts1 = \<lparr>hs_active = [demo_halt], hs_lastSync = 5, hs_db = None\<rparr>"

theorem halt_Resume_lifts_witness:
  "stopped demo_halts1 ''bot-1'' []
   \<and> (\<exists>us k vs. hs_active demo_halts1 = us @ k # vs \<and> halt_matches ''h1'' k
        \<and> hs_active (snd (halt_Resume (demo_env 9 True) ''h1'' ''op'' demo_halts1)) = us @ vs)
   \<and> hs_active (snd (halt_Resume (demo_env 9 True) ''h1'' ''op'' demo_halts1)) = []"
proof -
  have r: "halt_Resume (demo_env 9 True) ''h1'' ''op'' demo_halts1
      = (Inr (demo_halt\<lparr>h_ResumedBy := ''op'', h_ResumedAt := 9\<rparr>), demo_halts1\<lparr>hs_active := []\<rparr>)"
    by (simp add: halt_Resume_def syncIfStale_def halt_matches_def halt_dbResume_def demo_env_def
        demo_halt_def demo_halts1_def Let_def)
  have "stopped demo_halts1 ''bot-1'' []" by code_simp
  moreover have "syncIfStale (demo_env 9 True) demo_halts1 = demo_halts1"
    by (simp add: syncIfStale_def demo_halts1_def)
  moreover have "distinct (map h_ID (hs_active demo_halts1))" by (simp add: demo_halts1_def)
  ultimately show ?thesis
    using halt_Resume_lifts [OF r] unfolding r by (auto simp: demo_env_def)
qed

end
