(* ===== verification/Approvals.thy ===== *)
theory Approvals
  imports Supervisor
begin

text \<open>
  Human approvals (\<open>approval/store.go\<close>, \<open>persist.go\<close>, \<open>memory.go\<close>): a call that waits for a
  decision, its resolution exactly once, the claims by which a retry of the call gets the
  decision, the timers that expire it, the mirror in the database, the runtime settings and the
  automatic approval from precedents. The one-place channel of an approval is a list of at most
  one resolution; an operation that would block on it returns \<open>None\<close>. The answers of the mem7
  server are an argument.
\<close>

section \<open>The store\<close>

datatype status = StatusPending | StatusApproved | StatusDenied | StatusTimeout

record resolution =
  rs_Status :: status
  rs_ResolvedBy :: string
  rs_ResolvedAt :: time
  rs_Reasoning :: string
  rs_Confidence :: flt

record resolve_opts =
  ro_ResolvedBy :: string
  ro_Reasoning :: string
  ro_Confidence :: flt

record approval =
  a_ID :: string
  a_AgentID :: string
  a_Tool :: string
  a_Params :: params
  a_PolicyRule :: string
  a_TraceID :: string
  a_CallbackURL :: string
  a_Status :: status
  a_CreatedAt :: time
  a_ResolvedBy :: string
  a_ResolvedAt :: time
  a_Reasoning :: string
  a_Confidence :: flt
  a_Result :: "resolution list option"

definition approval_Remaining :: "time \<Rightarrow> duration \<Rightarrow> approval \<Rightarrow> duration" where
  "approval_Remaining now timeout p =
     (let remaining = timeout - (now - a_CreatedAt p) in if remaining < 0 then 0 else remaining)"

record settings =
  st_TimeoutSeconds :: int
  st_WaitSeconds :: flt
  st_AutoApprove :: bool
  st_MinApprovals :: int
  st_AutoApproveWrites :: bool

record memory_reader =
  mr_url :: string
  mr_min :: int

text \<open>
  \<open>as_timers\<close> are the timeout goroutines: an approval and when its timer ends. \<open>as_written\<close> is
  what has been handed to the memory writer, with the resolution.
\<close>

record approval_store =
  as_pending :: "(string \<times> approval) list"
  as_claimed :: "string list"
  as_timeout :: duration
  as_settings :: settings
  as_db :: "approval list option"
  as_reader :: "memory_reader option"
  as_AutoApprovable :: "(string \<Rightarrow> bool) option"
  as_timers :: "(string \<times> time) list"
  as_written :: "(approval \<times> resolution) list"

definition approval_NewStore :: "duration \<Rightarrow> approval_store" where
  "approval_NewStore timeout =
     \<lparr>as_pending = [], as_claimed = [], as_timeout = (if timeout \<le> 0 then 5 * minute else timeout),
      as_settings = \<lparr>st_TimeoutSeconds = 0, st_WaitSeconds = Fin 0, st_AutoApprove = True,
                     st_MinApprovals = 3, st_AutoApproveWrites = False\<rparr>,
      as_db = None, as_reader = None, as_AutoApprovable = None, as_timers = [], as_written = []\<rparr>"

section \<open>Persistence\<close>

text \<open>What the params column gives back: the decoded JSON, nil when it is empty or null.\<close>

definition stored_params :: "params \<Rightarrow> params" where
  "stored_params p = (case Marshal p of Some (VMap m) \<Rightarrow> Some m | _ \<Rightarrow> None)"

definition approval_dbSave :: "approval \<Rightarrow> approval_store \<Rightarrow> approval_store" where
  "approval_dbSave pa s =
     (let row = pa\<lparr>a_Params := stored_params (a_Params pa), a_ResolvedBy := [],
                   a_ResolvedAt := zero_time, a_Reasoning := [], a_Confidence := Fin 0,
                   a_Result := None\<rparr> in
      s\<lparr>as_db := map_option (\<lambda>rows. filter (\<lambda>r. a_ID r \<noteq> a_ID pa) rows @ [row]) (as_db s)\<rparr>)"

definition approval_dbUpdate :: "approval \<Rightarrow> approval_store \<Rightarrow> approval_store" where
  "approval_dbUpdate pa s =
     s\<lparr>as_db := map_option (map (\<lambda>r. if a_ID r = a_ID pa
          then r\<lparr>a_Status := a_Status pa, a_ResolvedBy := a_ResolvedBy pa,
                 a_ResolvedAt := a_ResolvedAt pa, a_Reasoning := a_Reasoning pa,
                 a_Confidence := a_Confidence pa\<rparr>
          else r)) (as_db s)\<rparr>"

section \<open>Submitting and resolving\<close>

definition SubmitWithTrace ::
  "time \<Rightarrow> string \<Rightarrow> string \<Rightarrow> string \<Rightarrow> string \<Rightarrow> params \<Rightarrow> string \<Rightarrow> string \<Rightarrow> approval_store
     \<Rightarrow> approval \<times> approval_store" where
  "SubmitWithTrace now newID agentID tool policyRule params callbackURL traceID s =
     (let pa = \<lparr>a_ID = newID, a_AgentID = agentID, a_Tool = tool, a_Params = params,
                a_PolicyRule = policyRule, a_TraceID = traceID, a_CallbackURL = callbackURL,
                a_Status = StatusPending, a_CreatedAt = now, a_ResolvedBy = [],
                a_ResolvedAt = zero_time, a_Reasoning = [], a_Confidence = Fin 0,
                a_Result = Some []\<rparr> in
      (pa, (approval_dbSave pa (s\<lparr>as_pending := AList.update newID pa (as_pending s)\<rparr>))
             \<lparr>as_timers := as_timers s @ [(newID, now + as_timeout s)]\<rparr>))"

definition Submit ::
  "time \<Rightarrow> string \<Rightarrow> string \<Rightarrow> string \<Rightarrow> string \<Rightarrow> params \<Rightarrow> string \<Rightarrow> approval_store
     \<Rightarrow> approval \<times> approval_store" where
  "Submit now newID agentID tool policyRule params callbackURL s =
     SubmitWithTrace now newID agentID tool policyRule params callbackURL [] s"

text \<open>
  Sending on the channel: a nil channel blocks for ever, and so does a full one whose reader has
  gone.
\<close>

definition send :: "resolution \<Rightarrow> approval \<Rightarrow> approval option" where
  "send res pa =
     (case a_Result pa of Some [] \<Rightarrow> Some (pa\<lparr>a_Result := Some [res]\<rparr>) | _ \<Rightarrow> None)"

definition WriteDecision :: "approval \<Rightarrow> resolution \<Rightarrow> approval_store \<Rightarrow> approval_store" where
  "WriteDecision pa res s = s\<lparr>as_written := as_written s @ [(pa, res)]\<rparr>"

text \<open>The timer of the approval under key \<open>i\<close> ends.\<close>

definition timeoutAfter :: "time \<Rightarrow> string \<Rightarrow> approval_store \<Rightarrow> approval_store option" where
  "timeoutAfter now i s =
     (case map_of (as_pending s) i of
        None \<Rightarrow> Some s
      | Some pa \<Rightarrow>
          if a_Status pa \<noteq> StatusPending then Some s
          else
            (let pa1 = pa\<lparr>a_Status := StatusTimeout, a_ResolvedAt := now\<rparr>;
                 res = \<lparr>rs_Status = StatusTimeout, rs_ResolvedBy = ''system:timeout'',
                        rs_ResolvedAt = now, rs_Reasoning = [], rs_Confidence = Fin 0\<rparr> in
             case send res pa1 of
               None \<Rightarrow> None
             | Some pa2 \<Rightarrow>
                 Some (approval_dbUpdate pa2 (WriteDecision pa2 res
                         (s\<lparr>as_pending := AList.update i pa2 (as_pending s)\<rparr>)))))"

definition prefix_hits :: "(string \<times> approval) list \<Rightarrow> string \<Rightarrow> (string \<times> approval) list" where
  "prefix_hits m i = filter (\<lambda>(key, pa). HasPrefix key i) m"

definition findLocked :: "string \<Rightarrow> approval_store \<Rightarrow> approval option" where
  "findLocked i s =
     (case map_of (as_pending s) i of
        Some pa \<Rightarrow> Some pa
      | None \<Rightarrow> (case prefix_hits (as_pending s) i of [(k, pa)] \<Rightarrow> Some pa | _ \<Rightarrow> None))"

datatype approval_error = ErrNotFound | ErrAlreadyResolved

definition Resolve ::
  "time \<Rightarrow> string \<Rightarrow> status \<Rightarrow> resolve_opts \<Rightarrow> approval_store
     \<Rightarrow> (approval_error option \<times> approval_store) option" where
  "Resolve now i st opts s =
     (case findLocked i s of
        None \<Rightarrow> Some (Some ErrNotFound, s)
      | Some pa \<Rightarrow>
          if a_Status pa \<noteq> StatusPending then Some (Some ErrAlreadyResolved, s)
          else
            (let pa1 = pa\<lparr>a_Status := st, a_ResolvedBy := ro_ResolvedBy opts, a_ResolvedAt := now,
                          a_Reasoning := ro_Reasoning opts, a_Confidence := ro_Confidence opts\<rparr>;
                 res = \<lparr>rs_Status = st, rs_ResolvedBy = ro_ResolvedBy opts, rs_ResolvedAt = now,
                        rs_Reasoning = ro_Reasoning opts, rs_Confidence = ro_Confidence opts\<rparr> in
             case send res pa1 of
               None \<Rightarrow> None
             | Some pa2 \<Rightarrow>
                 Some (None, approval_dbUpdate pa2 (WriteDecision pa2 res
                   (s\<lparr>as_pending := AList.update (a_ID pa) pa2 (as_pending s)\<rparr>)))))"

definition by_only :: "string \<Rightarrow> resolve_opts" where
  "by_only resolvedBy = \<lparr>ro_ResolvedBy = resolvedBy, ro_Reasoning = [], ro_Confidence = Fin 0\<rparr>"

definition Approve ::
  "time \<Rightarrow> string \<Rightarrow> string \<Rightarrow> approval_store \<Rightarrow> (approval_error option \<times> approval_store) option" where
  "Approve now i resolvedBy s = Resolve now i StatusApproved (by_only resolvedBy) s"

definition Deny ::
  "time \<Rightarrow> string \<Rightarrow> string \<Rightarrow> approval_store \<Rightarrow> (approval_error option \<times> approval_store) option" where
  "Deny now i resolvedBy s = Resolve now i StatusDenied (by_only resolvedBy) s"

text \<open>Reading the channel: the resolution, and the emptied channel. \<open>None\<close> is waiting.\<close>

definition receive :: "string \<Rightarrow> approval_store \<Rightarrow> (resolution \<times> approval_store) option" where
  "receive i s =
     (case map_of (as_pending s) i of
        None \<Rightarrow> None
      | Some pa \<Rightarrow>
          (case a_Result pa of
             Some (r # rs) \<Rightarrow>
               Some (r, s\<lparr>as_pending := AList.update i (pa\<lparr>a_Result := Some rs\<rparr>) (as_pending s)\<rparr>)
           | _ \<Rightarrow> None))"

section \<open>Claims\<close>

definition claimable ::
  "status \<Rightarrow> time \<Rightarrow> string \<Rightarrow> string \<Rightarrow> gval \<Rightarrow> duration \<Rightarrow> string list \<Rightarrow> string \<times> approval \<Rightarrow> bool" where
  "claimable st now agentID tool want window claimed ip =
     (let i = fst ip; pa = snd ip in
      \<not> (a_Status pa \<noteq> st \<or> a_AgentID pa \<noteq> agentID \<or> a_Tool pa \<noteq> tool \<or> i \<in> set claimed
          \<or> now - a_ResolvedAt pa > window)
      \<and> Marshal (a_Params pa) = Some want)"

definition claim_status ::
  "status \<Rightarrow> time \<Rightarrow> string \<Rightarrow> string \<Rightarrow> params \<Rightarrow> duration \<Rightarrow> approval_store
     \<Rightarrow> approval option \<times> approval_store" where
  "claim_status st now agentID tool params window s =
     (case Marshal params of
        None \<Rightarrow> (None, s)
      | Some want \<Rightarrow>
          (case find (claimable st now agentID tool want window (as_claimed s)) (as_pending s) of
             None \<Rightarrow> (None, s)
           | Some (i, pa) \<Rightarrow> (Some pa, s\<lparr>as_claimed := i # as_claimed s\<rparr>)))"

definition ClaimApproved ::
  "time \<Rightarrow> string \<Rightarrow> string \<Rightarrow> params \<Rightarrow> duration \<Rightarrow> approval_store \<Rightarrow> approval option \<times> approval_store" where
  "ClaimApproved now agentID tool params window s =
     claim_status StatusApproved now agentID tool params window s"

definition ClaimDenied ::
  "time \<Rightarrow> string \<Rightarrow> string \<Rightarrow> params \<Rightarrow> duration \<Rightarrow> approval_store \<Rightarrow> approval option \<times> approval_store" where
  "ClaimDenied now agentID tool params window s =
     claim_status StatusDenied now agentID tool params window s"

definition Claim :: "string \<Rightarrow> approval_store \<Rightarrow> bool \<times> approval_store" where
  "Claim i s =
     (if i \<in> set (as_claimed s) then (False, s) else (True, s\<lparr>as_claimed := i # as_claimed s\<rparr>))"

definition FindPending :: "string \<Rightarrow> string \<Rightarrow> params \<Rightarrow> approval_store \<Rightarrow> approval option" where
  "FindPending agentID tool params s =
     (case Marshal params of
        None \<Rightarrow> None
      | Some want \<Rightarrow>
          map_option snd
            (find (\<lambda>(i, pa). a_Status pa = StatusPending \<and> a_AgentID pa = agentID \<and> a_Tool pa = tool
                     \<and> Marshal (a_Params pa) = Some want) (as_pending s)))"

definition approval_Get :: "string \<Rightarrow> approval_store \<Rightarrow> approval option" where
  "approval_Get i s = findLocked i s"

section \<open>Listing\<close>

text \<open>
  The exchange sort of \<open>collectLocked\<close>: one pass leaves the most recent of the first element and
  the rest in front.
\<close>

fun exchange_pass :: "approval \<Rightarrow> approval list \<Rightarrow> approval \<times> approval list" where
  "exchange_pass x [] = (x, [])"
| "exchange_pass x (y # ys) =
     (if a_CreatedAt y > a_CreatedAt x
      then (case exchange_pass y ys of (b, zs) \<Rightarrow> (b, x # zs))
      else (case exchange_pass x ys of (b, zs) \<Rightarrow> (b, y # zs)))"

lemma exchange_pass_length [simp]: "length (snd (exchange_pass x ys)) = length ys"
  by (induction x ys rule: exchange_pass.induct) (auto split: prod.splits)

function exchange_sort :: "approval list \<Rightarrow> approval list" where
  "exchange_sort [] = []"
| "exchange_sort (x # xs) = fst (exchange_pass x xs) # exchange_sort (snd (exchange_pass x xs))"
  by pat_completeness auto
termination
  by (relation "measure length") auto

definition collectLocked :: "(approval \<Rightarrow> bool) \<Rightarrow> approval_store \<Rightarrow> approval list" where
  "collectLocked keep s = exchange_sort (filter keep (map snd (as_pending s)))"

definition approval_List :: "approval_store \<Rightarrow> approval list" where
  "approval_List s = collectLocked (\<lambda>_. True) s"

definition ListPending :: "approval_store \<Rightarrow> approval list" where
  "ListPending s = collectLocked (\<lambda>pa. a_Status pa = StatusPending) s"

section \<open>Restart\<close>

definition expireLoaded :: "time \<Rightarrow> approval \<Rightarrow> approval_store \<Rightarrow> approval_store" where
  "expireLoaded now pa s =
     (let pa1 = pa\<lparr>a_Status := StatusTimeout, a_ResolvedAt := now\<rparr>;
          res = \<lparr>rs_Status = StatusTimeout, rs_ResolvedBy = ''system:timeout'', rs_ResolvedAt = now,
                 rs_Reasoning = [], rs_Confidence = Fin 0\<rparr> in
      WriteDecision pa1 res
        (approval_dbUpdate pa1 (s\<lparr>as_pending := AList.update (a_ID pa) pa1 (as_pending s)\<rparr>)))"

definition load_row :: "time \<Rightarrow> approval \<Rightarrow> approval_store \<Rightarrow> approval_store" where
  "load_row now pa s =
     (if a_Status pa = StatusPending
      then
        (let remaining = as_timeout s - (now - a_CreatedAt pa) in
         if remaining \<le> 0 then expireLoaded now pa s
         else s\<lparr>as_pending := AList.update (a_ID pa) (pa\<lparr>a_Result := Some []\<rparr>) (as_pending s),
                as_timers := as_timers s @ [(a_ID pa, now + remaining)]\<rparr>)
      else s\<lparr>as_pending := AList.update (a_ID pa) pa (as_pending s)\<rparr>)"

text \<open>The rows come in the order the query gives; \<open>order\<close> is the database's ORDER BY.\<close>

definition approval_LoadAll ::
  "(approval list \<Rightarrow> approval list) \<Rightarrow> time \<Rightarrow> approval_store \<Rightarrow> nat \<times> approval_store" where
  "approval_LoadAll order now s =
     (case as_db s of
        None \<Rightarrow> (0, s)
      | Some rows \<Rightarrow> (length rows, fold (load_row now) (order rows) s))"

section \<open>Settings\<close>

datatype settings_error = BadTimeout | BadWait | BadMinApprovals

definition settings_Validate :: "settings \<Rightarrow> settings_error option" where
  "settings_Validate st =
     (if st_TimeoutSeconds st < 30 \<or> st_TimeoutSeconds st > 3600 then Some BadTimeout
      else if flt_lt (st_WaitSeconds st) (Fin 0) \<or> flt_lt (Fin 10) (st_WaitSeconds st) then Some BadWait
      else if st_MinApprovals st < 1 \<or> st_MinApprovals st > 100 then Some BadMinApprovals
      else None)"

definition reader_MinApprovals :: "memory_reader option \<Rightarrow> int" where
  "reader_MinApprovals m = (case m of None \<Rightarrow> 0 | Some r \<Rightarrow> mr_min r)"

definition NewMemoryReader :: "string \<Rightarrow> int \<Rightarrow> memory_reader" where
  "NewMemoryReader url minApprovals =
     \<lparr>mr_url = url, mr_min = (if minApprovals \<le> 0 then 3 else minApprovals)\<rparr>"

definition SetMinApprovals :: "int \<Rightarrow> memory_reader option \<Rightarrow> memory_reader option" where
  "SetMinApprovals n m = (if n > 0 then map_option (\<lambda>r. r\<lparr>mr_min := n\<rparr>) m else m)"

text \<open>The settings in force. Go's integer division rounds towards zero.\<close>

definition Settings :: "approval_store \<Rightarrow> settings" where
  "Settings s =
     (let secs = (if as_timeout s \<ge> 0 then as_timeout s div second else - ((- as_timeout s) div second));
          st = (as_settings s)\<lparr>st_TimeoutSeconds := secs\<rparr> in
      (if as_reader s \<noteq> None then st\<lparr>st_MinApprovals := reader_MinApprovals (as_reader s)\<rparr> else st))"

definition Apply :: "settings \<Rightarrow> approval_store \<Rightarrow> approval_store" where
  "Apply st s =
     (let s1 = s\<lparr>as_settings := st\<rparr>;
          s2 = (if st_TimeoutSeconds st > 0 then s1\<lparr>as_timeout := st_TimeoutSeconds st * second\<rparr> else s1) in
      (if as_reader s2 \<noteq> None \<and> st_MinApprovals st > 0
       then s2\<lparr>as_reader := SetMinApprovals (st_MinApprovals st) (as_reader s2)\<rparr> else s2))"

text \<open>A wait that is not a finite number has no defined conversion in Go; it is 0 here.\<close>

definition Wait :: "approval_store option \<Rightarrow> duration" where
  "Wait s =
     (case s of
        None \<Rightarrow> 0
      | Some s \<Rightarrow>
          (case st_WaitSeconds (as_settings s) of
             Fin q \<Rightarrow> (if q \<ge> 0 then \<lfloor>q * of_int second\<rfloor> else - \<lfloor>- q * of_int second\<rfloor>)
           | _ \<Rightarrow> 0))"

section \<open>Automatic approval from precedents\<close>

text \<open>
  \<open>mem7 name tags\<close> is the text the mem7 server answers to a call of its tool \<open>name\<close> with the
  given tags, \<open>None\<close> when the call fails.
\<close>

type_synonym mem7 = "string \<Rightarrow> string list \<Rightarrow> string option"

definition int_of_digits :: "string \<Rightarrow> int" where
  "int_of_digits ds = number_val ds"

text \<open>The first line of the form \<open>N memory:\<close> or \<open>N memories:\<close>.\<close>

definition list_count_line :: "string \<Rightarrow> string option" where
  "list_count_line line =
     (let ds = takeWhile is_digit line; rest = dropWhile is_digit line in
      if ds \<noteq> [] \<and> (HasPrefix rest '' memory:'' \<or> HasPrefix rest '' memories:'') then Some ds else None)"

fun first_count :: "string list \<Rightarrow> string option" where
  "first_count [] = None"
| "first_count (l # ls) = (case list_count_line l of Some ds \<Rightarrow> Some ds | None \<Rightarrow> first_count ls)"

definition mem_count :: "mem7 \<Rightarrow> string list \<Rightarrow> int option" where
  "mem_count mem tags =
     (case mem ''memory_list'' tags of
        None \<Rightarrow> None
      | Some answer \<Rightarrow>
          (case first_count (Split (CHR 0x0A) answer) of
             Some ds \<Rightarrow> if int_of_digits ds < 2 ^ 63 then Some (int_of_digits ds) else None
           | None \<Rightarrow>
               if Contains answer ''No memories found'' \<or> TrimSpace answer = [] then Some 0 else None))"

record auto_result =
  ar_Action :: string
  ar_Reason :: string
  ar_Confidence :: flt
  ar_Approved :: int
  ar_Rejected :: int

definition verdict :: "memory_reader \<Rightarrow> int \<Rightarrow> int \<Rightarrow> auto_result" where
  "verdict m approved rejected =
     (if rejected > 0
      then \<lparr>ar_Action = ''escalate'',
             ar_Reason = ''mem7: '' @ Itoa approved @ '' human approvals, '' @ Itoa rejected
               @ '' refusals '' @ emdash @ '' escalating'',
             ar_Confidence = Fin 0, ar_Approved = approved, ar_Rejected = rejected\<rparr>
      else if approved \<ge> mr_min m
      then \<lparr>ar_Action = ''approve'',
             ar_Reason = ''mem7: '' @ Itoa approved @ '' prior human approvals, 0 refusals'',
             ar_Confidence = Fin (9 / 10), ar_Approved = approved, ar_Rejected = 0\<rparr>
      else \<lparr>ar_Action = ''escalate'',
             ar_Reason = ''mem7: '' @ Itoa approved @ '' human approvals (need '' @ Itoa (mr_min m)
               @ '') '' @ emdash @ '' escalating'',
             ar_Confidence = Fin 0, ar_Approved = approved, ar_Rejected = 0\<rparr>)"

definition decision_scope :: "string \<Rightarrow> string \<Rightarrow> string list" where
  "decision_scope tool agentID =
     [''decision'', tool] @ (if agentID \<noteq> [] then [''agent:'' @ agentID] else [])"

definition escalate :: "string \<Rightarrow> auto_result" where
  "escalate reason =
     \<lparr>ar_Action = ''escalate'', ar_Reason = reason, ar_Confidence = Fin 0, ar_Approved = 0, ar_Rejected = 0\<rparr>"

definition AutoResolve :: "mem7 \<Rightarrow> memory_reader option \<Rightarrow> string \<Rightarrow> string \<Rightarrow> auto_result" where
  "AutoResolve mem m tool agentID =
     (case m of
        None \<Rightarrow> escalate ''no memory server''
      | Some r \<Rightarrow>
          if mr_url r = [] then escalate ''no memory server''
          else
            (case (mem_count mem ([''approved'', ''by:human''] @ decision_scope tool agentID),
                   mem_count mem ([''denied''] @ decision_scope tool agentID)) of
               (Some approved, Some rejected) \<Rightarrow> verdict r approved rejected
             | _ \<Rightarrow> escalate ''mem7 query failed''))"

definition resolverKind :: "string \<Rightarrow> string" where
  "resolverKind resolvedBy =
     (let v = ToLower resolvedBy in
      if v = ''supervisor:mem7'' then ''mem7''
      else if HasPrefix v ''supervisor:'' \<or> HasPrefix v ''auto:'' \<or> HasPrefix v ''bot:'' then ''supervisor''
      else if HasPrefix v ''system:'' then ''system''
      else ''human'')"

definition status_text :: "status \<Rightarrow> string" where
  "status_text st =
     (case st of StatusPending \<Rightarrow> ''pending'' | StatusApproved \<Rightarrow> ''approved''
      | StatusDenied \<Rightarrow> ''denied'' | StatusTimeout \<Rightarrow> ''timeout'')"

text \<open>The tags under which \<open>WriteDecision\<close> stores a decision.\<close>

definition decision_tags :: "approval \<Rightarrow> resolution \<Rightarrow> string list" where
  "decision_tags pa res =
     [''decision'', status_text (rs_Status res), a_Tool pa, ''by:'' @ resolverKind (rs_ResolvedBy res)]
     @ (if a_AgentID pa \<noteq> [] then [''agent:'' @ a_AgentID pa] else [])"

definition TryAutoResolve ::
  "mem7 \<Rightarrow> time \<Rightarrow> string \<Rightarrow> string \<Rightarrow> string \<Rightarrow> approval_store \<Rightarrow> resolution option \<times> approval_store" where
  "TryAutoResolve mem now newID agentID tool s =
     (if as_reader s = None then (None, s)
      else
        (let ar = AutoResolve mem (as_reader s) tool agentID in
         if ar_Action ar \<noteq> ''approve'' then (None, s)
         else
           (let res = \<lparr>rs_Status = StatusApproved, rs_ResolvedBy = ''supervisor:mem7'', rs_ResolvedAt = now,
                       rs_Reasoning = ar_Reason ar, rs_Confidence = ar_Confidence ar\<rparr>;
                pa = \<lparr>a_ID = newID, a_AgentID = agentID, a_Tool = tool, a_Params = None,
                      a_PolicyRule = [], a_TraceID = [], a_CallbackURL = [], a_Status = StatusPending,
                      a_CreatedAt = zero_time, a_ResolvedBy = [], a_ResolvedAt = zero_time,
                      a_Reasoning = [], a_Confidence = Fin 0, a_Result = None\<rparr> in
            (Some res, WriteDecision pa res s))))"

text \<open>\<open>None\<close> is the nil store.\<close>

definition TryAutoResolveSafe ::
  "go_rt \<Rightarrow> mem7 \<Rightarrow> time \<Rightarrow> string \<Rightarrow> string \<Rightarrow> string \<Rightarrow> params \<Rightarrow> approval_store
     \<Rightarrow> resolution option \<times> approval_store" where
  "TryAutoResolveSafe rt mem now newID agentID tool params s =
     (if \<not> st_AutoApprove (Settings s) then (None, s)
      else if (case as_AutoApprovable s of None \<Rightarrow> False | Some ok \<Rightarrow> \<not> ok tool) then (None, s)
      else if DetectInjection rt params then (None, s)
      else TryAutoResolve mem now newID agentID tool s)"

section \<open>Invariant\<close>

definition approval_ok :: "string \<times> approval \<Rightarrow> bool" where
  "approval_ok ip =
     (a_ID (snd ip) = fst ip \<and> (a_Status (snd ip) = StatusPending \<longrightarrow> a_Result (snd ip) = Some [])
      \<and> (case a_Result (snd ip) of None \<Rightarrow> True | Some rs \<Rightarrow> length rs \<le> 1))"

definition approvals_inv :: "approval_store \<Rightarrow> bool" where
  "approvals_inv s =
     (keys_distinct (as_pending s) \<and> list_all approval_ok (as_pending s) \<and> distinct (as_claimed s))"

lemma approvals_invD:
  assumes "approvals_inv s" and "map_of (as_pending s) i = Some pa"
  shows "a_ID pa = i" and "a_Status pa = StatusPending \<Longrightarrow> a_Result pa = Some []"
    and "a_Result pa = Some rs \<Longrightarrow> length rs \<le> 1"
  using assms map_of_SomeD [OF assms(2)] by (auto simp: approvals_inv_def approval_ok_def list_all_iff)

lemma list_all_update: "list_all P m \<Longrightarrow> P (k, v) \<Longrightarrow> list_all P (AList.update k v m)"
  by (induction m) auto

lemma approval_frame [simp]:
  "as_pending (approval_dbUpdate pa s) = as_pending s"
  "as_claimed (approval_dbUpdate pa s) = as_claimed s"
  "as_timers (approval_dbUpdate pa s) = as_timers s"
  "as_pending (approval_dbSave pa s) = as_pending s"
  "as_claimed (approval_dbSave pa s) = as_claimed s"
  "as_pending (WriteDecision pa res s) = as_pending s"
  "as_claimed (WriteDecision pa res s) = as_claimed s"
  "as_timers (WriteDecision pa res s) = as_timers s"
  by (simp_all add: approval_dbUpdate_def approval_dbSave_def WriteDecision_def Let_def)

lemma findLocked_SomeD:
  assumes "approvals_inv s" and "findLocked i s = Some pa"
  shows "map_of (as_pending s) (a_ID pa) = Some pa"
proof (cases "map_of (as_pending s) i")
  case None
  then obtain k where "prefix_hits (as_pending s) i = [(k, pa)]"
    using assms(2) by (auto simp: findLocked_def split: list.splits)
  then have "(k, pa) \<in> set (prefix_hits (as_pending s) i)" by simp
  then have "(k, pa) \<in> set (as_pending s)" by (simp add: prefix_hits_def)
  with assms(1) have "map_of (as_pending s) k = Some pa"
    by (auto simp: approvals_inv_def keys_distinct_def)
  with assms(1) show ?thesis using approvals_invD(1) by fastforce
next
  case (Some pa')
  with assms show ?thesis using approvals_invD(1) by (fastforce simp: findLocked_def)
qed

text \<open>What every successful resolution does, by a person or by the timer.\<close>

definition settled :: "string \<Rightarrow> resolution \<Rightarrow> approval_store \<Rightarrow> approval_store \<Rightarrow> bool" where
  "settled i res s s' =
     (\<exists>pa pa'. map_of (as_pending s) i = Some pa \<and> a_Status pa = StatusPending
        \<and> as_pending s' = AList.update i pa' (as_pending s) \<and> as_claimed s' = as_claimed s
        \<and> a_ID pa' = i \<and> a_AgentID pa' = a_AgentID pa \<and> a_Tool pa' = a_Tool pa \<and> a_Params pa' = a_Params pa
        \<and> a_Status pa' = rs_Status res \<and> a_ResolvedBy pa' = (if rs_Status res = StatusTimeout
             then a_ResolvedBy pa else rs_ResolvedBy res)
        \<and> a_ResolvedAt pa' = rs_ResolvedAt res \<and> a_Result pa' = Some [res])"

lemma Resolve_spec:
  assumes "approvals_inv s" and "st \<in> {StatusApproved, StatusDenied}"
  shows "(findLocked i s = None \<and> Resolve now i st opts s = Some (Some ErrNotFound, s))
    \<or> (\<exists>pa. findLocked i s = Some pa \<and> a_Status pa \<noteq> StatusPending
         \<and> Resolve now i st opts s = Some (Some ErrAlreadyResolved, s))
    \<or> (\<exists>pa s'. findLocked i s = Some pa \<and> a_Status pa = StatusPending
         \<and> Resolve now i st opts s = Some (None, s')
         \<and> settled (a_ID pa) \<lparr>rs_Status = st, rs_ResolvedBy = ro_ResolvedBy opts, rs_ResolvedAt = now,
              rs_Reasoning = ro_Reasoning opts, rs_Confidence = ro_Confidence opts\<rparr> s s')"
proof (cases "findLocked i s")
  case None
  then show ?thesis by (simp add: Resolve_def)
next
  case (Some pa)
  note m = findLocked_SomeD [OF assms(1) Some]
  show ?thesis
  proof (cases "a_Status pa = StatusPending")
    case False
    with Some show ?thesis by (simp add: Resolve_def)
  next
    case True
    with approvals_invD [OF assms(1) m] have "a_Result pa = Some []" by simp
    with True Some m assms(2) show ?thesis
      by (auto simp: Resolve_def send_def settled_def Let_def)
  qed
qed

lemma timeoutAfter_spec:
  assumes "approvals_inv s"
  shows "(timeoutAfter now i s = Some s \<and> (\<forall>pa. map_of (as_pending s) i = Some pa \<longrightarrow> a_Status pa \<noteq> StatusPending))
    \<or> (\<exists>s'. timeoutAfter now i s = Some s'
         \<and> settled i \<lparr>rs_Status = StatusTimeout, rs_ResolvedBy = ''system:timeout'', rs_ResolvedAt = now,
              rs_Reasoning = [], rs_Confidence = Fin 0\<rparr> s s')"
proof (cases "map_of (as_pending s) i")
  case None
  then show ?thesis by (simp add: timeoutAfter_def)
next
  case (Some pa)
  note inv = approvals_invD [OF assms Some]
  show ?thesis
  proof (cases "a_Status pa = StatusPending")
    case False
    with Some show ?thesis by (simp add: timeoutAfter_def)
  next
    case True
    with inv Some show ?thesis
      by (auto simp: timeoutAfter_def send_def settled_def Let_def)
  qed
qed

lemma settled_inv [inv_intros]:
  assumes "approvals_inv s" and "settled i res s s'" and "rs_Status res \<noteq> StatusPending"
  shows "approvals_inv s'"
  using assms by (auto simp: approvals_inv_def settled_def approval_ok_def intro!: list_all_update)

lemma Submit_frame [simp]:
  "as_pending (snd (SubmitWithTrace now i agent tool rule ps url tid s))
     = AList.update i (fst (SubmitWithTrace now i agent tool rule ps url tid s)) (as_pending s)"
  "as_claimed (snd (SubmitWithTrace now i agent tool rule ps url tid s)) = as_claimed s"
  "a_ID (fst (SubmitWithTrace now i agent tool rule ps url tid s)) = i"
  "a_AgentID (fst (SubmitWithTrace now i agent tool rule ps url tid s)) = agent"
  "a_Tool (fst (SubmitWithTrace now i agent tool rule ps url tid s)) = tool"
  "a_Params (fst (SubmitWithTrace now i agent tool rule ps url tid s)) = ps"
  "a_Status (fst (SubmitWithTrace now i agent tool rule ps url tid s)) = StatusPending"
  "a_Result (fst (SubmitWithTrace now i agent tool rule ps url tid s)) = Some []"
  by (simp_all add: SubmitWithTrace_def Let_def)

lemma Submit_inv [inv_intros]:
  "approvals_inv s \<Longrightarrow> approvals_inv (snd (SubmitWithTrace now i agent tool rule ps url tid s))"
  by (auto simp: approvals_inv_def approval_ok_def intro!: list_all_update)

lemma find_claimable:
  assumes "find (claimable st now a t want w claimed) m = Some (i, pa)"
  shows "(i, pa) \<in> set m \<and> a_Status pa = st \<and> a_AgentID pa = a \<and> a_Tool pa = t \<and> i \<notin> set claimed
    \<and> now - a_ResolvedAt pa \<le> w \<and> Marshal (a_Params pa) = Some want"
  using find_SomeD [OF assms] by (auto simp: claimable_def Let_def)

lemma claim_status_cases:
  obtains (no) "claim_status st now a t ps w s = (None, s)"
  | (yes) i pa where "claim_status st now a t ps w s = (Some pa, s\<lparr>as_claimed := i # as_claimed s\<rparr>)"
      "(i, pa) \<in> set (as_pending s)" "i \<notin> set (as_claimed s)" "a_Status pa = st" "a_AgentID pa = a"
      "a_Tool pa = t" "now - a_ResolvedAt pa \<le> w" "Marshal (a_Params pa) = Marshal ps" "Marshal ps \<noteq> None"
proof (cases "Marshal ps")
  case None
  then show ?thesis by (intro no) (simp add: claim_status_def)
next
  case (Some want)
  show ?thesis
  proof (cases "find (claimable st now a t want w (as_claimed s)) (as_pending s)")
    case None
    with Some show ?thesis by (intro no) (simp add: claim_status_def)
  next
    case (Some ip)
    obtain i pa where ip: "ip = (i, pa)" by (cases ip)
    from find_claimable [OF Some [unfolded ip]] Some ip \<open>Marshal ps = Some want\<close> show ?thesis
      by (intro yes [of pa i]) (auto simp: claim_status_def)
  qed
qed

lemma claim_status_inv [inv_intros]:
  "approvals_inv s \<Longrightarrow> approvals_inv (snd (claim_status st now a t ps w s))"
  by (cases rule: claim_status_cases [of st now a t ps w s]) (auto simp: approvals_inv_def)

lemma Claim_inv [inv_intros]: "approvals_inv s \<Longrightarrow> approvals_inv (snd (Claim i s))"
  by (auto simp: Claim_def approvals_inv_def)

lemma receive_inv [inv_intros]:
  assumes "approvals_inv s" and "receive i s = Some (r, s')"
  shows "approvals_inv s'"
proof -
  from assms(2) obtain pa rs where m: "map_of (as_pending s) i = Some pa" "a_Result pa = Some (r # rs)"
      "s' = s\<lparr>as_pending := AList.update i (pa\<lparr>a_Result := Some rs\<rparr>) (as_pending s)\<rparr>"
    by (auto simp: receive_def split: option.splits list.splits)
  from approvals_invD [OF assms(1) m(1)] m assms(1) show ?thesis
    by (auto simp: approvals_inv_def approval_ok_def intro!: list_all_update)
qed

section \<open>Runs\<close>

text \<open>
  A run of the store: any interleaving of callers, people and timers, with the clock moving
  forward. Each step shows what it did: an approval opened, resolved, or claimed, or nothing.
\<close>

datatype event = Opened string | Resolved string resolution | Claimed string | Nothing

inductive approval_step :: "time \<times> approval_store \<Rightarrow> event \<Rightarrow> time \<times> approval_store \<Rightarrow> bool" where
  clock: "now \<le> now' \<Longrightarrow> approval_step (now, s) Nothing (now', s)"
| submit: "i \<notin> fst ` set (as_pending s) \<Longrightarrow> i \<notin> set (as_claimed s) \<Longrightarrow>
    approval_step (now, s) (Opened i) (now, snd (SubmitWithTrace now i agent tool rule ps url tid s))"
| resolve: "st \<in> {StatusApproved, StatusDenied} \<Longrightarrow> findLocked i s = Some pa \<Longrightarrow>
    Resolve now i st opts s = Some (None, s') \<Longrightarrow>
    approval_step (now, s) (Resolved (a_ID pa) \<lparr>rs_Status = st, rs_ResolvedBy = ro_ResolvedBy opts,
       rs_ResolvedAt = now, rs_Reasoning = ro_Reasoning opts, rs_Confidence = ro_Confidence opts\<rparr>) (now, s')"
| refused: "st \<in> {StatusApproved, StatusDenied} \<Longrightarrow> Resolve now i st opts s = Some (Some e, s') \<Longrightarrow>
    approval_step (now, s) Nothing (now, s')"
| timer: "(i, d) \<in> set (as_timers s) \<Longrightarrow> d \<le> now \<Longrightarrow> map_of (as_pending s) i = Some pa \<Longrightarrow>
    a_Status pa = StatusPending \<Longrightarrow> timeoutAfter now i s = Some s' \<Longrightarrow>
    approval_step (now, s) (Resolved i \<lparr>rs_Status = StatusTimeout, rs_ResolvedBy = ''system:timeout'',
       rs_ResolvedAt = now, rs_Reasoning = [], rs_Confidence = Fin 0\<rparr>) (now, s')"
| claim_approved: "ClaimApproved now a t ps w s = (Some pa, s') \<Longrightarrow>
    approval_step (now, s) (Claimed (a_ID pa)) (now, s')"
| claim_denied: "ClaimDenied now a t ps w s = (Some pa, s') \<Longrightarrow>
    approval_step (now, s) (Claimed (a_ID pa)) (now, s')"
| claim: "Claim i s = (True, s') \<Longrightarrow> approval_step (now, s) (Claimed i) (now, s')"
| read: "receive i s = Some (r, s') \<Longrightarrow> approval_step (now, s) Nothing (now, s')"
| configure: "approval_step (now, s) Nothing (now, Apply st s)"

inductive approval_run :: "time \<times> approval_store \<Rightarrow> event list \<Rightarrow> time \<times> approval_store \<Rightarrow> bool" where
  start: "approval_run x [] x"
| step: "approval_run x es y \<Longrightarrow> approval_step y e z \<Longrightarrow> approval_run x (es @ [e]) z"

lemma Apply_frame [simp]:
  "as_pending (Apply st s) = as_pending s" "as_claimed (Apply st s) = as_claimed s"
  by (auto simp: Apply_def Let_def)

text \<open>How one step changes the entry of an approval, and the claims.\<close>

definition read_from :: "approval \<Rightarrow> approval \<Rightarrow> bool" where
  "read_from p q =
     (a_Result q = a_Result p \<or> (\<exists>r rs. a_Result p = Some (r # rs) \<and> a_Result q = Some rs))"

definition same_decision :: "approval \<Rightarrow> approval \<Rightarrow> bool" where
  "same_decision p q =
     (a_ID p = a_ID q \<and> a_AgentID p = a_AgentID q \<and> a_Tool p = a_Tool q \<and> a_Params p = a_Params q
      \<and> a_Status p = a_Status q \<and> a_ResolvedBy p = a_ResolvedBy q \<and> a_ResolvedAt p = a_ResolvedAt q)"

lemma Resolve_Some_None_settled:
  assumes "approvals_inv s" and "st \<in> {StatusApproved, StatusDenied}" and "findLocked i s = Some pa"
    and "Resolve now i st opts s = Some (None, s')"
  shows "settled (a_ID pa) \<lparr>rs_Status = st, rs_ResolvedBy = ro_ResolvedBy opts, rs_ResolvedAt = now,
     rs_Reasoning = ro_Reasoning opts, rs_Confidence = ro_Confidence opts\<rparr> s s'"
  using Resolve_spec [OF assms(1,2), of i now opts] assms(3,4) by auto

lemma Resolve_refused: "Resolve now i st opts s = Some (Some e, s') \<Longrightarrow> s' = s"
  by (auto simp: Resolve_def Let_def split: option.splits if_splits)

lemma approval_step_cases:
  assumes "approval_step (now, s) e (now', s')" and inv: "approvals_inv s"
  shows "(\<exists>i res. e = Resolved i res \<and> rs_Status res \<noteq> StatusPending \<and> settled i res s s')
    \<or> (\<exists>i pa. e = Opened i \<and> i \<notin> fst ` set (as_pending s) \<and> a_Status pa = StatusPending
         \<and> as_pending s' = AList.update i pa (as_pending s) \<and> as_claimed s' = as_claimed s)
    \<or> (\<exists>i. e = Claimed i \<and> i \<notin> set (as_claimed s) \<and> as_claimed s' = i # as_claimed s
         \<and> as_pending s' = as_pending s)
    \<or> (e = Nothing \<and> as_claimed s' = as_claimed s
         \<and> (\<forall>i pa. map_of (as_pending s) i = Some pa \<longrightarrow>
              (\<exists>pa'. map_of (as_pending s') i = Some pa' \<and> same_decision pa pa' \<and> read_from pa pa')))"
  using assms(1)
proof (cases rule: approval_step.cases)
  case (resolve st i pa opts)
  with Resolve_Some_None_settled [OF inv] show ?thesis by auto
next
  case (refused st i opts e')
  then have "s' = s" by (blast dest: Resolve_refused)
  with refused show ?thesis by (simp add: same_decision_def read_from_def)
next
  case (timer i d pa)
  with timeoutAfter_spec [OF inv, of now i] show ?thesis by auto
next
  case (claim_approved a t ps w pa)
  have "a_ID pa = i" if "(i, pa) \<in> set (as_pending s)" for i
    using that inv by (auto simp: approvals_inv_def list_all_iff approval_ok_def)
  then show ?thesis
    using claim_approved unfolding ClaimApproved_def
    by (cases rule: claim_status_cases [of StatusApproved now a t ps w s]) auto
next
  case (claim_denied a t ps w pa)
  have "a_ID pa = i" if "(i, pa) \<in> set (as_pending s)" for i
    using that inv by (auto simp: approvals_inv_def list_all_iff approval_ok_def)
  then show ?thesis
    using claim_denied unfolding ClaimDenied_def
    by (cases rule: claim_status_cases [of StatusDenied now a t ps w s]) auto
next
  case (claim i)
  then show ?thesis by (auto simp: Claim_def split: if_splits)
next
  case (read i r)
  then show ?thesis
    by (auto simp: receive_def same_decision_def read_from_def split: option.splits list.splits)
next
  case (submit i agent tool rule ps url tid)
  then show ?thesis
    using Submit_frame [of now i agent tool rule ps url tid s] by blast
qed (simp_all add: same_decision_def read_from_def)

lemma approval_step_inv:
  assumes "approval_step (now, s) e (now', s')" and inv: "approvals_inv s"
  shows "approvals_inv s'"
  using assms(1)
proof (cases rule: approval_step.cases)
  case (submit i agent tool rule ps url tid)
  then have "s' = snd (SubmitWithTrace now i agent tool rule ps url tid s)" by simp
  with Submit_inv [OF inv] show ?thesis by (simp only:)
next
  case (resolve st i pa opts)
  then have st: "st \<in> {StatusApproved, StatusDenied}" "findLocked i s = Some pa"
    "Resolve now i st opts s = Some (None, s')" by simp_all
  show ?thesis
    by (rule settled_inv [OF inv Resolve_Some_None_settled [OF inv st]]) (use st(1) in auto)
next
  case (refused st i opts e')
  then have "s' = s" by (blast dest: Resolve_refused)
  with inv show ?thesis by simp
next
  case (timer i d pa)
  with timeoutAfter_spec [OF inv, of now i] inv show ?thesis by (auto intro: settled_inv [OF inv])
next
  case (claim_approved a t ps w pa)
  with claim_status_inv [OF inv, of StatusApproved now a t ps w] show ?thesis by (simp add: ClaimApproved_def)
next
  case (claim_denied a t ps w pa)
  with claim_status_inv [OF inv, of StatusDenied now a t ps w] show ?thesis by (simp add: ClaimDenied_def)
next
  case (claim i)
  with Claim_inv [OF inv, of i] show ?thesis by simp
next
  case (read i r)
  with receive_inv [OF inv] show ?thesis by blast
next
  case (configure st)
  with inv show ?thesis by (simp add: approvals_inv_def)
qed (use inv in auto)

lemma approval_run_inv: "approval_run x es y \<Longrightarrow> approvals_inv (snd x) \<Longrightarrow> approvals_inv (snd y)"
proof (induction rule: approval_run.induct)
  case (step x es y e z)
  then have "approval_step (fst y, snd y) e (fst z, snd z)" "approvals_inv (snd y)" by simp_all
  then show ?case by (rule approval_step_inv)
qed

lemma approval_step_keeps:
  assumes "approval_step (now, s) e (now', s')" and inv: "approvals_inv s"
    and p: "map_of (as_pending s) i = Some p" "a_Status p \<noteq> StatusPending"
  shows "\<exists>p'. map_of (as_pending s') i = Some p' \<and> same_decision p p'"
  using approval_step_cases [OF assms(1,2)]
proof (elim disjE exE conjE)
  fix j res assume "settled j res s s'"
  with p show ?thesis by (cases "j = i") (auto simp: settled_def same_decision_def)
next
  fix j pa assume "j \<notin> fst ` set (as_pending s)" "as_pending s' = AList.update j pa (as_pending s)"
  moreover have "i \<in> fst ` set (as_pending s)" using p(1) by (metis domI dom_map_of_conv_image_fst)
  ultimately have "map_of (as_pending s') i = Some p" using p(1) by auto
  then show ?thesis by (simp add: same_decision_def)
next
  assume "as_pending s' = as_pending s"
  with p show ?thesis by (simp add: same_decision_def)
next
  assume "\<forall>i pa. map_of (as_pending s) i = Some pa \<longrightarrow>
    (\<exists>pa'. map_of (as_pending s') i = Some pa' \<and> same_decision pa pa' \<and> read_from pa pa')"
  with p show ?thesis by blast
qed

text \<open>A resolution that has been read stays read: the channel of its approval is never filled again.\<close>

definition spent :: "string \<Rightarrow> approval_store \<Rightarrow> bool" where
  "spent i s = (\<exists>pa. map_of (as_pending s) i = Some pa \<and> a_Status pa \<noteq> StatusPending \<and> a_Result pa = Some [])"

lemma receive_spent:
  assumes "approvals_inv s" and "receive i s = Some (r, s')" shows "spent i s'"
proof -
  from assms(2) obtain pa rs where m: "map_of (as_pending s) i = Some pa" "a_Result pa = Some (r # rs)"
      "s' = s\<lparr>as_pending := AList.update i (pa\<lparr>a_Result := Some rs\<rparr>) (as_pending s)\<rparr>"
    by (auto simp: receive_def split: option.splits list.splits)
  then show ?thesis
    using approvals_invD(2,3) [OF assms(1) m(1)] by (auto simp: spent_def)
qed

lemma spent_receive: "spent i s \<Longrightarrow> receive i s = None"
  by (auto simp: spent_def receive_def)

lemma approval_step_spent:
  assumes "approval_step (now, s) e (now', s')" and inv: "approvals_inv s" and "spent i s"
  shows "spent i s'"
proof -
  obtain p where p: "map_of (as_pending s) i = Some p" "a_Status p \<noteq> StatusPending" "a_Result p = Some []"
    using assms(3) by (auto simp: spent_def)
  show ?thesis
    using approval_step_cases [OF assms(1,2)]
  proof (elim disjE exE conjE)
    fix j res assume "settled j res s s'"
    with p show ?thesis by (cases "j = i") (auto simp: settled_def spent_def)
  next
    fix j pa assume "j \<notin> fst ` set (as_pending s)" "as_pending s' = AList.update j pa (as_pending s)"
    moreover have "i \<in> fst ` set (as_pending s)" using p(1) by (metis domI dom_map_of_conv_image_fst)
    ultimately show ?thesis using p by (auto simp: spent_def)
  next
    assume "as_pending s' = as_pending s"
    with p show ?thesis by (simp add: spent_def)
  next
    assume "\<forall>i pa. map_of (as_pending s) i = Some pa \<longrightarrow>
      (\<exists>pa'. map_of (as_pending s') i = Some pa' \<and> same_decision pa pa' \<and> read_from pa pa')"
    with p obtain p' where "map_of (as_pending s') i = Some p'" "same_decision p p'" "read_from p p'"
      by blast
    with p show ?thesis by (simp add: spent_def same_decision_def read_from_def)
  qed
qed

lemma approval_run_spent:
  "approval_run x es y \<Longrightarrow> approvals_inv (snd x) \<Longrightarrow> spent i (snd x) \<Longrightarrow> spent i (snd y)"
proof (induction rule: approval_run.induct)
  case (step x es y e z)
  then have "approval_step (fst y, snd y) e (fst z, snd z)" "approvals_inv (snd y)" "spent i (snd y)"
    using approval_run_inv by auto
  then show ?case by (rule approval_step_spent)
qed simp

section \<open>Properties\<close>

lemma settled_map_of:
  assumes "settled i res s s'"
  shows "\<exists>pa pa'. map_of (as_pending s) i = Some pa \<and> a_Status pa = StatusPending
    \<and> map_of (as_pending s') i = Some pa' \<and> a_Status pa' = rs_Status res"
  using assms by (auto simp: settled_def)

text \<open>
  Resolving always returns: no caller and no timer blocks on the channel of an approval
  while holding the lock of the store. It changes nothing unless the approval is found and
  pending, and then records the decision and puts exactly that decision on the channel.
\<close>

theorem Resolve_never_blocks:
  assumes "approvals_inv s" and "st \<in> {StatusApproved, StatusDenied}"
  shows "\<exists>e s'. Resolve now i st opts s = Some (e, s') \<and>
    (case findLocked i s of
       None \<Rightarrow> e = Some ErrNotFound \<and> s' = s
     | Some pa \<Rightarrow>
         if a_Status pa = StatusPending
         then e = None \<and> (\<exists>pa'. map_of (as_pending s') (a_ID pa) = Some pa' \<and> a_Status pa' = st
                \<and> a_ResolvedBy pa' = ro_ResolvedBy opts \<and> a_ResolvedAt pa' = now
                \<and> map_option (map rs_Status) (a_Result pa') = Some [st])
         else e = Some ErrAlreadyResolved \<and> s' = s)"
  using Resolve_spec [OF assms, of i now opts] assms(2) by (auto simp: settled_def)

definition demo_submitted :: approval_store where
  "demo_submitted = snd (Submit 10 ''0123abcd'' ''bot'' ''fs.write'' ''r'' (Some [(''p'', VInt 1)]) []
     (approval_NewStore (5 * minute)))"

lemma demo_submitted_inv: "approvals_inv demo_submitted"
proof -
  have "approvals_inv (approval_NewStore (5 * minute))"
    by (simp add: approvals_inv_def approval_NewStore_def)
  then show ?thesis unfolding demo_submitted_def Submit_def by (rule Submit_inv)
qed

theorem Resolve_never_blocks_witness:
  "\<exists>s'. Approve 20 ''0123'' ''alice'' demo_submitted = Some (None, s')"
proof -
  have "findLocked ''0123'' demo_submitted \<noteq> None" by code_simp
  then obtain pa where f: "findLocked ''0123'' demo_submitted = Some pa" by auto
  have "a_Status (the (findLocked ''0123'' demo_submitted)) = StatusPending" by code_simp
  with f have "a_Status pa = StatusPending" by simp
  then show ?thesis
    using Resolve_never_blocks [OF demo_submitted_inv, of StatusApproved 20 "''0123''" "by_only ''alice''"] f
    by (auto simp: Approve_def)
qed


lemma demo_resolved: "\<exists>s'. Approve 20 ''0123abcd'' ''alice'' demo_submitted = Some (None, s')
    \<and> (\<exists>pa. map_of (as_pending s') ''0123abcd'' = Some pa \<and> a_Status pa = StatusApproved)"
proof -
  have "findLocked ''0123abcd'' demo_submitted = map_of (as_pending demo_submitted) ''0123abcd''" by code_simp
  moreover have "map_of (as_pending demo_submitted) ''0123abcd'' \<noteq> None" by code_simp
  moreover have "a_Status (the (map_of (as_pending demo_submitted) ''0123abcd'')) = StatusPending" by code_simp
  moreover have "a_ID (the (map_of (as_pending demo_submitted) ''0123abcd'')) = ''0123abcd''" by code_simp
  ultimately show ?thesis
    using Resolve_spec [OF demo_submitted_inv, of StatusApproved "''0123abcd''" 20 "by_only ''alice''"]
    by (auto simp: Approve_def settled_def)
qed


fun resolved_ids :: "event list \<Rightarrow> string list" where
  "resolved_ids [] = []"
| "resolved_ids (Resolved i r # es) = i # resolved_ids es"
| "resolved_ids (_ # es) = resolved_ids es"

fun claimed_ids :: "event list \<Rightarrow> string list" where
  "claimed_ids [] = []"
| "claimed_ids (Claimed i # es) = i # claimed_ids es"
| "claimed_ids (_ # es) = claimed_ids es"

lemma resolved_ids_snoc:
  "resolved_ids (es @ [e]) = resolved_ids es @ (case e of Resolved i r \<Rightarrow> [i] | _ \<Rightarrow> [])"
  by (induction es rule: resolved_ids.induct) (auto split: event.splits)

lemma claimed_ids_snoc:
  "claimed_ids (es @ [e]) = claimed_ids es @ (case e of Claimed i \<Rightarrow> [i] | _ \<Rightarrow> [])"
  by (induction es rule: claimed_ids.induct) (auto split: event.splits)

lemma resolved_ids_run:
  assumes "approval_run x es y" and "approvals_inv (snd x)"
  shows "distinct (resolved_ids es)
    \<and> (\<forall>i \<in> set (resolved_ids es). \<exists>pa. map_of (as_pending (snd y)) i = Some pa \<and> a_Status pa \<noteq> StatusPending)"
  using assms
proof (induction rule: approval_run.induct)
  case (start x)
  then show ?case by simp
next
  case (step x es y e z)
  have inv: "approvals_inv (snd y)" using approval_run_inv [OF step.hyps(1)] step.prems by simp
  have st: "approval_step (fst y, snd y) e (fst z, snd z)" using step.hyps(2) by simp
  have old: "\<exists>pa. map_of (as_pending (snd z)) i = Some pa \<and> a_Status pa \<noteq> StatusPending"
    if i: "i \<in> set (resolved_ids es)" for i
  proof -
    from step i obtain pa where "map_of (as_pending (snd y)) i = Some pa" "a_Status pa \<noteq> StatusPending" by blast
    from approval_step_keeps [OF st inv this] this(2) show ?thesis by (auto simp: same_decision_def)
  qed
  show ?case
  proof (cases "\<exists>i res. e = Resolved i res")
    case True
    then obtain i res where e: "e = Resolved i res" by blast
    with approval_step_cases [OF st inv] have s: "settled i res (snd y) (snd z)" "rs_Status res \<noteq> StatusPending"
      by auto
    from settled_map_of [OF s(1)] s(2) step.IH [OF step.prems] have "i \<notin> set (resolved_ids es)" by fastforce
    moreover have "\<exists>pa. map_of (as_pending (snd z)) i = Some pa \<and> a_Status pa \<noteq> StatusPending"
      using settled_map_of [OF s(1)] s(2) by auto
    ultimately show ?thesis using step.IH [OF step.prems] old by (auto simp: resolved_ids_snoc e)
  next
    case False
    then have "resolved_ids (es @ [e]) = resolved_ids es"
      by (auto simp: resolved_ids_snoc split: event.splits)
    then show ?thesis using step.IH [OF step.prems] old by auto
  qed
qed

lemma claimed_ids_run:
  assumes "approval_run x es y" and "approvals_inv (snd x)"
  shows "as_claimed (snd y) = rev (claimed_ids es) @ as_claimed (snd x)"
  using assms
proof (induction rule: approval_run.induct)
  case (start x)
  then show ?case by simp
next
  case (step x es y e z)
  have inv: "approvals_inv (snd y)" using approval_run_inv [OF step.hyps(1)] step.prems by simp
  have st: "approval_step (fst y, snd y) e (fst z, snd z)" using step.hyps(2) by simp
  have "as_claimed (snd z) = (case e of Claimed i \<Rightarrow> [i] | _ \<Rightarrow> []) @ as_claimed (snd y)"
    using approval_step_cases [OF st inv] by (auto simp: settled_def)
  with step.IH [OF step.prems] show ?case by (auto simp: claimed_ids_snoc split: event.splits)
qed

text \<open>
  Each approval is resolved at most once in any run, whoever races with whom: two people,
  a person and the timer, or the same click sent twice.
\<close>

theorem resolved_at_most_once:
  assumes "approval_run x es y" and "approvals_inv (snd x)"
  shows "distinct (resolved_ids es)"
  using resolved_ids_run [OF assms] by simp

theorem resolved_at_most_once_witness:
  "\<exists>s res. approval_run (20, demo_submitted) [Resolved ''0123abcd'' res] (20, s)
     \<and> distinct (resolved_ids [Resolved ''0123abcd'' res])"
proof -
  obtain s where s: "Approve 20 ''0123abcd'' ''alice'' demo_submitted = Some (None, s)"
    using demo_resolved by blast
  have "findLocked ''0123abcd'' demo_submitted = map_of (as_pending demo_submitted) ''0123abcd''" by code_simp
  moreover have "map_of (as_pending demo_submitted) ''0123abcd'' \<noteq> None" by code_simp
  ultimately obtain pa where pa: "findLocked ''0123abcd'' demo_submitted = Some pa"
      "map_of (as_pending demo_submitted) ''0123abcd'' = Some pa" by auto
  have "a_ID pa = ''0123abcd''" using approvals_invD(1) [OF demo_submitted_inv pa(2)] .
  then obtain res where "approval_step (20, demo_submitted) (Resolved ''0123abcd'' res) (20, s)"
    using approval_step.resolve [OF _ pa(1) s [unfolded Approve_def]] by auto
  from approval_run.step [OF approval_run.start this]
  have run: "approval_run (20, demo_submitted) [Resolved ''0123abcd'' res] (20, s)" by simp
  with resolved_at_most_once [OF run] show ?thesis by (auto simp: demo_submitted_inv)
qed

text \<open>
  C12. Each approval is claimed at most once in any run, by the retry of the call it allowed, by
  the retry of a refused one, or by the caller that waited for it: one decision, one use.
\<close>

theorem claimed_at_most_once:
  assumes "approval_run x es y" and "approvals_inv (snd x)"
  shows "distinct (claimed_ids es)"
proof -
  have "distinct (as_claimed (snd y))"
    using approval_run_inv [OF assms] by (simp add: approvals_inv_def)
  then show ?thesis by (simp add: claimed_ids_run [OF assms])
qed

theorem claimed_at_most_once_witness:
  "approval_run (20, demo_submitted) [Claimed ''0123abcd''] (20, snd (Claim ''0123abcd'' demo_submitted))
   \<and> distinct (claimed_ids [Claimed ''0123abcd''])
   \<and> \<not> fst (Claim ''0123abcd'' (snd (Claim ''0123abcd'' demo_submitted)))"
proof -
  have c: "Claim ''0123abcd'' demo_submitted = (True, snd (Claim ''0123abcd'' demo_submitted))"
    by (simp add: Claim_def demo_submitted_def Submit_def approval_NewStore_def)
  from approval_run.step [OF approval_run.start approval_step.claim [OF c]]
  have run: "approval_run (20, demo_submitted) [Claimed ''0123abcd''] (20, snd (Claim ''0123abcd'' demo_submitted))"
    by simp
  have "\<not> fst (Claim ''0123abcd'' (snd (Claim ''0123abcd'' demo_submitted)))"
    by (simp add: Claim_def)
  with run claimed_at_most_once [OF run] show ?thesis by (simp add: demo_submitted_inv)
qed

text \<open>
  A claimed approval is one that a person granted for exactly this call: same agent, same
  tool, arguments with the same JSON encoding, resolved within the window, not used before; and
  when there is such an approval the claim finds one.
\<close>

theorem ClaimApproved_spec:
  "case fst (ClaimApproved now agent tool ps window s) of
     Some pa \<Rightarrow> pa \<in> snd ` set (as_pending s) \<and> a_Status pa = StatusApproved \<and> a_AgentID pa = agent
       \<and> a_Tool pa = tool \<and> Marshal (a_Params pa) = Marshal ps \<and> now - a_ResolvedAt pa \<le> window
       \<and> (\<exists>i. i \<notin> set (as_claimed s) \<and> (i, pa) \<in> set (as_pending s)
            \<and> as_claimed (snd (ClaimApproved now agent tool ps window s)) = i # as_claimed s)
   | None \<Rightarrow> snd (ClaimApproved now agent tool ps window s) = s
       \<and> (Marshal ps = None \<or> (\<forall>(i, pa) \<in> set (as_pending s).
            \<not> (a_Status pa = StatusApproved \<and> a_AgentID pa = agent \<and> a_Tool pa = tool
              \<and> i \<notin> set (as_claimed s) \<and> now - a_ResolvedAt pa \<le> window
              \<and> Marshal (a_Params pa) = Marshal ps)))"
proof (cases rule: claim_status_cases [of StatusApproved now agent tool ps window s])
  case no
  then show ?thesis
    by (fastforce simp: ClaimApproved_def claim_status_def find_None_conv claimable_def Let_def
        split: option.splits prod.splits)
next
  case (yes i pa)
  then show ?thesis by (force simp: ClaimApproved_def)
qed

text \<open>
  Looking an approval up by a prefix does not depend on the order in which the map is
  visited: an exact identifier always wins, and a prefix counts only when it is unambiguous.
\<close>

theorem findLocked_order_independent:
  assumes "mset (as_pending s) = mset (as_pending s')" and "keys_distinct (as_pending s)"
  shows "findLocked i s = findLocked i s'"
proof -
  have d: "keys_distinct (as_pending s')"
    using assms by (metis keys_distinct_def mset_map mset_eq_imp_distinct_iff)
  have m: "map_of (as_pending s) i = map_of (as_pending s') i"
    using assms d by (metis keys_distinct_def map_of_inject_set mset_eq_setD)
  have h: "mset (prefix_hits (as_pending s) i) = mset (prefix_hits (as_pending s') i)"
    by (simp add: prefix_hits_def assms(1))
  have one: "prefix_hits (as_pending s') i = [x] \<longleftrightarrow> prefix_hits (as_pending s) i = [x]" for x
    using h by (metis mset_single_iff_right mset.simps)
  show ?thesis
  proof (cases "\<exists>x. prefix_hits (as_pending s) i = [x]")
    case True
    then obtain x where "prefix_hits (as_pending s) i = [x]" by blast
    with one have "prefix_hits (as_pending s') i = prefix_hits (as_pending s) i" by simp
    then show ?thesis by (simp add: findLocked_def m split: option.splits)
  next
    case False
    then have "\<nexists>x. prefix_hits (as_pending s') i = [x]" using one by blast
    with False show ?thesis by (auto simp: findLocked_def m split: list.splits option.splits)
  qed
qed

definition demo_two :: approval_store where
  "demo_two = snd (Submit 11 ''0123ffff'' ''bot'' ''fs.read'' ''r'' None [] demo_submitted)"

theorem findLocked_order_independent_witness:
  "findLocked ''0123f'' demo_two = findLocked ''0123f'' (demo_two\<lparr>as_pending := rev (as_pending demo_two)\<rparr>)
   \<and> findLocked ''0123f'' demo_two \<noteq> None \<and> findLocked ''0123'' demo_two = None"
proof -
  have "keys_distinct (as_pending demo_two)"
    using Submit_inv [OF demo_submitted_inv] unfolding demo_two_def Submit_def approvals_inv_def by blast
  then have "findLocked ''0123f'' demo_two = findLocked ''0123f'' (demo_two\<lparr>as_pending := rev (as_pending demo_two)\<rparr>)"
    by (intro findLocked_order_independent) simp_all
  moreover have "findLocked ''0123f'' demo_two \<noteq> None" by code_simp
  moreover have "findLocked ''0123'' demo_two = None" by code_simp
  ultimately show ?thesis by blast
qed

lemma demo_claim:
  "\<exists>s. Approve 20 ''0123abcd'' ''alice'' demo_submitted = Some (None, s)
     \<and> fst (ClaimApproved 25 ''bot'' ''fs.write'' (Some [(''p'', VNum (Fin 1))]) 100 s) \<noteq> None"
proof -
  have "fst (ClaimApproved 25 ''bot'' ''fs.write'' (Some [(''p'', VNum (Fin 1))]) 100
      (snd (the (Approve 20 ''0123abcd'' ''alice'' demo_submitted)))) \<noteq> None" by code_simp
  with demo_resolved show ?thesis by auto
qed

theorem ClaimApproved_spec_witness:
  "\<exists>s pa. Approve 20 ''0123abcd'' ''alice'' demo_submitted = Some (None, s)
     \<and> fst (ClaimApproved 25 ''bot'' ''fs.write'' (Some [(''p'', VNum (Fin 1))]) 100 s) = Some pa
     \<and> a_Status pa = StatusApproved \<and> a_AgentID pa = ''bot'' \<and> a_Tool pa = ''fs.write''"
proof -
  obtain s pa where s: "Approve 20 ''0123abcd'' ''alice'' demo_submitted = Some (None, s)"
      "fst (ClaimApproved 25 ''bot'' ''fs.write'' (Some [(''p'', VNum (Fin 1))]) 100 s) = Some pa"
    using demo_claim by auto
  with ClaimApproved_spec [of 25 "''bot''" "''fs.write''" "Some [(''p'', VNum (Fin 1))]" 100 s]
  show ?thesis by auto
qed

text \<open>
  A retry meets the approval it is waiting for instead of opening another: right after a call
  whose arguments can be encoded has been submitted, the lookup for the same agent, tool and
  arguments finds a pending approval for exactly this call.
\<close>

theorem retry_finds_pending:
  assumes "Marshal ps \<noteq> None" and "Marshal ps = Marshal ps'"
  shows "\<exists>pa. FindPending agent tool ps' (snd (SubmitWithTrace now i agent tool rule ps url tid s)) = Some pa
    \<and> a_Status pa = StatusPending \<and> a_AgentID pa = agent \<and> a_Tool pa = tool
    \<and> Marshal (a_Params pa) = Marshal ps'"
proof -
  obtain want where w: "Marshal ps = Some want" "Marshal ps' = Some want" using assms by (metis option.exhaust)
  let ?s = "snd (SubmitWithTrace now i agent tool rule ps url tid s)"
  let ?P = "\<lambda>(i, pa). a_Status pa = StatusPending \<and> a_AgentID pa = agent \<and> a_Tool pa = tool
    \<and> Marshal (a_Params pa) = Some want"
  have mem: "(i, fst (SubmitWithTrace now i agent tool rule ps url tid s)) \<in> set (as_pending ?s)"
    by (simp add: map_of_SomeD)
  have "\<exists>x \<in> set (as_pending ?s). ?P x"
    by (rule bexI [OF _ mem]) (simp add: w)
  then have "find ?P (as_pending ?s) \<noteq> None" by (simp only: find_None_conv) blast
  then obtain k pa where k: "find ?P (as_pending ?s) = Some (k, pa)" by auto
  from find_SomeD [OF k] show ?thesis by (simp add: FindPending_def w k del: Submit_frame(1))
qed

theorem retry_finds_pending_witness:
  "\<exists>pa. FindPending ''bot'' ''t'' (Some [(''n'', VNum (Fin 2))])
     (snd (SubmitWithTrace 5 ''i'' ''bot'' ''t'' ''r'' (Some [(''n'', VInt 2)]) [] [] (approval_NewStore 0))) = Some pa"
  using retry_finds_pending [of "Some [(''n'', VInt 2)]" "Some [(''n'', VNum (Fin 2))]"]
  by (fastforce simp: Marshal_def)

lemma exchange_pass_spec:
  "mset (fst (exchange_pass x ys) # snd (exchange_pass x ys)) = mset (x # ys)
   \<and> (\<forall>z \<in> set (snd (exchange_pass x ys)). a_CreatedAt z \<le> a_CreatedAt (fst (exchange_pass x ys)))
   \<and> a_CreatedAt x \<le> a_CreatedAt (fst (exchange_pass x ys))"
  by (induction x ys rule: exchange_pass.induct) (auto split: prod.splits)

lemma exchange_sort_spec:
  "mset (exchange_sort xs) = mset xs \<and> sorted_wrt (\<lambda>p q. a_CreatedAt q \<le> a_CreatedAt p) (exchange_sort xs)"
proof (induction xs rule: exchange_sort.induct)
  case 1
  then show ?case by simp
next
  case (2 x xs)
  then show ?case using exchange_pass_spec [of x xs] by (auto dest: mset_eq_setD)
qed

text \<open>
  The listing shows every approval of the requested kind exactly once, most recent first.
\<close>

theorem approval_List_spec:
  "mset (approval_List s) = image_mset snd (mset (as_pending s))
   \<and> mset (ListPending s) = filter_mset (\<lambda>pa. a_Status pa = StatusPending) (image_mset snd (mset (as_pending s)))
   \<and> sorted_wrt (\<lambda>p q. a_CreatedAt q \<le> a_CreatedAt p) (approval_List s)
   \<and> sorted_wrt (\<lambda>p q. a_CreatedAt q \<le> a_CreatedAt p) (ListPending s)"
  by (simp add: approval_List_def ListPending_def collectLocked_def exchange_sort_spec)

text \<open>
  Nothing is approved automatically unless auto-approval is on, the tool is one that may be,
  no injection shows in the arguments, and the memory server counts at least the required number
  of human approvals and no refusal for exactly this tool and agent; a failing or absent server
  approves nothing.
\<close>

theorem TryAutoResolveSafe_guards:
  assumes "fst (TryAutoResolveSafe rt mem now i agent tool ps s) = Some res"
  shows "st_AutoApprove (as_settings s) \<and> \<not> DetectInjection rt ps
    \<and> (\<forall>ok. as_AutoApprovable s = Some ok \<longrightarrow> ok tool)
    \<and> rs_Status res = StatusApproved \<and> rs_ResolvedBy res = ''supervisor:mem7''
    \<and> (\<exists>r approved. as_reader s = Some r \<and> mr_url r \<noteq> [] \<and> mr_min r \<le> approved
         \<and> mem_count mem ([''approved'', ''by:human''] @ decision_scope tool agent) = Some approved
         \<and> (\<exists>rejected \<le> 0. mem_count mem ([''denied''] @ decision_scope tool agent) = Some rejected))"
proof -
  have auto: "st_AutoApprove (as_settings s)"
    using assms by (auto simp: TryAutoResolveSafe_def Settings_def Let_def split: if_splits)
  from assms have inj: "\<not> DetectInjection rt ps"
    and ok: "\<forall>ok. as_AutoApprovable s = Some ok \<longrightarrow> ok tool"
    and auto_res: "fst (TryAutoResolve mem now i agent tool s) = Some res"
    by (auto simp: TryAutoResolveSafe_def split: if_splits option.splits)
  from auto_res obtain r where r: "as_reader s = Some r" "ar_Action (AutoResolve mem (Some r) tool agent) = ''approve''"
      "rs_Status res = StatusApproved" "rs_ResolvedBy res = ''supervisor:mem7''"
    by (auto simp: TryAutoResolve_def Let_def split: if_splits)
  from r(2) obtain a b where "mr_url r \<noteq> []"
      "mem_count mem ([''approved'', ''by:human''] @ decision_scope tool agent) = Some a"
      "mem_count mem ([''denied''] @ decision_scope tool agent) = Some b"
      "ar_Action (verdict r a b) = ''approve''"
    by (auto simp: AutoResolve_def escalate_def split: if_splits option.splits)
  moreover from this(4) have "mr_min r \<le> a" "b \<le> 0" by (auto simp: verdict_def split: if_splits)
  ultimately show ?thesis using auto inj ok r by blast
qed

definition demo_mem :: mem7 where
  "demo_mem name tags = (if ''denied'' \<in> set tags then Some ''No memories found'' else Some ''3 memories:'')"

definition demo_auto :: approval_store where
  "demo_auto = (approval_NewStore 0)\<lparr>as_reader := Some (NewMemoryReader ''http://m'' 3)\<rparr>"

theorem TryAutoResolveSafe_guards_witness:
  "\<exists>res. fst (TryAutoResolveSafe demo_rt demo_mem 5 ''i'' ''bot'' ''fs.read'' None demo_auto) = Some res
     \<and> rs_ResolvedBy res = ''supervisor:mem7''"
proof -
  have "fst (TryAutoResolveSafe demo_rt demo_mem 5 ''i'' ''bot'' ''fs.read'' None demo_auto) \<noteq> None"
    by code_simp
  then obtain res where r: "fst (TryAutoResolveSafe demo_rt demo_mem 5 ''i'' ''bot'' ''fs.read'' None demo_auto) = Some res"
    by auto
  from TryAutoResolveSafe_guards [OF r] r show ?thesis by blast
qed

text \<open>
  Automatic approvals never feed themselves: the decision that an automatic approval writes
  carries the status of an approval but not the tag of a human one, so it does not add to the
  count of precedents of any tool and agent, and neither does a supervisor's; only a decision
  by someone else does.
\<close>

theorem auto_approval_is_no_precedent:
  assumes "a_Tool pa \<noteq> ''by:human''" and "a_Tool pa \<noteq> ''approved''"
    and counted: "set ([''approved'', ''by:human''] @ decision_scope tool agent) \<subseteq> set (decision_tags pa res)"
  shows "rs_Status res = StatusApproved \<and> resolverKind (rs_ResolvedBy res) = ''human''
    \<and> rs_ResolvedBy res \<noteq> ''supervisor:mem7'' \<and> \<not> HasPrefix (ToLower (rs_ResolvedBy res)) ''supervisor:''
    \<and> \<not> HasPrefix (ToLower (rs_ResolvedBy res)) ''system:''"
proof -
  have kind: "resolverKind (rs_ResolvedBy res) = ''human''"
    using counted assms(1) by (auto simp: decision_tags_def status_text_def split: if_splits status.splits)
  then have np: "\<not> HasPrefix (ToLower (rs_ResolvedBy res)) ''supervisor:''"
    "\<not> HasPrefix (ToLower (rs_ResolvedBy res)) ''system:''"
    by (auto simp: resolverKind_def Let_def split: if_splits)
  have "HasPrefix (ToLower ''supervisor:mem7'') ''supervisor:''" by code_simp
  with np have "rs_ResolvedBy res \<noteq> ''supervisor:mem7''" by auto
  moreover have "rs_Status res = StatusApproved"
    using counted assms(2) by (auto simp: decision_tags_def status_text_def split: if_splits status.splits)
  ultimately show ?thesis using kind np by blast
qed

definition demo_decision :: "string \<Rightarrow> resolution" where
  "demo_decision by = \<lparr>rs_Status = StatusApproved, rs_ResolvedBy = by, rs_ResolvedAt = 9,
     rs_Reasoning = [], rs_Confidence = Fin 0\<rparr>"

theorem auto_approval_is_no_precedent_witness:
  "resolverKind (rs_ResolvedBy (demo_decision ''alice'')) = ''human''
   \<and> \<not> set ([''approved'', ''by:human''] @ decision_scope ''fs.read'' ''bot'')
       \<subseteq> set (decision_tags (fst (Submit 1 ''i'' ''bot'' ''fs.read'' [] None [] demo_auto)) (demo_decision ''supervisor:mem7''))"
proof -
  let ?pa = "fst (Submit 1 ''i'' ''bot'' ''fs.read'' [] None [] demo_auto)"
  have tool: "a_Tool ?pa = ''fs.read''" by (simp add: Submit_def)
  have "list_all (\<lambda>t. t \<in> set (decision_tags ?pa (demo_decision ''alice'')))
      ([''approved'', ''by:human''] @ decision_scope ''fs.read'' ''bot'')" by code_simp
  then have "set ([''approved'', ''by:human''] @ decision_scope ''fs.read'' ''bot'')
      \<subseteq> set (decision_tags ?pa (demo_decision ''alice''))" by (auto simp: list_all_iff)
  then have "resolverKind (rs_ResolvedBy (demo_decision ''alice'')) = ''human''"
    using auto_approval_is_no_precedent [of ?pa "''fs.read''" "''bot''"] tool by simp
  moreover have "\<not> set ([''approved'', ''by:human''] @ decision_scope ''fs.read'' ''bot'')
       \<subseteq> set (decision_tags ?pa (demo_decision ''supervisor:mem7''))"
    using auto_approval_is_no_precedent [of ?pa "''fs.read''" "''bot''" "demo_decision ''supervisor:mem7''"] tool
    by (auto simp: demo_decision_def)
  ultimately show ?thesis by blast
qed

end
