(* ===== verification/Ratelimit.thy ===== *)
theory Ratelimit
  imports Approvals
begin

text \<open>
  The rate limiter (\<open>ratelimit/limiter.go\<close>): calls per minute, total budget and loop detection
  per agent, with the map of agents bounded by evicting the one seen least recently.
\<close>

section \<open>The limiter\<close>

record limit =
  lm_MaxPerMinute :: int
  lm_MaxTotal :: int

record recent_call =
  rc_tool :: string
  rc_params :: string
  rc_at :: time

record agent_state =
  ag_calls :: "time list"
  ag_total :: int
  ag_recent :: "recent_call list"
  ag_lastSeen :: time

record limiter =
  lim_agents :: "(string \<times> agent_state) list"
  lim_limits :: "(string \<times> limit) list"

definition maxAgents :: nat where
  "maxAgents = 50000"

definition limiter_New :: limiter where
  "limiter_New = \<lparr>lim_agents = [], lim_limits = []\<rparr>"

definition fresh_agent :: agent_state where
  "fresh_agent = \<lparr>ag_calls = [], ag_total = 0, ag_recent = [], ag_lastSeen = zero_time\<rparr>"

definition SetLimit :: "string \<Rightarrow> limit \<Rightarrow> limiter \<Rightarrow> limiter" where
  "SetLimit policyName lm l = l\<lparr>lim_limits := AList.update policyName lm (lim_limits l)\<rparr>"

definition ReplaceLimits :: "(string \<times> limit) list \<Rightarrow> limiter \<Rightarrow> limiter" where
  "ReplaceLimits limits l = l\<lparr>lim_limits := limits\<rparr>"

fun oldest_agent :: "string \<Rightarrow> time \<Rightarrow> (string \<times> agent_state) list \<Rightarrow> string" where
  "oldest_agent oldestID oldest [] = oldestID"
| "oldest_agent oldestID oldest ((i, st) # rest) =
     (if oldestID = [] \<or> ag_lastSeen st < oldest then oldest_agent i (ag_lastSeen st) rest
      else oldest_agent oldestID oldest rest)"

definition evictOldest :: "(string \<times> agent_state) list \<Rightarrow> (string \<times> agent_state) list" where
  "evictOldest m =
     (let i = oldest_agent [] zero_time m in if i \<noteq> [] then AList.delete i m else m)"

definition getOrCreate :: "string \<Rightarrow> limiter \<Rightarrow> agent_state \<times> limiter" where
  "getOrCreate agentID l =
     (case map_of (lim_agents l) agentID of
        Some st \<Rightarrow> (st, l)
      | None \<Rightarrow>
          (let m = (if length (lim_agents l) \<ge> maxAgents then evictOldest (lim_agents l)
                    else lim_agents l) in
           (fresh_agent, l\<lparr>lim_agents := AList.update agentID fresh_agent m\<rparr>)))"

definition put_agent :: "string \<Rightarrow> agent_state \<Rightarrow> limiter \<Rightarrow> limiter" where
  "put_agent agentID st l = l\<lparr>lim_agents := AList.update agentID st (lim_agents l)\<rparr>"

datatype rate_error =
    TotalExceeded string int
  | RateExceeded string int
  | LoopDetected string string nat

fun rate_message :: "rate_error \<Rightarrow> string" where
  "rate_message (TotalExceeded a n) =
     ''rate_limit: agent '' @ Quote a @ '' exceeded total budget ('' @ Itoa n @ '' calls)''"
| "rate_message (RateExceeded a n) =
     ''rate_limit: agent '' @ Quote a @ '' exceeded '' @ Itoa n @ '' calls/min''"
| "rate_message (LoopDetected a t n) =
     ''loop_detected: agent '' @ Quote a @ '' called '' @ t @ '' with same params '' @ Itoa (int n)
       @ '' times in 10s''"

definition calls_in_minute :: "time \<Rightarrow> agent_state \<Rightarrow> nat" where
  "calls_in_minute now st = length (filter (\<lambda>t. t > now - minute) (ag_calls st))"

definition same_calls :: "time \<Rightarrow> string \<Rightarrow> string \<Rightarrow> agent_state \<Rightarrow> nat" where
  "same_calls now toolName paramsKey st =
     length (filter (\<lambda>rc. rc_at rc > now - 10 * second \<and> rc_tool rc = toolName \<and> rc_params rc = paramsKey)
       (ag_recent st))"

definition limiter_Check ::
  "time \<Rightarrow> string \<Rightarrow> string \<Rightarrow> string \<Rightarrow> string \<Rightarrow> limiter \<Rightarrow> rate_error option \<times> limiter" where
  "limiter_Check now agentID policyName toolName paramsKey l =
     (case map_of (lim_limits l) policyName of
        None \<Rightarrow> (None, l)
      | Some lm \<Rightarrow>
          (case getOrCreate agentID l of
             (st, l1) \<Rightarrow>
               (let l2 = put_agent agentID (st\<lparr>ag_lastSeen := now\<rparr>) l1 in
                if lm_MaxTotal lm > 0 \<and> ag_total st \<ge> lm_MaxTotal lm
                then (Some (TotalExceeded agentID (lm_MaxTotal lm)), l2)
                else if lm_MaxPerMinute lm > 0 \<and> int (calls_in_minute now st) \<ge> lm_MaxPerMinute lm
                then (Some (RateExceeded agentID (lm_MaxPerMinute lm)), l2)
                else if same_calls now toolName paramsKey st \<ge> 3
                then (Some (LoopDetected agentID toolName (same_calls now toolName paramsKey st)), l2)
                else (None, l2))))"

definition limiter_Record :: "time \<Rightarrow> string \<Rightarrow> string \<Rightarrow> string \<Rightarrow> limiter \<Rightarrow> limiter" where
  "limiter_Record now agentID toolName paramsKey l =
     (case getOrCreate agentID l of
        (st, l1) \<Rightarrow>
          (let recent = ag_recent st @ [\<lparr>rc_tool = toolName, rc_params = paramsKey, rc_at = now\<rparr>] in
           put_agent agentID
             \<lparr>ag_calls = ag_calls st @ [now], ag_total = ag_total st + 1,
              ag_recent = (if length recent > 50 then drop (length recent - 50) recent else recent),
              ag_lastSeen = now\<rparr> l1))"

text \<open>The keys and values of \<open>Stats\<close>; \<open>None\<close> is the nil map of an unknown agent.\<close>

definition limiter_Stats :: "time \<Rightarrow> string \<Rightarrow> string \<Rightarrow> limiter \<Rightarrow> (string \<times> int) list option" where
  "limiter_Stats now agentID policyName l =
     (case map_of (lim_agents l) agentID of
        None \<Rightarrow> None
      | Some st \<Rightarrow>
          (let lm = (case map_of (lim_limits l) policyName of
                       Some lm \<Rightarrow> lm | None \<Rightarrow> \<lparr>lm_MaxPerMinute = 0, lm_MaxTotal = 0\<rparr>);
               c = int (calls_in_minute now st) in
           Some ([(''total_calls'', ag_total st), (''calls_last_min'', c)]
             @ (if lm_MaxPerMinute lm > 0
                then [(''max_per_minute'', lm_MaxPerMinute lm),
                      (''remaining_per_minute'', lm_MaxPerMinute lm - c)] else [])
             @ (if lm_MaxTotal lm > 0
                then [(''max_total'', lm_MaxTotal lm),
                      (''remaining_total'', lm_MaxTotal lm - ag_total st)] else []))))"

definition gc_agent :: "time \<Rightarrow> agent_state \<Rightarrow> agent_state" where
  "gc_agent now st =
     st\<lparr>ag_calls := filter (\<lambda>t. t > now - 2 * minute) (ag_calls st),
        ag_recent := filter (\<lambda>rc. rc_at rc > now - 10 * second) (ag_recent st)\<rparr>"

definition limiter_gc :: "time \<Rightarrow> limiter \<Rightarrow> limiter" where
  "limiter_gc now l =
     l\<lparr>lim_agents := filter (\<lambda>(i, st). \<not> ag_lastSeen st < now - 2 * minute)
          (map (\<lambda>(i, st). (i, gc_agent now st)) (lim_agents l))\<rparr>"

section \<open>Facts\<close>

lemma oldest_agent_in:
  "oldest_agent i t m \<noteq> i \<Longrightarrow> oldest_agent i t m \<in> fst ` set m"
proof (induction m arbitrary: i t)
  case (Cons p m)
  obtain k st where p: "p = (k, st)" by (cases p)
  show ?case
    using Cons.IH [of k "ag_lastSeen st"] Cons.IH [of i t] Cons.prems
    by (cases "oldest_agent k (ag_lastSeen st) m = k") (auto simp: p split: if_splits)
qed simp

lemma oldest_agent_nonempty:
  "[] \<notin> fst ` set m \<Longrightarrow> m \<noteq> [] \<or> i \<noteq> [] \<Longrightarrow> oldest_agent i t m \<noteq> []"
  by (induction m arbitrary: i t) (auto split: if_splits)

lemma length_delete_key: "keys_distinct m \<Longrightarrow> k \<in> fst ` set m \<Longrightarrow> Suc (length (AList.delete k m)) = length m"
proof (induction m)
  case (Cons p m)
  then show ?case
    by (cases p) (auto simp: keys_distinct_def)
qed simp

lemma length_update_key:
  "length (AList.update k v m) = (if k \<in> fst ` set m then length m else Suc (length m))"
  by (induction m) auto

lemma evictOldest_shorter:
  assumes "keys_distinct m" and "[] \<notin> fst ` set m" and "m \<noteq> []"
  shows "Suc (length (evictOldest m)) = length m"
proof -
  have "oldest_agent [] zero_time m \<noteq> []" using oldest_agent_nonempty assms by blast
  moreover have "oldest_agent [] zero_time m \<in> fst ` set m" by (rule oldest_agent_in) (rule calculation)
  ultimately show ?thesis by (simp add: evictOldest_def Let_def length_delete_key [OF assms(1)])
qed

lemma evictOldest_keys: "fst ` set (evictOldest m) \<subseteq> fst ` set m"
  by (auto simp: evictOldest_def Let_def AList.delete_eq)

definition bounded :: "limiter \<Rightarrow> bool" where
  "bounded l =
     (keys_distinct (lim_agents l) \<and> [] \<notin> fst ` set (lim_agents l) \<and> length (lim_agents l) \<le> maxAgents)"

lemma getOrCreate_agent: "map_of (lim_agents (snd (getOrCreate a l))) a = Some (fst (getOrCreate a l))"
  by (auto simp: getOrCreate_def Let_def split: option.splits)

lemma put_agent_agents [simp]: "lim_agents (put_agent a st l) = AList.update a st (lim_agents l)"
  by (simp add: put_agent_def)

lemma fst_set_update [simp]: "fst ` set (AList.update k v m) = insert k (fst ` set m)"
  by (simp add: dom_update)

lemma getOrCreate_bounded:
  assumes "bounded l" and "a \<noteq> []"
  shows "bounded (snd (getOrCreate a l)) \<and> a \<in> fst ` set (lim_agents (snd (getOrCreate a l)))"
proof (cases "map_of (lim_agents l) a")
  case (Some st)
  then show ?thesis using assms by (simp add: getOrCreate_def) (metis domI dom_map_of_conv_image_fst)
next
  case None
  then have new: "a \<notin> fst ` set (lim_agents l)" by (simp add: map_of_eq_None_iff)
  let ?m = "if length (lim_agents l) \<ge> maxAgents then evictOldest (lim_agents l) else lim_agents l"
  have b: "keys_distinct (lim_agents l)" "[] \<notin> fst ` set (lim_agents l)" "length (lim_agents l) \<le> maxAgents"
    using assms(1) by (auto simp: bounded_def)
  have "length ?m < maxAgents"
  proof (cases "length (lim_agents l) \<ge> maxAgents")
    case True
    then have "lim_agents l \<noteq> []" by (auto simp: maxAgents_def)
    from evictOldest_shorter [OF b(1,2) this] True b(3) show ?thesis by simp
  qed simp
  moreover have "keys_distinct ?m" using b(1) by (simp add: evictOldest_def Let_def)
  moreover have "fst ` set ?m \<subseteq> fst ` set (lim_agents l)" using evictOldest_keys by simp
  ultimately have m: "keys_distinct ?m" "fst ` set ?m \<subseteq> fst ` set (lim_agents l)" "length ?m < maxAgents"
    by blast+
  then have "length (AList.update a fresh_agent ?m) \<le> maxAgents"
    using new by (simp add: length_update_key)
  moreover have "[] \<notin> fst ` set ?m" using m(2) b(2) by blast
  moreover have "snd (getOrCreate a l) = l\<lparr>lim_agents := AList.update a fresh_agent ?m\<rparr>"
    by (simp add: getOrCreate_def None Let_def)
  ultimately show ?thesis using m(1) assms(2) by (simp add: bounded_def del: if_split)
qed

lemma put_agent_bounded:
  assumes "bounded l" and "a \<in> fst ` set (lim_agents l)"
  shows "bounded (put_agent a st l)"
  using assms by (auto simp: bounded_def length_update_key)

lemma get_put_bounded:
  "bounded l \<Longrightarrow> a \<noteq> [] \<Longrightarrow> getOrCreate a l = (st, l1) \<Longrightarrow> bounded (put_agent a st' l1)"
  using getOrCreate_bounded [of l a] put_agent_bounded [of l1 a st'] by simp

lemma Check_bounded [inv_intros]:
  "bounded l \<Longrightarrow> a \<noteq> [] \<Longrightarrow> bounded (snd (limiter_Check now a p t k l))"
  by (auto simp: limiter_Check_def Let_def intro: get_put_bounded split: option.splits prod.splits)

lemma Record_bounded [inv_intros]:
  "bounded l \<Longrightarrow> a \<noteq> [] \<Longrightarrow> bounded (limiter_Record now a t k l)"
  by (auto simp: limiter_Record_def Let_def intro: get_put_bounded split: prod.splits)

lemma gc_bounded [inv_intros]: "bounded l \<Longrightarrow> bounded (limiter_gc now l)"
  by (auto simp: bounded_def limiter_gc_def keys_distinct_def case_prod_beta comp_def
      intro!: distinct_map_filter order_trans [OF length_filter_le]) (metis fst_conv image_eqI)

section \<open>Guarded calls\<close>

text \<open>
  How a call uses the limiter when nothing comes between its check and its record.
\<close>

definition guarded_call ::
  "time \<Rightarrow> string \<Rightarrow> string \<Rightarrow> string \<Rightarrow> string \<Rightarrow> limiter \<Rightarrow> bool \<times> limiter" where
  "guarded_call now a p t k l =
     (case limiter_Check now a p t k l of
        (None, l1) \<Rightarrow> (True, limiter_Record now a t k l1)
      | (Some e, l1) \<Rightarrow> (False, l1))"

text \<open>
  Calls of many agents one after the other, each agent under its own policy, and the clean-up.
\<close>

inductive limiter_run :: "(string \<Rightarrow> string) \<Rightarrow> time \<times> limiter \<Rightarrow> time \<times> limiter \<Rightarrow> bool"
  for policy_of :: "string \<Rightarrow> string" where
  stay: "limiter_run policy_of x x"
| wait: "limiter_run policy_of x (now, l) \<Longrightarrow> now \<le> now' \<Longrightarrow> limiter_run policy_of x (now', l)"
| call: "limiter_run policy_of x (now, l) \<Longrightarrow>
    limiter_run policy_of x (now, snd (guarded_call now a (policy_of a) t k l))"
| gc: "limiter_run policy_of x (now, l) \<Longrightarrow> limiter_run policy_of x (now, limiter_gc now l)"

definition agent_within :: "time \<Rightarrow> limit \<Rightarrow> agent_state \<Rightarrow> bool" where
  "agent_within now lm st =
     ((lm_MaxTotal lm > 0 \<longrightarrow> ag_total st \<le> lm_MaxTotal lm)
      \<and> (lm_MaxPerMinute lm > 0 \<longrightarrow> int (calls_in_minute now st) \<le> lm_MaxPerMinute lm)
      \<and> (\<forall>t k. same_calls now t k st \<le> 3))"

definition within_limits :: "(string \<Rightarrow> string) \<Rightarrow> time \<times> limiter \<Rightarrow> bool" where
  "within_limits policy_of x =
     (\<forall>a st lm. map_of (lim_agents (snd x)) a = Some st \<longrightarrow>
        map_of (lim_limits (snd x)) (policy_of a) = Some lm \<longrightarrow> agent_within (fst x) lm st)"

lemma length_filter_mono: "(\<And>x. P x \<Longrightarrow> Q x) \<Longrightarrow> length (filter P xs) \<le> length (filter Q xs)"
  by (induction xs) (auto intro: le_SucI)

lemma calls_in_minute_later: "now \<le> now' \<Longrightarrow> calls_in_minute now' st \<le> calls_in_minute now st"
  unfolding calls_in_minute_def by (rule length_filter_mono) simp

lemma same_calls_later: "now \<le> now' \<Longrightarrow> same_calls now' t k st \<le> same_calls now t k st"
  unfolding same_calls_def by (rule length_filter_mono) simp

lemma agent_within_later: "agent_within now lm st \<Longrightarrow> now \<le> now' \<Longrightarrow> agent_within now' lm st"
  unfolding agent_within_def
  using calls_in_minute_later [of now now' st] same_calls_later [of now now' _ _ st]
  by (meson le_trans of_nat_mono order_trans)

lemma agent_within_gc: "agent_within now lm st \<Longrightarrow> agent_within now lm (gc_agent now st)"
proof -
  have "calls_in_minute now (gc_agent now st) \<le> calls_in_minute now st"
    by (simp add: calls_in_minute_def gc_agent_def) (rule length_filter_mono, simp)
  moreover have "same_calls now t k (gc_agent now st) \<le> same_calls now t k st" for t k
    unfolding same_calls_def gc_agent_def by (simp add: length_filter_mono)
  ultimately show "agent_within now lm st \<Longrightarrow> agent_within now lm (gc_agent now st)"
    by (simp add: agent_within_def gc_agent_def) (meson le_trans of_nat_mono order_trans)
qed

lemma agent_within_fresh: "agent_within now lm fresh_agent"
  by (simp add: agent_within_def fresh_agent_def calls_in_minute_def same_calls_def)

lemma agent_within_seen: "agent_within now lm (st\<lparr>ag_lastSeen := x\<rparr>) = agent_within now lm st"
  by (simp add: agent_within_def calls_in_minute_def same_calls_def)

lemma length_filter_drop: "length (filter P (drop n xs)) \<le> length (filter P xs)"
proof -
  have "length (filter P xs) = length (filter P (take n xs)) + length (filter P (drop n xs))"
    by (metis append_take_drop_id filter_append length_append)
  then show ?thesis by simp
qed

lemma same_calls_push:
  "length (filter P (if length r > 50 then drop (length r - 50) r else r)) \<le> length (filter P r)"
  using length_filter_drop [of P _ r] by simp

lemma agent_within_record:
  assumes "agent_within now lm st"
    and "lm_MaxTotal lm > 0 \<Longrightarrow> ag_total st < lm_MaxTotal lm"
    and "lm_MaxPerMinute lm > 0 \<Longrightarrow> int (calls_in_minute now st) < lm_MaxPerMinute lm"
    and "same_calls now t k st < 3"
  shows "agent_within now lm
    \<lparr>ag_calls = ag_calls st @ [now], ag_total = ag_total st + 1,
     ag_recent = (let recent = ag_recent st @ [\<lparr>rc_tool = t, rc_params = k, rc_at = now\<rparr>] in
        if length recent > 50 then drop (length recent - 50) recent else recent),
     ag_lastSeen = now\<rparr>" (is "agent_within now lm ?st")
proof -
  have "calls_in_minute now ?st = Suc (calls_in_minute now st)"
    by (simp add: calls_in_minute_def)
  moreover have "same_calls now t' k' ?st \<le> 3" for t' k'
  proof -
    have "same_calls now t' k' ?st \<le> same_calls now t' k' st + (if t' = t \<and> k' = k then 1 else 0)"
      unfolding same_calls_def Let_def
      by (simp only: agent_state.simps) (rule order_trans [OF same_calls_push], simp)
    then show ?thesis using assms(1,4) by (auto simp: agent_within_def split: if_splits intro: le_trans)
  qed
  ultimately show ?thesis using assms(1-3) by (auto simp: agent_within_def)
qed

lemma getOrCreate_within:
  assumes "within_limits pol (now, l)" and "getOrCreate a l = (st, l1)"
  shows "within_limits pol (now, l1)" and "lim_limits l1 = lim_limits l"
    and "\<And>lm. agent_within now lm st \<or> map_of (lim_agents l) a = Some st"
proof -
  have evict: "map_of (evictOldest m) k = Some v \<Longrightarrow> map_of m k = Some v" for m k v
    by (auto simp: evictOldest_def Let_def split: if_splits)
  consider (old) "map_of (lim_agents l) a = Some st" "l1 = l"
    | (new) m where "st = fresh_agent" "l1 = l\<lparr>lim_agents := AList.update a fresh_agent m\<rparr>"
        "\<And>k v. map_of m k = Some v \<Longrightarrow> map_of (lim_agents l) k = Some v"
  proof (cases "map_of (lim_agents l) a")
    case (Some x)
    with assms(2) show thesis by (intro old) (simp_all add: getOrCreate_def)
  next
    case None
    with assms(2) have "st = fresh_agent"
      "l1 = l\<lparr>lim_agents := AList.update a fresh_agent (if maxAgents \<le> length (lim_agents l)
         then evictOldest (lim_agents l) else lim_agents l)\<rparr>"
      by (simp_all add: getOrCreate_def Let_def)
    then show thesis
      by (rule new) (cases "maxAgents \<le> length (lim_agents l)"; simp; erule evict)
  qed
  note cases = this
  show "within_limits pol (now, l1)"
    using cases
  proof cases
    case new
    with assms(1) show ?thesis by (auto simp: within_limits_def agent_within_fresh split: if_splits)
  qed (use assms(1) in simp)
  show "lim_limits l1 = lim_limits l" using cases by cases auto
  show "agent_within now lm st \<or> map_of (lim_agents l) a = Some st" for lm
    using cases by cases (auto simp: agent_within_fresh)
qed

lemma within_put:
  "within_limits pol (now, l) \<Longrightarrow>
   (\<And>lm. map_of (lim_limits l) (pol a) = Some lm \<Longrightarrow> agent_within now lm st) \<Longrightarrow>
   within_limits pol (now, put_agent a st l)"
  by (auto simp: within_limits_def put_agent_def)

lemma Check_Some_within:
  assumes "within_limits pol (now, l)" and "limiter_Check now a p t k l = (r, l1)"
  shows "within_limits pol (now, l1)" and "lim_limits l1 = lim_limits l"
proof -
  obtain st l0 where g: "getOrCreate a l = (st, l0)" by (cases "getOrCreate a l")
  note gw = getOrCreate_within [OF assms(1) g]
  have st: "map_of (lim_agents l0) a = Some st" using getOrCreate_agent [of a l] g by simp
  have put: "within_limits pol (now, put_agent a (st\<lparr>ag_lastSeen := now\<rparr>) l0)"
    by (rule within_put [OF gw(1)])
      (use gw(1) st in \<open>auto simp: within_limits_def agent_within_seen\<close>)
  have lims: "lim_limits (put_agent a (st\<lparr>ag_lastSeen := now\<rparr>) l0) = lim_limits l"
    using gw(2) by (simp add: put_agent_def)
  show "within_limits pol (now, l1)"
    using assms put by (auto simp: limiter_Check_def g Let_def split: option.splits if_splits)
  show "lim_limits l1 = lim_limits l"
    using assms lims by (auto simp: limiter_Check_def g Let_def split: option.splits if_splits)
qed

lemma Check_NoneD:
  assumes "limiter_Check now a p t k l = (None, l1)" and "map_of (lim_limits l) p = Some lm"
  shows "\<exists>st. map_of (lim_agents l1) a = Some (st\<lparr>ag_lastSeen := now\<rparr>)
    \<and> (lm_MaxTotal lm > 0 \<longrightarrow> ag_total st < lm_MaxTotal lm)
    \<and> (lm_MaxPerMinute lm > 0 \<longrightarrow> int (calls_in_minute now st) < lm_MaxPerMinute lm)
    \<and> same_calls now t k st < 3"
proof -
  obtain st l0 where g: "getOrCreate a l = (st, l0)" by (cases "getOrCreate a l")
  show ?thesis
    using assms by (intro exI [of _ st]) (auto simp: limiter_Check_def g Let_def split: if_splits)
qed

lemma guarded_call_within:
  assumes w: "within_limits pol (now, l)"
  shows "within_limits pol (now, snd (guarded_call now a (pol a) t k l))"
    and "lim_limits (snd (guarded_call now a (pol a) t k l)) = lim_limits l"
proof -
  obtain r l1 where c: "limiter_Check now a (pol a) t k l = (r, l1)"
    by (cases "limiter_Check now a (pol a) t k l")
  note cw = Check_Some_within [OF w c]
  have "within_limits pol (now, snd (guarded_call now a (pol a) t k l))
      \<and> lim_limits (snd (guarded_call now a (pol a) t k l)) = lim_limits l"
  proof (cases r)
    case (Some e)
    with c cw show ?thesis by (simp add: guarded_call_def)
  next
    case None
    obtain st l2 where g: "getOrCreate a l1 = (st, l2)" by (cases "getOrCreate a l1")
    note gw = getOrCreate_within [OF cw(1) g]
    let ?st = "\<lparr>ag_calls = ag_calls st @ [now], ag_total = ag_total st + 1,
      ag_recent = (let recent = ag_recent st @ [\<lparr>rc_tool = t, rc_params = k, rc_at = now\<rparr>] in
        if length recent > 50 then drop (length recent - 50) recent else recent), ag_lastSeen = now\<rparr>"
    have rec: "limiter_Record now a t k l1 = put_agent a ?st l2"
      by (simp add: limiter_Record_def g Let_def)
    have "agent_within now lm ?st" if lm: "map_of (lim_limits l) (pol a) = Some lm" for lm
    proof -
      obtain st0 where st0: "map_of (lim_agents l1) a = Some (st0\<lparr>ag_lastSeen := now\<rparr>)"
          "lm_MaxTotal lm > 0 \<Longrightarrow> ag_total st0 < lm_MaxTotal lm"
          "lm_MaxPerMinute lm > 0 \<Longrightarrow> int (calls_in_minute now st0) < lm_MaxPerMinute lm"
          "same_calls now t k st0 < 3"
        using Check_NoneD [OF c [unfolded None] lm] by blast
      then have st: "st = st0\<lparr>ag_lastSeen := now\<rparr>"
        using g by (simp add: getOrCreate_def)
      have "agent_within now lm st"
        using cw st0(1) lm st by (auto simp: within_limits_def)
      then show ?thesis
        by (rule agent_within_record) (use st0(2-4) in \<open>auto simp: st calls_in_minute_def same_calls_def\<close>)
    qed
    then have "within_limits pol (now, put_agent a ?st l2)"
      using within_put [OF gw(1), of a ?st] gw(2) cw(2) by simp
    moreover have "lim_limits (put_agent a ?st l2) = lim_limits l"
      using gw(2) cw(2) by (simp add: put_agent_def)
    ultimately show ?thesis using c None rec by (simp add: guarded_call_def)
  qed
  then show "within_limits pol (now, snd (guarded_call now a (pol a) t k l))"
    and "lim_limits (snd (guarded_call now a (pol a) t k l)) = lim_limits l" by auto
qed

lemma gc_within:
  assumes "within_limits pol (now, l)" and "keys_distinct (lim_agents l)"
  shows "within_limits pol (now, limiter_gc now l)"
proof -
  have "\<exists>st. map_of m a = Some st \<and> st' = gc_agent now st"
    if "map_of (filter (\<lambda>(i, st). P st) (map (\<lambda>(i, st). (i, gc_agent now st)) m)) a = Some st'"
      and "keys_distinct m" for m a st' P
  proof -
    from map_of_SomeD [OF that(1)] obtain st where "(a, st) \<in> set m" "st' = gc_agent now st" by auto
    with that(2) show ?thesis by (auto simp: keys_distinct_def)
  qed
  from this [OF _ assms(2)] assms(1) show ?thesis
    by (auto simp: within_limits_def limiter_gc_def agent_within_gc) (metis agent_within_gc)
qed

lemma keys_distinct_guarded [inv_intros]:
  "keys_distinct (lim_agents l) \<Longrightarrow> keys_distinct (lim_agents (snd (guarded_call now a p t k l)))"
proof -
  have g: "keys_distinct (lim_agents l) \<Longrightarrow> keys_distinct (lim_agents (snd (getOrCreate a l)))" for l
    by (auto simp: getOrCreate_def Let_def evictOldest_def split: option.splits)
  have c: "keys_distinct (lim_agents l) \<Longrightarrow> keys_distinct (lim_agents (snd (limiter_Check now a p t k l)))" for l
    using g [of l] by (auto simp: limiter_Check_def Let_def split: option.splits prod.splits)
  have r: "keys_distinct (lim_agents l) \<Longrightarrow> keys_distinct (lim_agents (limiter_Record now a t k l))" for l
    using g [of l] by (auto simp: limiter_Record_def Let_def split: prod.splits)
  show "keys_distinct (lim_agents l) \<Longrightarrow> keys_distinct (lim_agents (snd (guarded_call now a p t k l)))"
    using c [of l] r by (auto simp: guarded_call_def split: option.splits prod.splits)
qed

section \<open>Properties\<close>

lemma limiter_run_inv:
  assumes "limiter_run pol x y" and "within_limits pol x" and "keys_distinct (lim_agents (snd x))"
  shows "within_limits pol y \<and> keys_distinct (lim_agents (snd y)) \<and> lim_limits (snd y) = lim_limits (snd x)"
  using assms
proof (induction rule: limiter_run.induct)
  case (wait x now l now')
  then show ?case using agent_within_later by (fastforce simp: within_limits_def)
next
  case (call x now l a t k)
  then show ?case using guarded_call_within [of pol now l a t k] by (simp add: keys_distinct_guarded)
next
  case (gc x now l)
  then have "within_limits pol (now, limiter_gc now l)" by (intro gc_within) auto
  moreover have "keys_distinct (lim_agents (limiter_gc now l))"
    using gc by (auto simp: limiter_gc_def keys_distinct_def case_prod_beta comp_def intro!: distinct_map_filter)
  ultimately show ?case using gc by (simp add: limiter_gc_def)
qed simp


definition demo_limits :: limiter where
  "demo_limits = \<lparr>lim_agents = [], lim_limits = [(''p'', \<lparr>lm_MaxPerMinute = 1, lm_MaxTotal = 0\<rparr>)]\<rparr>"


text \<open>
  The memory of the limiter is bounded: no sequence of checks, records and clean-ups for
  agents with a non-empty identifier makes it track more than 50000 agents.
\<close>

theorem limiter_is_bounded:
  assumes "bounded l" and "agent \<noteq> []"
  shows "length (lim_agents (snd (limiter_Check now agent p t k l))) \<le> 50000
    \<and> length (lim_agents (limiter_Record now agent t k l)) \<le> 50000
    \<and> bounded (snd (limiter_Check now agent p t k l)) \<and> bounded (limiter_Record now agent t k l)
    \<and> bounded (limiter_gc now l) \<and> bounded limiter_New"
  using Check_bounded [OF assms, of now p t k] Record_bounded [OF assms, of now t k] gc_bounded [OF assms(1)]
  by (simp add: bounded_def maxAgents_def limiter_New_def)

theorem limiter_is_bounded_witness:
  "length (lim_agents (limiter_Record 5 ''bot'' ''t'' [] limiter_New)) \<le> 50000"
  using limiter_is_bounded [of limiter_New "''bot''" 5] by (simp add: bounded_def limiter_New_def)

text \<open>
  Check and record are two steps, so a budget can be overrun: two calls of one agent that
  are both checked before either is recorded both pass with one call of budget left, and two
  are recorded.
\<close>

theorem check_then_record_race:
  "\<exists>l0 l1 l2. limiter_Check 5 ''bot'' ''p'' ''t'' ''1'' demo_limits = (None, l0)
     \<and> limiter_Check 5 ''bot'' ''p'' ''t'' ''2'' l0 = (None, l1)
     \<and> l2 = limiter_Record 5 ''bot'' ''t'' ''2'' (limiter_Record 5 ''bot'' ''t'' ''1'' l1)
     \<and> map_option (calls_in_minute 5) (map_of (lim_agents l2) ''bot'') = Some 2
     \<and> map_option lm_MaxPerMinute (map_of (lim_limits l2) ''p'') = Some 1"
  by (simp add: limiter_Check_def limiter_Record_def getOrCreate_def demo_limits_def fresh_agent_def
      put_agent_def maxAgents_def calls_in_minute_def same_calls_def)

text \<open>
  An agent whose identifier is empty can keep the eviction from finding anyone: the search uses
  the empty identifier for "none yet".
\<close>

lemma evictOldest_empty_id:
  "ag_lastSeen st < ag_lastSeen st' \<Longrightarrow> evictOldest [(''x'', st'), ([], st)] = [(''x'', st'), ([], st)]"
  by (simp add: evictOldest_def)

end
