(* ===== verification/Pins.thy ===== *)
theory Pins
  imports Ratelimit
begin

text \<open>
  Tool pinning (\<open>pin/pin.go\<close>): the fingerprint of every tool an upstream server declares, trust
  on first use, and the floor of a tool that is new or has changed since. The JSON encoding and
  the SHA-256 of a declaration are one argument, \<open>digest\<close>; the answers of the database to writes
  are another.
\<close>

section \<open>Status\<close>

text \<open>The empty status of a tool that pinning does not cover is \<open>Uncovered\<close>.\<close>

datatype pin_status = Uncovered | Pinned | Changed | New

definition pin_Floor :: "pin_status \<Rightarrow> string" where
  "pin_Floor s = (case s of New \<Rightarrow> ''deny'' | Changed \<Rightarrow> ''human_approval'' | _ \<Rightarrow> [])"

text \<open>The order of strictness: how far a tool is from what was accepted.\<close>

instantiation pin_status :: linorder
begin

definition pin_rank :: "pin_status \<Rightarrow> nat" where
  "pin_rank s = (case s of Uncovered \<Rightarrow> 0 | Pinned \<Rightarrow> 1 | Changed \<Rightarrow> 2 | New \<Rightarrow> 3)"

definition less_eq_pin_status :: "pin_status \<Rightarrow> pin_status \<Rightarrow> bool" where
  "less_eq_pin_status s t = (pin_rank s \<le> pin_rank t)"

definition less_pin_status :: "pin_status \<Rightarrow> pin_status \<Rightarrow> bool" where
  "less_pin_status s t = (pin_rank s < pin_rank t)"

instance
proof
  fix x y z :: pin_status
  show "(x < y) = (x \<le> y \<and> \<not> y \<le> x)" by (auto simp: less_eq_pin_status_def less_pin_status_def)
  show "x \<le> x" by (simp add: less_eq_pin_status_def)
  show "x \<le> y \<Longrightarrow> y \<le> z \<Longrightarrow> x \<le> z" by (simp add: less_eq_pin_status_def)
  show "x \<le> y \<Longrightarrow> y \<le> x \<Longrightarrow> x = y"
    by (cases x; cases y) (simp_all add: less_eq_pin_status_def pin_rank_def)
  show "x \<le> y \<or> y \<le> x" by (auto simp: less_eq_pin_status_def)
qed

end

section \<open>The store\<close>

record pin_entry =
  pe_Fingerprint :: string
  pe_Description :: string
  pe_PinnedAt :: time

record pin_view =
  pv_Tool :: string
  pv_Server :: string
  pv_Status :: pin_status
  pv_Pinned :: string
  pv_Current :: string
  pv_PinnedAt :: time
  pv_Fingerprint :: string

text \<open>A row of the table: the tool, its server, and the entry (times to the second).\<close>

record pin_row =
  pr_tool :: string
  pr_server :: string
  pr_entry :: pin_entry

record pin_store =
  ps_db :: "pin_row list option"
  ps_pins :: "(string \<times> pin_entry) list"
  ps_servers :: "string list"
  ps_current :: "(string \<times> pin_view) list"

text \<open>The environment: the clock, whether the database accepts a write, the digest.\<close>

record fp_param =
  fp_Name :: string
  fp_Type :: string
  fp_Required :: bool
  fp_Schema :: "gval option"

record fp_input =
  fp_Description :: string
  fp_Params :: "fp_param list"
  fp_Annotations :: "annotations option"

record pin_env =
  pn_now :: time
  pn_write_ok :: bool
  pn_digest :: "fp_input \<Rightarrow> string"

definition fingerprint_input :: "tool \<Rightarrow> fp_input" where
  "fingerprint_input t =
     \<lparr>fp_Description = tl_Description t,
      fp_Params = map (\<lambda>x. \<lparr>fp_Name = pa_Name x, fp_Type = pa_Type x, fp_Required = pa_Required x,
                      fp_Schema = pa_RawSchema x\<rparr>) (sort_key pa_Name (tl_Params t)),
      fp_Annotations = tl_Annotations t\<rparr>"

definition Fingerprint :: "pin_env \<Rightarrow> tool \<Rightarrow> string" where
  "Fingerprint env t = pn_digest env (fingerprint_input t)"

definition to_second :: "time \<Rightarrow> time" where
  "to_second t = (t div second) * second"

text \<open>\<open>None\<close> is the failing write, which leaves the store as it was.\<close>

definition pinLocked ::
  "pin_env \<Rightarrow> string \<Rightarrow> string \<Rightarrow> string \<Rightarrow> string \<Rightarrow> pin_store \<Rightarrow> pin_store option" where
  "pinLocked env server tool fp desc s =
     (if ps_db s \<noteq> None \<and> \<not> pn_write_ok env then None
      else
        (let e = \<lparr>pe_Fingerprint = fp, pe_Description = desc, pe_PinnedAt = pn_now env\<rparr>;
             row = \<lparr>pr_tool = tool, pr_server = server,
                    pr_entry = e\<lparr>pe_PinnedAt := to_second (pn_now env)\<rparr>\<rparr> in
         Some (s\<lparr>ps_db := map_option (\<lambda>rows. row # filter (\<lambda>r. pr_tool r \<noteq> tool) rows) (ps_db s),
                 ps_pins := AList.update tool e (ps_pins s),
                 ps_servers := List.insert server (ps_servers s)\<rparr>)))"

definition pin_NewStore :: "pin_row list option \<Rightarrow> pin_store" where
  "pin_NewStore db =
     (let rows = (case db of None \<Rightarrow> [] | Some rows \<Rightarrow> rows) in
      \<lparr>ps_db = db,
       ps_pins = fold (\<lambda>r. AList.update (pr_tool r) (pr_entry r)) rows [],
       ps_servers = fold (\<lambda>r. List.insert (pr_server r)) rows [],
       ps_current = []\<rparr>)"

definition compare_pin :: "pin_env \<Rightarrow> string \<Rightarrow> tool \<Rightarrow> pin_store \<Rightarrow> pin_view" where
  "compare_pin env server t s =
     (let fp = Fingerprint env t;
          v = \<lparr>pv_Tool = tl_Name t, pv_Server = server, pv_Status = Pinned, pv_Pinned = [],
               pv_Current = tl_Description t, pv_PinnedAt = zero_time, pv_Fingerprint = fp\<rparr> in
      case map_of (ps_pins s) (tl_Name t) of
        None \<Rightarrow> v\<lparr>pv_Status := New\<rparr>
      | Some pinned \<Rightarrow>
          if pe_Fingerprint pinned \<noteq> fp
          then v\<lparr>pv_Status := Changed, pv_Pinned := pe_Description pinned,
                 pv_PinnedAt := pe_PinnedAt pinned\<rparr>
          else v\<lparr>pv_PinnedAt := pe_PinnedAt pinned\<rparr>)"

text \<open>The flag is true when every tool was observed, false when a write failed on the way.\<close>

fun observe_tools :: "pin_env \<Rightarrow> string \<Rightarrow> bool \<Rightarrow> tool list \<Rightarrow> pin_store \<Rightarrow> bool \<times> pin_store" where
  "observe_tools env server firstSight [] s = (True, s)"
| "observe_tools env server firstSight (t # ts) s =
     (case (if firstSight
            then pinLocked env server (tl_Name t) (Fingerprint env t) (tl_Description t) s
            else Some s) of
        None \<Rightarrow> (False, s)
      | Some s1 \<Rightarrow>
          observe_tools env server firstSight ts
            (s1\<lparr>ps_current := AList.update (tl_Name t) (compare_pin env server t s1) (ps_current s1)\<rparr>))"

definition Observe :: "pin_env \<Rightarrow> string \<Rightarrow> tool list \<Rightarrow> pin_store \<Rightarrow> bool \<times> pin_store" where
  "Observe env server tools s = observe_tools env server (server \<notin> set (ps_servers s)) tools s"

definition pin_Status :: "string \<Rightarrow> pin_store option \<Rightarrow> pin_status" where
  "pin_Status tool s =
     (case s of
        None \<Rightarrow> Uncovered
      | Some st \<Rightarrow> (case map_of (ps_current st) tool of None \<Rightarrow> Uncovered | Some v \<Rightarrow> pv_Status v))"

definition pins_Floor :: "string \<Rightarrow> pin_store option \<Rightarrow> string" where
  "pins_Floor tool s = pin_Floor (pin_Status tool s)"

definition pin_Pending :: "pin_store \<Rightarrow> pin_view list" where
  "pin_Pending s = sort_key pv_Tool (filter (\<lambda>v. pv_Status v \<noteq> Pinned) (map snd (ps_current s)))"

datatype pin_error = NotLoaded string | PinWriteFailed string

fun pin_Accept :: "pin_env \<Rightarrow> string list \<Rightarrow> pin_store \<Rightarrow> (pin_error option \<times> pin_view list) \<times> pin_store" where
  "pin_Accept env [] s = ((None, []), s)"
| "pin_Accept env (name # names) s =
     (case map_of (ps_current s) name of
        None \<Rightarrow> ((Some (NotLoaded name), []), s)
      | Some v \<Rightarrow>
          (case pinLocked env (pv_Server v) name (pv_Fingerprint v) (pv_Current v) s of
             None \<Rightarrow> ((Some (PinWriteFailed name), []), s)
           | Some s1 \<Rightarrow>
               (let v' = v\<lparr>pv_Status := Pinned, pv_Pinned := [], pv_PinnedAt := pn_now env\<rparr>;
                    s2 = s1\<lparr>ps_current := AList.update name v' (ps_current s1)\<rparr> in
                case pin_Accept env names s2 of
                  ((e, before), s3) \<Rightarrow> ((e, v # before), s3))))"

section \<open>Facts\<close>

lemma pinLocked_frame:
  assumes "pinLocked env server tool fp desc s = Some s'"
  shows "ps_current s' = ps_current s"
    and "map_of (ps_pins s') t = (if t = tool
           then Some \<lparr>pe_Fingerprint = fp, pe_Description = desc, pe_PinnedAt = pn_now env\<rparr>
           else map_of (ps_pins s) t)"
    and "set (ps_servers s') = insert server (set (ps_servers s))"
  using assms by (auto simp: pinLocked_def Let_def split: if_splits)

lemma observe_known:
  "observe_tools env server False ts s =
     (True, s\<lparr>ps_current := fold (\<lambda>t. AList.update (tl_Name t) (compare_pin env server t s)) ts (ps_current s)\<rparr>)"
proof (induction ts arbitrary: s)
  case (Cons t ts)
  have "compare_pin env server u (s\<lparr>ps_current := c\<rparr>) = compare_pin env server u s" for u c
    by (simp add: compare_pin_def Let_def)
  with Cons show ?case by simp
qed simp

lemma map_of_fold_update:
  "map_of (fold (\<lambda>t. AList.update (f t) (g t)) ts m) n =
     (case find (\<lambda>t. f t = n) (rev ts) of Some t \<Rightarrow> Some (g t) | None \<Rightarrow> map_of m n)"
  by (induction ts arbitrary: m) (auto simp: find_append split: option.splits)

lemma compare_pin_status:
  "pv_Status (compare_pin env server t s) =
     (case map_of (ps_pins s) (tl_Name t) of
        None \<Rightarrow> New
      | Some e \<Rightarrow> if pe_Fingerprint e = Fingerprint env t then Pinned else Changed)"
  by (simp add: compare_pin_def Let_def split: option.split)

definition pinned_as :: "pin_store \<Rightarrow> string \<Rightarrow> string \<Rightarrow> bool" where
  "pinned_as s n fp = (\<exists>e. map_of (ps_pins s) n = Some e \<and> pe_Fingerprint e = fp)"

lemma pinned_as_pinLocked:
  assumes "pinLocked env server tool fp desc s = Some s'"
  shows "pinned_as s' n fp' \<longleftrightarrow> (if n = tool then fp' = fp else pinned_as s n fp')"
  by (auto simp: pinned_as_def pinLocked_frame [OF assms])

lemma pinned_as_current [simp]: "pinned_as (s\<lparr>ps_current := c\<rparr>) = pinned_as s"
  by (rule ext)+ (simp add: pinned_as_def)

lemma observe_first_keeps:
  "observe_tools env server True ts s = (True, s') \<Longrightarrow> n \<notin> tl_Name ` set ts \<Longrightarrow>
   (pinned_as s' n fp \<longleftrightarrow> pinned_as s n fp) \<and> map_of (ps_current s') n = map_of (ps_current s) n"
proof (induction ts arbitrary: s)
  case (Cons t ts)
  then obtain s1 where s1: "pinLocked env server (tl_Name t) (Fingerprint env t) (tl_Description t) s = Some s1"
    by (auto split: option.splits)
  with Cons.IH [OF _ ] Cons.prems show ?case
    by (auto simp: pinned_as_pinLocked [OF s1] pinLocked_frame(1) [OF s1])
qed simp

lemma observe_first_pins:
  "observe_tools env server True ts s = (True, s') \<Longrightarrow> distinct (map tl_Name ts) \<Longrightarrow> t \<in> set ts \<Longrightarrow>
   pinned_as s' (tl_Name t) (Fingerprint env t) \<and> pin_Status (tl_Name t) (Some s') = Pinned"
proof (induction ts arbitrary: s)
  case (Cons u ts)
  then obtain s1 where s1: "pinLocked env server (tl_Name u) (Fingerprint env u) (tl_Description u) s = Some s1"
    by (auto split: option.splits)
  let ?s2 = "s1\<lparr>ps_current := AList.update (tl_Name u) (compare_pin env server u s1) (ps_current s1)\<rparr>"
  from Cons.prems s1 have run: "observe_tools env server True ts ?s2 = (True, s')" by simp
  show ?case
  proof (cases "t = u")
    case False
    with Cons run show ?thesis by auto
  next
    case True
    with Cons.prems have "tl_Name u \<notin> tl_Name ` set ts" by simp
    from observe_first_keeps [OF run this] True show ?thesis
      by (simp add: pinned_as_pinLocked [OF s1] pin_Status_def compare_pin_status pinLocked_frame [OF s1])
  qed
qed simp

lemma observe_first_servers:
  "observe_tools env server True ts s = (True, s') \<Longrightarrow> ts \<noteq> [] \<or> server \<in> set (ps_servers s) \<Longrightarrow>
   server \<in> set (ps_servers s')"
proof (induction ts arbitrary: s)
  case (Cons u ts)
  then obtain s1 where s1: "pinLocked env server (tl_Name u) (Fingerprint env u) (tl_Description u) s = Some s1"
    by (auto split: option.splits)
  let ?s2 = "s1\<lparr>ps_current := AList.update (tl_Name u) (compare_pin env server u s1) (ps_current s1)\<rparr>"
  from Cons.prems s1 have run: "observe_tools env server True ts ?s2 = (True, s')" by simp
  show ?case by (rule Cons.IH [OF run]) (simp add: pinLocked_frame(3) [OF s1])
qed simp

lemma Observe_known_status:
  assumes "server \<in> set (ps_servers s)" and "distinct (map tl_Name ts)" and "t \<in> set ts"
  shows "pin_Status (tl_Name t) (Some (snd (Observe env server ts s)))
    = (case map_of (ps_pins s) (tl_Name t) of
         None \<Rightarrow> New
       | Some e \<Rightarrow> if pe_Fingerprint e = Fingerprint env t then Pinned else Changed)"
    and "ps_pins (snd (Observe env server ts s)) = ps_pins s"
    and "ps_servers (snd (Observe env server ts s)) = ps_servers s"
    and "fst (Observe env server ts s)"
proof -
  let ?P = "\<lambda>u. tl_Name u = tl_Name t"
  have "find ?P (rev ts) \<noteq> None" using assms(3) by (auto simp: find_None_conv)
  then obtain u where u: "find ?P (rev ts) = Some u" by auto
  from find_SomeD [OF u] have "u = t"
    using distinct_map_inj [OF assms(2), of u t] assms(3) by simp
  with u show "pin_Status (tl_Name t) (Some (snd (Observe env server ts s)))
    = (case map_of (ps_pins s) (tl_Name t) of
         None \<Rightarrow> New
       | Some e \<Rightarrow> if pe_Fingerprint e = Fingerprint env t then Pinned else Changed)"
    using assms(1) by (simp add: Observe_def observe_known pin_Status_def map_of_fold_update compare_pin_status)
qed (simp_all add: Observe_def observe_known assms(1))

section \<open>Properties\<close>

text \<open>
  The rug pull is answered: once a server's catalogue has been pinned on first sight, with no
  floor on any of its tools, a later catalogue of that server gives a tool it adds the floor
  deny, and a tool whose declaration it changed the floor human_approval, unless the two
  declarations have the same digest; an unchanged tool keeps no floor.
\<close>

theorem rug_pull_is_held_back:
  assumes "server \<notin> set (ps_servers s)" and "Observe env server ts s = (True, s1)" and "ts \<noteq> []"
    and "distinct (map tl_Name ts)" and "distinct (map tl_Name ts')"
    and "t' \<in> set ts'" and "pn_digest env' = pn_digest env"
  shows "(\<forall>t \<in> set ts. pins_Floor (tl_Name t) (Some s1) = [])
    \<and> (case find (\<lambda>t. tl_Name t = tl_Name t') ts of
         None \<Rightarrow> map_of (ps_pins s) (tl_Name t') = None \<longrightarrow>
           pins_Floor (tl_Name t') (Some (snd (Observe env' server ts' s1))) = ''deny''
       | Some t \<Rightarrow>
           pins_Floor (tl_Name t') (Some (snd (Observe env' server ts' s1)))
             = (if fingerprint_input t' = fingerprint_input t \<or> Fingerprint env t' = Fingerprint env t
                then [] else ''human_approval''))"
proof -
  from assms(1,2) have run: "observe_tools env server True ts s = (True, s1)" by (simp add: Observe_def)
  have known: "server \<in> set (ps_servers s1)" using observe_first_servers [OF run] assms(3) by blast
  note st = Observe_known_status(1) [OF known assms(5,6), of env']
  have fp: "Fingerprint env' = Fingerprint env" by (rule ext) (simp add: Fingerprint_def assms(7))
  have first: "pins_Floor (tl_Name t) (Some s1) = []" if "t \<in> set ts" for t
    using observe_first_pins [OF run assms(4) that] by (simp add: pins_Floor_def pin_Floor_def)
  show ?thesis
  proof (cases "find (\<lambda>t. tl_Name t = tl_Name t') ts")
    case None
    then have n: "tl_Name t' \<notin> tl_Name ` set ts" by (auto simp: find_None_conv)
    have "map_of (ps_pins s) (tl_Name t') = None \<Longrightarrow> map_of (ps_pins s1) (tl_Name t') = None"
      using observe_first_keeps [OF run n] by (auto simp: pinned_as_def) (metis option.exhaust)
    with None first show ?thesis by (auto simp: pins_Floor_def st pin_Floor_def)
  next
    case (Some t)
    from find_SomeD [OF Some] have t: "t \<in> set ts" "tl_Name t = tl_Name t'" by simp_all
    from observe_first_pins [OF run assms(4) t(1)] obtain e where
      "map_of (ps_pins s1) (tl_Name t') = Some e" "pe_Fingerprint e = Fingerprint env t"
      by (auto simp: pinned_as_def t(2))
    then show ?thesis
      using first Some by (auto simp: pins_Floor_def st pin_Floor_def fp) (simp_all add: Fingerprint_def)
  qed
qed

definition demo_pin_env :: pin_env where
  "demo_pin_env = \<lparr>pn_now = 7 * second, pn_write_ok = True, pn_digest = fp_Description\<rparr>"

definition demo_tool :: "string \<Rightarrow> string \<Rightarrow> tool" where
  "demo_tool n d = no_tool\<lparr>tl_Name := n, tl_Description := d\<rparr>"

theorem rug_pull_is_held_back_witness:
  "pins_Floor ''s.a'' (Some (snd (Observe demo_pin_env ''s'' [demo_tool ''s.a'' ''evil'', demo_tool ''s.b'' ''new'']
     (snd (Observe demo_pin_env ''s'' [demo_tool ''s.a'' ''good''] (pin_NewStore None)))))) = ''human_approval''
   \<and> pins_Floor ''s.b'' (Some (snd (Observe demo_pin_env ''s'' [demo_tool ''s.a'' ''evil'', demo_tool ''s.b'' ''new'']
     (snd (Observe demo_pin_env ''s'' [demo_tool ''s.a'' ''good''] (pin_NewStore None)))))) = ''deny''"
proof -
  let ?s = "pin_NewStore None" and ?ts = "[demo_tool ''s.a'' ''good'']"
  let ?ts' = "[demo_tool ''s.a'' ''evil'', demo_tool ''s.b'' ''new'']"
  have fresh: "''s'' \<notin> set (ps_servers ?s)" by (simp add: pin_NewStore_def)
  have ok: "Observe demo_pin_env ''s'' ?ts ?s = (True, snd (Observe demo_pin_env ''s'' ?ts ?s))"
    by (simp add: Observe_def pinLocked_def pin_NewStore_def Let_def)
  have d: "distinct (map tl_Name ?ts)" "distinct (map tl_Name ?ts')" by (simp_all add: demo_tool_def)
  note r = rug_pull_is_held_back [OF fresh ok _ d, where env' = demo_pin_env]
  from r [of "demo_tool ''s.a'' ''evil''"] r [of "demo_tool ''s.b'' ''new''"] show ?thesis
    by (simp add: demo_tool_def fingerprint_input_def Fingerprint_def demo_pin_env_def pin_NewStore_def)
qed

lemma Accept_one:
  assumes "map_of (ps_current s) n = Some v" and "ps_db s = None \<or> pn_write_ok env"
  shows "pinLocked env (pv_Server v) n (pv_Fingerprint v) (pv_Current v) s \<noteq> None"
  using assms by (auto simp: pinLocked_def)

text \<open>
  Accepting what is loaded lifts the floor, and only there: when every named tool is loaded
  and the database accepts the writes, Accept succeeds, each named tool is pinned with no floor,
  and the status of every other tool is what it was.
\<close>

theorem Accept_lifts_floor:
  assumes "\<forall>n \<in> set names. map_of (ps_current s) n \<noteq> None" and "ps_db s = None \<or> pn_write_ok env"
  shows "fst (fst (pin_Accept env names s)) = None
    \<and> (\<forall>n. pin_Status n (Some (snd (pin_Accept env names s)))
          = (if n \<in> set names then Pinned else pin_Status n (Some s)))
    \<and> length (snd (fst (pin_Accept env names s))) = length names"
  using assms
proof (induction names arbitrary: s)
  case Nil
  then show ?case by simp
next
  case (Cons n names)
  then obtain v where v: "map_of (ps_current s) n = Some v" by auto
  with Accept_one [OF v Cons.prems(2)] obtain s1 where
    s1: "pinLocked env (pv_Server v) n (pv_Fingerprint v) (pv_Current v) s = Some s1" by auto
  let ?v = "v\<lparr>pv_Status := Pinned, pv_Pinned := [], pv_PinnedAt := pn_now env\<rparr>"
  let ?s2 = "s1\<lparr>ps_current := AList.update n ?v (ps_current s1)\<rparr>"
  have db: "ps_db ?s2 = None \<or> pn_write_ok env"
    using s1 Cons.prems(2) by (auto simp: pinLocked_def Let_def split: if_splits)
  have "\<forall>m \<in> set names. map_of (ps_current ?s2) m \<noteq> None"
    using Cons.prems(1) by (simp add: pinLocked_frame [OF s1])
  from Cons.IH [OF this db] v s1 show ?case
    by (auto simp: pin_Status_def pinLocked_frame [OF s1] split: prod.splits)
qed

theorem Accept_lifts_floor_witness:
  "pin_Status ''s.b'' (Some (snd (pin_Accept demo_pin_env [''s.b'']
     (snd (Observe demo_pin_env ''s'' [demo_tool ''s.b'' ''new''] 
       ((pin_NewStore None)\<lparr>ps_servers := [''s'']\<rparr>)))))) = Pinned"
proof -
  let ?s = "snd (Observe demo_pin_env ''s'' [demo_tool ''s.b'' ''new''] ((pin_NewStore None)\<lparr>ps_servers := [''s'']\<rparr>))"
  have "map_of (ps_current ?s) ''s.b'' \<noteq> None"
    by (simp add: Observe_def observe_known demo_tool_def)
  then show ?thesis
    using Accept_lifts_floor [of "[''s.b'']" ?s demo_pin_env] by (simp add: demo_pin_env_def)
qed

lemma pin_Floor_mono: "s \<le> t \<Longrightarrow> actionSeverity (pin_Floor s) \<le> actionSeverity (pin_Floor t) \<or> pin_Floor s = []"
  by (cases s; cases t) (auto simp: less_eq_pin_status_def pin_rank_def pin_Floor_def)

end
