(* ===== verification/Exec.thy ===== *)
theory Exec
  imports Pins
begin

text \<open>
  Running a declared command (\<open>exec/runner.go\<close>): how the parameters of a call become a command
  line, which arguments are let through, and how much of the output is kept. The operating
  system is one argument, \<open>os\<close>: it answers a started command with what the process wrote, in the
  pieces in which it was read, and how it ended.
\<close>

section \<open>Arguments\<close>

definition dangerousMetachars :: "string list" where
  "dangerousMetachars =
     ['';'', ''&&'', ''||'', ''|'', ''`'', ''$('', ''${'', [CHR 0x0A], [CHR 0x0D]]"

datatype exec_error =
    DangerousCharacter string
  | FlagNotAllowed string
  | ArgumentsInvalid exec_error
  | TimedOut duration
  | ExecFailed

fun check_metachars_in :: "string list \<Rightarrow> string \<Rightarrow> exec_error option" where
  "check_metachars_in [] arg = None"
| "check_metachars_in (mc # mcs) arg =
     (if Contains arg mc then Some (DangerousCharacter mc) else check_metachars_in mcs arg)"

definition checkMetachars :: "string \<Rightarrow> exec_error option" where
  "checkMetachars arg = check_metachars_in dangerousMetachars arg"

text \<open>The part of a flag before its first equals sign.\<close>

definition flag_name :: "string \<Rightarrow> string" where
  "flag_name flag = takeWhile (\<lambda>c. c \<noteq> CHR ''='') flag"

definition matchesAllowed :: "string list \<Rightarrow> string \<Rightarrow> bool" where
  "matchesAllowed allowed flag = list_ex (\<lambda>a. flag_name flag = a) allowed"

fun check_all_metachars :: "string list \<Rightarrow> exec_error option" where
  "check_all_metachars [] = None"
| "check_all_metachars (arg # args) =
     (case checkMetachars arg of Some e \<Rightarrow> Some e | None \<Rightarrow> check_all_metachars args)"

fun check_flags :: "string list \<Rightarrow> string list \<Rightarrow> exec_error option" where
  "check_flags allowed [] = None"
| "check_flags allowed (arg # args) =
     (if \<not> HasPrefix arg ''-'' then check_flags allowed args
      else if \<not> matchesAllowed allowed arg then Some (FlagNotAllowed arg)
      else check_flags allowed args)"

definition ValidateArgs :: "string list option \<Rightarrow> string list \<Rightarrow> exec_error option" where
  "ValidateArgs allowed args =
     (case check_all_metachars args of
        Some e \<Rightarrow> Some e
      | None \<Rightarrow> (case allowed of None \<Rightarrow> None | Some a \<Rightarrow> check_flags a args))"

section \<open>From a call to a command line\<close>

record exec_input =
  in_Command :: string
  in_Args :: "string list"
  in_Stdin :: string

definition flag_args :: "go_rt \<Rightarrow> string \<times> gval \<Rightarrow> string list" where
  "flag_args rt = (\<lambda>(k, v). [(if length k > 1 then ''--'' else ''-'') @ k, Sprint rt v])"

definition ExtractCommand :: "go_rt \<Rightarrow> params \<Rightarrow> cli_meta \<Rightarrow> exec_input" where
  "ExtractCommand rt p meta =
     \<lparr>in_Command =
        (if cm_IsCatchAll meta
         then (case pget p ''command'' of Some (VStr cmd) \<Rightarrow> cmd | _ \<Rightarrow> cm_Command meta)
         else cm_Command meta),
      in_Args =
        (case pget p ''args'' of Some (VList raw) \<Rightarrow> map (Sprint rt) raw | _ \<Rightarrow> [])
        @ (case pget p ''flags'' of Some (VMap flags) \<Rightarrow> concat (map (flag_args rt) flags) | _ \<Rightarrow> []),
      in_Stdin = (case pget p ''stdin'' of Some (VStr s) \<Rightarrow> s | _ \<Rightarrow> [])\<rparr>"

section \<open>The bounded writer\<close>

record limit_writer =
  lw_w :: string
  lw_max :: int
  lw_written :: int

text \<open>The underlying buffer takes whatever it is given; the result is the count returned.\<close>

definition limit_Write :: "string \<Rightarrow> limit_writer \<Rightarrow> nat \<times> limit_writer" where
  "limit_Write p lw =
     (let remaining = lw_max lw - lw_written lw in
      if remaining \<le> 0 then (length p, lw)
      else
        (let p' = (if int (length p) > remaining then take (nat remaining) p else p) in
         (length p', lw\<lparr>lw_w := lw_w lw @ p', lw_written := lw_written lw + int (length p')\<rparr>)))"

text \<open>
  \<open>io.Copy\<close>, which os/exec runs from each pipe to its writer: it gives up with
  \<open>io.ErrShortWrite\<close> when a write without an error returns less than it was given. The flag is
  true when the copy went through.
\<close>

fun io_Copy :: "string list \<Rightarrow> limit_writer \<Rightarrow> bool \<times> limit_writer" where
  "io_Copy [] lw = (True, lw)"
| "io_Copy (c # cs) lw =
     (case limit_Write c lw of
        (n, lw1) \<Rightarrow> if n \<noteq> length c then (False, lw1) else io_Copy cs lw1)"

section \<open>Running\<close>

record exec_result =
  er_Stdout :: string
  er_Stderr :: string
  er_ExitCode :: int

text \<open>
  The command line handed to the operating system, and its answer: what was read from the two
  pipes, the exit code (\<open>None\<close> when the process could not be started or waited for), and
  whether the deadline passed. \<open>ExitCode\<close> is 0 exactly on success and -1 after a signal.
\<close>

record command =
  cd_Path :: string
  cd_Args :: "string list"
  cd_Env :: "string list"
  cd_Dir :: string
  cd_Stdin :: string
  cd_Timeout :: duration

record process =
  pc_stdout :: "string list"
  pc_stderr :: "string list"
  pc_exit :: "int option"
  pc_deadline :: bool

record exec_env =
  ee_PATH :: string
  ee_HOME :: string
  ee_os :: "command \<Rightarrow> process"

record runner =
  rn_MaxOutputBytes :: int

definition maxOutput :: "runner \<Rightarrow> int" where
  "maxOutput r = (if rn_MaxOutputBytes r > 0 then rn_MaxOutputBytes r else push_bit 20 1)"

definition buildEnv :: "exec_env \<Rightarrow> (string \<times> string) list \<Rightarrow> string list" where
  "buildEnv env custom =
     [''PATH='' @ ee_PATH env, ''HOME='' @ ee_HOME env, ''LANG=en_US.UTF-8'']
     @ map (\<lambda>(k, v). k @ ''='' @ v) custom"

definition run_timeout :: "cli_meta \<Rightarrow> duration" where
  "run_timeout meta = (if cm_Timeout meta = 0 then 30 * second else cm_Timeout meta)"

definition build_command :: "exec_env \<Rightarrow> cli_meta \<Rightarrow> exec_input \<Rightarrow> command" where
  "build_command env meta inp =
     \<lparr>cd_Path = cm_Bin meta,
      cd_Args = (if in_Command inp \<noteq> [] then [in_Command inp] else []) @ in_Args inp,
      cd_Env = buildEnv env (cm_Env meta),
      cd_Dir = cm_WorkingDir meta,
      cd_Stdin = in_Stdin inp,
      cd_Timeout = run_timeout meta\<rparr>"

definition empty_writer :: "int \<Rightarrow> limit_writer" where
  "empty_writer m = \<lparr>lw_w = [], lw_max = m, lw_written = 0\<rparr>"

text \<open>
  \<open>Run\<close> returns the command it started, if any, the result, if any, and the error, if any. A
  process that ends with a code other than 0 is an \<open>ExitError\<close>, which \<open>cmd.Run\<close> prefers to the
  error of a copy.
\<close>

definition Run ::
  "exec_env \<Rightarrow> runner \<Rightarrow> cli_meta \<Rightarrow> exec_input \<Rightarrow> command option \<times> exec_result option \<times> exec_error option" where
  "Run env r meta inp =
     (case ValidateArgs (cm_AllowedArgs meta) (in_Args inp) of
        Some e \<Rightarrow> (None, None, Some (ArgumentsInvalid e))
      | None \<Rightarrow>
          (let cmd = build_command env meta inp;
               pr = ee_os env cmd;
               (ok1, out) = io_Copy (pc_stdout pr) (empty_writer (maxOutput r));
               (ok2, err) = io_Copy (pc_stderr pr) (empty_writer (maxOutput r));
               result = \<lparr>er_Stdout = lw_w out, er_Stderr = lw_w err,
                         er_ExitCode = (case pc_exit pr of None \<Rightarrow> 0 | Some c \<Rightarrow> c)\<rparr> in
           (Some cmd, Some result,
            (if pc_deadline pr then Some (TimedOut (run_timeout meta))
             else (case pc_exit pr of
                     None \<Rightarrow> Some ExecFailed
                   | Some c \<Rightarrow> if c \<noteq> 0 then None
                              else if ok1 \<and> ok2 then None else Some ExecFailed)))))"

section \<open>Facts\<close>

definition clean_arg :: "string \<Rightarrow> bool" where
  "clean_arg arg = list_all (\<lambda>mc. \<not> Contains arg mc) dangerousMetachars"

definition allowed_arg :: "string list option \<Rightarrow> string \<Rightarrow> bool" where
  "allowed_arg allowed arg =
     (case allowed of
        None \<Rightarrow> True
      | Some a \<Rightarrow> take 1 arg = ''-'' \<longrightarrow> flag_name arg \<in> set a)"

lemma check_metachars_in_None:
  "check_metachars_in mcs arg = None \<longleftrightarrow> list_all (\<lambda>mc. \<not> Contains arg mc) mcs"
  by (induction mcs) auto

lemma checkMetachars_None: "checkMetachars arg = None \<longleftrightarrow> clean_arg arg"
  by (simp add: checkMetachars_def clean_arg_def check_metachars_in_None)

lemma check_all_metachars_None: "check_all_metachars args = None \<longleftrightarrow> list_all clean_arg args"
  by (induction args) (auto simp: checkMetachars_None [symmetric] split: option.splits)

lemma HasPrefix_dash: "HasPrefix arg ''-'' \<longleftrightarrow> take 1 arg = ''-''"
  by (cases arg) (auto simp: HasPrefix_def)

lemma check_flags_None: "check_flags a args = None \<longleftrightarrow> list_all (allowed_arg (Some a)) args"
  by (induction args) (auto simp: allowed_arg_def HasPrefix_dash matchesAllowed_def list_ex_iff)

lemma ValidateArgs_None:
  "ValidateArgs allowed args = None \<longleftrightarrow> list_all clean_arg args \<and> list_all (allowed_arg allowed) args"
proof (cases "check_all_metachars args")
  case None
  moreover from None have "list_all clean_arg args" by (simp add: check_all_metachars_None)
  ultimately show ?thesis
    by (cases allowed) (auto simp: ValidateArgs_def check_flags_None allowed_arg_def list_all_iff)
next
  case (Some e)
  then show ?thesis
    using check_all_metachars_None [of args] by (simp add: ValidateArgs_def)
qed

text \<open>What a writer that never gave back a short count keeps: the first bytes, up to its bound.\<close>

definition lw_ok :: "limit_writer \<Rightarrow> bool" where
  "lw_ok lw = (lw_written lw = int (length (lw_w lw)) \<and> lw_written lw \<le> lw_max lw)"

lemma limit_Write_ok:
  assumes "lw_ok lw"
  shows "lw_ok (snd (limit_Write p lw))"
    and "lw_w (snd (limit_Write p lw)) = take (nat (lw_max lw)) (lw_w lw @ p)"
    and "lw_max (snd (limit_Write p lw)) = lw_max lw"
    and "fst (limit_Write p lw) \<noteq> length p \<longleftrightarrow>
           int (length (lw_w lw)) < lw_max lw \<and> lw_max lw < int (length (lw_w lw @ p))"
  using assms by (auto simp: limit_Write_def lw_ok_def Let_def nat_diff_distrib')

text \<open>A piece that begins below the bound and ends above it is cut.\<close>

fun cut_piece :: "int \<Rightarrow> int \<Rightarrow> string list \<Rightarrow> bool" where
  "cut_piece m n [] = False"
| "cut_piece m n (c # cs) =
     (n < m \<and> m < n + int (length c) \<or> cut_piece m (n + int (length c)) cs)"

lemma cut_piece_above: "m \<le> n \<Longrightarrow> \<not> cut_piece m n cs"
  by (induction cs arbitrary: n) auto

lemma take_take_append: "take n (take n xs @ ys) = take n (xs @ ys)"
  by (simp add: min_def)

lemma io_Copy_ok:
  assumes "lw_ok lw"
  shows "lw_w (snd (io_Copy cs lw)) = take (nat (lw_max lw)) (lw_w lw @ concat cs)"
    and "fst (io_Copy cs lw) \<longleftrightarrow> \<not> cut_piece (lw_max lw) (lw_written lw) cs"
  using assms
proof (induction cs arbitrary: lw)
  case Nil
  { case 1 then show ?case by (auto simp: lw_ok_def) next case 2 then show ?case by simp }
next
  case (Cons c cs)
  {
    case 1
    obtain n lw1 where w: "limit_Write c lw = (n, lw1)" by fastforce
    note k = limit_Write_ok [OF 1, of c, unfolded w snd_conv fst_conv]
    show ?case
    proof (cases "n = length c")
      case True
      have "lw_w (snd (io_Copy (c # cs) lw)) = take (nat (lw_max lw)) (lw_w lw1 @ concat cs)"
        using True w k(3) Cons.IH(1) [OF k(1)] by simp
      also have "\<dots> = take (nat (lw_max lw)) ((lw_w lw @ c) @ concat cs)"
        unfolding k(2) by (rule take_take_append)
      finally show ?thesis by simp
    next
      case False
      with k(4) have "nat (lw_max lw) \<le> length (lw_w lw @ c)" by auto
      then have "take (nat (lw_max lw)) (lw_w lw @ c @ concat cs) = take (nat (lw_max lw)) (lw_w lw @ c)"
        by simp
      with False w k show ?thesis by simp
    qed
  next
    case 2
    obtain n lw1 where w: "limit_Write c lw = (n, lw1)" by fastforce
    note k = limit_Write_ok [OF 2, of c, unfolded w snd_conv fst_conv]
    have wr: "lw_written lw = int (length (lw_w lw))" using 2 by (simp add: lw_ok_def)
    show ?case
    proof (cases "n = length c")
      case False
      with k(4) w wr show ?thesis by auto
    next
      case True
      with k(4) wr have no: "\<not> (lw_written lw < lw_max lw \<and> lw_max lw < lw_written lw + int (length c))"
        by auto
      have "cut_piece (lw_max lw) (lw_written lw1) cs
          \<longleftrightarrow> cut_piece (lw_max lw) (lw_written lw + int (length c)) cs"
      proof (cases "lw_max lw \<le> lw_written lw")
        case True
        with w have "lw1 = lw" by (auto simp: limit_Write_def)
        with True show ?thesis by (simp add: cut_piece_above)
      next
        case False
        with w no have "lw_written lw1 = lw_written lw + int (length c)" by (auto simp: limit_Write_def Let_def)
        then show ?thesis by simp
      qed
      with True w no Cons.IH(2) [OF k(1)] k(3) show ?thesis by auto
    qed
  }
qed

lemma empty_writer_ok: "0 \<le> m \<Longrightarrow> lw_ok (empty_writer m)"
  by (simp add: lw_ok_def empty_writer_def)

lemma maxOutput_pos: "0 < maxOutput r"
  by (simp add: maxOutput_def push_bit_eq_mult)

lemmas empty_Copy = io_Copy_ok [OF empty_writer_ok [OF less_imp_le [OF maxOutput_pos]],
  unfolded empty_writer_def, simplified, folded empty_writer_def]

lemma cut_piece_iff:
  "cut_piece (maxOutput r) 0 cs \<longleftrightarrow> \<not> fst (io_Copy cs (empty_writer (maxOutput r)))"
  by (simp add: empty_Copy(2))

lemma Run_started:
  assumes "ValidateArgs (cm_AllowedArgs meta) (in_Args inp) = None"
  obtains res e where "Run env r meta inp = (Some (build_command env meta inp), Some res, e)"
proof -
  have "fst (Run env r meta inp) = Some (build_command env meta inp)" "fst (snd (Run env r meta inp)) \<noteq> None"
    by (simp_all add: Run_def Let_def assms split_beta)
  then show thesis using that by (cases "Run env r meta inp") auto
qed

section \<open>Properties\<close>

text \<open>
  An argument list passes the check exactly when no argument contains one of the dangerous
  character sequences anywhere and, where the tool has an allowlist, every argument that starts
  with a dash is, up to its first equals sign, an entry of the list.
\<close>

theorem ValidateArgs_iff:
  "ValidateArgs allowed args = None \<longleftrightarrow>
     (\<forall>arg \<in> set args.
        (\<forall>mc \<in> set dangerousMetachars. \<nexists>u v. arg = u @ mc @ v) \<and>
        (\<forall>a. allowed = Some a \<longrightarrow> take 1 arg = ''-'' \<longrightarrow> takeWhile (\<lambda>c. c \<noteq> CHR ''='') arg \<in> set a))"
  unfolding ValidateArgs_None list_all_iff clean_arg_def allowed_arg_def flag_name_def Contains_iff
  by (auto split: option.splits)

theorem ValidateArgs_iff_witness:
  "ValidateArgs (Some [''-n'']) [''-n=1'', ''x''] = None \<and> ValidateArgs (Some [''-n'']) [''-m=1''] \<noteq> None"
  unfolding ValidateArgs_iff by (auto simp: dangerousMetachars_def Cons_eq_append_conv)

text \<open>
  Only what passed the check is started, without a shell: a started command is the tool's own
  binary, with the subcommand as its first argument and the checked arguments after it, in the
  tool's directory, with no environment but PATH, HOME, LANG and the tool's own variables; and a
  call whose arguments do not pass starts nothing and is an error.
\<close>

theorem Run_starts_only_checked:
  "(case Run env r meta inp of
      (Some cmd, res, e) \<Rightarrow>
        list_all clean_arg (in_Args inp) \<and> list_all (allowed_arg (cm_AllowedArgs meta)) (in_Args inp)
        \<and> cd_Path cmd = cm_Bin meta
        \<and> cd_Args cmd = (if in_Command inp = [] then [] else [in_Command inp]) @ in_Args inp
        \<and> cd_Dir cmd = cm_WorkingDir meta
        \<and> set (cd_Env cmd) = {''PATH='' @ ee_PATH env, ''HOME='' @ ee_HOME env, ''LANG=en_US.UTF-8''}
            \<union> (\<lambda>(k, v). k @ ''='' @ v) ` set (cm_Env meta)
        \<and> cd_Timeout cmd \<noteq> 0 \<and> res \<noteq> None
    | (None, res, e) \<Rightarrow> res = None \<and> e \<noteq> None
        \<and> \<not> (list_all clean_arg (in_Args inp) \<and> list_all (allowed_arg (cm_AllowedArgs meta)) (in_Args inp)))"
proof (cases "ValidateArgs (cm_AllowedArgs meta) (in_Args inp)")
  case None
  then obtain res e where run: "Run env r meta inp = (Some (build_command env meta inp), Some res, e)"
    by (rule Run_started)
  from None show ?thesis
    by (auto simp: run ValidateArgs_None build_command_def buildEnv_def run_timeout_def)
next
  case (Some e)
  then show ?thesis by (auto simp: Run_def ValidateArgs_None [symmetric])
qed

text \<open>
  The output kept is bounded and honest: what is returned of each stream is exactly its first
  bytes, up to the runner's limit (1 MiB unless set).
\<close>

theorem Run_output_is_prefix:
  assumes "Run env r meta inp = (Some cmd, Some res, e)"
  shows "er_Stdout res = take (nat (maxOutput r)) (concat (pc_stdout (ee_os env cmd)))
    \<and> er_Stderr res = take (nat (maxOutput r)) (concat (pc_stderr (ee_os env cmd)))
    \<and> int (length (er_Stdout res)) \<le> maxOutput r"
proof -
  have "er_Stdout res = take (nat (maxOutput r)) (concat (pc_stdout (ee_os env cmd)))"
    "er_Stderr res = take (nat (maxOutput r)) (concat (pc_stderr (ee_os env cmd)))"
    using assms
    by (auto simp: Run_def Let_def empty_Copy(1) [symmetric] split: option.splits prod.splits)
  then show ?thesis using maxOutput_pos [of r] by auto
qed

definition demo_exec :: "string list \<Rightarrow> exec_env" where
  "demo_exec out = \<lparr>ee_PATH = ''/bin'', ee_HOME = ''/root'',
     ee_os = (\<lambda>c. \<lparr>pc_stdout = out, pc_stderr = [], pc_exit = Some 0, pc_deadline = False\<rparr>)\<rparr>"

definition demo_meta :: cli_meta where
  "demo_meta = \<lparr>cm_Bin = ''gh'', cm_Command = ''pr'', cm_AllowedArgs = None, cm_Timeout = 0,
     cm_WorkingDir = [], cm_Env = [], cm_Strict = True, cm_DefaultAction = [], cm_IsCatchAll = False\<rparr>"

definition demo_input :: exec_input where
  "demo_input = \<lparr>in_Command = ''pr'', in_Args = [''list''], in_Stdin = []\<rparr>"

theorem Run_output_is_prefix_witness:
  "map_option er_Stdout (fst (snd (Run (demo_exec [''ab'', ''cd'']) \<lparr>rn_MaxOutputBytes = 3\<rparr> demo_meta demo_input)))
     = Some ''abc''"
proof -
  have "list_all clean_arg (in_Args demo_input)"
    by (simp add: demo_input_def clean_arg_def dangerousMetachars_def)
  then have ok: "ValidateArgs (cm_AllowedArgs demo_meta) (in_Args demo_input) = None"
    by (simp add: ValidateArgs_None demo_meta_def allowed_arg_def list_all_iff)
  obtain res e where run: "Run (demo_exec [''ab'', ''cd'']) \<lparr>rn_MaxOutputBytes = 3\<rparr> demo_meta demo_input
      = (Some (build_command (demo_exec [''ab'', ''cd'']) demo_meta demo_input), Some res, e)"
    by (rule Run_started [OF ok])
  from Run_output_is_prefix [OF run] run show ?thesis by (simp add: demo_exec_def maxOutput_def)
qed

text \<open>
  What the limit does to a command that succeeded: it is reported as failed exactly when a
  piece of its output begins below the limit and ends above it. Output over the limit is thus not
  silently discarded, as the comment on the writer says, but turns success into an error, unless
  a piece happens to end at the limit.
\<close>

theorem truncation_fails_the_command:
  assumes "Run env r meta inp = (Some cmd, res, e)" and "pc_exit (ee_os env cmd) = Some 0"
    and "\<not> pc_deadline (ee_os env cmd)"
  shows "e = (if cut_piece (maxOutput r) 0 (pc_stdout (ee_os env cmd))
                \<or> cut_piece (maxOutput r) 0 (pc_stderr (ee_os env cmd)) then Some ExecFailed else None)"
  using assms
  by (auto simp: Run_def Let_def cut_piece_iff split: option.splits prod.splits)

theorem truncation_fails_the_command_witness:
  "snd (snd (Run (demo_exec [''abcd'']) \<lparr>rn_MaxOutputBytes = 3\<rparr> demo_meta demo_input)) = Some ExecFailed"
proof -
  have "list_all clean_arg (in_Args demo_input)"
    by (simp add: demo_input_def clean_arg_def dangerousMetachars_def)
  then have ok: "ValidateArgs (cm_AllowedArgs demo_meta) (in_Args demo_input) = None"
    by (simp add: ValidateArgs_None demo_meta_def allowed_arg_def list_all_iff)
  obtain res e where run: "Run (demo_exec [''abcd'']) \<lparr>rn_MaxOutputBytes = 3\<rparr> demo_meta demo_input
      = (Some (build_command (demo_exec [''abcd'']) demo_meta demo_input), Some res, e)"
    by (rule Run_started [OF ok])
  from truncation_fails_the_command [OF run] run show ?thesis by (simp add: demo_exec_def maxOutput_def)
qed

text \<open>
  The name of the subcommand of a dispatcher comes from the call and is not checked at all.
\<close>

lemma dispatched_command_is_unchecked:
  "cm_IsCatchAll meta \<Longrightarrow> in_Command (ExtractCommand rt (Some [(''command'', VStr c)]) meta) = c"
  by (simp add: ExtractCommand_def pget_def entries_def)

text \<open>A long flag gets two dashes, where the comment on \<open>ExtractCommand\<close> shows one.\<close>

lemma long_flags_get_two_dashes:
  "in_Args (ExtractCommand rt (Some [(''flags'', VMap [(''target'', VStr ''foo'')])]) meta) = [''--target'', ''foo'']"
  by (simp add: ExtractCommand_def pget_def entries_def flag_args_def)

end
