(* ===== verification/Trace_Context.thy ===== *)
theory Trace_Context
  imports Exec
begin

text \<open>
  The trace context of a call (\<open>trace/context.go\<close>, with the span helpers of \<open>trace/otel.go\<close>)
  and its token counts (\<open>trace/tokens.go\<close>). The random bytes and the length of a JSON encoding
  are arguments.
\<close>

section \<open>Identifiers\<close>

abbreviation char_between :: "char \<Rightarrow> char \<Rightarrow> char \<Rightarrow> bool" where
  "char_between a b c \<equiv> a \<le> c \<and> c \<le> b"

definition hex_char :: "char \<Rightarrow> bool" where
  "hex_char c = (char_between (CHR ''0'') (CHR ''9'') c \<or> char_between (CHR ''a'') (CHR ''f'') c
     \<or> char_between (CHR ''A'') (CHR ''F'') c)"

definition isHex :: "string \<Rightarrow> bool" where
  "isHex s = list_all hex_char s"

definition allZero :: "string \<Rightarrow> bool" where
  "allZero s = (dropWhile (\<lambda>c. c = CHR ''0'') s = [])"

text \<open>\<open>hex.EncodeToString\<close>.\<close>

definition hex_encode :: "nat list \<Rightarrow> string" where
  "hex_encode bs = concat (map (\<lambda>b. [hex_digit (b div 16 mod 16), hex_digit (b mod 16)]) bs)"

text \<open>The random bytes drawn by one call: eight for a span, sixteen for a trace.\<close>

record draw =
  dr_span :: "nat list"
  dr_trace :: "nat list"

definition randomSpanID :: "draw \<Rightarrow> string" where
  "randomSpanID d = hex_encode (dr_span d)"

definition NewID :: "draw \<Rightarrow> string" where
  "NewID d = hex_encode (dr_trace d)"

definition draw_ok :: "draw \<Rightarrow> bool" where
  "draw_ok d = (length (dr_span d) = 8 \<and> length (dr_trace d) = 16)"

definition spanIDFor :: "draw \<Rightarrow> string \<Rightarrow> string" where
  "spanIDFor d traceID =
     (if length traceID < 16 \<or> \<not> isHex traceID then randomSpanID d
      else ToLower (take 16 traceID))"

section \<open>The context\<close>

record trace_context =
  cx_TraceID :: string
  cx_SpanID :: string
  cx_ParentSpanID :: string

definition ParseTraceparent :: "string \<Rightarrow> (string \<times> string) option" where
  "ParseTraceparent h =
     (case Split (CHR ''-'') (TrimSpace h) of
        v # t # p # f # rest \<Rightarrow>
          (if length v \<noteq> 2 \<or> \<not> isHex v \<or> v = ''ff'' \<or> length f \<noteq> 2 \<or> \<not> isHex f then None
           else if length t \<noteq> 32 \<or> \<not> isHex t \<or> allZero t
                   \<or> length p \<noteq> 16 \<or> \<not> isHex p \<or> allZero p then None
           else Some (ToLower t, ToLower p))
      | _ \<Rightarrow> None)"

definition NewContext :: "draw \<Rightarrow> string \<Rightarrow> string \<Rightarrow> trace_context" where
  "NewContext d traceparent xTraceID =
     (case ParseTraceparent traceparent of
        Some (t, p) \<Rightarrow> \<lparr>cx_TraceID = t, cx_SpanID = randomSpanID d, cx_ParentSpanID = p\<rparr>
      | None \<Rightarrow>
          (let i = (if length xTraceID = 32 \<and> isHex xTraceID \<and> \<not> allZero xTraceID
                    then ToLower xTraceID else NewID d) in
           \<lparr>cx_TraceID = i, cx_SpanID = spanIDFor d i, cx_ParentSpanID = []\<rparr>))"

definition Traceparent :: "draw \<Rightarrow> trace_context \<Rightarrow> string" where
  "Traceparent d c =
     ''00-'' @ cx_TraceID c @ ''-''
     @ (if length (cx_SpanID c) \<noteq> 16 \<or> \<not> isHex (cx_SpanID c) then spanIDFor d (cx_TraceID c)
        else cx_SpanID c)
     @ ''-01''"

section \<open>Token counts\<close>

record token_rt =
  tk_rt :: go_rt
  tk_json_length :: "(string \<times> gval) list \<Rightarrow> nat"
  tk_int_of_huge :: "flt \<Rightarrow> int"

definition tokens_of :: "nat \<Rightarrow> nat" where
  "tokens_of chars = (let tokens = chars div 4 in if tokens = 0 \<and> chars > 0 then 1 else tokens)"

definition EstimateTokens :: "token_rt \<Rightarrow> gval \<Rightarrow> nat" where
  "EstimateTokens rt v =
     (if v = VNil then 0
      else tokens_of (case v of
                        VStr s \<Rightarrow> length s
                      | VMap m \<Rightarrow> if json_ok (VMap m) then tk_json_length rt m else 0
                      | _ \<Rightarrow> length (Sprint (tk_rt rt) v)))"

definition asMap :: "gval \<Rightarrow> (string \<times> gval) list option" where
  "asMap v = (case v of VMap m \<Rightarrow> Some m | _ \<Rightarrow> None)"

text \<open>
  \<open>int(n)\<close> on a float truncates toward zero; Go leaves the result open where it does not fit.
\<close>

definition toInt :: "token_rt \<Rightarrow> gval option \<Rightarrow> int" where
  "toInt rt v =
     (case v of
        Some (VInt i) \<Rightarrow> i
      | Some (VNum (Fin q)) \<Rightarrow>
          (let i = (if q < 0 then - floor (- q) else floor q) in
           if - (2 ^ 63) \<le> i \<and> i < 2 ^ 63 then i else tk_int_of_huge rt (Fin q))
      | Some (VNum f) \<Rightarrow> tk_int_of_huge rt f
      | _ \<Rightarrow> 0)"

definition usage_counts :: "token_rt \<Rightarrow> string \<Rightarrow> string \<Rightarrow> (string \<times> gval) list \<Rightarrow> (int \<times> int) option" where
  "usage_counts rt kin kout m =
     (case map_of m ''usage'' of
        Some (VMap u) \<Rightarrow> Some (toInt rt (map_of u kin), toInt rt (map_of u kout))
      | _ \<Rightarrow> None)"

definition ExtractLLMTokens :: "token_rt \<Rightarrow> string \<Rightarrow> gval \<Rightarrow> (int \<times> int) option" where
  "ExtractLLMTokens rt toolName result =
     (case asMap result of
        None \<Rightarrow> None
      | Some m \<Rightarrow>
          (case (if HasPrefix toolName ''ollama.''
                 then Some (toInt rt (map_of m ''prompt_eval_count''), toInt rt (map_of m ''eval_count''))
                 else if HasPrefix toolName ''anthropic.'' then usage_counts rt ''input_tokens'' ''output_tokens'' m
                 else if HasPrefix toolName ''openai.'' then usage_counts rt ''prompt_tokens'' ''completion_tokens'' m
                 else None) of
             None \<Rightarrow> None
           | Some (i, out) \<Rightarrow> if i = 0 \<and> out = 0 then None else Some (i, out)))"

section \<open>Facts\<close>

lemma isHex_append [simp]: "isHex (s @ t) \<longleftrightarrow> isHex s \<and> isHex t"
  by (simp add: isHex_def)

lemma isHex_Nil [simp]: "isHex []"
  by (simp add: isHex_def)

lemma isHex_take: "isHex s \<Longrightarrow> isHex (take n s)"
  unfolding isHex_def list_all_iff by (meson in_set_takeD)

lemma hex_digit_hex [simp]: "n < 16 \<Longrightarrow> hex_char (hex_digit n)"
proof -
  have "list_all (\<lambda>n. hex_char (hex_digit n)) [0..<16]" by code_simp
  then show "n < 16 \<Longrightarrow> hex_char (hex_digit n)" by (auto simp: list_all_iff)
qed

lemma isHex_hex_encode [simp]: "isHex (hex_encode bs)"
  by (induction bs) (auto simp: hex_encode_def isHex_def)

lemma length_hex_encode [simp]: "length (hex_encode bs) = 2 * length bs"
  by (induction bs) (auto simp: hex_encode_def)

lemma of_lower_char:
  "(of_char (lower_char c) :: nat) = (if 65 \<le> (of_char c :: nat) \<and> (of_char c :: nat) \<le> 90 then of_char c + 32 else of_char c)"
  by (simp add: lower_char_def Let_def)

lemma hex_char_nat:
  "hex_char c \<longleftrightarrow> 48 \<le> (of_char c :: nat) \<and> (of_char c :: nat) \<le> 57 \<or> 97 \<le> (of_char c :: nat) \<and> (of_char c :: nat) \<le> 102
     \<or> 65 \<le> (of_char c :: nat) \<and> (of_char c :: nat) \<le> 70"
  by (simp add: hex_char_def less_eq_char_def)

lemma char_ne: "(of_char c :: nat) \<noteq> of_char d \<Longrightarrow> c \<noteq> d" by auto

lemma hex_char_lower: "hex_char c \<Longrightarrow> hex_char (lower_char c)"
  unfolding hex_char_nat of_lower_char by auto
lemma lower_char_idem: "lower_char (lower_char c) = lower_char c"
  by (subst of_char_eq_iff [where 'a = nat, symmetric]) (simp add: of_lower_char)
lemma lower_char_zero: "lower_char c = CHR ''0'' \<longleftrightarrow> c = CHR ''0''"
  by (subst (1 2) of_char_eq_iff [where 'a = nat, symmetric]) (simp add: of_lower_char del: of_char_eq_iff)
lemma hex_char_no_dash: "hex_char c \<Longrightarrow> c \<noteq> CHR ''-''"
  by (rule char_ne) (auto simp: hex_char_nat)
lemma hex_char_no_space: "hex_char c \<Longrightarrow> \<not> is_space c"
  by (auto simp: hex_char_nat is_space_def)

lemmas lower_char_facts = hex_char_lower lower_char_idem lower_char_zero

lemma isHex_ToLower [simp]: "isHex s \<Longrightarrow> isHex (ToLower s)"
  by (induction s) (auto simp: isHex_def ToLower_def lower_char_facts)

lemma ToLower_idem: "isHex s \<Longrightarrow> ToLower (ToLower s) = ToLower s"
  by (induction s) (auto simp: isHex_def ToLower_def lower_char_facts)

lemma allZero_ToLower: "isHex s \<Longrightarrow> allZero (ToLower s) = allZero s"
  by (induction s) (auto simp: isHex_def ToLower_def allZero_def lower_char_facts)

lemma isHex_no_dash: "isHex s \<Longrightarrow> CHR ''-'' \<notin> set s"
  using hex_char_no_dash by (auto simp: isHex_def list_all_iff)

lemma isHex_no_space: "isHex s \<Longrightarrow> list_all (\<lambda>c. \<not> is_space c) s"
  using hex_char_no_space by (auto simp: isHex_def list_all_iff)

lemma length_ToLower [simp]: "length (ToLower s) = length s"
  by (simp add: ToLower_def)

lemma Split_append: "c \<notin> set w \<Longrightarrow> Split c (w @ c # s) = w # Split c s"
  by (induction w) auto

lemma Split_last: "c \<notin> set w \<Longrightarrow> Split c w = [w]"
  by (induction w) auto

lemma TrimSpace_id: "list_all (\<lambda>c. \<not> is_space c) s \<Longrightarrow> TrimSpace s = s"
proof -
  have d: "dropWhile is_space t = t" if "list_all (\<lambda>c. \<not> is_space c) t" for t
    using that by (cases t) auto
  show "list_all (\<lambda>c. \<not> is_space c) s \<Longrightarrow> TrimSpace s = s"
    by (simp add: TrimSpace_def d)
qed

lemma Split_header:
  assumes "isHex t" "isHex p"
  shows "Split (CHR ''-'') (TrimSpace (''00-'' @ t @ ''-'' @ p @ ''-01'')) = [''00'', t, p, ''01'']"
proof -
  let ?h = "''00'' @ CHR ''-'' # t @ CHR ''-'' # p @ CHR ''-'' # ''01''"
  have "list_all (\<lambda>c. \<not> is_space c) ?h"
    using isHex_no_space [OF assms(1)] isHex_no_space [OF assms(2)] by (simp add: is_space_def)
  then have trim: "TrimSpace ?h = ?h" by (rule TrimSpace_id)
  have "Split (CHR ''-'') ?h = [''00'', t, p, ''01'']"
    using isHex_no_dash [OF assms(1)] isHex_no_dash [OF assms(2)] by (simp add: Split_append Split_last)
  then show ?thesis using trim by simp
qed

lemma ParseTraceparent_render:
  assumes "isHex t" "length t = 32" "\<not> allZero t" "isHex p" "length p = 16"
  shows "ParseTraceparent (''00-'' @ t @ ''-'' @ p @ ''-01'')
    = (if allZero p then None else Some (ToLower t, ToLower p))"
proof -
  have "isHex ''00''" "isHex ''01''" by (simp_all add: isHex_def hex_char_def)
  then show ?thesis
    unfolding ParseTraceparent_def Split_header [OF assms(1,4)] using assms by simp
qed

lemma two_guards:
  "(if C then None else if D then None else Some (a, b)) = Some (t, p) \<Longrightarrow> \<not> C \<and> \<not> D \<and> t = a \<and> p = b"
  by (simp split: if_split_asm)

lemma ParseTraceparent_ok:
  assumes "ParseTraceparent h = Some (t, p)"
  shows "isHex t \<and> length t = 32 \<and> \<not> allZero t \<and> ToLower t = t"
    and "isHex p \<and> length p = 16 \<and> \<not> allZero p \<and> ToLower p = p"
proof -
  from assms obtain v t' p' f rest where sp: "Split (CHR ''-'') (TrimSpace h) = v # t' # p' # f # rest"
    by (simp add: ParseTraceparent_def split: list.split_asm)
  from assms have "isHex t' \<and> length t' = 32 \<and> \<not> allZero t' \<and> isHex p' \<and> length p' = 16 \<and> \<not> allZero p'
    \<and> t = ToLower t' \<and> p = ToLower p'"
    unfolding ParseTraceparent_def sp list.case by (blast dest: two_guards)
  then show "isHex t \<and> length t = 32 \<and> \<not> allZero t \<and> ToLower t = t"
    "isHex p \<and> length p = 16 \<and> \<not> allZero p \<and> ToLower p = p"
    by (simp_all add: ToLower_idem allZero_ToLower)
qed

lemma of_hex_digit: "n < 16 \<Longrightarrow> (of_char (hex_digit n) :: nat) = (if n < 10 then 48 + n else 87 + n)"
  by (simp add: hex_digit_def)

lemma hex_digit_lower: "n < 16 \<Longrightarrow> lower_char (hex_digit n) = hex_digit n"
  by (subst of_char_eq_iff [where 'a = nat, symmetric]) (simp add: of_lower_char of_hex_digit)

lemma ToLower_hex_encode [simp]: "ToLower (hex_encode bs) = hex_encode bs"
  by (induction bs) (auto simp: hex_encode_def ToLower_def hex_digit_lower)

lemma ToLower_take: "ToLower (take n s) = take n (ToLower s)"
  by (simp add: ToLower_def take_map)

lemma spanIDFor_shape:
  "draw_ok d \<Longrightarrow> length (spanIDFor d i) = 16 \<and> isHex (spanIDFor d i) \<and> ToLower (spanIDFor d i) = spanIDFor d i"
proof (cases "length i < 16 \<or> \<not> isHex i")
  case True
  then have "spanIDFor d i = hex_encode (dr_span d)" by (auto simp: spanIDFor_def randomSpanID_def)
  then show "draw_ok d \<Longrightarrow> ?thesis" by (simp add: draw_ok_def)
next
  case False
  then have "spanIDFor d i = ToLower (take 16 i)" "isHex (take 16 i)" "length (take 16 i) = 16"
    by (auto simp: spanIDFor_def isHex_take)
  then show ?thesis by (simp add: ToLower_idem)
qed

lemma NewContext_shape:
  fixes d tp xid
  defines "c \<equiv> NewContext d tp xid"
  assumes d: "draw_ok d"
  shows "length (cx_TraceID c) = 32 \<and> isHex (cx_TraceID c) \<and> ToLower (cx_TraceID c) = cx_TraceID c"
    and "length (cx_SpanID c) = 16 \<and> isHex (cx_SpanID c) \<and> ToLower (cx_SpanID c) = cx_SpanID c"
    and "\<not> allZero (NewID d) \<Longrightarrow> \<not> allZero (cx_TraceID c)"
proof -
  have r: "length (randomSpanID d) = 16 \<and> isHex (randomSpanID d) \<and> ToLower (randomSpanID d) = randomSpanID d"
    using d by (simp add: randomSpanID_def draw_ok_def)
  have n: "length (NewID d) = 32 \<and> isHex (NewID d) \<and> ToLower (NewID d) = NewID d"
    using d by (simp add: NewID_def draw_ok_def)
  show "length (cx_TraceID c) = 32 \<and> isHex (cx_TraceID c) \<and> ToLower (cx_TraceID c) = cx_TraceID c"
    using n ParseTraceparent_ok(1) [of tp]
    by (auto simp: c_def NewContext_def Let_def ToLower_idem split: option.splits)
  show "length (cx_SpanID c) = 16 \<and> isHex (cx_SpanID c) \<and> ToLower (cx_SpanID c) = cx_SpanID c"
    using r spanIDFor_shape [OF d]
    by (auto simp: c_def NewContext_def Let_def split: option.splits)
  show "\<not> allZero (NewID d) \<Longrightarrow> \<not> allZero (cx_TraceID c)"
    using ParseTraceparent_ok(1) [of tp]
    by (auto simp: c_def NewContext_def Let_def allZero_ToLower split: option.splits)
qed

section \<open>Properties\<close>

text \<open>
  A backend joins the trace as a child of the mesh: whatever headers a call came with, the
  traceparent sent on parses, to the trace of the context the mesh opened and to the span of the
  mesh as the parent, unless an identifier is all zeros; and with a valid traceparent that trace
  and the recorded parent are the caller's.
\<close>

theorem Traceparent_roundtrip:
  assumes "draw_ok d" and "\<not> allZero (NewID d)" and "\<not> allZero (cx_SpanID (NewContext d tp xid))"
  shows "ParseTraceparent (Traceparent d' (NewContext d tp xid))
           = Some (cx_TraceID (NewContext d tp xid), cx_SpanID (NewContext d tp xid))
    \<and> (\<forall>t p. ParseTraceparent tp = Some (t, p) \<longrightarrow>
           cx_TraceID (NewContext d tp xid) = t \<and> cx_ParentSpanID (NewContext d tp xid) = p)"
proof -
  let ?c = "NewContext d tp xid"
  note t = NewContext_shape(1) [OF assms(1), of tp xid] and p = NewContext_shape(2) [OF assms(1), of tp xid]
  have "Traceparent d' ?c = ''00-'' @ cx_TraceID ?c @ ''-'' @ cx_SpanID ?c @ ''-01''"
    using p by (simp add: Traceparent_def)
  with ParseTraceparent_render [of "cx_TraceID ?c" "cx_SpanID ?c"] t p assms
    NewContext_shape(3) [OF assms(1,2), of tp xid]
  have "ParseTraceparent (Traceparent d' ?c) = Some (cx_TraceID ?c, cx_SpanID ?c)" by simp
  then show ?thesis by (simp add: NewContext_def)
qed

definition demo_draw :: draw where
  "demo_draw = \<lparr>dr_span = replicate 8 171, dr_trace = replicate 16 205\<rparr>"

lemma demo_draw_id: "NewID demo_draw = concat (replicate 16 ''cd'')"
  by code_simp

lemma NewContext_none: "NewContext demo_draw [] [] =
    \<lparr>cx_TraceID = concat (replicate 16 ''cd''), cx_SpanID = concat (replicate 8 ''cd''), cx_ParentSpanID = []\<rparr>"
  by code_simp

theorem Traceparent_roundtrip_witness:
  "ParseTraceparent (Traceparent demo_draw (NewContext demo_draw [] []))
     = Some (concat (replicate 16 ''cd''), concat (replicate 8 ''cd''))"
proof -
  have "\<not> allZero (NewID demo_draw)" "\<not> allZero (cx_SpanID (NewContext demo_draw [] []))" "draw_ok demo_draw"
    by code_simp+
  with Traceparent_roundtrip [of demo_draw "[]" "[]" demo_draw] show ?thesis
    by (simp add: NewContext_none)
qed

text \<open>
  The comment on \<open>Traceparent\<close> promises that the parent is never an all-zero identifier. It is one
  for an \<open>X-Trace-Id\<close> whose first half is zeros, the usual padding of a 64-bit identifier: the
  span is derived from that half, and the header sent on is invalid.
\<close>

lemma Traceparent_of_padded_id:
  assumes "length h = 16" and "isHex h" and "\<not> allZero h" and "xid = replicate 16 (CHR ''0'') @ h"
  shows "cx_SpanID (NewContext d [] xid) = replicate 16 (CHR ''0'')
    \<and> ParseTraceparent (Traceparent d' (NewContext d [] xid)) = None"
proof -
  have z: "isHex (replicate n (CHR ''0''))" "ToLower (replicate n (CHR ''0'')) = replicate n (CHR ''0'')"
    "allZero (replicate n (CHR ''0''))" for n
    by (induction n) (auto simp: isHex_def hex_char_def ToLower_def lower_char_def allZero_def)
  have x: "length xid = 32" "isHex xid" "\<not> allZero xid"
    using assms z by (simp_all add: allZero_def dropWhile_append)
  have none: "ParseTraceparent [] = None" by (simp add: ParseTraceparent_def TrimSpace_def)
  have span: "cx_SpanID (NewContext d [] xid) = replicate 16 (CHR ''0'')"
    using x assms(1,4) z(2) [of 16] by (simp add: NewContext_def none spanIDFor_def ToLower_take [symmetric] ToLower_idem isHex_take)
  have t: "cx_TraceID (NewContext d [] xid) = ToLower xid" using x by (simp add: NewContext_def none Let_def)
  have "Traceparent d' (NewContext d [] xid) = ''00-'' @ ToLower xid @ ''-'' @ replicate 16 (CHR ''0'') @ ''-01''"
    using z(1) by (simp add: Traceparent_def span t)
  moreover have "ParseTraceparent (''00-'' @ ToLower xid @ ''-'' @ replicate 16 (CHR ''0'') @ ''-01'') = None"
    using x z by (subst ParseTraceparent_render) (simp_all add: allZero_ToLower)
  ultimately show ?thesis using span by simp
qed

end
