(* ===== verification/Integrity.thy ===== *)
theory Integrity
  imports Trace_Context "HOL-Library.Word"
begin

text \<open>
  The hash chain over the trace file (\<open>trace/integrity.go\<close>). A file is the list of its lines; the
  two hash functions are arguments. The decoder of the envelope is modelled on the text that
  \<open>sealLine\<close> writes and is an argument, \<open>other\<close>, on any other text.
\<close>

section \<open>Envelopes\<close>

definition AlgSHA256 :: string where
  "AlgSHA256 = ''sha256''"

definition AlgHMACSHA256 :: string where
  "AlgHMACSHA256 = ''hmac-sha256''"

abbreviation dq :: string where
  "dq \<equiv> [CHR 0x22]"

definition json_key :: "string \<Rightarrow> string" where
  "json_key k = dq @ k @ dq @ '':''"

definition envelopeMarker :: string where
  "envelopeMarker = '','' @ json_key ''seq''"

record envelope =
  ev_Seq :: "64 word"
  ev_Alg :: string
  ev_PrevHash :: string
  ev_Hash :: string

definition no_envelope :: envelope where
  "no_envelope = \<lparr>ev_Seq = 0, ev_Alg = [], ev_PrevHash = [], ev_Hash = []\<rparr>"

record hash_rt =
  hs_sha :: "string \<Rightarrow> nat list"
  hs_hmac :: "string \<Rightarrow> string \<Rightarrow> nat list"

definition chain_text :: "string \<Rightarrow> 64 word \<Rightarrow> string \<Rightarrow> string \<Rightarrow> string" where
  "chain_text alg sq prev payload = (Itoa (uint sq) @ nl @ alg @ nl @ prev @ nl) @ payload"

definition chainHash ::
  "hash_rt \<Rightarrow> string option \<Rightarrow> string \<Rightarrow> 64 word \<Rightarrow> string \<Rightarrow> string \<Rightarrow> string" where
  "chainHash hs key alg sq prev payload =
     (let t = chain_text alg sq prev payload in
      hex_encode (if alg = AlgHMACSHA256 then hs_hmac hs (case key of None \<Rightarrow> [] | Some k \<Rightarrow> k) t
                  else hs_sha hs t))"

definition sealLine :: "string \<Rightarrow> envelope \<Rightarrow> string" where
  "sealLine payload env =
     take (length payload - 1) payload
     @ envelopeMarker @ Itoa (uint (ev_Seq env))
     @ '','' @ json_key ''alg'' @ Quote (ev_Alg env)
     @ '','' @ json_key ''prev_hash'' @ Quote (ev_PrevHash env)
     @ '','' @ json_key ''hash'' @ Quote (ev_Hash env) @ ''}''"

fun LastIndex :: "string \<Rightarrow> string \<Rightarrow> nat option" where
  "LastIndex [] sub = (if sub = [] then Some 0 else None)"
| "LastIndex (c # s) sub =
     (case LastIndex s sub of
        Some i \<Rightarrow> Some (Suc i)
      | None \<Rightarrow> if prefix sub (c # s) then Some 0 else None)"

text \<open>
  \<open>json.Unmarshal\<close> on the text of an envelope as \<open>sealLine\<close> writes it, with plain strings: letters,
  digits and dashes, which need no escape.
\<close>

definition unescaped_char :: "char \<Rightarrow> bool" where
  "unescaped_char c = (hex_char c \<or> CHR ''a'' \<le> c \<and> c \<le> CHR ''z'' \<or> c = CHR ''-'')"

definition unescaped :: "string \<Rightarrow> bool" where
  "unescaped s = list_all unescaped_char s"

definition strip :: "string \<Rightarrow> string \<Rightarrow> string \<Rightarrow> string option" where
  "strip p s w =
     (if prefix p w \<and> HasSuffix (drop (length p) w) s
      then Some (take (length w - length p - length s) (drop (length p) w)) else None)"

definition parse_envelope :: "string \<Rightarrow> envelope option" where
  "parse_envelope t =
     (case Split (CHR '','') t of
        [a, b, c, d] \<Rightarrow>
          (case (strip (''{'' @ json_key ''seq'') [] a, strip (json_key ''alg'' @ dq) dq b,
                 strip (json_key ''prev_hash'' @ dq) dq c, strip (json_key ''hash'' @ dq) (dq @ ''}'') d) of
             (Some n, Some alg, Some prev, Some h) \<Rightarrow>
               (let i = int_of_digits n in
                if n = Itoa i \<and> 0 \<le> i \<and> i < 2 ^ 64 \<and> unescaped alg \<and> unescaped prev \<and> unescaped h
                then Some \<lparr>ev_Seq = word_of_int i, ev_Alg = alg, ev_PrevHash = prev, ev_Hash = h\<rparr>
                else None)
           | _ \<Rightarrow> None)
      | _ \<Rightarrow> None)"

definition Unmarshal_envelope :: "(string \<Rightarrow> envelope option) \<Rightarrow> string \<Rightarrow> envelope option" where
  "Unmarshal_envelope other t =
     (case parse_envelope t of Some e \<Rightarrow> Some e | None \<Rightarrow> other t)"

text \<open>\<open>None\<close> is a line without an envelope.\<close>

definition splitLine :: "(string \<Rightarrow> envelope option) \<Rightarrow> string \<Rightarrow> (string \<times> envelope) option" where
  "splitLine other line =
     (case LastIndex line envelopeMarker of
        None \<Rightarrow> None
      | Some i \<Rightarrow>
          (case Unmarshal_envelope other (''{'' @ drop (i + 1) line) of
             None \<Rightarrow> None
           | Some env \<Rightarrow> if ev_Hash env = [] then None else Some (take i line @ ''}'', env)))"

section \<open>Verification\<close>

record chain_break =
  bk_File :: string
  bk_Line :: nat
  bk_Seq :: "64 word"
  bk_Reason :: string

record report =
  rp_Lines :: nat
  rp_Unchained :: nat
  rp_Chained :: nat
  rp_FirstSeq :: "64 word"
  rp_LastSeq :: "64 word"
  rp_Anchor :: string
  rp_Head :: string
  rp_Alg :: string
  rp_Break :: "chain_break option"

definition empty_report :: report where
  "empty_report = \<lparr>rp_Lines = 0, rp_Unchained = 0, rp_Chained = 0, rp_FirstSeq = 0, rp_LastSeq = 0,
     rp_Anchor = [], rp_Head = [], rp_Alg = [], rp_Break = None\<rparr>"

record verifier =
  vf_report :: report
  vf_prev :: string
  vf_started :: bool

definition start_verifier :: verifier where
  "start_verifier = \<lparr>vf_report = empty_report, vf_prev = [], vf_started = False\<rparr>"

definition alg_reason :: "string option \<Rightarrow> string \<Rightarrow> string option" where
  "alg_reason key alg =
     (if key \<noteq> None \<and> alg \<noteq> AlgHMACSHA256 then Some (''alg '' @ alg @ '' where hmac-sha256 is required'')
      else if key = None \<and> alg = AlgHMACSHA256
      then Some ''hmac-sha256 line and no key to check it (set MESH_TRACE_KEY)''
      else if alg \<noteq> AlgHMACSHA256 \<and> alg \<noteq> AlgSHA256 then Some (''unknown alg '' @ alg)
      else None)"

definition link_reason :: "verifier \<Rightarrow> envelope \<Rightarrow> string option" where
  "link_reason v env =
     (if vf_started v \<and> ev_Seq env \<noteq> rp_LastSeq (vf_report v) + 1
      then Some (''seq '' @ Itoa (uint (ev_Seq env)) @ '' follows '' @ Itoa (uint (rp_LastSeq (vf_report v))))
      else if vf_started v \<and> ev_PrevHash env \<noteq> vf_prev v
      then Some ''prev_hash does not match the previous line''
      else None)"

definition break_at :: "string \<Rightarrow> nat \<Rightarrow> 64 word \<Rightarrow> string \<Rightarrow> verifier \<Rightarrow> verifier" where
  "break_at file n sq reason v =
     v\<lparr>vf_report := (vf_report v)\<lparr>rp_Break :=
         Some \<lparr>bk_File = file, bk_Line = n, bk_Seq = sq, bk_Reason = reason\<rparr>\<rparr>\<rparr>"

definition accept_line :: "envelope \<Rightarrow> verifier \<Rightarrow> verifier" where
  "accept_line env v =
     (let r = vf_report v;
          r1 = (if vf_started v then r else r\<lparr>rp_FirstSeq := ev_Seq env, rp_Anchor := ev_PrevHash env\<rparr>) in
      \<lparr>vf_report = r1\<lparr>rp_Chained := rp_Chained r1 + 1, rp_LastSeq := ev_Seq env,
                     rp_Head := ev_Hash env, rp_Alg := ev_Alg env\<rparr>,
       vf_prev = ev_Hash env, vf_started = True\<rparr>)"

definition verify_line ::
  "hash_rt \<Rightarrow> (string \<Rightarrow> envelope option) \<Rightarrow> string option \<Rightarrow> string \<Rightarrow> nat \<Rightarrow> string \<Rightarrow> verifier \<Rightarrow> verifier" where
  "verify_line hs other key file n line v0 =
     (let v = v0\<lparr>vf_report := (vf_report v0)\<lparr>rp_Lines := rp_Lines (vf_report v0) + 1\<rparr>\<rparr> in
      case splitLine other line of
        None \<Rightarrow>
          if vf_started v then break_at file n 0 ''unchained line inside the chain'' v
          else v\<lparr>vf_report := (vf_report v)\<lparr>rp_Unchained := rp_Unchained (vf_report v) + 1\<rparr>\<rparr>
      | Some (payload, env) \<Rightarrow>
          (case alg_reason key (ev_Alg env) of
             Some reason \<Rightarrow> break_at file n (ev_Seq env) reason v
           | None \<Rightarrow>
               (case link_reason v env of
                  Some reason \<Rightarrow> break_at file n (ev_Seq env) reason v
                | None \<Rightarrow>
                    if chainHash hs key (ev_Alg env) (ev_Seq env) (ev_PrevHash env) payload \<noteq> ev_Hash env
                    then break_at file n (ev_Seq env) ''hash does not match the content'' v
                    else accept_line env v)))"

text \<open>
  The flag is false when the scanner fails: \<open>bufio.Scanner\<close> takes no line as long as its buffer,
  here 16 MiB.
\<close>

definition verify_buffer :: nat where
  "verify_buffer = 16 * 1024 * 1024"

fun verifyReader ::
  "hash_rt \<Rightarrow> (string \<Rightarrow> envelope option) \<Rightarrow> string option \<Rightarrow> string \<Rightarrow> nat \<Rightarrow> string list \<Rightarrow> verifier
   \<Rightarrow> bool \<times> verifier" where
  "verifyReader hs other key file n [] v = (True, v)"
| "verifyReader hs other key file n (line # lines) v =
     (if verify_buffer \<le> length line then (False, v)
      else if line = [] then verifyReader hs other key file (n + 1) lines v
      else
        (let v1 = verify_line hs other key file (n + 1) line v in
         if rp_Break (vf_report v1) \<noteq> None then (True, v1)
         else verifyReader hs other key file (n + 1) lines v1))"

text \<open>A file that cannot be opened is \<open>None\<close>.\<close>

fun verify_files ::
  "hash_rt \<Rightarrow> (string \<Rightarrow> envelope option) \<Rightarrow> string option \<Rightarrow> (string \<times> string list option) list
   \<Rightarrow> verifier \<Rightarrow> bool \<times> verifier" where
  "verify_files hs other key [] v = (True, v)"
| "verify_files hs other key ((p, None) # fs) v = (False, v)"
| "verify_files hs other key ((p, Some lines) # fs) v =
     (case verifyReader hs other key p 0 lines v of
        (ok, v1) \<Rightarrow>
          if \<not> ok then (False, v1)
          else if rp_Break (vf_report v1) \<noteq> None then (True, v1)
          else verify_files hs other key fs v1)"

definition Verify ::
  "hash_rt \<Rightarrow> (string \<Rightarrow> envelope option) \<Rightarrow> (string \<times> string list option) list \<Rightarrow> string option
   \<Rightarrow> bool \<times> report" where
  "Verify hs other files key =
     (case verify_files hs other key files start_verifier of (ok, v) \<Rightarrow> (ok, vf_report v))"

text \<open>A line as long as the buffer ends the scan.\<close>

definition lastEnvelope :: "(string \<Rightarrow> envelope option) \<Rightarrow> string list option \<Rightarrow> envelope option" where
  "lastEnvelope other file =
     (case file of
        None \<Rightarrow> None
      | Some lines \<Rightarrow>
          fold (\<lambda>line found. case splitLine other line of Some (_, env) \<Rightarrow> Some env | None \<Rightarrow> found)
            (takeWhile (\<lambda>line. length line < verify_buffer) lines) None)"

section \<open>Sealing and splitting\<close>

lemma digits_aux_ok:
  "n < fuel \<Longrightarrow> number_val (digits_aux fuel n) = int n \<and> list_all is_digit (digits_aux fuel n)"
proof (induction fuel arbitrary: n)
  case (Suc fuel)
  have d: "digit_val (char_of (48 + m)) = int m \<and> is_digit (char_of (48 + m))" if "m < 10" for m :: nat
    using that by (simp add: digit_val_def is_digit_def less_eq_char_def)
  show ?case
  proof (cases "n < 10")
    case True
    with d [of n] show ?thesis by (simp add: number_val_def)
  next
    case False
    with Suc.prems have "n div 10 < fuel" by simp
    from Suc.IH [OF this] d [of "n mod 10"] False show ?thesis
      by (simp add: number_val_def) presburger
  qed
qed simp

lemma Itoa_ok: "0 \<le> i \<Longrightarrow> int_of_digits (Itoa i) = i \<and> list_all is_digit (Itoa i)"
  using digits_aux_ok [of "nat i" "Suc (nat i)"] by (simp add: Itoa_def int_of_digits_def)

lemma Itoa_uint [simp]: "int_of_digits (Itoa (uint w)) = uint w"
  using Itoa_ok [of "uint w"] by simp

lemma Itoa_no_char: "\<not> is_digit c \<Longrightarrow> c \<notin> set (Itoa (uint w))"
  using Itoa_ok [of "uint w"] by (auto simp: list_all_iff)

lemma unescaped_char_nat:
  "unescaped_char c \<Longrightarrow> (of_char c :: nat) \<ge> 45 \<and> (of_char c :: nat) \<le> 122 \<and> (of_char c :: nat) \<noteq> 92"
  by (auto simp: unescaped_char_def hex_char_nat less_eq_char_def)

lemma quote_unescaped_char: "unescaped_char c \<Longrightarrow> quote_char c = [c]"
  using unescaped_char_nat [of c] by (auto simp: quote_char_def Let_def)

lemma Quote_plain: "unescaped s \<Longrightarrow> Quote s = dq @ s @ dq"
  by (induction s) (auto simp: Quote_def unescaped_def quote_unescaped_char)

lemma unescaped_no_comma: "unescaped s \<Longrightarrow> CHR '','' \<notin> set s"
  using unescaped_char_nat [of "CHR '',''"] by (auto simp: unescaped_def list_all_iff)

lemma unescaped_no_nl: "unescaped s \<Longrightarrow> CHR 0x0A \<notin> set s"
  using unescaped_char_nat [of "CHR 0x0A"] by (auto simp: unescaped_def list_all_iff)

lemma unescaped_hex: "isHex s \<Longrightarrow> unescaped s"
  by (auto simp: unescaped_def isHex_def unescaped_char_def list_all_iff)

lemma strip_app [simp]: "strip p s (p @ x @ s) = Some x"
  by (simp add: strip_def)

lemma strip_app_Nil [simp]: "strip p [] (p @ x) = Some x"
  using strip_app [of p "[]" x] by simp

definition env_plain :: "envelope \<Rightarrow> bool" where
  "env_plain env = (unescaped (ev_Alg env) \<and> unescaped (ev_PrevHash env) \<and> unescaped (ev_Hash env) \<and> ev_Hash env \<noteq> [])"

definition env_tail :: "envelope \<Rightarrow> string list" where
  "env_tail env =
     [json_key ''alg'' @ dq @ ev_Alg env @ dq, json_key ''prev_hash'' @ dq @ ev_PrevHash env @ dq,
      json_key ''hash'' @ dq @ ev_Hash env @ dq @ ''}'']"

definition env_text :: "envelope \<Rightarrow> string" where
  "env_text env = json_key ''seq'' @ Itoa (uint (ev_Seq env)) @ concat (map (\<lambda>w. '','' @ w) (env_tail env))"

lemma json_key_no_comma: "CHR '','' \<notin> set k \<Longrightarrow> CHR '','' \<notin> set (json_key k)"
  by (simp add: json_key_def)

lemma env_tail_no_comma: "env_plain env \<Longrightarrow> w \<in> set (env_tail env) \<Longrightarrow> CHR '','' \<notin> set w"
  by (auto simp: env_tail_def env_plain_def json_key_def dest: unescaped_no_comma)

lemma Itoa_no_comma: "CHR '','' \<notin> set (Itoa (uint w))"
  by (rule Itoa_no_char) (simp add: is_digit_def)

lemma Split_four:
  "c \<notin> set v \<Longrightarrow> c \<notin> set w \<Longrightarrow> c \<notin> set x \<Longrightarrow> c \<notin> set y
     \<Longrightarrow> Split c (v @ c # w @ c # x @ c # y) = [v, w, x, y]"
  by (simp add: Split_append Split_last)

lemma Split_env_text:
  assumes "env_plain env" and "CHR '','' \<notin> set p"
  shows "Split (CHR '','') (p @ env_text env) = (p @ json_key ''seq'' @ Itoa (uint (ev_Seq env))) # env_tail env"
proof -
  have "CHR '','' \<notin> set (p @ json_key ''seq'' @ Itoa (uint (ev_Seq env)))"
    using assms(2) Itoa_no_comma by (simp add: json_key_def)
  moreover have "CHR '','' \<notin> set (json_key ''alg'' @ dq @ ev_Alg env @ dq)"
    "CHR '','' \<notin> set (json_key ''prev_hash'' @ dq @ ev_PrevHash env @ dq)"
    "CHR '','' \<notin> set (json_key ''hash'' @ dq @ ev_Hash env @ dq @ ''}'')"
    using assms(1) unescaped_no_comma by (auto simp: json_key_def env_plain_def)
  ultimately have "Split (CHR '','') ((p @ json_key ''seq'' @ Itoa (uint (ev_Seq env))) @ CHR '','' #
      (json_key ''alg'' @ dq @ ev_Alg env @ dq) @ CHR '','' #
      (json_key ''prev_hash'' @ dq @ ev_PrevHash env @ dq) @ CHR '','' #
      (json_key ''hash'' @ dq @ ev_Hash env @ dq @ ''}''))
    = (p @ json_key ''seq'' @ Itoa (uint (ev_Seq env))) # env_tail env"
    unfolding env_tail_def by (rule Split_four)
  then show ?thesis by (simp add: env_text_def env_tail_def)
qed

lemma parse_env_text:
  assumes "env_plain env"
  shows "parse_envelope (''{'' @ env_text env) = Some env"
proof -
  have "uint (ev_Seq env) < 2 ^ 64" using uint_bounded [of "ev_Seq env"] by simp
  with assms strip_app_Nil [of "''{'' @ json_key ''seq''" "Itoa (uint (ev_Seq env))"]
    strip_app [of "json_key ''alg'' @ dq" dq "ev_Alg env"]
    strip_app [of "json_key ''prev_hash'' @ dq" dq "ev_PrevHash env"]
    strip_app [of "json_key ''hash'' @ dq" "dq @ ''}''" "ev_Hash env"]
  show ?thesis
    unfolding parse_envelope_def
    by (subst Split_env_text) (simp_all add: env_tail_def env_plain_def Let_def)
qed

lemma prefix_first_piece:
  "c \<notin> set m \<Longrightarrow> prefix m s \<Longrightarrow> prefix m (hd (Split c s))"
proof (induction s arbitrary: m)
  case (Cons x s)
  show ?case
  proof (cases m)
    case m: (Cons y m')
    with Cons.prems have "y = x" "x \<noteq> c" "c \<notin> set m'" "prefix m' s" by auto
    with Cons.IH [of m'] m show ?thesis by (auto split: list.splits)
  qed simp
qed simp

lemma Contains_pieces:
  "c \<notin> set m \<Longrightarrow> Contains s (c # m) \<Longrightarrow> \<exists>w \<in> set (tl (Split c s)). prefix m w"
proof (induction s)
  case (Cons x s)
  show ?case
  proof (cases "Contains s (c # m)")
    case True
    with Cons obtain w where "w \<in> set (tl (Split c s))" "prefix m w" by blast
    then show ?thesis by (auto split: list.splits dest: list.set_sel(2) [rotated])
  next
    case False
    with Cons.prems have "x = c" "prefix m s" by auto
    with prefix_first_piece [OF Cons.prems(1), of s] show ?thesis
      by (auto intro: bexI [of _ "hd (Split c s)"])
  qed
qed simp

lemma LastIndex_None: "sub \<noteq> [] \<Longrightarrow> LastIndex s sub = None \<longleftrightarrow> \<not> Contains s sub"
  by (induction s) (auto split: option.splits)

lemma LastIndex_append: "LastIndex t sub = Some i \<Longrightarrow> LastIndex (s @ t) sub = Some (length s + i)"
  by (induction s) auto

lemma LastIndex_env_text:
  assumes "env_plain env"
  shows "LastIndex (u @ '','' @ env_text env) envelopeMarker = Some (length u)"
proof -
  have "\<not> Contains (env_text env) envelopeMarker"
  proof
    assume "Contains (env_text env) envelopeMarker"
    then have "\<exists>w \<in> set (tl (Split (CHR '','') (env_text env))). prefix (json_key ''seq'') w"
      unfolding envelopeMarker_def by (intro Contains_pieces) (simp_all add: json_key_def)
    then have "\<exists>w \<in> set (env_tail env). prefix (json_key ''seq'') w"
      using Split_env_text [OF assms, of "[]"] by simp
    then show False by (auto simp: env_tail_def json_key_def)
  qed
  then have "LastIndex (env_text env) envelopeMarker = None"
    by (subst LastIndex_None) (simp_all add: envelopeMarker_def)
  moreover have "prefix envelopeMarker ('','' @ env_text env)"
    by (simp add: envelopeMarker_def env_text_def)
  ultimately have "LastIndex ('','' @ env_text env) envelopeMarker = Some 0" by simp
  from LastIndex_append [OF this, of u] show ?thesis by simp
qed

lemma sealLine_text:
  "env_plain env \<Longrightarrow> sealLine (u @ ''}'') env = u @ '','' @ env_text env"
  by (simp add: sealLine_def env_text_def env_tail_def env_plain_def Quote_plain envelopeMarker_def)

lemma splitLine_sealLine':
  assumes "env_plain env"
  shows "splitLine other (sealLine (u @ ''}'') env) = Some (u @ ''}'', env)"
  using assms parse_env_text [OF assms]
  by (simp add: splitLine_def sealLine_text LastIndex_env_text [simplified] Unmarshal_envelope_def env_plain_def)

text \<open>
  Sealing and splitting are inverse on every line: whatever the payload holds, an envelope
  marker among its values included, the line that \<open>sealLine\<close> writes gives back the payload's exact
  bytes and the envelope, for envelopes of the kind the store writes.
\<close>

theorem splitLine_sealLine:
  assumes "env_plain env"
  shows "splitLine other (sealLine (u @ ''}'') env) = Some (u @ ''}'', env)"
  using assms by (rule splitLine_sealLine')

definition demo_envelope :: envelope where
  "demo_envelope = \<lparr>ev_Seq = 42, ev_Alg = AlgSHA256, ev_PrevHash = ''ab'', ev_Hash = ''cd''\<rparr>"

lemma demo_envelope_plain: "env_plain demo_envelope"
  by (simp add: env_plain_def demo_envelope_def AlgSHA256_def unescaped_def unescaped_char_def hex_char_def)

theorem splitLine_sealLine_witness:
  "splitLine (\<lambda>_. None) (sealLine (''{'' @ dq @ ''a'' @ dq @ '':1'' @ envelopeMarker @ ''2}'') demo_envelope)
     = Some (''{'' @ dq @ ''a'' @ dq @ '':1'' @ envelopeMarker @ ''2}'', demo_envelope)"
  using splitLine_sealLine [OF demo_envelope_plain, of "\<lambda>_. None" "''{'' @ dq @ ''a'' @ dq @ '':1'' @ envelopeMarker @ ''2''"]
  by simp

section \<open>What a verified chain is\<close>

type_synonym chained = "string \<times> envelope"

definition chain_lines :: "(string \<Rightarrow> envelope option) \<Rightarrow> string list \<Rightarrow> chained list" where
  "chain_lines other lines = List.map_filter (splitLine other) (filter (\<lambda>l. l \<noteq> []) lines)"

definition chain_of ::
  "(string \<Rightarrow> envelope option) \<Rightarrow> (string \<times> string list option) list \<Rightarrow> chained list" where
  "chain_of other files =
     concat (map (\<lambda>(p, f). case f of None \<Rightarrow> [] | Some lines \<Rightarrow> chain_lines other lines) files)"

definition mac :: "hash_rt \<Rightarrow> string option \<Rightarrow> string \<Rightarrow> string" where
  "mac hs key t = hex_encode (case key of None \<Rightarrow> hs_sha hs t | Some k \<Rightarrow> hs_hmac hs k t)"

definition text_of :: "chained \<Rightarrow> string" where
  "text_of c = (case c of (payload, env) \<Rightarrow> chain_text (ev_Alg env) (ev_Seq env) (ev_PrevHash env) payload)"

fun linked :: "hash_rt \<Rightarrow> string option \<Rightarrow> (64 word \<times> string) option \<Rightarrow> chained list \<Rightarrow> bool" where
  "linked hs key w [] = True"
| "linked hs key w ((payload, env) # c) =
     (alg_reason key (ev_Alg env) = None
      \<and> (case w of None \<Rightarrow> True | Some (sq, prev) \<Rightarrow> ev_Seq env = sq + 1 \<and> ev_PrevHash env = prev)
      \<and> mac hs key (text_of (payload, env)) = ev_Hash env
      \<and> linked hs key (Some (ev_Seq env, ev_Hash env)) c)"

definition chain_end :: "(64 word \<times> string) option \<Rightarrow> chained list \<Rightarrow> (64 word \<times> string) option" where
  "chain_end w c = (if c = [] then w else Some (ev_Seq (snd (last c)), ev_Hash (snd (last c))))"

definition waits_for :: "verifier \<Rightarrow> (64 word \<times> string) option" where
  "waits_for v = (if vf_started v then Some (rp_LastSeq (vf_report v), vf_prev v) else None)"

definition verifier_ok :: "verifier \<Rightarrow> bool" where
  "verifier_ok v = (rp_Break (vf_report v) = None \<and> (vf_started v \<longrightarrow> rp_Head (vf_report v) = vf_prev v))"

lemma chain_end_Nil [simp]: "chain_end w [] = w"
  by (simp add: chain_end_def)

lemma chain_end_Cons [simp]: "chain_end w ((p, e) # c) = chain_end (Some (ev_Seq e, ev_Hash e)) c"
  by (simp add: chain_end_def)

lemma chain_end_append [simp]: "chain_end w (c @ d) = chain_end (chain_end w c) d"
  by (simp add: chain_end_def)

lemma linked_append [simp]:
  "linked hs key w (c @ d) \<longleftrightarrow> linked hs key w c \<and> linked hs key (chain_end w c) d"
proof (induction c arbitrary: w)
  case (Cons x c)
  then show ?case by (cases x) simp
qed simp

lemma alg_reason_None: "alg_reason key alg = None \<longleftrightarrow> alg = (if key = None then AlgSHA256 else AlgHMACSHA256)"
  by (auto simp: alg_reason_def AlgSHA256_def AlgHMACSHA256_def)

lemma chainHash_mac:
  "alg_reason key alg = None \<Longrightarrow> chainHash hs key alg sq prev payload = mac hs key (chain_text alg sq prev payload)"
  by (auto simp: chainHash_def mac_def alg_reason_None AlgSHA256_def AlgHMACSHA256_def Let_def split: option.splits)

lemma chain_lines_simps [simp]:
  "chain_lines other [] = []"
  "chain_lines other ([] # ls) = chain_lines other ls"
  "l \<noteq> [] \<Longrightarrow> chain_lines other (l # ls)
     = (case splitLine other l of None \<Rightarrow> [] | Some x \<Rightarrow> [x]) @ chain_lines other ls"
  by (simp_all add: chain_lines_def map_filter_simps split: option.split)

lemma break_at_break [simp]: "rp_Break (vf_report (break_at file n sq reason v))
    = Some \<lparr>bk_File = file, bk_Line = n, bk_Seq = sq, bk_Reason = reason\<rparr>"
  by (simp add: break_at_def)

text \<open>One accepted line: a link of the chain, or a line from before the chain.\<close>

definition links :: "(string \<Rightarrow> envelope option) \<Rightarrow> string \<Rightarrow> chained list" where
  "links other line = (case splitLine other line of None \<Rightarrow> [] | Some x \<Rightarrow> [x])"

definition advances :: "verifier \<Rightarrow> chained list \<Rightarrow> verifier \<Rightarrow> bool" where
  "advances v c v' =
     (verifier_ok v' \<and> waits_for v' = chain_end (waits_for v) c
      \<and> rp_Chained (vf_report v') = rp_Chained (vf_report v) + length c)"

lemma verify_line_unchained:
  assumes "splitLine other line = None"
  shows "rp_Break (vf_report (verify_line hs other key file n line v)) = None \<longleftrightarrow>
           rp_Break (vf_report v) = None \<and> waits_for v = None"
    and "verifier_ok v \<Longrightarrow> waits_for v = None \<Longrightarrow>
           advances v [] (verify_line hs other key file n line v)"
  using assms by (auto simp: verify_line_def Let_def waits_for_def advances_def verifier_ok_def)

lemma link_reason_None:
  "link_reason v env = None \<longleftrightarrow>
     (case waits_for v of None \<Rightarrow> True | Some (sq, prev) \<Rightarrow> ev_Seq env = sq + 1 \<and> ev_PrevHash env = prev)"
  by (simp add: link_reason_def waits_for_def)

lemma link_reason_Lines [simp]:
  "link_reason (v\<lparr>vf_report := (vf_report v)\<lparr>rp_Lines := k\<rparr>\<rparr>) = link_reason v"
  by (rule ext) (simp add: link_reason_def)

lemma verify_line_chained:
  assumes "splitLine other line = Some x" and "verifier_ok v"
  shows "rp_Break (vf_report (verify_line hs other key file n line v)) = None \<longleftrightarrow>
           linked hs key (waits_for v) [x]" (is ?iff)
    and "linked hs key (waits_for v) [x] \<Longrightarrow> advances v [x] (verify_line hs other key file n line v)"
proof -
  obtain payload env where x: "x = (payload, env)" by fastforce
  let ?v = "v\<lparr>vf_report := (vf_report v)\<lparr>rp_Lines := rp_Lines (vf_report v) + 1\<rparr>\<rparr>"
  have ok: "rp_Break (vf_report v) = None" using assms(2) by (simp add: verifier_ok_def)
  have acc: "rp_Break (vf_report (accept_line env ?v)) = None"
    by (simp add: accept_line_def Let_def ok)
  have adv: "advances v [x] (accept_line env ?v)"
    by (auto simp: accept_line_def Let_def ok x advances_def verifier_ok_def waits_for_def chain_end_def)
  have link: "linked hs key (waits_for v) [x] \<longleftrightarrow> alg_reason key (ev_Alg env) = None
      \<and> link_reason v env = None \<and> mac hs key (text_of x) = ev_Hash env"
    by (auto simp: x link_reason_None)
  show ?iff
    using assms(1) acc unfolding link
    by (auto simp: verify_line_def Let_def x chainHash_mac text_of_def split: option.splits)
  show "linked hs key (waits_for v) [x] \<Longrightarrow> advances v [x] (verify_line hs other key file n line v)"
    using assms(1) adv unfolding link by (auto simp: verify_line_def Let_def x chainHash_mac text_of_def)
qed

text \<open>A file that verifies is a linked chain; the verifier then waits for what follows its end.\<close>

lemma verifyReader_linked:
  "verifyReader hs other key file n lines v = (True, v') \<Longrightarrow> verifier_ok v \<Longrightarrow> rp_Break (vf_report v') = None
   \<Longrightarrow> linked hs key (waits_for v) (chain_lines other lines) \<and> advances v (chain_lines other lines) v'"
proof (induction lines arbitrary: n v)
  case Nil
  then show ?case by (simp add: advances_def)
next
  case (Cons l ls)
  let ?v1 = "verify_line hs other key file (n + 1) l v"
  show ?case
  proof (cases "l = []")
    case True
    with Cons.prems Cons.IH show ?thesis by (simp split: if_splits)
  next
    case False
    with Cons.prems have nobreak: "rp_Break (vf_report ?v1) = None"
      and rest: "verifyReader hs other key file (n + 1) ls ?v1 = (True, v')"
      by (auto simp: Let_def split: if_splits)
    show ?thesis
    proof (cases "splitLine other l")
      case None
      note u = verify_line_unchained [OF None]
      from nobreak u(1) have "waits_for v = None" by blast
      with u(2) [OF Cons.prems(2)] have adv: "advances v [] ?v1" by blast
      then have "verifier_ok ?v1" by (simp add: advances_def)
      from Cons.IH [OF rest this Cons.prems(3)] adv False None show ?thesis by (auto simp: advances_def)
    next
      case (Some y)
      then obtain payload env where Some: "splitLine other l = Some (payload, env)" by (cases y) simp
      let ?x = "(payload, env)"
      note c = verify_line_chained [OF Some Cons.prems(2)]
      from nobreak c(1) have link: "linked hs key (waits_for v) [?x]" by blast
      with c(2) have adv: "advances v [?x] ?v1" by blast
      then have "verifier_ok ?v1" by (simp add: advances_def)
      from Cons.IH [OF rest this Cons.prems(3)] adv link False Some show ?thesis
        by (simp add: advances_def)
    qed
  qed
qed

lemma verifyReader_accepts:
  assumes "linked hs key (waits_for v) (chain_lines other lines)" and "verifier_ok v"
    and "list_all (\<lambda>l. length l < verify_buffer \<and> l \<noteq> [] \<and> splitLine other l \<noteq> None) lines"
  shows "\<exists>v'. verifyReader hs other key file n lines v = (True, v') \<and> advances v (chain_lines other lines) v'"
  using assms
proof (induction lines arbitrary: n v)
  case Nil
  then show ?case by (simp add: advances_def)
next
  case (Cons l ls)
  let ?v1 = "verify_line hs other key file (n + 1) l v"
  from Cons.prems(3) obtain payload env where
    x: "splitLine other l = Some (payload, env)" and l: "length l < verify_buffer" "l \<noteq> []"
    by auto
  let ?x = "(payload, env)"
  from Cons.prems(1) x l have link: "linked hs key (waits_for v) [?x]"
    and rest: "linked hs key (chain_end (waits_for v) [?x]) (chain_lines other ls)"
    by simp_all
  from verify_line_chained(2) [OF x Cons.prems(2) link] have adv: "advances v [?x] ?v1" .
  then have ok: "verifier_ok ?v1" "waits_for ?v1 = chain_end (waits_for v) [?x]" by (simp_all add: advances_def)
  have "\<exists>v'. verifyReader hs other key file (n + 1) ls ?v1 = (True, v') \<and> advances ?v1 (chain_lines other ls) v'"
    by (rule Cons.IH) (use rest ok Cons.prems(3) in simp_all)
  then obtain v' where
    "verifyReader hs other key file (n + 1) ls ?v1 = (True, v')" "advances ?v1 (chain_lines other ls) v'"
    by blast
  with adv ok l x show ?case
    by (auto simp: advances_def verifier_ok_def Let_def)
qed

lemma verify_files_linked:
  "verify_files hs other key files v = (True, v') \<Longrightarrow> verifier_ok v \<Longrightarrow> rp_Break (vf_report v') = None
   \<Longrightarrow> linked hs key (waits_for v) (chain_of other files) \<and> advances v (chain_of other files) v'"
proof (induction files arbitrary: v)
  case Nil
  then show ?case by (simp add: advances_def chain_of_def)
next
  case (Cons f files)
  then obtain p lines where f: "f = (p, Some lines)" by (cases f) (auto split: option.splits elim: verify_files.elims)
  obtain ok v1 where r: "verifyReader hs other key p 0 lines v = (ok, v1)" by fastforce
  with Cons.prems f have ok: "ok" "rp_Break (vf_report v1) = None"
    and rest: "verify_files hs other key files v1 = (True, v')"
    by (auto split: if_splits)
  from verifyReader_linked [OF r [unfolded ok(1) [THEN eqTrueI]] Cons.prems(2) ok(2)]
  have one: "linked hs key (waits_for v) (chain_lines other lines)" "advances v (chain_lines other lines) v1"
    by simp_all
  then have "verifier_ok v1" by (simp add: advances_def)
  from Cons.IH [OF rest this Cons.prems(3)] one f show ?case
    by (simp add: advances_def chain_of_def)
qed

section \<open>What the head of a chain commits to\<close>

definition newline_free :: "(string \<times> string list option) list \<Rightarrow> bool" where
  "newline_free files =
     list_all (\<lambda>(p, f). case f of None \<Rightarrow> True | Some lines \<Rightarrow> list_all (\<lambda>l. CHR 0x0A \<notin> set l) lines) files"

lemma splitLine_payload:
  "splitLine other l = Some (payload, env) \<Longrightarrow> CHR 0x0A \<notin> set l \<Longrightarrow> CHR 0x0A \<notin> set payload"
  by (auto simp: splitLine_def split: option.splits if_splits dest: in_set_takeD)

lemma chain_of_payload:
  "newline_free files \<Longrightarrow> (payload, env) \<in> set (chain_of other files) \<Longrightarrow> CHR 0x0A \<notin> set payload"
  by (fastforce simp: chain_of_def chain_lines_def newline_free_def list_all_iff map_filter_def
      split: option.splits dest: splitLine_payload)

lemma split_at_last:
  "u @ c # v = u' @ c # v' \<Longrightarrow> c \<notin> set v \<Longrightarrow> c \<notin> set v' \<Longrightarrow> u = u' \<and> v = v'"
  by (auto simp: append_eq_append_conv2 Cons_eq_append_conv append_eq_Cons_conv)

lemma split_at_first:
  "u @ c # v = u' @ c # v' \<Longrightarrow> c \<notin> set u \<Longrightarrow> c \<notin> set u' \<Longrightarrow> u = u' \<and> v = v'"
  by (auto simp: append_eq_append_conv2 Cons_eq_append_conv append_eq_Cons_conv)

lemma Itoa_uint_inject: "Itoa (uint (v :: 64 word)) = Itoa (uint w) \<Longrightarrow> v = w"
  by (metis Itoa_uint word_uint_eq_iff)

text \<open>The hashed text determines what it was made of.\<close>

lemma chain_text_inject:
  assumes "chain_text alg sq prev payload = chain_text alg sq' prev' payload'"
    and "CHR 0x0A \<notin> set payload" "CHR 0x0A \<notin> set payload'" "CHR 0x0A \<notin> set alg"
  shows "sq = sq' \<and> prev = prev' \<and> payload = payload'"
proof -
  have n: "CHR 0x0A \<notin> set (Itoa (uint w))" for w :: "64 word"
    by (rule Itoa_no_char) (simp add: is_digit_def)
  from assms(1) have "(Itoa (uint sq) @ nl @ alg @ nl @ prev) @ CHR 0x0A # payload
      = (Itoa (uint sq') @ nl @ alg @ nl @ prev') @ CHR 0x0A # payload'"
    by (simp add: chain_text_def)
  from split_at_last [OF this assms(2,3)]
  have p: "payload = payload'" and
    "Itoa (uint sq) @ CHR 0x0A # (alg @ nl @ prev) = Itoa (uint sq') @ CHR 0x0A # (alg @ nl @ prev')"
    by simp_all
  from split_at_first [OF this(2) n n] p show ?thesis by (auto dest: Itoa_uint_inject)
qed

lemma linked_texts:
  assumes "alg_reason key (ev_Alg e) = None" "alg_reason key (ev_Alg e') = None"
    and "text_of (p, e) = text_of (p', e')" "CHR 0x0A \<notin> set p" "CHR 0x0A \<notin> set p'"
    and "mac hs key (text_of (p, e)) = ev_Hash e" "mac hs key (text_of (p', e')) = ev_Hash e'"
  shows "(p, e) = (p', e')"
proof -
  have alg: "ev_Alg e = ev_Alg e'" "CHR 0x0A \<notin> set (ev_Alg e)"
    using assms(1,2) by (auto simp: alg_reason_None AlgSHA256_def AlgHMACSHA256_def)
  from chain_text_inject [of "ev_Alg e" _ _ p _ _ p'] assms alg
  have "ev_Seq e = ev_Seq e' \<and> ev_PrevHash e = ev_PrevHash e' \<and> p = p'" by (simp add: text_of_def)
  with assms alg show ?thesis by simp
qed

definition collision :: "hash_rt \<Rightarrow> string option \<Rightarrow> chained list \<Rightarrow> chained list \<Rightarrow> bool" where
  "collision hs key c c' =
     list_ex (\<lambda>(x, y). text_of x \<noteq> text_of y \<and> mac hs key (text_of x) = mac hs key (text_of y)) (zip c c')"

lemma linked_binding:
  assumes "length c = length c'"
    and "linked hs key w c" "linked hs key w' c'"
    and "list_all (\<lambda>x. CHR 0x0A \<notin> set (fst x)) c" "list_all (\<lambda>x. CHR 0x0A \<notin> set (fst x)) c'"
    and "c \<noteq> []" "ev_Hash (snd (last c)) = ev_Hash (snd (last c'))"
  shows "c = c' \<or> collision hs key c c'"
  using assms
proof (induction c arbitrary: c' rule: rev_induct)
  case (snoc x xs)
  from snoc.prems(1) obtain y ys where c': "c' = ys @ [y]" by (cases c' rule: rev_cases) simp_all
  note prems = snoc.prems [unfolded c']
  obtain p e p' e' where xy: "x = (p, e)" "y = (p', e')" by fastforce
  from prems(1,2,3) have len: "length xs = length ys"
    and lx: "linked hs key w xs" "linked hs key (chain_end w xs) [x]"
    and ly: "linked hs key w' ys" "linked hs key (chain_end w' ys) [y]" by simp_all
  from lx(2) ly(2) have m: "mac hs key (text_of x) = mac hs key (text_of y)"
    using prems(7) xy by simp
  show ?case
  proof (cases "text_of x = text_of y")
    case False
    with m len show ?thesis by (simp add: collision_def c')
  next
    case True
    with lx(2) ly(2) prems(4,5) have eq: "x = y" unfolding xy
      by (intro linked_texts [of key e e' p p' hs]) simp_all
    show ?thesis
    proof (cases "xs = []")
      case True
      with len eq show ?thesis by (simp add: c')
    next
      case False
      with len have "ys \<noteq> []" by auto
      with lx(2) ly(2) False eq xy have "ev_Hash (snd (last xs)) = ev_Hash (snd (last ys))"
        by (simp add: chain_end_def)
      with snoc.IH [OF len lx(1) ly(1)] prems(4,5) False eq show ?thesis
        by (auto simp: collision_def len c')
    qed
  qed
qed simp

section \<open>Lines that were sealed\<close>

definition seal_all :: "chained list \<Rightarrow> string list" where
  "seal_all c = map (\<lambda>(p, e). sealLine p e) c"

definition sealable :: "chained \<Rightarrow> bool" where
  "sealable x = (case x of (p, e) \<Rightarrow> p \<noteq> [] \<and> last p = CHR ''}'' \<and> env_plain e)"

lemma splitLine_sealable:
  assumes "sealable (p, e)"
  shows "splitLine other (sealLine p e) = Some (p, e)"
proof -
  from assms have "p = butlast p @ ''}''" "env_plain e"
    by (simp_all add: sealable_def) (metis append_butlast_last_id)
  with splitLine_sealLine' [of e other "butlast p"] show ?thesis by simp
qed

lemma sealLine_not_Nil [simp]: "sealLine p e \<noteq> []"
  by (simp add: sealLine_def envelopeMarker_def)

lemma chain_lines_seal_all: "list_all sealable c \<Longrightarrow> chain_lines other (seal_all c) = c"
  by (induction c) (auto simp: seal_all_def splitLine_sealable)

definition sealed_file :: "(string \<Rightarrow> envelope option) \<Rightarrow> string \<times> string list option \<Rightarrow> bool" where
  "sealed_file other pf =
     (case pf of
        (p, None) \<Rightarrow> False
      | (p, Some lines) \<Rightarrow> list_all (\<lambda>l. length l < verify_buffer \<and> l \<noteq> [] \<and> splitLine other l \<noteq> None) lines)"

lemma sealed_file_seal_all:
  "list_all sealable c \<Longrightarrow> list_all (\<lambda>l. length l < verify_buffer) (seal_all c)
   \<Longrightarrow> sealed_file other (p, Some (seal_all c))"
  by (fastforce simp: sealed_file_def list_all_iff seal_all_def splitLine_sealable)

lemma verify_files_accepts:
  "linked hs key (waits_for v) (chain_of other files) \<Longrightarrow> verifier_ok v \<Longrightarrow> list_all (sealed_file other) files
   \<Longrightarrow> \<exists>v'. verify_files hs other key files v = (True, v') \<and> advances v (chain_of other files) v'"
proof (induction files arbitrary: v)
  case Nil
  then show ?case by (simp add: advances_def chain_of_def)
next
  case (Cons f fs)
  then obtain p lines where f: "f = (p, Some lines)"
    and ok: "list_all (\<lambda>l. length l < verify_buffer \<and> l \<noteq> [] \<and> splitLine other l \<noteq> None) lines"
    by (auto simp: sealed_file_def split: option.splits)
  have c: "chain_of other (f # fs) = chain_lines other lines @ chain_of other fs"
    by (simp add: chain_of_def f)
  with Cons.prems(1) have l: "linked hs key (waits_for v) (chain_lines other lines)"
    "linked hs key (chain_end (waits_for v) (chain_lines other lines)) (chain_of other fs)" by simp_all
  from verifyReader_accepts [OF l(1) Cons.prems(2) ok] obtain v1 where
    v1: "verifyReader hs other key p 0 lines v = (True, v1)" "advances v (chain_lines other lines) v1" by blast
  then have ok1: "verifier_ok v1" "waits_for v1 = chain_end (waits_for v) (chain_lines other lines)"
    by (simp_all add: advances_def)
  have "\<exists>v'. verify_files hs other key fs v1 = (True, v') \<and> advances v1 (chain_of other fs) v'"
    by (rule Cons.IH) (use l(2) ok1 Cons.prems(3) in simp_all)
  with v1 ok1 c f show ?case by (auto simp: advances_def verifier_ok_def)
qed

lemma Verify_files_accepts:
  assumes "linked hs key None (chain_of other files)" and "list_all (sealed_file other) files"
  shows "\<exists>r. Verify hs other files key = (True, r) \<and> rp_Break r = None \<and> rp_Chained r = length (chain_of other files)
    \<and> (chain_of other files \<noteq> [] \<longrightarrow> Some (rp_LastSeq r, rp_Head r) = chain_end None (chain_of other files))"
proof -
  have s: "verifier_ok start_verifier" "waits_for start_verifier = None"
    by (simp_all add: verifier_ok_def start_verifier_def empty_report_def waits_for_def)
  from verify_files_accepts [of hs key start_verifier other files] s assms obtain v where
    "verify_files hs other key files start_verifier = (True, v)" "advances start_verifier (chain_of other files) v"
    by auto
  then show ?thesis
    by (auto simp: Verify_def advances_def verifier_ok_def s waits_for_def chain_end_def
        start_verifier_def [THEN arg_cong [where f = vf_report]] empty_report_def split: if_splits)
qed

lemma Verify_sealed:
  assumes "linked hs key None c" and "list_all sealable c"
    and "list_all (\<lambda>l. length l < verify_buffer) (seal_all c)"
  shows "\<exists>r. Verify hs other [(p, Some (seal_all c))] key = (True, r) \<and> rp_Break r = None
    \<and> rp_Chained r = length c \<and> (c \<noteq> [] \<longrightarrow> rp_Head r = ev_Hash (snd (last c)))"
  using Verify_files_accepts [of hs key other "[(p, Some (seal_all c))]"] assms
    sealed_file_seal_all [OF assms(2,3), of other p]
  by (auto simp: chain_of_def chain_lines_seal_all chain_end_def)

section \<open>The property\<close>

text \<open>
  The head of a chain commits to its content: when two sets of files verify under the same key,
  with the same number of chained lines and the same head hash, their chained lines are the same,
  payloads, numbers and hashes, or two lines at the same place are an explicit collision of the
  hash function: two different texts with one digest.
\<close>

theorem head_commits_to_chain:
  assumes "Verify hs other files key = (True, r)" and "rp_Break r = None"
    and "Verify hs other files' key = (True, r')" and "rp_Break r' = None"
    and "newline_free files" and "newline_free files'"
    and "rp_Head r = rp_Head r'" and "rp_Chained r = rp_Chained r'"
  shows "chain_of other files = chain_of other files'
    \<or> collision hs key (chain_of other files) (chain_of other files')"
proof -
  have one: "linked hs key None (chain_of other fs) \<and> rp_Chained rr = length (chain_of other fs)
      \<and> (chain_of other fs \<noteq> [] \<longrightarrow> rp_Head rr = ev_Hash (snd (last (chain_of other fs))))"
    if "Verify hs other fs key = (True, rr)" "rp_Break rr = None" for fs rr
  proof -
    from that(1) obtain v where v: "verify_files hs other key fs start_verifier = (True, v)" "rr = vf_report v"
      by (auto simp: Verify_def split: prod.splits)
    have s: "verifier_ok start_verifier" "waits_for start_verifier = None"
      by (simp_all add: verifier_ok_def start_verifier_def empty_report_def waits_for_def)
    from verify_files_linked [OF v(1) s(1)] that(2) v(2) s(2) show ?thesis
      by (auto simp: advances_def start_verifier_def empty_report_def verifier_ok_def waits_for_def
          chain_end_def split: if_splits)
  qed
  note o = one [OF assms(1,2)] one [OF assms(3,4)]
  have "list_all (\<lambda>x. CHR 0x0A \<notin> set (fst x)) (chain_of other files)"
    "list_all (\<lambda>x. CHR 0x0A \<notin> set (fst x)) (chain_of other files')"
    using chain_of_payload assms(5,6) by (fastforce simp: list_all_iff)+
  with linked_binding [of "chain_of other files" "chain_of other files'" hs key None None] o assms(7,8)
  show ?thesis by (cases "chain_of other files = []") auto
qed

definition demo_hash :: hash_rt where
  "demo_hash = \<lparr>hs_sha = (\<lambda>t. [length t mod 256]), hs_hmac = (\<lambda>k t. [length k mod 256, length t mod 256])\<rparr>"

definition demo_link :: "string \<Rightarrow> chained" where
  "demo_link p =
     (p, \<lparr>ev_Seq = 1, ev_Alg = AlgSHA256, ev_PrevHash = [],
          ev_Hash = mac demo_hash None (chain_text AlgSHA256 1 [] p)\<rparr>)"

lemma demo_link_linked: "linked demo_hash None None [demo_link p]"
  by (simp add: demo_link_def alg_reason_None text_of_def)

lemma demo_link_sealable: "p = u @ ''}'' \<Longrightarrow> sealable (demo_link p)"
  by (auto simp: demo_link_def sealable_def env_plain_def mac_def demo_hash_def AlgSHA256_def
      unescaped_def unescaped_char_def hex_char_def hex_encode_def hex_digit_def less_eq_char_def)

lemma demo_link_line:
  assumes "p = u @ ''}''" and "length u \<le> 2" and "CHR 0x0A \<notin> set u"
  shows "length (sealLine (fst (demo_link p)) (snd (demo_link p))) < 100
    \<and> CHR 0x0A \<notin> set (sealLine (fst (demo_link p)) (snd (demo_link p)))"
proof -
  let ?e = "snd (demo_link p)"
  from demo_link_sealable [OF assms(1)] have e: "env_plain ?e" by (simp add: sealable_def case_prod_beta)
  have "char_of (49 :: nat) = CHR ''1''" by (rule of_char_eq_iff [where 'a = nat, THEN iffD1]) simp
  then have "Itoa (uint (ev_Seq ?e)) = ''1''" "length (ev_Hash ?e) = 2" "length (ev_Alg ?e) = 6" "ev_PrevHash ?e = []"
    by (simp_all add: demo_link_def Itoa_def mac_def demo_hash_def AlgSHA256_def)
  moreover have "fst (demo_link p) = u @ ''}''" by (simp add: demo_link_def assms)
  moreover have "CHR 0x0A \<notin> set (ev_Hash ?e) \<and> CHR 0x0A \<notin> set (ev_Alg ?e)"
    using e unescaped_no_nl by (auto simp: env_plain_def)
  ultimately show ?thesis
    using assms e by (simp add: sealLine_text env_text_def env_tail_def json_key_def)
qed

theorem head_commits_to_chain_witness:
  "collision demo_hash None [demo_link ''{1}''] [demo_link ''{2}'']"
proof -
  let ?f = "\<lambda>p. [(''f'', Some (seal_all [demo_link p]))]"
  have short: "length (sealLine (fst (demo_link p)) (snd (demo_link p))) < verify_buffer \<and>
      CHR 0x0A \<notin> set (sealLine (fst (demo_link p)) (snd (demo_link p)))" if "p = ''{1}'' \<or> p = ''{2}''" for p
    using demo_link_line [of p "butlast p"] that by (auto simp: verify_buffer_def)
  have v: "\<exists>r. Verify demo_hash (\<lambda>_. None) (?f p) None = (True, r) \<and> rp_Break r = None
      \<and> rp_Chained r = 1 \<and> rp_Head r = ev_Hash (snd (demo_link p))" if "p = ''{1}'' \<or> p = ''{2}''" for p
    using Verify_sealed [OF demo_link_linked, of p "\<lambda>_. None" "''f''"] demo_link_sealable [of p] that short [of p]
    by (auto simp: seal_all_def case_prod_beta)
  have chain: "chain_of (\<lambda>_. None) (?f p) = [demo_link p]" if "p = ''{1}'' \<or> p = ''{2}''" for p
    using chain_lines_seal_all [of "[demo_link p]"] demo_link_sealable [of p] that by (auto simp: chain_of_def)
  from v [of "''{1}''"] v [of "''{2}''"] obtain r1 r2 where
    r: "Verify demo_hash (\<lambda>_. None) (?f ''{1}'') None = (True, r1)" "rp_Break r1 = None"
      "Verify demo_hash (\<lambda>_. None) (?f ''{2}'') None = (True, r2)" "rp_Break r2 = None"
    and h: "rp_Head r1 = rp_Head r2" "rp_Chained r1 = rp_Chained r2"
    by (auto simp: demo_link_def mac_def demo_hash_def chain_text_def)
  have n: "newline_free (?f ''{1}'')" "newline_free (?f ''{2}'')"
    using short by (auto simp: newline_free_def seal_all_def case_prod_beta)
  from head_commits_to_chain [OF r n h] show ?thesis
    by (simp add: chain) (simp add: demo_link_def)
qed

end
