(* ===== verification/Traces.thy ===== *)
theory Traces
  imports Integrity
begin

text \<open>
  The trace store (\<open>trace/store.go\<close>): the entries in memory, the append-only file with its hash
  chain, rotation, restart and the queries. The JSON encoding of an entry, the hash functions and
  the answers of the file system are arguments. The OTLP exporter is seen as the list of the
  entries handed to it.
\<close>

section \<open>Entries\<close>

record trace_entry =
  te_TraceID :: string
  te_SessionID :: string
  te_AgentID :: string
  te_UserID :: string
  te_Tool :: string
  te_Params :: params
  te_Policy :: string
  te_PolicyRule :: string
  te_StatusCode :: int
  te_LatencyMs :: int
  te_Error :: string
  te_Timestamp :: time
  te_ExitCode :: "int option"
  te_GrantID :: string
  te_ParentTraceID :: string
  te_SpanID :: string
  te_ParentSpanID :: string
  te_ApprovalID :: string
  te_ApprovalStatus :: string
  te_ApprovedBy :: string
  te_ApprovalMs :: int
  te_SupervisorReasoning :: string
  te_SupervisorConfidence :: flt
  te_EstimatedInputTokens :: int
  te_EstimatedOutputTokens :: int
  te_TokensSource :: string
  te_Revision :: int

definition no_entry :: trace_entry where
  "no_entry =
     \<lparr>te_TraceID = [], te_SessionID = [], te_AgentID = [], te_UserID = [], te_Tool = [], te_Params = None,
      te_Policy = [], te_PolicyRule = [], te_StatusCode = 0, te_LatencyMs = 0, te_Error = [],
      te_Timestamp = zero_time, te_ExitCode = None, te_GrantID = [], te_ParentTraceID = [],
      te_SpanID = [], te_ParentSpanID = [], te_ApprovalID = [], te_ApprovalStatus = [],
      te_ApprovedBy = [], te_ApprovalMs = 0, te_SupervisorReasoning = [],
      te_SupervisorConfidence = Fin 0, te_EstimatedInputTokens = 0, te_EstimatedOutputTokens = 0,
      te_TokensSource = [], te_Revision = 0\<rparr>"

text \<open>
  \<open>tr_fields\<close> is the text of an entry's members, between the braces of its JSON object, or
  \<open>None\<close> when a value cannot be encoded; \<open>tr_Unmarshal\<close> decodes a line.
\<close>

record trace_rt =
  tr_fields :: "trace_entry \<Rightarrow> string option"
  tr_Unmarshal :: "string \<Rightarrow> trace_entry option"
  tr_other :: "string \<Rightarrow> envelope option"
  tr_hash :: hash_rt

definition Marshal_entry :: "trace_rt \<Rightarrow> trace_entry \<Rightarrow> string option" where
  "Marshal_entry rt e = map_option (\<lambda>f. ''{'' @ f @ ''}'') (tr_fields rt e)"

text \<open>The clock, the random identifiers, and whether files can be read, renamed and opened.\<close>

record trace_env =
  tv_now :: time
  tv_draw :: draw
  tv_read_ok :: bool
  tv_rename_ok :: bool
  tv_open_ok :: bool

section \<open>The store and its file\<close>

text \<open>
  The file at the store's path and the rotated one beside it (\<open>None\<close>: no such file), and whether
  the store's handle is open. Writes through a closed handle are lost: the code ignores their errors.
\<close>

record trace_file =
  tf_lines :: "string list option"
  tf_old :: "string list option"
  tf_open :: bool
  tf_size :: int
  tf_max :: int

record trace_store =
  ts_entries :: "trace_entry list"
  ts_maxSize :: int
  ts_file :: "trace_file option"
  ts_OTEL :: "trace_entry list option"
  ts_seq :: "64 word"
  ts_prevHash :: string
  ts_key :: "string option"

definition SetKey :: "string \<Rightarrow> trace_store \<Rightarrow> trace_store" where
  "SetKey key s = s\<lparr>ts_key := (if key = [] then None else Some key)\<rparr>"

definition Head :: "trace_store \<Rightarrow> 64 word \<times> string" where
  "Head s = (ts_seq s, ts_prevHash s)"

definition trace_NewStore :: "int \<Rightarrow> trace_store" where
  "trace_NewStore maxSize =
     \<lparr>ts_entries = [], ts_maxSize = (if maxSize \<le> 0 then 10000 else maxSize), ts_file = None,
      ts_OTEL = None, ts_seq = 0, ts_prevHash = [], ts_key = None\<rparr>"

definition file_bytes :: "string list \<Rightarrow> int" where
  "file_bytes lines = sum_list (map (\<lambda>l. int (length l) + 1) lines)"

definition openFile :: "trace_env \<Rightarrow> trace_file \<Rightarrow> trace_file option" where
  "openFile env f =
     (if tv_open_ok env
      then (let lines = (case tf_lines f of None \<Rightarrow> [] | Some ls \<Rightarrow> ls) in
            Some (f\<lparr>tf_lines := Some lines, tf_open := True, tf_size := file_bytes lines\<rparr>))
      else None)"

definition rotate :: "trace_env \<Rightarrow> trace_file \<Rightarrow> trace_file" where
  "rotate env f =
     (let f1 = f\<lparr>tf_open := False, tf_old := None\<rparr> in
      case tf_lines f1 of
        None \<Rightarrow> f1
      | Some lines \<Rightarrow>
          if \<not> tv_rename_ok env then f1
          else
            (let f2 = f1\<lparr>tf_lines := None, tf_old := Some lines\<rparr> in
             case openFile env f2 of None \<Rightarrow> f2 | Some f3 \<Rightarrow> f3))"

definition write_line :: "string \<Rightarrow> trace_file \<Rightarrow> trace_file" where
  "write_line data f =
     (if tf_open f
      then f\<lparr>tf_lines := map_option (\<lambda>ls. ls @ [data]) (tf_lines f),
             tf_size := tf_size f + int (length data) + 1\<rparr>
      else f\<lparr>tf_size := tf_size f + 1\<rparr>)"

definition next_envelope :: "trace_rt \<Rightarrow> string \<Rightarrow> trace_store \<Rightarrow> envelope" where
  "next_envelope rt payload s =
     (let sq = ts_seq s + 1;
          alg = (if ts_key s \<noteq> None then AlgHMACSHA256 else AlgSHA256) in
      \<lparr>ev_Seq = sq, ev_Alg = alg, ev_PrevHash = ts_prevHash s,
       ev_Hash = chainHash (tr_hash rt) (ts_key s) alg sq (ts_prevHash s) payload\<rparr>)"

definition appendLocked :: "trace_rt \<Rightarrow> trace_env \<Rightarrow> trace_entry \<Rightarrow> trace_store \<Rightarrow> trace_store" where
  "appendLocked rt env e s =
     (case ts_file s of
        None \<Rightarrow> s
      | Some f \<Rightarrow>
          (case Marshal_entry rt e of
             None \<Rightarrow> s
           | Some payload \<Rightarrow>
               (let ev = next_envelope rt payload s;
                    f1 = write_line (sealLine payload ev) f;
                    f2 = (if tf_max f1 > 0 \<and> tf_size f1 \<ge> tf_max f1 then rotate env f1 else f1) in
                s\<lparr>ts_file := Some f2, ts_seq := ev_Seq ev, ts_prevHash := ev_Hash ev\<rparr>)))"

definition latest :: "string \<Rightarrow> trace_entry list \<Rightarrow> trace_entry option" where
  "latest i es = find (\<lambda>e. te_TraceID e = i) (rev es)"

definition keep_last :: "int \<Rightarrow> 'a list \<Rightarrow> 'a list" where
  "keep_last n xs = (if int (length xs) > n then drop (length xs - nat n) xs else xs)"

text \<open>What \<open>Record\<close> fills in: identifier, time, and the span of the parent trace.\<close>

definition completed :: "trace_env \<Rightarrow> trace_store \<Rightarrow> trace_entry \<Rightarrow> trace_entry" where
  "completed env s e0 =
     (let e1 = (if te_TraceID e0 = [] then e0\<lparr>te_TraceID := NewID (tv_draw env)\<rparr> else e0);
          e2 = (if te_Timestamp e1 = zero_time then e1\<lparr>te_Timestamp := tv_now env\<rparr> else e1) in
      if te_ParentTraceID e2 \<noteq> [] \<and> te_ParentSpanID e2 = []
      then (case latest (te_ParentTraceID e2) (ts_entries s) of
              None \<Rightarrow> e2
            | Some p \<Rightarrow> e2\<lparr>te_ParentSpanID := te_SpanID p\<rparr>)
      else e2)"

definition Record :: "trace_rt \<Rightarrow> trace_env \<Rightarrow> trace_entry \<Rightarrow> trace_store \<Rightarrow> trace_store" where
  "Record rt env e0 s =
     (let e = completed env s e0 in
      appendLocked rt env e
        (s\<lparr>ts_entries := keep_last (ts_maxSize s) (ts_entries s @ [e]),
           ts_OTEL := map_option (\<lambda>xs. xs @ [e]) (ts_OTEL s)\<rparr>))"

text \<open>The latest entry of the trace is changed in place.\<close>

fun update_first :: "string \<Rightarrow> (trace_entry \<Rightarrow> trace_entry) \<Rightarrow> trace_entry list
    \<Rightarrow> (trace_entry \<times> trace_entry list) option" where
  "update_first i fn [] = None"
| "update_first i fn (e # es) =
     (if te_TraceID e = i
      then (let e' = fn e; e'' = e'\<lparr>te_Revision := te_Revision e' + 1\<rparr> in Some (e'', e'' # es))
      else map_option (\<lambda>(x, xs). (x, e # xs)) (update_first i fn es))"

definition trace_Update ::
  "trace_rt \<Rightarrow> trace_env \<Rightarrow> string \<Rightarrow> (trace_entry \<Rightarrow> trace_entry) \<Rightarrow> trace_store \<Rightarrow> bool \<times> trace_store" where
  "trace_Update rt env i fn s =
     (case update_first i fn (rev (ts_entries s)) of
        None \<Rightarrow> (False, s)
      | Some (e, es) \<Rightarrow> (True, appendLocked rt env e (s\<lparr>ts_entries := rev es\<rparr>)))"

section \<open>Restart\<close>

text \<open>Scanning stops at a line as long as the buffer, here 1 MiB.\<close>

definition load_buffer :: nat where
  "load_buffer = 1024 * 1024"

definition load_entry ::
  "trace_entry \<Rightarrow> trace_entry list \<times> (string \<times> nat) list \<Rightarrow> trace_entry list \<times> (string \<times> nat) list" where
  "load_entry e = (\<lambda>(es, pos).
     case map_of pos (te_TraceID e) of
       Some i \<Rightarrow>
         if te_Revision e > 0 then (es[i := e], pos)
         else (es @ [e], AList.update (te_TraceID e) (length es) pos)
     | None \<Rightarrow> (es @ [e], AList.update (te_TraceID e) (length es) pos))"

definition load_line ::
  "trace_rt \<Rightarrow> string \<Rightarrow> trace_entry list \<times> (string \<times> nat) list \<Rightarrow> trace_entry list \<times> (string \<times> nat) list" where
  "load_line rt line st =
     (if line = [] then st
      else (case tr_Unmarshal rt line of None \<Rightarrow> st | Some e \<Rightarrow> load_entry e st))"

definition loadFromFile :: "trace_rt \<Rightarrow> string list option \<Rightarrow> trace_store \<Rightarrow> trace_store" where
  "loadFromFile rt file s =
     (case file of
        None \<Rightarrow> s
      | Some lines \<Rightarrow>
          s\<lparr>ts_entries := keep_last (ts_maxSize s)
             (fst (fold (load_line rt) (takeWhile (\<lambda>l. length l < load_buffer) lines) (ts_entries s, [])))\<rparr>)"

text \<open>\<open>None\<close>: the file could not be opened for appending.\<close>

definition NewPersistentStore ::
  "trace_rt \<Rightarrow> trace_env \<Rightarrow> int \<Rightarrow> string list option \<Rightarrow> string list option \<Rightarrow> trace_store option" where
  "NewPersistentStore rt env maxSize cur old =
     (let readable = (\<lambda>f. if tv_read_ok env then f else None);
          s1 = loadFromFile rt (readable cur) (trace_NewStore maxSize);
          s2 = (case lastEnvelope (tr_other rt) (readable cur) of
                  Some ev \<Rightarrow> s1\<lparr>ts_seq := ev_Seq ev, ts_prevHash := ev_Hash ev\<rparr>
                | None \<Rightarrow>
                    (case lastEnvelope (tr_other rt) (readable old) of
                       Some ev \<Rightarrow> s1\<lparr>ts_seq := ev_Seq ev, ts_prevHash := ev_Hash ev\<rparr>
                     | None \<Rightarrow> s1)) in
      map_option (\<lambda>f. s2\<lparr>ts_file := Some f\<rparr>)
        (openFile env \<lparr>tf_lines = cur, tf_old = old, tf_open = False, tf_size = 0,
                       tf_max = 10 * 1024 * 1024\<rparr>))"

definition trace_Close :: "trace_store \<Rightarrow> trace_store" where
  "trace_Close s = s\<lparr>ts_file := map_option (\<lambda>f. f\<lparr>tf_open := False\<rparr>) (ts_file s)\<rparr>"

record chain_status =
  cs_Persistent :: bool
  cs_Files :: "string list"
  cs_HMAC :: bool
  cs_VerifiedAt :: time
  cs_Report :: report

definition VerifyChain :: "trace_rt \<Rightarrow> trace_env \<Rightarrow> string \<Rightarrow> trace_store \<Rightarrow> bool \<times> chain_status" where
  "VerifyChain rt env path s =
     (case ts_file s of
        None \<Rightarrow> (True, \<lparr>cs_Persistent = False, cs_Files = [], cs_HMAC = (ts_key s \<noteq> None),
                      cs_VerifiedAt = tv_now env, cs_Report = empty_report\<rparr>)
      | Some f \<Rightarrow>
          (let files = (case tf_old f of None \<Rightarrow> [] | Some ls \<Rightarrow> [(path @ ''.old'', Some ls)]) @ [(path, tf_lines f)];
               (ok, r) = Verify (tr_hash rt) (tr_other rt) files (ts_key s) in
           (ok, \<lparr>cs_Persistent = True, cs_Files = map fst files, cs_HMAC = (ts_key s \<noteq> None),
                 cs_VerifiedAt = tv_now env, cs_Report = r\<rparr>)))"

section \<open>Queries\<close>

text \<open>The loop over the entries, most recent first.\<close>

fun query_loop ::
  "int \<Rightarrow> (trace_entry \<Rightarrow> bool) \<Rightarrow> trace_entry list \<Rightarrow> trace_entry list \<Rightarrow> trace_entry list" where
  "query_loop limit P [] result = result"
| "query_loop limit P (e # es) result =
     (if int (length result) < limit
      then query_loop limit P es (if P e then result @ [e] else result)
      else result)"

definition Query :: "string \<Rightarrow> string \<Rightarrow> int \<Rightarrow> trace_store \<Rightarrow> trace_entry list" where
  "Query agent tool limit s =
     query_loop (if limit \<le> 0 then 100 else limit)
       (\<lambda>e. \<not> (agent \<noteq> [] \<and> te_AgentID e \<noteq> agent) \<and> \<not> (tool \<noteq> [] \<and> te_Tool e \<noteq> tool))
       (rev (ts_entries s)) []"

definition QueryTrace :: "string \<Rightarrow> trace_store \<Rightarrow> trace_entry list" where
  "QueryTrace i s = (if i = [] then [] else filter (\<lambda>e. te_TraceID e = i) (rev (ts_entries s)))"

definition QueryBySession :: "string \<Rightarrow> int \<Rightarrow> trace_store \<Rightarrow> trace_entry list" where
  "QueryBySession sid limit s =
     query_loop (if limit \<le> 0 then 200 else limit) (\<lambda>e. te_SessionID e = sid) (rev (ts_entries s)) []"

record session_summary =
  ss_SessionID :: string
  ss_AgentID :: string
  ss_EventCount :: int
  ss_FirstSeen :: time
  ss_LastSeen :: time
  ss_Tools :: "string list"

definition new_session :: "trace_entry \<Rightarrow> session_summary" where
  "new_session e = \<lparr>ss_SessionID = te_SessionID e, ss_AgentID = te_AgentID e, ss_EventCount = 0,
     ss_FirstSeen = te_Timestamp e, ss_LastSeen = zero_time, ss_Tools = []\<rparr>"

definition count_event :: "trace_entry \<Rightarrow> session_summary \<Rightarrow> session_summary" where
  "count_event e x =
     x\<lparr>ss_EventCount := ss_EventCount x + 1,
       ss_LastSeen := (if ss_LastSeen x < te_Timestamp e then te_Timestamp e else ss_LastSeen x),
       ss_FirstSeen := (if te_Timestamp e < ss_FirstSeen x then te_Timestamp e else ss_FirstSeen x),
       ss_Tools := List.insert (te_Tool e) (ss_Tools x)\<rparr>"

text \<open>The sessions in order of their first event.\<close>

fun add_event :: "trace_entry \<Rightarrow> session_summary list \<Rightarrow> session_summary list" where
  "add_event e [] = [count_event e (new_session e)]"
| "add_event e (x # xs) =
     (if ss_SessionID x = te_SessionID e then count_event e x # xs else x # add_event e xs)"

definition collect_sessions :: "trace_entry list \<Rightarrow> session_summary list" where
  "collect_sessions es = fold (\<lambda>e xs. if te_SessionID e = [] then xs else add_event e xs) es []"

text \<open>
  The insertion sort, on the reversed sorted prefix: a session moves left past those it was seen
  after.
\<close>

fun sift_left :: "session_summary \<Rightarrow> session_summary list \<Rightarrow> session_summary list" where
  "sift_left x [] = [x]"
| "sift_left x (y # ys) = (if ss_LastSeen y < ss_LastSeen x then y # sift_left x ys else x # y # ys)"

definition QuerySessions :: "int \<Rightarrow> trace_store \<Rightarrow> session_summary list" where
  "QuerySessions limit s =
     take (if limit \<le> 0 then 50 else nat limit) (rev (fold sift_left (collect_sessions (ts_entries s)) []))"

text \<open>The walk to the root of a trace; \<open>fuel\<close> is what is left of the depth.\<close>

fun chain_walk :: "nat \<Rightarrow> trace_entry list \<Rightarrow> string list \<Rightarrow> trace_entry list \<Rightarrow> trace_entry list" where
  "chain_walk 0 es seen chain = chain"
| "chain_walk (Suc fuel) es seen chain =
     (let parentID = te_ParentTraceID (hd chain) in
      if parentID = [] \<or> parentID \<in> set seen then chain
      else (case latest parentID es of
              None \<Rightarrow> chain
            | Some parent \<Rightarrow> chain_walk fuel es (parentID # seen) (parent # chain)))"

definition trace_Chain :: "string \<Rightarrow> int \<Rightarrow> trace_store \<Rightarrow> trace_entry list" where
  "trace_Chain i maxDepth s =
     (case latest i (ts_entries s) of
        None \<Rightarrow> []
      | Some e \<Rightarrow> chain_walk (nat (if maxDepth \<le> 0 then 10 else maxDepth) - 1) (ts_entries s) [i] [e])"

definition trace_Stats :: "trace_store \<Rightarrow> (string \<times> int) list" where
  "trace_Stats s =
     (let es = ts_entries s; n = (\<lambda>P. int (length (filter P es))) in
      [(''total'', int (length es)),
       (''allowed'', n (\<lambda>e. te_Policy e = ''allow'')),
       (''denied'', n (\<lambda>e. te_Policy e = ''deny'')),
       (''human_approval'', n (\<lambda>e. te_Policy e = ''human_approval'')),
       (''errors'', n (\<lambda>e. te_Error e \<noteq> [])),
       (''estimated_input_tokens'', sum_list (map te_EstimatedInputTokens es)),
       (''estimated_output_tokens'', sum_list (map te_EstimatedOutputTokens es))])"

section \<open>The causal chain\<close>

lemma latest_in: "latest i es = Some e \<Longrightarrow> e \<in> set es \<and> te_TraceID e = i"
  by (auto simp: latest_def dest: find_SomeD)

fun parents :: "trace_entry list \<Rightarrow> bool" where
  "parents (e # f # es) = (te_ParentTraceID f = te_TraceID e \<and> parents (f # es))"
| "parents _ = True"

lemma chain_walk_ok:
  assumes "chain \<noteq> []" "set (map te_TraceID chain) = set seen" "distinct (map te_TraceID chain)" "parents chain"
    "set chain \<subseteq> set es"
  shows "(let r = chain_walk fuel es seen chain in r \<noteq> [] \<and> last r = last chain \<and> distinct (map te_TraceID r) \<and> parents r \<and> set r \<subseteq> set es
    \<and> length r \<le> length chain + fuel
    \<and> (length r = length chain + fuel \<or> te_ParentTraceID (hd r) = []
        \<or> te_ParentTraceID (hd r) \<in> te_TraceID ` set r
        \<or> latest (te_ParentTraceID (hd r)) es = None))"
  using assms
proof (induction fuel arbitrary: seen chain)
  case 0
  then show ?case by simp
next
  case (Suc fuel)
  let ?p = "te_ParentTraceID (hd chain)"
  show ?case
  proof (cases "?p = [] \<or> ?p \<in> set seen \<or> latest ?p es = None")
    case True
    then have "chain_walk (Suc fuel) es seen chain = chain" by (auto simp: Let_def)
    with True Suc.prems show ?thesis by (auto simp: Let_def simp del: chain_walk.simps)
  next
    case False
    then obtain q where q: "latest ?p es = Some q" by auto
    from latest_in [OF q] have i: "te_TraceID q = ?p" "q \<in> set es" by simp_all
    have "parents (q # chain)" using Suc.prems(1,4) i by (cases chain) auto
    with False q i Suc.prems Suc.IH [of "q # chain" "?p # seen"] show ?thesis by (auto simp: Let_def)
  qed
qed

text \<open>
  The causal chain of a trace is honest and finite: it ends with the entry asked for, each entry
  before another is its recorded parent, no trace occurs twice, it is no longer than the depth, and
  it stops short of the depth only at a root, at a cycle, or where the parent is no longer kept.
\<close>

theorem Chain_is_causal:
  assumes "latest i (ts_entries s) = Some e"
  shows "(let r = trace_Chain i maxDepth s; d = nat (if maxDepth \<le> 0 then 10 else maxDepth) in r \<noteq> [] \<and> last r = e \<and> parents r \<and> distinct (map te_TraceID r) \<and> set r \<subseteq> set (ts_entries s)
    \<and> length r \<le> d
    \<and> (length r = d \<or> te_ParentTraceID (hd r) = [] \<or> te_ParentTraceID (hd r) \<in> te_TraceID ` set r
        \<or> latest (te_ParentTraceID (hd r)) (ts_entries s) = None))"
proof -
  from latest_in [OF assms(1)] have e: "te_TraceID e = i" "e \<in> set (ts_entries s)" by simp_all
  let ?d = "nat (if maxDepth \<le> 0 then 10 else maxDepth)"
  have "?d > 0" by simp
  then have "1 + (?d - 1) = ?d" by arith
  with chain_walk_ok [of "[e]" "[i]" "ts_entries s" "?d - 1"] e show ?thesis
    by (simp add: trace_Chain_def assms(1) Let_def del: One_nat_def)
qed

definition demo_entry :: "string \<Rightarrow> string \<Rightarrow> trace_entry" where
  "demo_entry i p = no_entry\<lparr>te_TraceID := i, te_ParentTraceID := p\<rparr>"

definition demo_traces :: trace_store where
  "demo_traces = (trace_NewStore 0)\<lparr>ts_entries := [demo_entry ''a'' ''b'', demo_entry ''b'' ''a'']\<rparr>"

theorem Chain_is_causal_witness:
  "length (trace_Chain ''b'' 0 demo_traces) \<le> 10 \<and> last (trace_Chain ''b'' 0 demo_traces) = demo_entry ''b'' ''a''"
proof -
  have "latest ''b'' (ts_entries demo_traces) = Some (demo_entry ''b'' ''a'')"
    by (simp add: demo_traces_def demo_entry_def latest_def)
  from Chain_is_causal [OF this, of 0] show ?thesis by (simp add: Let_def)
qed

section \<open>Queries return what they say\<close>

lemma query_loop_eq:
  "query_loop limit P es result
     = (if int (length result) < limit then take (nat limit) (result @ filter P es) else result)"
proof (induction es arbitrary: result)
  case (Cons e es)
  then show ?case by (auto simp: take_Cons' Suc_diff_le) (arith+)?
qed auto

text \<open>
  A query returns the most recent entries of the agent and the tool asked for, most recent
  first and as many as the limit allows; an empty name asks for all.
\<close>

theorem Query_is_most_recent:
  "Query agent tool limit s
     = take (nat (if limit \<le> 0 then 100 else limit))
         (rev (filter (\<lambda>e. (agent = [] \<or> te_AgentID e = agent) \<and> (tool = [] \<or> te_Tool e = tool)) (ts_entries s)))"
  unfolding Query_def query_loop_eq by (auto simp: rev_filter [symmetric] intro!: arg_cong2 [where f = take] filter_cong)

section \<open>Replaying the file\<close>

text \<open>
  A run of a store, with the entries handed to the file, in order. The files can be renamed and
  opened; new calls have revision 0, and an update leaves the trace and the revision to the store.
\<close>

definition files_ok :: "trace_env \<Rightarrow> bool" where
  "files_ok env = (tv_read_ok env \<and> tv_rename_ok env \<and> tv_open_ok env)"

definition keeps_trace :: "(trace_entry \<Rightarrow> trace_entry) \<Rightarrow> bool" where
  "keeps_trace fn = (\<forall>e. te_TraceID (fn e) = te_TraceID e \<and> te_Revision (fn e) = te_Revision e)"

inductive trace_run :: "trace_rt \<Rightarrow> trace_store \<Rightarrow> trace_store \<times> trace_entry list \<Rightarrow> bool"
  for rt s0 where
  start: "trace_run rt s0 (s0, [])"
| record_step: "trace_run rt s0 (s, written) \<Longrightarrow> files_ok env \<Longrightarrow> te_Revision e = 0 \<Longrightarrow>
    trace_run rt s0 (Record rt env e s, written @ [last (ts_entries (Record rt env e s))])"
| update_step: "trace_run rt s0 (s, written) \<Longrightarrow> files_ok env \<Longrightarrow> keeps_trace fn \<Longrightarrow>
    trace_Update rt env i fn s = (True, s') \<Longrightarrow> latest i (ts_entries s') = Some e \<Longrightarrow>
    trace_run rt s0 (s', written @ [e])"

fun last_index :: "string \<Rightarrow> trace_entry list \<Rightarrow> nat option" where
  "last_index i [] = None"
| "last_index i (e # es) =
     (case last_index i es of
        Some j \<Rightarrow> Some (Suc j)
      | None \<Rightarrow> if te_TraceID e = i then Some 0 else None)"

lemma last_index_snoc:
  "last_index i (es @ [e]) = (if te_TraceID e = i then Some (length es) else last_index i es)"
  by (induction es) auto

lemma last_index_Some: "last_index i es = Some j \<Longrightarrow> j < length es \<and> te_TraceID (es ! j) = i"
  by (induction es arbitrary: j) (auto split: option.splits if_splits)

lemma last_index_update:
  "j < length es \<Longrightarrow> te_TraceID e = te_TraceID (es ! j) \<Longrightarrow> last_index i (es[j := e]) = last_index i es"
proof (induction es arbitrary: j)
  case (Cons a es)
  then show ?case by (cases j) (auto split: option.splits)
qed simp

lemma last_index_append:
  "last_index i (xs @ es) = (case last_index i es of Some j \<Rightarrow> Some (length xs + j) | None \<Rightarrow> last_index i xs)"
  by (induction xs) (auto split: option.splits)

lemma latest_snoc: "latest i (es @ [e]) = (if te_TraceID e = i then Some e else latest i es)"
  by (simp add: latest_def)

lemma latest_last_index: "latest i es = map_option ((!) es) (last_index i es)"
proof (induction es rule: rev_induct)
  case Nil
  then show ?case by (simp add: latest_def)
next
  case (snoc e es)
  then show ?case
    by (cases "last_index i es") (auto simp: latest_snoc last_index_snoc nth_append dest: last_index_Some)
qed

definition bumped :: "(trace_entry \<Rightarrow> trace_entry) \<Rightarrow> trace_entry \<Rightarrow> trace_entry" where
  "bumped fn e = (fn e)\<lparr>te_Revision := te_Revision (fn e) + 1\<rparr>"

lemma update_first_rev:
  "update_first i fn (rev es) =
     map_option (\<lambda>j. (bumped fn (es ! j), rev (es[j := bumped fn (es ! j)]))) (last_index i es)"
proof (induction es rule: rev_induct)
  case (snoc e es)
  then show ?case
    by (cases "last_index i es")
       (auto simp: last_index_snoc bumped_def Let_def nth_append list_update_append dest: last_index_Some)
qed simp

lemma trace_Update_eq:
  "trace_Update rt env i fn s =
     (case last_index i (ts_entries s) of
        None \<Rightarrow> (False, s)
      | Some j \<Rightarrow> (let e = bumped fn (ts_entries s ! j) in
          (True, appendLocked rt env e (s\<lparr>ts_entries := (ts_entries s)[j := e]\<rparr>))))"
  by (simp add: trace_Update_def update_first_rev Let_def split: option.split)

text \<open>The state of the replay after a list of entries.\<close>

definition replay :: "trace_entry list \<Rightarrow> trace_entry list \<times> (string \<times> nat) list" where
  "replay written = fold load_entry written ([], [])"

definition replay_ok :: "trace_entry list \<times> (string \<times> nat) list \<Rightarrow> bool" where
  "replay_ok st = (list_all (\<lambda>e. te_Revision e \<ge> 0) (fst st) \<and> (\<forall>i. map_of (snd st) i = last_index i (fst st)))"

lemma load_new:
  assumes "replay_ok st" and "te_Revision e = 0"
  shows "fst (load_entry e st) = fst st @ [e]" and "replay_ok (load_entry e st)"
  using assms
  by (cases st; auto simp: load_entry_def replay_ok_def last_index_snoc split: option.splits)+

lemma load_revision:
  assumes "replay_ok st" and "last_index (te_TraceID e) (fst st) = Some j" and "te_Revision e > 0"
  shows "fst (load_entry e st) = (fst st)[j := e]" and "replay_ok (load_entry e st)"
proof -
  obtain es pos where st: "st = (es, pos)" by fastforce
  from assms st have m: "map_of pos (te_TraceID e) = Some j" by (simp add: replay_ok_def)
  with assms(3) st show "fst (load_entry e st) = (fst st)[j := e]" by (simp add: load_entry_def)
  from last_index_Some assms(2) st have j: "j < length es" "te_TraceID (es ! j) = te_TraceID e" by auto
  have "list_all (\<lambda>e. te_Revision e \<ge> 0) (es[j := e])"
    using assms(1,3) st by (auto simp: replay_ok_def list_all_iff dest!: set_update_subset_insert [THEN subsetD])
  with m assms(1,3) st j show "replay_ok (load_entry e st)"
    by (simp add: load_entry_def replay_ok_def last_index_update)
qed

lemma keep_last_snoc: "0 < n \<Longrightarrow> keep_last n (keep_last n xs @ [x]) = keep_last n (xs @ [x])"
  by (auto simp: keep_last_def Suc_diff_le not_less) 

lemma keep_last_split: "\<exists>k. keep_last n (xs :: 'a list) = drop k xs \<and> k \<le> length xs
     \<and> (\<forall>ys :: 'a list. length ys = length xs \<longrightarrow> keep_last n ys = drop k ys)"
  by (cases "int (length xs) > n") (auto simp: keep_last_def intro: exI [of _ 0] exI [of _ "length xs - nat n"])

lemma ts_appendLocked [simp]:
  "ts_entries (appendLocked rt env e s) = ts_entries s"
  "ts_maxSize (appendLocked rt env e s) = ts_maxSize s"
  "ts_key (appendLocked rt env e s) = ts_key s"
  by (simp_all add: appendLocked_def Let_def split: option.split)

lemma Record_eq:
  "\<exists>e'. te_Revision e' = te_Revision e
     \<and> Record rt env e s = appendLocked rt env e'
         (s\<lparr>ts_entries := keep_last (ts_maxSize s) (ts_entries s @ [e']),
            ts_OTEL := map_option (\<lambda>xs. xs @ [e']) (ts_OTEL s)\<rparr>)"
  by (rule exI [of _ "completed env s e"]) (simp add: Record_def completed_def Let_def split: option.split)

lemma last_keep_last: "0 < n \<Longrightarrow> last (keep_last n (xs @ [x])) = x"
  by (simp add: keep_last_def last_drop)

lemma replay_snoc: "replay (w @ [e]) = load_entry e (replay w)"
  by (simp add: replay_def)

lemma update_logs:
  assumes "trace_Update rt env i fn s = (True, s')" and "latest i (ts_entries s') = Some e" and "keeps_trace fn"
  shows "\<exists>j. last_index i (ts_entries s) = Some j \<and> e = bumped fn (ts_entries s ! j) \<and> te_TraceID e = i
    \<and> s' = appendLocked rt env e (s\<lparr>ts_entries := (ts_entries s)[j := e]\<rparr>)"
proof -
  from assms(1) obtain j where j: "last_index i (ts_entries s) = Some j"
    and s': "s' = appendLocked rt env (bumped fn (ts_entries s ! j))
        (s\<lparr>ts_entries := (ts_entries s)[j := bumped fn (ts_entries s ! j)]\<rparr>)"
    by (auto simp: trace_Update_eq Let_def split: option.splits)
  from last_index_Some [OF j] assms(3) have t: "j < length (ts_entries s)"
    "te_TraceID (bumped fn (ts_entries s ! j)) = te_TraceID (ts_entries s ! j)"
    "te_TraceID (bumped fn (ts_entries s ! j)) = i"
    by (simp_all add: bumped_def keeps_trace_def)
  with s' j assms(2) have "e = bumped fn (ts_entries s ! j)"
    by (simp add: latest_last_index last_index_update)
  with s' j t show ?thesis by auto
qed

lemma run_replays:
  assumes "trace_run rt s0 (s, w)" and "ts_entries s0 = []" and "0 < ts_maxSize s0"
  shows "replay_ok (replay w) \<and> ts_maxSize s = ts_maxSize s0
    \<and> ts_entries s = keep_last (ts_maxSize s0) (fst (replay w))"
  using assms
proof (induction "(s, w)" arbitrary: s w rule: trace_run.induct)
  case start
  then show ?case by (simp add: replay_def replay_ok_def keep_last_def)
next
  case (record_step s w env e)
  then have inv: "replay_ok (replay w)" "ts_maxSize s = ts_maxSize s0"
    "ts_entries s = keep_last (ts_maxSize s0) (fst (replay w))" by simp_all
  from Record_eq [of e rt env s] obtain e' where e': "te_Revision e' = te_Revision e"
    "ts_entries (Record rt env e s) = keep_last (ts_maxSize s) (ts_entries s @ [e'])"
    "ts_maxSize (Record rt env e s) = ts_maxSize s" by auto
  with record_step.prems inv have ent: "last (ts_entries (Record rt env e s)) = e'"
    "ts_entries (Record rt env e s) = keep_last (ts_maxSize s0) (fst (replay w) @ [e'])"
    by (simp_all add: last_keep_last keep_last_snoc)
  with load_new [OF inv(1), of e'] e' record_step.hyps show ?case
    by (simp add: replay_snoc inv(2))
next
  case (update_step s w env fn i s' e)
  then have inv: "replay_ok (replay w)" "ts_maxSize s = ts_maxSize s0"
    "ts_entries s = keep_last (ts_maxSize s0) (fst (replay w))" by simp_all
  from update_logs [OF update_step.hyps(5,6,4)] obtain j where
    j: "last_index i (ts_entries s) = Some j" and e: "e = bumped fn (ts_entries s ! j)" "te_TraceID e = i"
    and s': "s' = appendLocked rt env e (s\<lparr>ts_entries := (ts_entries s)[j := e]\<rparr>)" by blast
  let ?es = "fst (replay w)"
  from keep_last_split [of "ts_maxSize s0" ?es] obtain k where
    k0: "keep_last (ts_maxSize s0) ?es = drop k ?es \<and> k \<le> length ?es
      \<and> (\<forall>ys :: trace_entry list. length ys = length ?es \<longrightarrow> keep_last (ts_maxSize s0) ys = drop k ys)" ..
  note k = k0 [THEN conjunct1] k0 [THEN conjunct2, THEN conjunct1]
    k0 [THEN conjunct2, THEN conjunct2, rule_format]
  have es: "?es = take k ?es @ ts_entries s" using inv(3) k(1) by simp
  have len: "length (take k ?es) = k" using k(2) by (simp add: min_absorb2)
  have full: "last_index (te_TraceID e) ?es = Some (k + j)"
    by (subst es) (simp only: last_index_append j e(2) len option.case)
  have "ts_entries s ! j \<in> set ?es"
    using last_index_Some [OF j] by (subst es) simp
  with inv(1) have "te_Revision (ts_entries s ! j) \<ge> 0" by (simp add: replay_ok_def list_all_iff)
  with e(1) update_step.hyps(4) have "te_Revision e > 0" by (simp add: bumped_def keeps_trace_def)
  note load = load_revision [OF inv(1) full this]
  have "keep_last (ts_maxSize s0) (?es[k + j := e]) = drop k (?es[k + j := e])"
    by (rule k(3)) simp
  also have "\<dots> = (ts_entries s)[j := e]" using inv(3) k(1) by (simp add: drop_update_swap)
  finally show ?case using load inv(2) s' by (simp add: replay_snoc)
qed

section \<open>The chain of a store\<close>

definition digests_ok :: "trace_rt \<Rightarrow> bool" where
  "digests_ok rt = (\<forall>k t. hs_sha (tr_hash rt) t \<noteq> [] \<and> hs_hmac (tr_hash rt) k t \<noteq> [])"

definition rotated :: "chained list option \<Rightarrow> chained list" where
  "rotated old = (case old of None \<Rightarrow> [] | Some c \<Rightarrow> c)"

text \<open>
  The chain that the two files hold, and the store's place at its end.
\<close>

definition store_chain :: "trace_rt \<Rightarrow> trace_store \<Rightarrow> chained list option \<Rightarrow> chained list \<Rightarrow> bool" where
  "store_chain rt s old cur =
     ((\<exists>f. ts_file s = Some f \<and> tf_open f \<and> tf_lines f = Some (seal_all cur) \<and> tf_old f = map_option seal_all old)
      \<and> list_all sealable (rotated old @ cur)
      \<and> linked (tr_hash rt) (ts_key s) None (rotated old @ cur)
      \<and> unescaped (ts_prevHash s)
      \<and> (old \<noteq> None \<longrightarrow> rotated old \<noteq> [])
      \<and> (if rotated old @ cur = [] then Head s = (0, [])
         else chain_end None (rotated old @ cur) = Some (Head s)))"

lemma chainHash_hex: "digests_ok rt \<Longrightarrow>
    unescaped (chainHash (tr_hash rt) key alg sq prev p) \<and> chainHash (tr_hash rt) key alg sq prev p \<noteq> []"
proof -
  assume "digests_ok rt"
  moreover have "hex_encode bs \<noteq> []" if "bs \<noteq> []" for bs
    using that by (cases bs) (auto simp: hex_encode_def)
  ultimately show ?thesis
    by (auto simp: chainHash_def Let_def digests_ok_def intro: unescaped_hex split: option.split)
qed

lemma next_envelope_plain:
  "digests_ok rt \<Longrightarrow> unescaped (ts_prevHash s) \<Longrightarrow> env_plain (next_envelope rt p s)"
  using chainHash_hex [of rt]
  by (auto simp: next_envelope_def Let_def env_plain_def unescaped_def unescaped_char_def hex_char_def
      AlgSHA256_def AlgHMACSHA256_def less_eq_char_def)

lemma Marshal_entry_shape:
  "Marshal_entry rt e = Some p \<Longrightarrow> p \<noteq> [] \<and> last p = CHR ''}''"
  by (auto simp: Marshal_entry_def)

lemma next_link:
  assumes "chain_end None c = None \<or> chain_end None c = Some (Head s)"
  shows "linked (tr_hash rt) (ts_key s) (chain_end None c) [(p, next_envelope rt p s)]"
proof -
  have alg: "alg_reason (ts_key s) (ev_Alg (next_envelope rt p s)) = None"
    by (simp add: alg_reason_None next_envelope_def Let_def)
  then show ?thesis
    using assms chainHash_mac [OF alg, of "tr_hash rt" "ts_seq s + 1" "ts_prevHash s" p]
    by (auto simp: next_envelope_def Let_def text_of_def Head_def)
qed

lemma linked_any_start: "linked hs key w c \<Longrightarrow> linked hs key None c"
  by (cases c) auto

lemma seal_all_snoc: "seal_all (c @ [(p, ev)]) = seal_all c @ [sealLine p ev]"
  by (simp add: seal_all_def)

lemma appendLocked_skips:
  "Marshal_entry rt e = None \<Longrightarrow> appendLocked rt env e s = s"
  by (simp add: appendLocked_def split: option.split)

lemma appendLocked_chain:
  assumes inv: "store_chain rt s old cur" and "digests_ok rt" and "files_ok env"
    and p: "Marshal_entry rt e = Some p"
  defines "x \<equiv> (p, next_envelope rt p s)"
  shows "store_chain rt (appendLocked rt env e s) old (cur @ [x])
    \<or> store_chain rt (appendLocked rt env e s) (Some (cur @ [x])) []"
proof -
  from inv obtain f where f: "ts_file s = Some f" "tf_open f" "tf_lines f = Some (seal_all cur)"
    "tf_old f = map_option seal_all old" by (auto simp: store_chain_def)
  let ?c = "rotated old @ cur" and ?ev = "next_envelope rt p s"
  let ?f1 = "write_line (sealLine p ?ev) f"
  have f1: "tf_lines ?f1 = Some (seal_all (cur @ [x]))" "tf_old ?f1 = tf_old f" "tf_open ?f1"
    using f by (simp_all add: write_line_def x_def seal_all_snoc)
  have env: "env_plain ?ev"
    using inv assms(2) by (auto simp: store_chain_def intro: next_envelope_plain)
  have seal: "sealable x"
    using Marshal_entry_shape [OF p] env by (simp add: sealable_def x_def)
  have link: "linked (tr_hash rt) (ts_key s) None (?c @ [x])"
    using inv next_link [of ?c s rt p] by (auto simp: store_chain_def x_def split: if_splits)
  have prev: "unescaped (ev_Hash ?ev)" using env by (simp add: env_plain_def)
  have hd: "chain_end None (c @ [x]) = Some (ev_Seq ?ev, ev_Hash ?ev)" for c
    by (simp add: x_def)
  show ?thesis
  proof (cases "tf_max ?f1 > 0 \<and> tf_size ?f1 \<ge> tf_max ?f1")
    case False
    then have "appendLocked rt env e s = s\<lparr>ts_file := Some ?f1, ts_seq := ev_Seq ?ev, ts_prevHash := ev_Hash ?ev\<rparr>"
      using f(1) p by (auto simp: appendLocked_def Let_def)
    then have "store_chain rt (appendLocked rt env e s) old (cur @ [x])"
      using inv f1 f seal link prev hd [of ?c]
      by (auto simp: store_chain_def Head_def list_all_iff simp del: chain_end_append)
    then show ?thesis ..
  next
    case True
    let ?f2 = "rotate env ?f1"
    have f2: "tf_lines ?f2 = Some (seal_all [])" "tf_old ?f2 = Some (seal_all (cur @ [x]))" "tf_open ?f2"
      using f1 assms(3) by (simp_all add: rotate_def openFile_def files_ok_def Let_def seal_all_def [of "[]"])
    from True have "appendLocked rt env e s = s\<lparr>ts_file := Some ?f2, ts_seq := ev_Seq ?ev, ts_prevHash := ev_Hash ?ev\<rparr>"
      using f(1) p by (auto simp: appendLocked_def Let_def)
    moreover have "linked (tr_hash rt) (ts_key s) None (cur @ [x])"
      using link linked_append [of _ _ None "rotated old" "cur @ [x]"] linked_any_start
      by (metis append.assoc)
    ultimately have "store_chain rt (appendLocked rt env e s) (Some (cur @ [x])) []"
      using inv f2 seal prev hd [of cur]
      by (auto simp: store_chain_def Head_def list_all_iff rotated_def simp del: chain_end_append linked_append)
    then show ?thesis ..
  qed
qed

lemma store_chain_frame:
  "ts_file s' = ts_file s \<Longrightarrow> ts_key s' = ts_key s \<Longrightarrow> ts_seq s' = ts_seq s \<Longrightarrow> ts_prevHash s' = ts_prevHash s
   \<Longrightarrow> store_chain rt s' old cur = store_chain rt s old cur"
  by (simp add: store_chain_def Head_def)

text \<open>
  The life of a store: it starts on no files, and calls are recorded and updated between restarts,
  always under one key, with files that can be read, renamed and opened and no line as long as
  the scanner's buffer.
\<close>

definition lines_fit :: "nat \<Rightarrow> trace_file \<Rightarrow> bool" where
  "lines_fit n f =
     (pred_option (list_all (\<lambda>l. length l < n)) (tf_lines f) \<and> pred_option (list_all (\<lambda>l. length l < n)) (tf_old f))"

inductive trace_life :: "trace_rt \<Rightarrow> string \<Rightarrow> trace_store \<Rightarrow> bool"
  for rt key where
  created: "files_ok env \<Longrightarrow> NewPersistentStore rt env m None None = Some s \<Longrightarrow>
    trace_life rt key (SetKey key s)"
| recorded: "trace_life rt key s \<Longrightarrow> files_ok env \<Longrightarrow> trace_life rt key (Record rt env e s)"
| updated: "trace_life rt key s \<Longrightarrow> files_ok env \<Longrightarrow> trace_life rt key (snd (trace_Update rt env i fn s))"
| restarted: "trace_life rt key s \<Longrightarrow> files_ok env \<Longrightarrow> ts_file s = Some f \<Longrightarrow> lines_fit verify_buffer f \<Longrightarrow>
    NewPersistentStore rt env m (tf_lines f) (tf_old f) = Some s' \<Longrightarrow> trace_life rt key (SetKey key s')"

definition key_of :: "string \<Rightarrow> string option" where
  "key_of key = (if key = [] then None else Some key)"

lemma lastEnvelope_seal_all:
  assumes "list_all sealable c" and "list_all (\<lambda>l. length l < verify_buffer) (seal_all c)"
  shows "lastEnvelope other (Some (seal_all c)) = (if c = [] then None else Some (snd (last c)))"
proof -
  have take: "takeWhile (\<lambda>l. length l < verify_buffer) (seal_all c) = seal_all c"
    using assms(2) by (simp add: takeWhile_eq_all_conv list_all_iff)
  have "fold (\<lambda>line found. case splitLine other line of Some (_, env) \<Rightarrow> Some env | None \<Rightarrow> found) (seal_all c) r
      = (if c = [] then r else Some (snd (last c)))" for r
    using assms(1)
  proof (induction c arbitrary: r)
    case (Cons x c)
    then show ?case by (cases x) (simp add: seal_all_def splitLine_sealable)
  qed (simp add: seal_all_def)
  then show ?thesis by (simp add: lastEnvelope_def take)
qed

lemma loadFromFile_frame [simp]:
  "ts_seq (loadFromFile rt f s) = ts_seq s" "ts_prevHash (loadFromFile rt f s) = ts_prevHash s"
  "ts_key (loadFromFile rt f s) = ts_key s" "ts_file (loadFromFile rt f s) = ts_file s"
  "ts_maxSize (loadFromFile rt f s) = ts_maxSize s"
  by (simp_all add: loadFromFile_def split: option.split)

lemma NewPersistentStore_ok:
  assumes "files_ok env" and "NewPersistentStore rt env m cur old = Some s"
  shows "ts_file s = openFile env \<lparr>tf_lines = cur, tf_old = old, tf_open = False, tf_size = 0,
                       tf_max = 10 * 1024 * 1024\<rparr>"
    and "Head s = (case lastEnvelope (tr_other rt) cur of
                     Some ev \<Rightarrow> (ev_Seq ev, ev_Hash ev)
                   | None \<Rightarrow> (case lastEnvelope (tr_other rt) old of
                       Some ev \<Rightarrow> (ev_Seq ev, ev_Hash ev) | None \<Rightarrow> (0, [])))"
    and "ts_entries s = ts_entries (loadFromFile rt cur (trace_NewStore m))"
    and "ts_maxSize s = (if m \<le> 0 then 10000 else m)"
  using assms
  by (auto simp: NewPersistentStore_def files_ok_def openFile_def Head_def trace_NewStore_def Let_def
      split: option.splits)

lemma seal_all_Nil [simp]: "seal_all [] = []" "seal_all c = [] \<longleftrightarrow> c = []"
  by (simp_all add: seal_all_def)

lemma lastEnvelope_None [simp]: "lastEnvelope other None = None"
  by (simp add: lastEnvelope_def)

lemma store_chain_restart:
  assumes inv: "store_chain rt s old cur" and "ts_key s = key_of key" and env: "files_ok env"
    and f: "ts_file s = Some f" "lines_fit verify_buffer f"
    and new: "NewPersistentStore rt env m (tf_lines f) (tf_old f) = Some s'"
  shows "store_chain rt (SetKey key s') old cur"
proof -
  from inv f(1) have lines: "tf_lines f = Some (seal_all cur)" "tf_old f = map_option seal_all old"
    by (auto simp: store_chain_def)
  note n = NewPersistentStore_ok [OF env new]
  have short: "list_all (\<lambda>l. length l < verify_buffer) (seal_all cur)"
    "\<And>c. old = Some c \<Longrightarrow> list_all (\<lambda>l. length l < verify_buffer) (seal_all c)"
    using f(2) by (auto simp: lines_fit_def lines)
  have seal: "list_all sealable cur" "list_all sealable (rotated old)" using inv by (simp_all add: store_chain_def)
  have "lastEnvelope (tr_other rt) (tf_lines f) = (if cur = [] then None else Some (snd (last cur)))"
    using lastEnvelope_seal_all [OF seal(1) short(1)] by (simp add: lines)
  moreover have "lastEnvelope (tr_other rt) (tf_old f)
      = (if rotated old = [] then None else Some (snd (last (rotated old))))"
    using lastEnvelope_seal_all [of "rotated old" "tr_other rt"] seal(2) short(2)
    by (cases old) (simp_all add: lines rotated_def)
  ultimately have head: "Head s' = Head s"
    using inv by (auto simp: n(2) store_chain_def chain_end_def split: if_splits)
  have "\<exists>g. ts_file s' = Some g \<and> tf_open g \<and> tf_lines g = Some (seal_all cur) \<and> tf_old g = map_option seal_all old"
    using env by (simp add: n(1) openFile_def files_ok_def lines Let_def)
  moreover have "ts_key (SetKey key s') = ts_key s" using assms(2) by (simp add: SetKey_def key_of_def)
  moreover have "Head (SetKey key s') = Head s" using head by (simp add: SetKey_def Head_def)
  moreover from this have "ts_prevHash (SetKey key s') = ts_prevHash s" by (simp add: Head_def)
  ultimately show ?thesis using inv by (simp add: store_chain_def SetKey_def del: chain_end_append)
qed

lemma appends_keep_chain:
  assumes "store_chain rt s old cur" and "digests_ok rt" and "files_ok env"
    and "ts_file s1 = ts_file s" "ts_key s1 = k" "ts_key s = k" "ts_seq s1 = ts_seq s" "ts_prevHash s1 = ts_prevHash s"
  shows "\<exists>old cur. store_chain rt (appendLocked rt env e s1) old cur \<and> ts_key (appendLocked rt env e s1) = k"
proof (cases "Marshal_entry rt e")
  case None
  with assms show ?thesis by (auto simp: appendLocked_skips store_chain_frame [of s1 s])
next
  case (Some p)
  have "store_chain rt s1 old cur" using assms by (simp add: store_chain_frame [of s1 s])
  from appendLocked_chain [OF this assms(2,3) Some] assms(5) show ?thesis by auto
qed

lemma trace_life_chain:
  assumes "trace_life rt key s" and "digests_ok rt"
  shows "\<exists>old cur. store_chain rt s old cur \<and> ts_key s = key_of key"
  using assms
proof (induction rule: trace_life.induct)
  case (created env m s)
  note n = NewPersistentStore_ok [OF created.hyps]
  have "store_chain rt (SetKey key s) None []"
    using created.hyps(1) n(1,2)
    by (simp add: store_chain_def rotated_def SetKey_def Head_def openFile_def files_ok_def unescaped_def)
  moreover have "ts_key (SetKey key s) = key_of key" by (simp add: SetKey_def key_of_def)
  ultimately show ?case by blast
next
  case (recorded s env e)
  then obtain old cur where inv: "store_chain rt s old cur" "ts_key s = key_of key" by blast
  show ?case
    unfolding Record_def Let_def
    by (rule appends_keep_chain [OF inv(1) recorded.prems recorded.hyps(2)]) (simp_all add: inv(2))
next
  case (updated s env i fn)
  then obtain old cur where inv: "store_chain rt s old cur" "ts_key s = key_of key" by blast
  show ?case
  proof (cases "last_index i (ts_entries s)")
    case None
    then have "snd (trace_Update rt env i fn s) = s" by (simp add: trace_Update_eq)
    with inv show ?thesis by auto
  next
    case (Some j)
    let ?e = "bumped fn (ts_entries s ! j)"
    from Some have "snd (trace_Update rt env i fn s)
        = appendLocked rt env ?e (s\<lparr>ts_entries := (ts_entries s)[j := ?e]\<rparr>)"
      by (simp add: trace_Update_eq Let_def)
    moreover have "\<exists>old cur. store_chain rt (appendLocked rt env ?e (s\<lparr>ts_entries := (ts_entries s)[j := ?e]\<rparr>)) old cur
        \<and> ts_key (appendLocked rt env ?e (s\<lparr>ts_entries := (ts_entries s)[j := ?e]\<rparr>)) = key_of key"
      by (rule appends_keep_chain [OF inv(1) updated.prems updated.hyps(2)]) (simp_all add: inv(2))
    ultimately show ?thesis by simp
  qed
next
  case (restarted s env f m s')
  then obtain old cur where inv: "store_chain rt s old cur" "ts_key s = key_of key" by blast
  from store_chain_restart [OF inv restarted.hyps(2-5)]
  have "store_chain rt (SetKey key s') old cur" .
  moreover have "ts_key (SetKey key s') = key_of key" by (simp add: SetKey_def key_of_def)
  ultimately show ?case by blast
qed


text \<open>An entry that survives its encoding, whatever envelope is sealed to it.\<close>

definition encodes :: "trace_rt \<Rightarrow> trace_entry \<Rightarrow> bool" where
  "encodes rt e =
     (case Marshal_entry rt e of
        None \<Rightarrow> False
      | Some p \<Rightarrow> (\<forall>ev. env_plain ev \<longrightarrow> tr_Unmarshal rt (sealLine p ev) = Some e))"

definition carries :: "trace_rt \<Rightarrow> chained list \<Rightarrow> trace_entry list \<Rightarrow> bool" where
  "carries rt cur w = list_all2 (\<lambda>x e. Marshal_entry rt e = Some (fst x)) cur w"

lemma load_carried:
  "carries rt cur w \<Longrightarrow> list_all sealable cur \<Longrightarrow> list_all (encodes rt) w \<Longrightarrow>
   fold (load_line rt) (seal_all cur) st = fold load_entry w st"
  unfolding carries_def
proof (induction cur w arbitrary: st rule: list_all2_induct)
  case (Cons x cur e w)
  obtain p ev where x: "x = (p, ev)" by fastforce
  from Cons x have "tr_Unmarshal rt (sealLine p ev) = Some e" by (simp add: encodes_def sealable_def)
  with Cons x show ?case by (simp add: seal_all_def load_line_def)
qed simp

lemma append_carries:
  assumes "store_chain rt s old cur" "old = None \<longrightarrow> carries rt cur w"
    and "digests_ok rt" "files_ok env" "Marshal_entry rt e = Some p"
    and "ts_file s1 = ts_file s" "ts_key s1 = ts_key s" "ts_seq s1 = ts_seq s" "ts_prevHash s1 = ts_prevHash s"
  shows "\<exists>old cur. store_chain rt (appendLocked rt env e s1) old cur \<and> (old = None \<longrightarrow> carries rt cur (w @ [e]))"
proof -
  have "store_chain rt s1 old cur" using assms by (simp add: store_chain_frame [of s1 s])
  from appendLocked_chain [OF this assms(3,4,5)] show ?thesis
  proof
    assume "store_chain rt (appendLocked rt env e s1) old (cur @ [(p, next_envelope rt p s1)])"
    moreover have "old = None \<longrightarrow> carries rt (cur @ [(p, next_envelope rt p s1)]) (w @ [e])"
      using assms(2,5) by (auto simp: carries_def intro: list_all2_appendI)
    ultimately show ?thesis by blast
  qed blast
qed

lemma run_carries:
  assumes "trace_run rt s0 (s, w)" and "store_chain rt s0 None []" and "digests_ok rt"
    and "0 < ts_maxSize s0" "ts_entries s0 = []" and "list_all (encodes rt) w"
  shows "\<exists>old cur. store_chain rt s old cur \<and> (old = None \<longrightarrow> carries rt cur w)"
  using assms
proof (induction "(s, w)" arbitrary: s w rule: trace_run.induct)
  case start
  then show ?case by (auto simp: carries_def)
next
  case (record_step s w env e)
  then obtain old cur where inv: "store_chain rt s old cur" "old = None \<longrightarrow> carries rt cur w" by auto
  let ?e = "completed env s e"
  have "0 < ts_maxSize s" using run_replays [OF record_step.hyps(1)] record_step.prems by simp
  then have l: "last (ts_entries (Record rt env e s)) = ?e"
    by (simp add: Record_def Let_def last_keep_last)
  with record_step.prems(5) obtain p where p: "Marshal_entry rt ?e = Some p"
    by (auto simp: encodes_def split: option.splits)
  show ?case
    unfolding l unfolding Record_def Let_def
    by (rule append_carries [OF inv record_step.prems(2) record_step.hyps(3) p]) simp_all
next
  case (update_step s w env fn i s' e)
  then obtain old cur where inv: "store_chain rt s old cur" "old = None \<longrightarrow> carries rt cur w" by auto
  from update_logs [OF update_step.hyps(5,6,4)] obtain j where
    s': "s' = appendLocked rt env e (s\<lparr>ts_entries := (ts_entries s)[j := e]\<rparr>)" by blast
  from update_step.prems(5) obtain p where p: "Marshal_entry rt e = Some p"
    by (auto simp: encodes_def split: option.splits)
  show ?case
    unfolding s'
    by (rule append_carries [OF inv update_step.prems(2) update_step.hyps(3) p]) simp_all
qed

text \<open>
  C33. A restart loses nothing: after any run of a new store whose file was not rotated yet, in which
  every entry survives its encoding in a line under 1 MiB, a store opened on that file holds the
  same entries, with every update in its place, and goes on at the same place of the chain.
\<close>

theorem restart_restores_traces:
  assumes "NewPersistentStore rt env0 m None None = Some s0" and "files_ok env0" and "digests_ok rt"
    and "trace_run rt (SetKey key s0) (s, w)" and "list_all (encodes rt) w"
    and "ts_file s = Some f" and "tf_old f = None" and "lines_fit load_buffer f" and "files_ok env"
  shows "\<exists>s2. NewPersistentStore rt env m (tf_lines f) (tf_old f) = Some s2
    \<and> ts_entries s2 = ts_entries s \<and> Head s2 = Head s"
proof -
  note n0 = NewPersistentStore_ok [OF assms(2,1)]
  have new: "trace_life rt key (SetKey key s0)" using assms(2,1) by (rule trace_life.created)
  have e0: "ts_entries (SetKey key s0) = []" "0 < ts_maxSize (SetKey key s0)"
    "ts_maxSize (SetKey key s0) = ts_maxSize (trace_NewStore m)"
    using n0(3,4) by (simp_all add: SetKey_def loadFromFile_def trace_NewStore_def)
  have c0: "store_chain rt (SetKey key s0) None []"
    using assms(2) n0(1,2)
    by (simp add: store_chain_def rotated_def SetKey_def Head_def openFile_def files_ok_def unescaped_def)
  from run_carries [OF assms(4) c0 assms(3) e0(2,1) assms(5)] obtain old cur where
    inv: "store_chain rt s old cur" "old = None \<longrightarrow> carries rt cur w" by blast
  with assms(6,7) have lines: "old = None" "tf_lines f = Some (seal_all cur)"
    by (auto simp: store_chain_def)
  with inv have carry: "carries rt cur w" and seal: "list_all sealable cur"
    and head: "if cur = [] then Head s = (0, []) else chain_end None cur = Some (Head s)"
    by (auto simp: store_chain_def rotated_def)
  have short: "list_all (\<lambda>l. length l < load_buffer) (seal_all cur)"
    using assms(8) by (simp add: lines_fit_def lines)
  then have short': "list_all (\<lambda>l. length l < verify_buffer) (seal_all cur)"
    by (auto simp: list_all_iff load_buffer_def verify_buffer_def)
  obtain s2 where s2: "NewPersistentStore rt env m (tf_lines f) (tf_old f) = Some s2"
    using assms(9) by (cases "NewPersistentStore rt env m (tf_lines f) (tf_old f)")
      (auto simp: NewPersistentStore_def openFile_def files_ok_def Let_def)
  note n = NewPersistentStore_ok [OF assms(9) s2]
  have take: "takeWhile (\<lambda>l. length l < load_buffer) (seal_all cur) = seal_all cur"
    using short by (simp add: takeWhile_eq_all_conv list_all_iff)
  have "ts_entries s2 = keep_last (ts_maxSize (trace_NewStore m)) (fst (replay w))"
    using load_carried [OF carry seal assms(5)]
    by (simp add: n(3) loadFromFile_def lines(2) take replay_def) (simp add: trace_NewStore_def)
  also have "\<dots> = ts_entries s" using run_replays [OF assms(4) e0(1,2)] e0(3) by simp
  finally have "ts_entries s2 = ts_entries s" .
  moreover have "Head s2 = Head s"
    using head lastEnvelope_seal_all [OF seal short', of "tr_other rt"]
    by (auto simp: n(2) lines(2) assms(7) chain_end_def split: if_splits)
  ultimately show ?thesis using s2 by blast
qed

section \<open>A concrete store\<close>

definition demo_te :: trace_entry where
  "demo_te = no_entry\<lparr>te_TraceID := ''t'', te_Timestamp := 5\<rparr>"

definition demo_trace_rt :: trace_rt where
  "demo_trace_rt = \<lparr>tr_fields = (\<lambda>_. Some []), tr_Unmarshal = (\<lambda>_. Some demo_te), tr_other = (\<lambda>_. None),
     tr_hash = demo_hash\<rparr>"

definition demo_trace_env :: trace_env where
  "demo_trace_env = \<lparr>tv_now = 7, tv_draw = demo_draw, tv_read_ok = True, tv_rename_ok = True, tv_open_ok = True\<rparr>"

definition demo_store0 :: trace_store where
  "demo_store0 = (trace_NewStore 0)\<lparr>ts_file := Some \<lparr>tf_lines = Some [], tf_old = None, tf_open = True,
     tf_size = 0, tf_max = 10 * 1024 * 1024\<rparr>\<rparr>"

definition demo_store1 :: trace_store where
  "demo_store1 = Record demo_trace_rt demo_trace_env demo_te (SetKey [] demo_store0)"

lemma demo_files_ok: "files_ok demo_trace_env"
  by (simp add: files_ok_def demo_trace_env_def)

lemma demo_digests_ok: "digests_ok demo_trace_rt"
  by (simp add: digests_ok_def demo_trace_rt_def demo_hash_def)

lemma demo_store0_new: "NewPersistentStore demo_trace_rt demo_trace_env 0 None None = Some demo_store0"
  by (simp add: NewPersistentStore_def demo_store0_def demo_trace_env_def openFile_def Let_def
      loadFromFile_def trace_NewStore_def file_bytes_def)

lemma append_no_rotation:
  assumes "ts_file s = Some f" and "Marshal_entry rt e = Some p" and "next_envelope rt p s = ev"
    and "tf_open f" and "tf_lines f = Some ls" and "tf_size f + int (length (sealLine p ev)) + 1 < tf_max f"
  shows "ts_file (appendLocked rt env e s)
    = Some (f\<lparr>tf_lines := Some (ls @ [sealLine p ev]), tf_size := tf_size f + int (length (sealLine p ev)) + 1\<rparr>)"
  using assms by (simp add: appendLocked_def Let_def write_line_def)

lemma demo_store1_eq:
  "ts_entries demo_store1 = [demo_te]"
  "ts_file demo_store1 = Some \<lparr>tf_lines = Some [sealLine ''{}'' (snd (demo_link ''{}''))], tf_old = None, tf_open = True,
     tf_size = int (length (sealLine ''{}'' (snd (demo_link ''{}'')))) + 1, tf_max = 10 * 1024 * 1024\<rparr>"
proof -
  let ?s = "(SetKey [] demo_store0)\<lparr>ts_entries := [demo_te]\<rparr>"
  have c: "completed demo_trace_env (SetKey [] demo_store0) demo_te = demo_te"
    by (simp add: completed_def demo_te_def no_entry_def)
  have r: "demo_store1 = appendLocked demo_trace_rt demo_trace_env demo_te ?s"
    unfolding demo_store1_def Record_def Let_def c
    by (simp add: demo_store0_def SetKey_def trace_NewStore_def keep_last_def)
  show "ts_entries demo_store1 = [demo_te]" unfolding r ts_appendLocked by simp
  have e: "next_envelope demo_trace_rt ''{}'' ?s = snd (demo_link ''{}'')"
    by (simp add: next_envelope_def demo_link_def demo_store0_def SetKey_def trace_NewStore_def Let_def
        chainHash_mac alg_reason_None demo_trace_rt_def)
  have "length (sealLine ''{}'' (snd (demo_link ''{}''))) < 100"
    using demo_link_line [of "''{}''" "''{''"] by (simp add: demo_link_def)
  then show "ts_file demo_store1 = Some \<lparr>tf_lines = Some [sealLine ''{}'' (snd (demo_link ''{}''))],
      tf_old = None, tf_open = True,
      tf_size = int (length (sealLine ''{}'' (snd (demo_link ''{}'')))) + 1, tf_max = 10 * 1024 * 1024\<rparr>"
    unfolding r
    by (subst append_no_rotation [OF _ _ e, where ls = "[]" and f = "\<lparr>tf_lines = Some [], tf_old = None,
          tf_open = True, tf_size = 0, tf_max = 10 * 1024 * 1024\<rparr>"])
       (simp_all add: Marshal_entry_def demo_trace_rt_def demo_store0_def SetKey_def trace_NewStore_def)
qed

lemma demo_store1_short: "length (sealLine ''{}'' (snd (demo_link ''{}''))) < 100"
  using demo_link_line [of "''{}''" "''{''"] by (simp add: demo_link_def)


theorem restart_restores_traces_witness:
  "map_option ts_entries (NewPersistentStore demo_trace_rt demo_trace_env 0
     (Some [sealLine ''{}'' (snd (demo_link ''{}''))]) None) = Some [demo_te]"
proof -
  have run: "trace_run demo_trace_rt (SetKey [] demo_store0) (demo_store1, [] @ [last (ts_entries demo_store1)])"
    unfolding demo_store1_def
    by (intro trace_run.record_step trace_run.start demo_files_ok) (simp add: demo_te_def no_entry_def)
  have enc: "list_all (encodes demo_trace_rt) ([] @ [last (ts_entries demo_store1)])"
    by (simp add: demo_store1_eq encodes_def Marshal_entry_def demo_trace_rt_def)
  have fit: "lines_fit load_buffer (the (ts_file demo_store1))"
    using demo_store1_short by (simp add: demo_store1_eq lines_fit_def load_buffer_def)
  from restart_restores_traces [OF demo_store0_new demo_files_ok demo_digests_ok run enc _ _ fit demo_files_ok]
  show ?thesis by (auto simp: demo_store1_eq)
qed

section \<open>What can be lost\<close>

text \<open>
  A rotation whose new file cannot be opened loses the trace for good: from then on nothing that is
  recorded reaches a file, and the next record deletes the file that was rotated away.
\<close>

lemma failed_reopen_loses_traces:
  assumes "ts_file s = Some f" and "tf_lines f = None" and "\<not> tf_open f"
    and "tf_max f > 0" and "tf_size f \<ge> tf_max f" and "Marshal_entry rt e = Some p"
  shows "\<exists>g. ts_file (appendLocked rt env e s) = Some g \<and> tf_lines g = None \<and> tf_old g = None \<and> \<not> tf_open g
    \<and> tf_max g = tf_max f \<and> tf_size g \<ge> tf_max g"
  using assms by (simp add: appendLocked_def Let_def write_line_def rotate_def)

text \<open>
  Two calls that share a trace identifier, as calls of one client that propagates its traceparent
  do, share their updates too: the outcome of the first goes to the entry of the second.
\<close>

lemma update_goes_to_latest:
  assumes "te_TraceID a = i" and "te_TraceID b = i" and "ts_file s = None" and "ts_entries s = [a, b]"
  shows "ts_entries (snd (trace_Update rt env i fn s)) = [a, bumped fn b]"
  using assms by (simp add: trace_Update_eq Let_def)

end
