(* ===== verification/Auth.thy ===== *)
theory Auth
  imports Traces
begin

text \<open>
  Who is calling (\<open>auth/identity.go\<close>, \<open>auth/jwt.go\<close>): the identity behind an Authorization header,
  with and without a JWT validator, and the validator's key set. The JWT library's parser, which
  checks signature and expiry with the key its caller names, is an argument, as are base64
  decoding and the answers of the key server.
\<close>

section \<open>Keys\<close>

datatype public_key =
    RSAKey nat int
  | ECKey string nat nat

record jwk_key =
  jk_Kty :: string
  jk_Kid :: string
  jk_N :: string
  jk_E :: string
  jk_Crv :: string
  jk_X :: string
  jk_Y :: string

datatype auth_error =
    ErrIdentityRequired
  | ErrJWTWithoutValidator
  | InvalidToken
  | MissingClaim string
  | ClaimNotAString string
  | MissingKid
  | UnknownKey string
  | BadKey string
  | KeyFetchFailed

text \<open>\<open>base64.RawURLEncoding\<close>: the bytes, or \<open>None\<close> on malformed text.\<close>

type_synonym base64 = "string \<Rightarrow> nat list option"

definition SetBytes :: "nat list \<Rightarrow> nat" where
  "SetBytes bs = foldl (\<lambda>acc b. 256 * acc + b) 0 bs"

text \<open>\<open>Int64\<close> keeps the low 64 bits.\<close>

definition Int64 :: "nat \<Rightarrow> int" where
  "Int64 n = sint (word_of_nat n :: 64 word)"

definition toRSA :: "base64 \<Rightarrow> jwk_key \<Rightarrow> auth_error + public_key" where
  "toRSA b64 k =
     (case b64 (jk_N k) of
        None \<Rightarrow> Inl (BadKey ''decode n'')
      | Some nb \<Rightarrow>
          (case b64 (jk_E k) of
             None \<Rightarrow> Inl (BadKey ''decode e'')
           | Some eb \<Rightarrow> Inr (RSAKey (SetBytes nb) (Int64 (SetBytes eb)))))"

definition toECDSA :: "base64 \<Rightarrow> jwk_key \<Rightarrow> auth_error + public_key" where
  "toECDSA b64 k =
     (if jk_Crv k \<notin> {''P-256'', ''P-384'', ''P-521''} then Inl (BadKey (''unsupported curve: '' @ jk_Crv k))
      else
        (case b64 (jk_X k) of
           None \<Rightarrow> Inl (BadKey ''decode x'')
         | Some xb \<Rightarrow>
             (case b64 (jk_Y k) of
                None \<Rightarrow> Inl (BadKey ''decode y'')
              | Some yb \<Rightarrow> Inr (ECKey (jk_Crv k) (SetBytes xb) (SetBytes yb)))))"

definition toPublicKey :: "base64 \<Rightarrow> jwk_key \<Rightarrow> auth_error + public_key" where
  "toPublicKey b64 k =
     (if jk_Kty k = ''RSA'' then toRSA b64 k
      else if jk_Kty k = ''EC'' then toECDSA b64 k
      else Inl (BadKey (''unsupported key type: '' @ jk_Kty k)))"

section \<open>The validator\<close>

text \<open>A token: its header as far as the code reads it, and its claims.\<close>

type_synonym claims = "(string \<times> gval) list"

record jwt_token =
  jt_Header :: "(string \<times> gval) list"

text \<open>
  The parser of the JWT library: given the function that finds the key of a token and the text,
  the claims, or \<open>None\<close> when it does not accept the token.
\<close>

type_synonym jwt_parser = "(jwt_token \<Rightarrow> auth_error + public_key) \<Rightarrow> string \<Rightarrow> claims option"

record validator =
  vd_parser :: jwt_parser
  vd_agentClaim :: string
  vd_userClaim :: string
  vd_keys :: "(string \<times> public_key) list"

record identity =
  id_AgentID :: string
  id_UserID :: string

definition no_identity :: identity where
  "no_identity = \<lparr>id_AgentID = [], id_UserID = []\<rparr>"

definition keyFunc :: "(string \<times> public_key) list \<Rightarrow> jwt_token \<Rightarrow> auth_error + public_key" where
  "keyFunc keys token =
     (let kid = (case map_of (jt_Header token) ''kid'' of Some (VStr s) \<Rightarrow> s | _ \<Rightarrow> []) in
      if kid = [] then Inl MissingKid
      else (case map_of keys kid of None \<Rightarrow> Inl (UnknownKey kid) | Some k \<Rightarrow> Inr k))"

definition ValidateIdentity :: "validator \<Rightarrow> string \<Rightarrow> auth_error + identity" where
  "ValidateIdentity v tokenStr =
     (case vd_parser v (keyFunc (vd_keys v)) tokenStr of
        None \<Rightarrow> Inl InvalidToken
      | Some claims \<Rightarrow>
          (case map_of claims (vd_agentClaim v) of
             None \<Rightarrow> Inl (MissingClaim (vd_agentClaim v))
           | Some (VStr agentStr) \<Rightarrow>
               if vd_userClaim v = [] then Inr \<lparr>id_AgentID = agentStr, id_UserID = []\<rparr>
               else
                 (case map_of claims (vd_userClaim v) of
                    None \<Rightarrow> Inr \<lparr>id_AgentID = agentStr, id_UserID = []\<rparr>
                  | Some (VStr userStr) \<Rightarrow> Inr \<lparr>id_AgentID = agentStr, id_UserID = userStr\<rparr>
                  | Some _ \<Rightarrow> Inl (ClaimNotAString (vd_userClaim v)))
           | Some _ \<Rightarrow> Inl (ClaimNotAString (vd_agentClaim v))))"

definition ValidateToken :: "validator \<Rightarrow> string \<Rightarrow> auth_error + string" where
  "ValidateToken v tokenStr = map_sum id id_AgentID (ValidateIdentity v tokenStr)"

text \<open>The answer of the key server: \<open>None\<close> is a failed exchange or an undecodable body.\<close>

type_synonym jwks_answer = "(int \<times> jwk_key list) option"

fun parse_keys :: "base64 \<Rightarrow> jwk_key list \<Rightarrow> (string \<times> public_key) list \<Rightarrow> (string \<times> public_key) list" where
  "parse_keys b64 [] parsed = parsed"
| "parse_keys b64 (k # ks) parsed =
     parse_keys b64 ks
       (if jk_Kid k = [] then parsed
        else (case toPublicKey b64 k of
                Inl _ \<Rightarrow> parsed
              | Inr key \<Rightarrow> AList.update (jk_Kid k) key parsed))"

definition fetchKeys :: "base64 \<Rightarrow> jwks_answer \<Rightarrow> validator \<Rightarrow> auth_error option \<times> validator" where
  "fetchKeys b64 answer v =
     (case answer of
        None \<Rightarrow> (Some KeyFetchFailed, v)
      | Some (code, ks) \<Rightarrow>
          if code \<noteq> 200 then (Some KeyFetchFailed, v)
          else
            (let parsed = parse_keys b64 ks [] in
             if parsed = [] then (Some KeyFetchFailed, v)
             else (None, v\<lparr>vd_keys := parsed\<rparr>)))"

text \<open>The parser requires an expiry and, where configured, the issuer and the audience.\<close>

definition NewValidator ::
  "base64 \<Rightarrow> (string \<Rightarrow> string \<Rightarrow> jwt_parser) \<Rightarrow> jwks_answer \<Rightarrow> jwt_config \<Rightarrow> auth_error + validator" where
  "NewValidator b64 new_parser answer cfg =
     (let v = \<lparr>vd_parser = new_parser (jc_Issuer cfg) (jc_Audience cfg),
               vd_agentClaim = (if jc_AgentClaim cfg = [] then ''sub'' else jc_AgentClaim cfg),
               vd_userClaim = jc_UserClaim cfg, vd_keys = []\<rparr> in
      case fetchKeys b64 answer v of (None, v1) \<Rightarrow> Inr v1 | (Some e, _) \<Rightarrow> Inl e)"

section \<open>Identities\<close>

definition looksLikeJWT :: "string \<Rightarrow> bool" where
  "looksLikeJWT raw = (CountChar raw (CHR ''.'') = 2 \<and> HasPrefix raw ''eyJ'')"

definition ResolveIdentity :: "string \<Rightarrow> validator option \<Rightarrow> bool \<Rightarrow> auth_error + identity" where
  "ResolveIdentity authHeader v allowLegacy =
     (let raw = TrimPrefix authHeader ''Bearer '' in
      if raw = [] then Inr \<lparr>id_AgentID = ''anonymous'', id_UserID = []\<rparr>
      else
        (let hasAgentPrefix = HasPrefix raw ''agent:'';
             declared = \<lparr>id_AgentID = TrimPrefix raw ''agent:'', id_UserID = []\<rparr> in
         case v of
           Some vd \<Rightarrow>
             if hasAgentPrefix then (if allowLegacy then Inr declared else Inl ErrIdentityRequired)
             else if CountChar raw (CHR ''.'') = 2 then ValidateIdentity vd raw
             else Inl ErrIdentityRequired
         | None \<Rightarrow>
             if hasAgentPrefix then Inr declared
             else if looksLikeJWT raw then Inl ErrJWTWithoutValidator
             else Inr \<lparr>id_AgentID = raw, id_UserID = []\<rparr>))"

definition ResolveAgentID :: "string \<Rightarrow> validator option \<Rightarrow> bool \<Rightarrow> auth_error + string" where
  "ResolveAgentID authHeader v allowLegacy = map_sum id id_AgentID (ResolveIdentity authHeader v allowLegacy)"

section \<open>Properties\<close>

text \<open>What a validated token says of its bearer.\<close>

definition vouched :: "validator \<Rightarrow> string \<Rightarrow> identity \<Rightarrow> bool" where
  "vouched v raw i =
     (case vd_parser v (keyFunc (vd_keys v)) raw of
        None \<Rightarrow> False
      | Some claims \<Rightarrow>
          map_of claims (vd_agentClaim v) = Some (VStr (id_AgentID i))
          \<and> (if vd_userClaim v = [] \<or> map_of claims (vd_userClaim v) = None then id_UserID i = []
             else map_of claims (vd_userClaim v) = Some (VStr (id_UserID i))))"

lemma ValidateIdentity_iff: "ValidateIdentity v raw = Inr i \<longleftrightarrow> vouched v raw i"
  by (cases i) (auto simp: ValidateIdentity_def vouched_def split: option.splits gval.splits)

text \<open>
  With a validator configured and the legacy form off, the only identities are the anonymous
  one, of a caller without a credential, and what a token says that the JWT library accepted
  under one of the fetched keys: the agent claim, and the user claim where one is configured. A
  self-declared \<open>agent:\<close> name is refused.
\<close>

theorem strict_posture:
  "ResolveIdentity authHeader (Some v) False = Inr i \<longleftrightarrow>
     (let raw = TrimPrefix authHeader ''Bearer '' in
      if raw = [] then i = \<lparr>id_AgentID = ''anonymous'', id_UserID = []\<rparr>
      else \<not> HasPrefix raw ''agent:'' \<and> CountChar raw (CHR ''.'') = 2 \<and> vouched v raw i)"
  by (auto simp: ResolveIdentity_def Let_def ValidateIdentity_iff)

text \<open>
  Only a validated token names a user: an identity with a user comes from a token the
  configured validator accepted, whatever the posture; and a mesh without a validator takes no
  text shaped like a token for an agent's name.
\<close>

theorem user_needs_token:
  assumes "ResolveIdentity authHeader v allowLegacy = Inr i"
  shows "(id_UserID i = [] \<or> (\<exists>vd. v = Some vd \<and> vouched vd (TrimPrefix authHeader ''Bearer '') i))
    \<and> (v = None \<longrightarrow> \<not> looksLikeJWT (TrimPrefix authHeader ''Bearer ''))"
  using assms
  by (auto simp: ResolveIdentity_def Let_def ValidateIdentity_iff looksLikeJWT_def HasPrefix_def prefix_def
      split: if_splits option.splits)

definition demo_validator :: validator where
  "demo_validator =
     \<lparr>vd_parser = (\<lambda>keys raw. case keys \<lparr>jt_Header = [(''kid'', VStr ''k'')]\<rparr> of
                      Inl _ \<Rightarrow> None
                    | Inr _ \<Rightarrow> Some [(''sub'', VStr ''alice''), (''azp'', VStr ''bot'')]),
      vd_agentClaim = ''azp'', vd_userClaim = ''sub'', vd_keys = [(''k'', RSAKey 3 65537)]\<rparr>"

theorem user_needs_token_witness:
  "ResolveIdentity ''Bearer a.b.c'' (Some demo_validator) False = Inr \<lparr>id_AgentID = ''bot'', id_UserID = ''alice''\<rparr>
   \<and> vouched demo_validator ''a.b.c'' \<lparr>id_AgentID = ''bot'', id_UserID = ''alice''\<rparr>"
proof -
  have r: "ResolveIdentity ''Bearer a.b.c'' (Some demo_validator) False
      = Inr \<lparr>id_AgentID = ''bot'', id_UserID = ''alice''\<rparr>"
    by (simp add: ResolveIdentity_def ValidateIdentity_def demo_validator_def keyFunc_def TrimPrefix_def
        HasPrefix_def CountChar_def Let_def)
  have "TrimPrefix ''Bearer a.b.c'' ''Bearer '' = ''a.b.c''" by (simp add: TrimPrefix_def)
  with user_needs_token [OF r] r show ?thesis by simp
qed

lemma set_AList_update: "(c, d) \<in> set (AList.update a b m) \<Longrightarrow> (c, d) \<in> set m \<or> (c = a \<and> d = b)"
  by (induction m) (auto split: if_splits)

lemma parse_keys_from:
  "(kid, key) \<in> set (parse_keys b64 ks parsed) \<Longrightarrow>
   (kid, key) \<in> set parsed \<or> (kid \<noteq> [] \<and> (\<exists>k \<in> set ks. jk_Kid k = kid \<and> toPublicKey b64 k = Inr key))"
proof (induction ks arbitrary: parsed)
  case (Cons k ks)
  let ?p = "if jk_Kid k = [] then parsed
        else (case toPublicKey b64 k of Inl _ \<Rightarrow> parsed | Inr key \<Rightarrow> AList.update (jk_Kid k) key parsed)"
  from Cons.prems have "(kid, key) \<in> set (parse_keys b64 ks ?p)" by simp
  from Cons.IH [OF this] show ?case
  proof
    assume "(kid, key) \<in> set ?p"
    then show ?thesis by (auto split: if_splits sum.splits dest: set_AList_update)
  qed auto
qed simp

text \<open>
  The key set is replaced as a whole or kept as it is: a refresh that fails for any reason
  changes nothing, one that succeeds leaves at least one key, each of them published in the
  answer under its own identifier; so a validator never runs without keys.
\<close>

theorem fetchKeys_replaces_or_keeps:
  "(case fetchKeys b64 answer v of
      (Some e, v') \<Rightarrow> v' = v
    | (None, v') \<Rightarrow>
        vd_keys v' \<noteq> [] \<and> v'\<lparr>vd_keys := vd_keys v\<rparr> = v
        \<and> list_all (\<lambda>(kid, key). kid \<noteq> []
             \<and> list_ex (\<lambda>k. jk_Kid k = kid \<and> toPublicKey b64 k = Inr key) (snd (the answer))) (vd_keys v'))"
  by (auto simp: fetchKeys_def Let_def list_all_iff list_ex_iff split: option.splits dest!: parse_keys_from)

text \<open>
  An empty name is a name: it is not the anonymous caller that a required authentication turns away.
\<close>

lemma empty_name_is_an_identity:
  "ResolveIdentity ''Bearer agent:'' None allowLegacy = Inr \<lparr>id_AgentID = [], id_UserID = []\<rparr>"
  by (simp add: ResolveIdentity_def TrimPrefix_def HasPrefix_def Let_def)

end
