(* ===== verification/Forward.thy ===== *)
theory Forward
  imports Auth
begin

text \<open>
  Forwarding an allowed call to its backend (the \<open>Forward\<close> functions of \<open>proxy/handler.go\<close>, the
  call metadata of \<open>internal/callmeta\<close> and \<open>mcp/meta.go\<close>): REST, MCP upstream or command. The
  backends are arguments: what the HTTP server, the upstream and the operating system answer.
\<close>

section \<open>URL escaping\<close>

text \<open>\<open>net/url\<close>: \<open>PathEscape\<close> and \<open>QueryEscape\<close>, byte by byte.\<close>

definition unreserved :: "char \<Rightarrow> bool" where
  "unreserved c = (char_between (CHR ''0'') (CHR ''9'') c \<or> char_between (CHR ''a'') (CHR ''z'') c
     \<or> char_between (CHR ''A'') (CHR ''Z'') c \<or> c \<in> set ''-_.~'')"

definition upper_hex :: "nat \<Rightarrow> char" where
  "upper_hex n = (if n < 10 then char_of (48 + n) else char_of (55 + n))"

definition percent :: "char \<Rightarrow> string" where
  "percent c = (let n = (of_char c :: nat) in [CHR 0x25, upper_hex (n div 16), upper_hex (n mod 16)])"

definition path_char :: "char \<Rightarrow> string" where
  "path_char c = (if unreserved c \<or> c \<in> set ''$&+=:@'' then [c] else percent c)"

definition PathEscape :: "string \<Rightarrow> string" where
  "PathEscape s = concat (map path_char s)"

definition QueryEscape :: "string \<Rightarrow> string" where
  "QueryEscape s =
     concat (map (\<lambda>c. if unreserved c then [c] else if c = CHR '' '' then ''+'' else percent c) s)"

text \<open>\<open>strings.Replace(s, old, new, 1)\<close> for a non-empty \<open>old\<close>.\<close>

fun ReplaceFirst :: "string \<Rightarrow> string \<Rightarrow> string \<Rightarrow> string" where
  "ReplaceFirst [] old new = []"
| "ReplaceFirst (c # s) old new =
     (if prefix old (c # s) then new @ drop (length old) (c # s) else c # ReplaceFirst s old new)"

section \<open>Requests and answers\<close>

record http_request =
  hq_Method :: string
  hq_URL :: string
  hq_Headers :: "(string \<times> string) list"
  hq_Body :: "gval option"

text \<open>The body of an answer is \<open>None\<close> when reading it fails.\<close>

datatype http_answer = NoAnswer string | Answer int "string option"

record forward_env =
  fe_rt :: go_rt
  fe_draw :: draw
  fe_bad_request :: "string \<Rightarrow> string \<Rightarrow> string option"
  fe_http :: "http_request \<Rightarrow> http_answer"
  fe_json :: "string \<Rightarrow> gval option"
  fe_mcp :: "(string \<Rightarrow> string \<Rightarrow> params \<Rightarrow> (string \<times> gval) list \<Rightarrow> string + gval) option"
  fe_cli :: "(exec_env \<times> runner) option"

text \<open>
  What a backend returned: result, status code, error. The result of a command is a pointer, nil
  when the command was not run.
\<close>

datatype backend_result = RValue gval | RExec "exec_result option"

type_synonym outcome = "backend_result \<times> int \<times> string option"

definition placeholder :: "string \<Rightarrow> string" where
  "placeholder k = ''{'' @ k @ ''}''"

fun path_params :: "go_rt \<Rightarrow> (string \<times> gval) list \<Rightarrow> string \<Rightarrow> string" where
  "path_params rt [] reqURL = reqURL"
| "path_params rt ((k, v) # ps) reqURL =
     path_params rt ps
       (if Contains reqURL (placeholder k)
        then ReplaceFirst reqURL (placeholder k) (PathEscape (Sprint rt v)) else reqURL)"

definition query_string :: "go_rt \<Rightarrow> string \<Rightarrow> (string \<times> gval) list \<Rightarrow> string" where
  "query_string rt path ps =
     Join (map (\<lambda>(k, v). QueryEscape k @ ''='' @ QueryEscape v)
       (sort_key fst (map (\<lambda>(k, v). (k, Sprint rt v)) (filter (\<lambda>(k, v). \<not> Contains path (placeholder k)) ps)))) ''&''"

definition request_url :: "go_rt \<Rightarrow> tool \<Rightarrow> params \<Rightarrow> string" where
  "request_url rt t p =
     (let reqURL = path_params rt (entries p) (tl_BaseURL t @ tl_Path t) in
      if tl_Method t = ''GET'' \<or> tl_Method t = ''DELETE''
      then (let encoded = query_string rt (tl_Path t) (entries p) in
            if encoded = [] then reqURL
            else reqURL @ (if Contains reqURL ''?'' then ''&'' else ''?'') @ encoded)
      else reqURL)"

definition forwardHTTP :: "forward_env \<Rightarrow> tool \<Rightarrow> params \<Rightarrow> trace_context \<Rightarrow> outcome" where
  "forwardHTTP env t p tc =
     (let reqURL = request_url (fe_rt env) t p;
          no_body = (tl_Method t = ''GET'' \<or> tl_Method t = ''DELETE'') in
      if \<not> no_body \<and> Marshal p = None then (RValue VNil, 0, Some ''marshal params'')
      else
        (case fe_bad_request env (tl_Method t) reqURL of
           Some e \<Rightarrow> (RValue VNil, 0, Some (''build request: '' @ e))
         | None \<Rightarrow>
             (let own = [(''Content-Type'', ''application/json'')]
                    @ (if cx_TraceID tc \<noteq> []
                       then [(''X-Trace-Id'', cx_TraceID tc), (''Traceparent'', Traceparent (fe_draw env) tc)] else []);
                  headers = fold (\<lambda>(k, v). AList.update k v) (tl_Headers t) own;
                  body = (if no_body then None else Marshal p) in
              case fe_http env \<lparr>hq_Method = tl_Method t, hq_URL = reqURL, hq_Headers = headers, hq_Body = body\<rparr> of
                NoAnswer e \<Rightarrow> (RValue VNil, 0, Some (''backend error: '' @ e))
              | Answer code None \<Rightarrow> (RValue VNil, code, Some ''read response'')
              | Answer code (Some text) \<Rightarrow>
                  (RValue (case fe_json env text of Some v \<Rightarrow> v | None \<Rightarrow> VStr text), code, None))))"

definition call_meta_key :: string where
  "call_meta_key = ''art.flux7/agent''"

definition forwardMCP :: "forward_env \<Rightarrow> tool \<Rightarrow> params \<Rightarrow> trace_context \<Rightarrow> string \<Rightarrow> outcome" where
  "forwardMCP env t p tc agent =
     (case fe_mcp env of
        None \<Rightarrow> (RValue VNil, 0, Some ''no MCP forwarder configured'')
      | Some call \<Rightarrow>
          (let originalName = TrimPrefix (tl_Name t) (tl_MCPServer t @ ''.'');
               meta = (if cx_TraceID tc \<noteq> [] then [(''traceparent'', VStr (Traceparent (fe_draw env) tc))] else [])
                 @ (if agent \<noteq> [] then [(call_meta_key, VStr agent)] else []) in
           case call (tl_MCPServer t) originalName p meta of
             Inl e \<Rightarrow> (RValue VNil, 502, Some e)
           | Inr result \<Rightarrow> (RValue result, 200, None)))"

definition exec_message :: "exec_error \<Rightarrow> string" where
  "exec_message e = (case e of
     ArgumentsInvalid _ \<Rightarrow> ''argument validation failed'' | TimedOut _ \<Rightarrow> ''command timed out'' | _ \<Rightarrow> ''exec error'')"

definition forwardCLI :: "forward_env \<Rightarrow> tool \<Rightarrow> params \<Rightarrow> outcome" where
  "forwardCLI env t p =
     (case fe_cli env of
        None \<Rightarrow> (RValue VNil, 0, Some ''no CLI runner configured'')
      | Some (xenv, runner) \<Rightarrow>
          (case tl_CLIMeta t of
             None \<Rightarrow> (RValue VNil, 0, Some (''tool '' @ tl_Name t @ '' has no CLI metadata''))
           | Some meta \<Rightarrow>
               (case Run xenv runner meta (ExtractCommand (fe_rt env) p meta) of
                  (cmd, res, err) \<Rightarrow>
                    (RExec res,
                     (let failed = (case res of None \<Rightarrow> False | Some r \<Rightarrow> er_ExitCode r \<noteq> 0) in
                      if err \<noteq> None then (if failed then 422 else 500) else (if failed then 422 else 200)),
                     map_option exec_message err))))"

definition ForwardAs ::
  "forward_env \<Rightarrow> tool \<Rightarrow> params \<Rightarrow> trace_context \<Rightarrow> string \<Rightarrow> outcome" where
  "ForwardAs env t p tc agent =
     (if tl_Source t = ''mcp'' then forwardMCP env t p tc agent
      else if tl_Source t = ''cli'' then forwardCLI env t p
      else forwardHTTP env t p tc)"

text \<open>What an upstream client sends on: the agent only where the upstream opted in.\<close>

definition callMeta :: "bool \<Rightarrow> (string \<times> gval) list \<Rightarrow> (string \<times> gval) list option" where
  "callMeta forward_identity meta =
     (let out = filter (\<lambda>(k, v). \<not> (k = call_meta_key \<and> \<not> forward_identity)) meta in
      if out = [] then None else Some out)"

section \<open>Properties\<close>

lemma upper_hex_plain: "n < 16 \<Longrightarrow> upper_hex n \<noteq> CHR ''/'' \<and> upper_hex n \<noteq> CHR ''?'' \<and> upper_hex n \<noteq> CHR ''#''"
proof -
  assume "n < 16"
  then have n: "(of_char (upper_hex n) :: nat) = (if n < 10 then 48 + n else 55 + n)" by (simp add: upper_hex_def)
  show ?thesis
    by (intro conjI; rule char_ne) (use n \<open>n < 16\<close> in \<open>simp_all split: if_splits\<close>)
qed

lemma percent_plain: "c \<in> set (percent d) \<Longrightarrow> c \<noteq> CHR ''/'' \<and> c \<noteq> CHR ''?'' \<and> c \<noteq> CHR ''#''"
proof -
  assume c: "c \<in> set (percent d)"
  have "(of_char d :: nat) < 256" by (metis of_char_mod_256 mod_less_divisor zero_less_numeral)
  then have "(of_char d :: nat) div 16 < 16" by (intro less_mult_imp_div_less) simp
  with c show ?thesis
    using upper_hex_plain [of "of_char d div 16"] upper_hex_plain [of "of_char d mod 16"]
    by (auto simp: percent_def Let_def)
qed

lemma PathEscape_plain:
  "c \<in> set (PathEscape s) \<Longrightarrow> c \<noteq> CHR ''/'' \<and> c \<noteq> CHR ''?'' \<and> c \<noteq> CHR ''#''"
proof -
  assume "c \<in> set (PathEscape s)"
  then obtain d where d: "c \<in> set (path_char d)" by (auto simp: PathEscape_def)
  show ?thesis
  proof (cases "c \<in> set (percent d)")
    case True
    then show ?thesis by (rule percent_plain)
  next
    case False
    with d have "c = d" "unreserved c \<or> c \<in> set ''$&+=:@''" by (auto simp: path_char_def split: if_splits)
    then show ?thesis by (auto simp: unreserved_def less_eq_char_def)
  qed
qed

lemma CountChar_append [simp]: "CountChar (s @ t) c = CountChar s c + CountChar t c"
  by (simp add: CountChar_def)

lemma CountChar_drop: "CountChar (drop n s) c \<le> CountChar s c"
  by (metis CountChar_append append_take_drop_id le_add2)

lemma ReplaceFirst_count:
  "CountChar new c = 0 \<Longrightarrow> CountChar (ReplaceFirst s old new) c \<le> CountChar s c"
proof (induction s)
  case (Cons d s)
  from Cons show ?case
    using CountChar_drop [of "length old" "d # s" c] by (auto simp: CountChar_def)
qed simp

text \<open>
  A path parameter stays in its place: whatever values a call gives, the URL it is forwarded to
  has no more slashes, question marks and hashes in its path than the tool's own template, so no
  value adds a path segment, a query or a fragment. (Dots are not escaped: the values \<open>.\<close> and \<open>..\<close>
  pass as they are.)
\<close>

theorem path_params_add_no_segment:
  "CountChar (path_params rt ps url) (CHR ''/'') \<le> CountChar url (CHR ''/'')
   \<and> CountChar (path_params rt ps url) (CHR ''?'') \<le> CountChar url (CHR ''?'')
   \<and> CountChar (path_params rt ps url) (CHR ''#'') \<le> CountChar url (CHR ''#'')"
proof -
  have zero: "CountChar (PathEscape s) c = 0" if "c \<in> {CHR ''/'', CHR ''?'', CHR ''#''}" for s c
    using that PathEscape_plain [of c s] by (auto simp: CountChar_def filter_empty_conv)
  have "CountChar (path_params rt ps url) c \<le> CountChar url c" if "c \<in> {CHR ''/'', CHR ''?'', CHR ''#''}" for c
  proof (induction ps arbitrary: url)
    case (Cons p ps)
    obtain k v where p: "p = (k, v)" by fastforce
    have "CountChar (ReplaceFirst url (placeholder k) (PathEscape (Sprint rt v))) c \<le> CountChar url c"
      by (rule ReplaceFirst_count) (rule zero [OF that])
    with Cons.IH show ?case by (auto simp: p intro: order_trans)
  qed simp
  then show ?thesis by simp
qed

lemma dots_pass: "PathEscape ''..'' = ''..''"
  by (simp add: PathEscape_def path_char_def unreserved_def)

text \<open>
  The caller's identity leaves the mesh only to upstreams that opted in: without the opt-in the
  metadata sent on names no agent, and everything else in it is kept as it is.
\<close>

theorem identity_needs_opt_in:
  "map_of (case callMeta forward_identity meta of None \<Rightarrow> [] | Some m \<Rightarrow> m) k
     = (if k = call_meta_key \<and> \<not> forward_identity then None else map_of meta k)"
proof -
  have kept: "map_of (filter (\<lambda>(k, v). \<not> (k = call_meta_key \<and> \<not> forward_identity)) meta) k
      = (if k = call_meta_key \<and> \<not> forward_identity then None else map_of meta k)"
    by (induction meta) auto
  have case_m: "(case (if m = [] then None else Some m) of None \<Rightarrow> [] | Some x \<Rightarrow> x) = m" for m :: "'z list"
    by simp
  show ?thesis unfolding callMeta_def Let_def case_m by (rule kept)
qed

end
