(* ===== verification/Gateway.thy ===== *)
theory Gateway
  imports Forward
begin

text \<open>
  The governed call over HTTP (\<open>proxy/handler.go\<close>): who calls, the emergency stop, the rate limit,
  the policy with its floors, grants and precedents, the human decision, the backend and the
  trace. A call that has to wait for a decision is split where the code blocks on the approval's
  channel: \<open>handleToolCall\<close> returns the waiting call, \<open>resume_call\<close> goes on when the channel holds a
  resolution, and other requests may come in between. \<open>gw_forwarded\<close> is a history variable: the
  calls handed to a backend, in order.
\<close>

section \<open>The handler\<close>

record forwarded =
  fw_Tool :: tool
  fw_Params :: params
  fw_Agent :: string

record gateway =
  gw_Registry :: registry
  gw_Policy :: engine
  gw_Pins :: "pin_store option"
  gw_Traces :: trace_store
  gw_Approvals :: "approval_store option"
  gw_RateLimiter :: "limiter option"
  gw_Grants :: "grant_store option"
  gw_Halts :: "halt_store option"
  gw_JWTValidator :: "validator option"
  gw_AllowLegacyAgent :: bool
  gw_RequireAuth :: bool
  gw_AdminToken :: string
  gw_forwarded :: "forwarded list"

text \<open>What one request finds outside: clocks (when it arrives, is decided, is answered), random
  identifiers, databases, mem7, backends.\<close>

record request_env =
  qe_rt :: go_rt
  qe_token :: token_rt
  qe_start :: time
  qe_now :: time
  qe_done :: time
  qe_trace_rt :: trace_rt
  qe_trace :: trace_env
  qe_halt :: halt_env
  qe_mem :: mem7
  qe_forward :: forward_env
  qe_newID :: string
  qe_date :: "time \<Rightarrow> string"

record http_call =
  hc_Path :: string
  hc_Authorization :: string
  hc_Traceparent :: string
  hc_XTraceId :: string
  hc_SessionID :: string
  hc_CallbackURL :: string
  hc_RemoteAddr :: string

record tool_response =
  tp_Result :: backend_result
  tp_TraceID :: string
  tp_ApprovalID :: string
  tp_Policy :: string
  tp_LatencyMs :: int
  tp_Error :: string

definition no_response :: tool_response where
  "no_response = \<lparr>tp_Result = RValue VNil, tp_TraceID = [], tp_ApprovalID = [], tp_Policy = [],
     tp_LatencyMs = 0, tp_Error = []\<rparr>"

definition ms_between :: "time \<Rightarrow> time \<Rightarrow> int" where
  "ms_between start now = (now - start) div 1000000"

definition elapsed_ms :: "request_env \<Rightarrow> int" where
  "elapsed_ms q = ms_between (qe_start q) (qe_now q)"

definition HaltFor :: "request_env \<Rightarrow> string \<Rightarrow> string \<Rightarrow> gateway \<Rightarrow> halt option \<times> gateway" where
  "HaltFor q agentID sessionID g =
     (case gw_Halts g of
        None \<Rightarrow> (None, g)
      | Some s \<Rightarrow>
          (case halt_Match (qe_halt q) agentID sessionID s of (hl, s1) \<Rightarrow> (hl, g\<lparr>gw_Halts := Some s1\<rparr>)))"

definition record_trace :: "request_env \<Rightarrow> trace_entry \<Rightarrow> gateway \<Rightarrow> gateway" where
  "record_trace q e g = g\<lparr>gw_Traces := Record (qe_trace_rt q) (qe_trace q) e (gw_Traces g)\<rparr>"

definition update_trace :: "request_env \<Rightarrow> string \<Rightarrow> (trace_entry \<Rightarrow> trace_entry) \<Rightarrow> gateway \<Rightarrow> gateway" where
  "update_trace q i fn g =
     g\<lparr>gw_Traces := snd (trace_Update (qe_trace_rt q) (qe_trace q) i fn (gw_Traces g))\<rparr>"

definition call_entry ::
  "trace_context \<Rightarrow> string \<Rightarrow> identity \<Rightarrow> string \<Rightarrow> params \<Rightarrow> string \<Rightarrow> string \<Rightarrow> trace_entry" where
  "call_entry tc sessionID who tool p policy rule =
     no_entry\<lparr>te_TraceID := cx_TraceID tc, te_SpanID := cx_SpanID tc, te_ParentSpanID := cx_ParentSpanID tc,
       te_SessionID := sessionID, te_AgentID := id_AgentID who, te_UserID := id_UserID who,
       te_Tool := tool, te_Params := p, te_Policy := policy, te_PolicyRule := rule\<rparr>"

definition RecordRefused ::
  "request_env \<Rightarrow> trace_context \<Rightarrow> string \<Rightarrow> string \<Rightarrow> params \<Rightarrow> string \<Rightarrow> string \<Rightarrow> int \<Rightarrow> gateway \<Rightarrow> gateway" where
  "RecordRefused q tc sessionID tool p rule reason status g =
     record_trace q
       ((call_entry tc sessionID \<lparr>id_AgentID = ''anonymous'', id_UserID = []\<rparr> tool p ''deny'' rule)
          \<lparr>te_StatusCode := status, te_LatencyMs := elapsed_ms q, te_Error := reason\<rparr>) g"

definition RecordHalted ::
  "request_env \<Rightarrow> halt \<Rightarrow> trace_context \<Rightarrow> string \<Rightarrow> identity \<Rightarrow> string \<Rightarrow> params \<Rightarrow> gateway \<Rightarrow> gateway" where
  "RecordHalted q hl tc sessionID who tool p g =
     record_trace q
       ((call_entry tc sessionID who tool p ''halted'' (''halt:'' @ h_ID hl))
          \<lparr>te_LatencyMs := elapsed_ms q, te_Error := halt_Message hl\<rparr>) g"

definition extractIdentity :: "http_call \<Rightarrow> gateway \<Rightarrow> auth_error + identity" where
  "extractIdentity r g = ResolveIdentity (hc_Authorization r) (gw_JWTValidator g) (gw_AllowLegacyAgent g)"

definition auth_message :: "auth_error \<Rightarrow> string" where
  "auth_message e = (case e of
      ErrIdentityRequired \<Rightarrow> ''authentication required: present a valid JWT''
    | ErrJWTWithoutValidator \<Rightarrow>
        ''a JWT was presented but this mesh has no JWT validator configured (auth.jwt)''
    | MissingClaim c \<Rightarrow> ''missing claim '' @ Quote c
    | ClaimNotAString c \<Rightarrow> ''claim '' @ Quote c @ '' is not a string''
    | _ \<Rightarrow> ''invalid token'')"

section \<open>Floors\<close>

definition resolveTool :: "gateway \<Rightarrow> string \<Rightarrow> tool option" where
  "resolveTool g name =
     (case registry_Get (gw_Registry g) name of
        Some t \<Rightarrow> Some t
      | None \<Rightarrow> ResolveCLI (gw_Registry g) name)"

definition pin_text :: "pin_status \<Rightarrow> string" where
  "pin_text st = (case st of Uncovered \<Rightarrow> [] | Pinned \<Rightarrow> ''pinned'' | Changed \<Rightarrow> ''changed'' | New \<Rightarrow> ''new'')"

definition ApplyFloors :: "pin_store option \<Rightarrow> decision \<Rightarrow> tool option \<Rightarrow> decision" where
  "ApplyFloors pins d0 tool =
     (case tool of
        None \<Rightarrow> d0
      | Some u \<Rightarrow>
          (let d = Tighten d0 (DispatchFloor tool); st = pin_Status (tl_Name u) pins in
           if pin_Floor st \<noteq> []
           then (let t = Tighten d (pin_Floor st) in
                 if d_Action t \<noteq> d_Action d
                 then t\<lparr>d_Rule := ''pin:'' @ pin_text st,
                        d_Reason := ''catalogue pin: '' @ tl_Name u @ '' is '' @ pin_text st
                          @ '' since its catalogue was accepted (policy '' @ d_Rule d @ '' returned ''
                          @ d_Action d @ '')''\<rparr>
                 else d)
           else d))"

definition Floor :: "pin_store option \<Rightarrow> tool option \<Rightarrow> string" where
  "Floor pins tool =
     (case tool of
        None \<Rightarrow> []
      | Some u \<Rightarrow>
          (let fl = DispatchFloor tool; pf = pins_Floor (tl_Name u) pins in
           if fl = [] \<or> pf = [] then fl @ pf
           else d_Action (Tighten \<lparr>d_Action = fl, d_Rule = [], d_Reason = []\<rparr> pf)))"

section \<open>Grants and precedents\<close>

text \<open>The decision, and the grant that made it.\<close>

definition by_grant :: "request_env \<Rightarrow> string \<Rightarrow> string \<Rightarrow> decision \<Rightarrow> gateway \<Rightarrow> decision \<times> grant option" where
  "by_grant q agentID toolName d g =
     (if d_Action d \<noteq> ''human_approval'' then (d, None)
      else
        (case gw_Grants g of
           None \<Rightarrow> (d, None)
         | Some gs \<Rightarrow>
             (case grant_Check (qe_now q) agentID toolName gs of
                None \<Rightarrow> (d, None)
              | Some gr \<Rightarrow>
                  (\<lparr>d_Action = ''allow'', d_Rule = ''grant:'' @ g_ID gr,
                    d_Reason = ''temporal grant '' @ g_ID gr @ '' (expires '' @ qe_date q (g_ExpiresAt gr) @ '')''\<rparr>,
                   Some gr))))"

definition by_precedent ::
  "request_env \<Rightarrow> string \<Rightarrow> string \<Rightarrow> params \<Rightarrow> decision \<Rightarrow> gateway \<Rightarrow> decision \<times> gateway" where
  "by_precedent q agentID toolName p d g =
     (if d_Action d \<noteq> ''human_approval'' then (d, g)
      else
        (case gw_Approvals g of
           None \<Rightarrow> (d, g)
         | Some s \<Rightarrow>
             (case TryAutoResolveSafe (qe_rt q) (qe_mem q) (qe_now q) (qe_newID q) agentID toolName p s of
                (None, s1) \<Rightarrow> (d, g\<lparr>gw_Approvals := Some s1\<rparr>)
              | (Some res, s1) \<Rightarrow>
                  (\<lparr>d_Action = ''allow'', d_Rule = ''supervisor:mem7'', d_Reason = rs_Reasoning res\<rparr>,
                   g\<lparr>gw_Approvals := Some s1\<rparr>))))"

section \<open>Forwarding a call\<close>

definition estimate_params :: "token_rt \<Rightarrow> params \<Rightarrow> nat" where
  "estimate_params rt p = (case p of None \<Rightarrow> tokens_of 4 | Some m \<Rightarrow> EstimateTokens rt (VMap m))"

definition estimate_result :: "token_rt \<Rightarrow> backend_result \<Rightarrow> nat" where
  "estimate_result rt r =
     (case r of
        RValue v \<Rightarrow> EstimateTokens rt v
      | RExec None \<Rightarrow> tokens_of 5
      | RExec (Some x) \<Rightarrow>
          tokens_of (length (''&{'' @ er_Stdout x @ '' '' @ er_Stderr x @ '' '' @ Itoa (er_ExitCode x) @ ''}'')))"

definition resolveTokens :: "token_rt \<Rightarrow> string \<Rightarrow> params \<Rightarrow> backend_result \<Rightarrow> int \<times> int \<times> string" where
  "resolveTokens rt toolName p r =
     (case (case r of RValue v \<Rightarrow> ExtractLLMTokens rt toolName v | RExec _ \<Rightarrow> None) of
        Some (i, out) \<Rightarrow> (i, out, ''real'')
      | None \<Rightarrow> (int (estimate_params rt p), int (estimate_result rt r), ''estimate''))"

definition forward ::
  "request_env \<Rightarrow> tool \<Rightarrow> params \<Rightarrow> trace_context \<Rightarrow> string \<Rightarrow> gateway \<Rightarrow> outcome \<times> gateway" where
  "forward q tool p tc agentID g =
     (ForwardAs (qe_forward q) tool p tc agentID,
      g\<lparr>gw_forwarded := gw_forwarded g @ [\<lparr>fw_Tool = tool, fw_Params = p, fw_Agent = agentID\<rparr>]\<rparr>)"

definition record_usage :: "request_env \<Rightarrow> string \<Rightarrow> string \<Rightarrow> params \<Rightarrow> gateway \<Rightarrow> gateway" where
  "record_usage q agentID toolName p g =
     g\<lparr>gw_RateLimiter := map_option (limiter_Record (qe_now q) agentID toolName (SprintParams (qe_rt q) p))
         (gw_RateLimiter g)\<rparr>"

text \<open>The call is allowed: usage, backend, trace, answer.\<close>

definition execute_call ::
  "request_env \<Rightarrow> trace_context \<Rightarrow> string \<Rightarrow> identity \<Rightarrow> string \<Rightarrow> tool \<Rightarrow> params \<Rightarrow> decision \<Rightarrow> grant option
     \<Rightarrow> gateway \<Rightarrow> (int \<times> tool_response) \<times> gateway" where
  "execute_call q tc sessionID who toolName tool p d gr g =
     (let g1 = record_usage q (id_AgentID who) toolName p g;
          ((result, code, err), g2) = forward q tool p tc (id_AgentID who) g1;
          (inTok, outTok, src) = resolveTokens (qe_token q) toolName p result;
          e = (call_entry tc sessionID who toolName p ''allow'' (d_Rule d))
                \<lparr>te_GrantID := (case gr of None \<Rightarrow> [] | Some x \<Rightarrow> g_ID x),
                 te_ParentTraceID := (case gr of None \<Rightarrow> [] | Some x \<Rightarrow> og_TraceID (g_Origin x)),
                 te_StatusCode := code, te_LatencyMs := ms_between (qe_start q) (qe_done q), te_EstimatedInputTokens := inTok,
                 te_EstimatedOutputTokens := outTok, te_TokensSource := src,
                 te_Error := (case err of None \<Rightarrow> [] | Some m \<Rightarrow> m)\<rparr>;
          resp = no_response\<lparr>tp_Result := result, tp_TraceID := cx_TraceID tc, tp_Policy := ''allow'',
                             tp_LatencyMs := ms_between (qe_start q) (qe_done q)\<rparr> in
      ((case err of None \<Rightarrow> (200, resp) | Some m \<Rightarrow> (502, resp\<lparr>tp_Error := m\<rparr>)), record_trace q e g2))"

section \<open>A tool call\<close>

text \<open>
  A call blocked on the channel of its approval. The answer is a \<open>ToolCallResponse\<close> with its status,
  or the plain JSON object of the early refusals.
\<close>

record waiting_call =
  wc_ID :: string
  wc_Context :: trace_context
  wc_Agent :: string
  wc_ToolName :: string
  wc_Tool :: tool
  wc_Params :: params
  wc_Start :: time

datatype call_result =
    Reply int tool_response
  | Plain int "(string \<times> string) list"
  | Waits waiting_call

definition refused_reply :: "int \<Rightarrow> string \<Rightarrow> string \<Rightarrow> call_result" where
  "refused_reply status msg traceID = Plain status [(''error'', msg), (''trace_id'', traceID)]"

text \<open>The rate limit, under the name of the policy that would decide.\<close>

definition rate_check ::
  "request_env \<Rightarrow> trace_context \<Rightarrow> string \<Rightarrow> identity \<Rightarrow> string \<Rightarrow> params \<Rightarrow> gateway
     \<Rightarrow> string option \<times> gateway" where
  "rate_check q tc sessionID who toolName p g =
     (case gw_RateLimiter g of
        None \<Rightarrow> (None, g)
      | Some l \<Rightarrow>
          (let pre = Evaluate (qe_rt q) (gw_Policy g) (id_AgentID who) toolName p in
           case limiter_Check (qe_now q) (id_AgentID who) (d_Rule pre) toolName (SprintParams (qe_rt q) p) l of
             (None, l1) \<Rightarrow> (None, g\<lparr>gw_RateLimiter := Some l1\<rparr>)
           | (Some err, l1) \<Rightarrow>
               (Some (rate_message err),
                record_trace q
                  ((call_entry tc sessionID who toolName p ''rate_limited'' (d_Rule pre))
                     \<lparr>te_LatencyMs := elapsed_ms q, te_Error := rate_message err\<rparr>)
                  (g\<lparr>gw_RateLimiter := Some l1\<rparr>))))"

text \<open>The call needs a human: it is submitted, traced, and waits.\<close>

definition await_approval ::
  "request_env \<Rightarrow> trace_context \<Rightarrow> string \<Rightarrow> string \<Rightarrow> identity \<Rightarrow> string \<Rightarrow> tool \<Rightarrow> params \<Rightarrow> decision
     \<Rightarrow> gateway \<Rightarrow> call_result \<times> gateway" where
  "await_approval q tc sessionID callbackURL who toolName tool p d g =
     (case gw_Approvals g of
        None \<Rightarrow>
          (Reply 202 (no_response\<lparr>tp_TraceID := cx_TraceID tc, tp_Policy := ''human_approval'',
             tp_Error := ''action requires human approval''\<rparr>),
           record_trace q
             ((call_entry tc sessionID who toolName p ''human_approval'' (d_Rule d))
                \<lparr>te_LatencyMs := elapsed_ms q\<rparr>) g)
      | Some s \<Rightarrow>
          (case SubmitWithTrace (qe_now q) (qe_newID q) (id_AgentID who) toolName (d_Rule d) p callbackURL
                  (cx_TraceID tc) s of
             (pa, s1) \<Rightarrow>
               (Waits \<lparr>wc_ID = a_ID pa, wc_Context = tc, wc_Agent = id_AgentID who, wc_ToolName = toolName,
                       wc_Tool = tool, wc_Params = p, wc_Start = qe_start q\<rparr>,
                record_trace q
                  ((call_entry tc sessionID who toolName p ''human_approval'' (d_Rule d))
                     \<lparr>te_ApprovalID := a_ID pa\<rparr>)
                  (g\<lparr>gw_Approvals := Some s1\<rparr>))))"

text \<open>
  What the policy, the floors, the grants and the precedents make of a call. Only the actions
  \<open>deny\<close> and \<open>human_approval\<close> stop it: every other action, known or not, is executed.
\<close>

definition decided_call ::
  "request_env \<Rightarrow> trace_context \<Rightarrow> string \<Rightarrow> string \<Rightarrow> identity \<Rightarrow> string \<Rightarrow> tool \<Rightarrow> params
     \<Rightarrow> gateway \<Rightarrow> call_result \<times> gateway" where
  "decided_call q tc sessionID callbackURL who toolName tool p g =
     (let d = ApplyFloors (gw_Pins g) (Evaluate (qe_rt q) (gw_Policy g) (id_AgentID who) toolName p) (Some tool) in
      if d_Action d = ''deny''
      then (Reply 403 (no_response\<lparr>tp_TraceID := cx_TraceID tc, tp_Policy := ''deny'', tp_Error := d_Reason d\<rparr>),
            record_trace q
              ((call_entry tc sessionID who toolName p ''deny'' (d_Rule d))\<lparr>te_LatencyMs := elapsed_ms q\<rparr>) g)
      else
        (case by_grant q (id_AgentID who) toolName d g of
           (d1, gr) \<Rightarrow>
             (case by_precedent q (id_AgentID who) toolName p d1 g of
                (d2, g1) \<Rightarrow>
                  if d_Action d2 = ''human_approval''
                  then await_approval q tc sessionID callbackURL who toolName tool p d2 g1
                  else
                    (case execute_call q tc sessionID who toolName tool p d2 gr g1 of
                       ((status, resp), g2) \<Rightarrow> (Reply status resp, g2)))))"

text \<open>The body is \<open>None\<close> when it is not JSON.\<close>

definition handleToolCall ::
  "request_env \<Rightarrow> http_call \<Rightarrow> params option \<Rightarrow> gateway \<Rightarrow> call_result \<times> gateway" where
  "handleToolCall q r body g =
     (let toolName = TrimPrefix (hc_Path r) ''/tool/'';
          tc = NewContext (tv_draw (qe_trace q)) (hc_Traceparent r) (hc_XTraceId r);
          sessionID = hc_SessionID r in
      case extractIdentity r g of
        Inl e \<Rightarrow>
          (refused_reply 401 (auth_message e) (cx_TraceID tc),
           RecordRefused q tc sessionID toolName None ''auth:invalid_credential'' (auth_message e) 401 g)
      | Inr who \<Rightarrow>
          if gw_RequireAuth g \<and> id_AgentID who = ''anonymous''
          then (refused_reply 401 ''authentication required'' (cx_TraceID tc),
                RecordRefused q tc sessionID toolName None ''auth:required'' ''authentication required'' 401 g)
          else
            (case body of
               None \<Rightarrow> (Reply 400 (no_response\<lparr>tp_Error := ''invalid JSON body'', tp_Policy := ''error''\<rparr>), g)
             | Some p \<Rightarrow>
                 (case HaltFor q (id_AgentID who) sessionID g of
                    (Some hl, g1) \<Rightarrow>
                      (Reply 403 (no_response\<lparr>tp_TraceID := cx_TraceID tc, tp_Policy := ''halted'',
                         tp_Error := halt_Message hl\<rparr>),
                       RecordHalted q hl tc sessionID who toolName p g1)
                  | (None, g1) \<Rightarrow>
                      (case resolveTool g1 toolName of
                         None \<Rightarrow> (Reply 404 (no_response\<lparr>tp_Error := ''unknown tool: '' @ toolName,
                                   tp_Policy := ''error''\<rparr>), g1)
                       | Some tool \<Rightarrow>
                           (case rate_check q tc sessionID who toolName p g1 of
                              (Some msg, g2) \<Rightarrow>
                                (Reply 429 (no_response\<lparr>tp_TraceID := cx_TraceID tc,
                                   tp_Policy := ''rate_limited'', tp_Error := msg\<rparr>), g2)
                            | (None, g2) \<Rightarrow>
                                decided_call q tc sessionID (hc_CallbackURL r) who toolName tool p g2)))))"

text \<open>
  The waiting call goes on: \<open>None\<close> while its channel is empty. The decision is the last check: the
  halts and the policy are not asked again.
\<close>

definition run_approved ::
  "request_env \<Rightarrow> waiting_call \<Rightarrow> gateway \<Rightarrow> call_result \<times> gateway" where
  "run_approved q w g =
     (let g1 = record_usage q (wc_Agent w) (wc_ToolName w) (wc_Params w) g;
          ((result, code, err), g2) = forward q (wc_Tool w) (wc_Params w) (wc_Context w) (wc_Agent w) g1;
          totalMs = ms_between (wc_Start w) (qe_done q);
          (inTok, outTok, src) = resolveTokens (qe_token q) (wc_ToolName w) (wc_Params w) result;
          g3 = update_trace q (cx_TraceID (wc_Context w))
                 (\<lambda>e. e\<lparr>te_StatusCode := code, te_LatencyMs := totalMs, te_EstimatedInputTokens := inTok,
                       te_EstimatedOutputTokens := outTok, te_TokensSource := src,
                       te_Error := (case err of None \<Rightarrow> te_Error e | Some m \<Rightarrow> m)\<rparr>) g2;
          resp = no_response\<lparr>tp_Result := result, tp_TraceID := cx_TraceID (wc_Context w),
                             tp_ApprovalID := wc_ID w, tp_Policy := ''human_approval'',
                             tp_LatencyMs := totalMs\<rparr> in
      (case err of None \<Rightarrow> Reply 200 resp | Some m \<Rightarrow> Reply 502 (resp\<lparr>tp_Error := m\<rparr>), g3))"

definition resume_call ::
  "request_env \<Rightarrow> waiting_call \<Rightarrow> gateway \<Rightarrow> (call_result \<times> gateway) option" where
  "resume_call q w g =
     (case gw_Approvals g of
        None \<Rightarrow> None
      | Some s \<Rightarrow>
          (case receive (wc_ID w) s of
             None \<Rightarrow> None
           | Some (res, s1) \<Rightarrow>
               (let approvalMs = ms_between (wc_Start w) (qe_now q);
                    g1 = update_trace q (cx_TraceID (wc_Context w))
                           (\<lambda>e. e\<lparr>te_ApprovalStatus := status_text (rs_Status res),
                                 te_ApprovedBy := rs_ResolvedBy res, te_ApprovalMs := approvalMs,
                                 te_SupervisorReasoning := rs_Reasoning res,
                                 te_SupervisorConfidence := rs_Confidence res\<rparr>)
                           (g\<lparr>gw_Approvals := Some s1\<rparr>);
                    resp = no_response\<lparr>tp_TraceID := cx_TraceID (wc_Context w), tp_ApprovalID := wc_ID w,
                                       tp_Policy := ''human_approval'', tp_LatencyMs := approvalMs\<rparr> in
                Some (case rs_Status res of
                    StatusApproved \<Rightarrow> run_approved q w g1
                  | StatusDenied \<Rightarrow>
                      (Reply 403 (resp\<lparr>tp_Error := ''approval denied by '' @ rs_ResolvedBy res\<rparr>), g1)
                  | StatusTimeout \<Rightarrow> (Reply 408 (resp\<lparr>tp_Error := ''approval timed out''\<rparr>), g1)
                  | StatusPending \<Rightarrow> (Plain 200 [], g1)))))"

section \<open>A decision without the call\<close>

record decide_request =
  dq_Agent :: string
  dq_Tool :: string
  dq_Arguments :: params

text \<open>Who the decision is about: the authenticated agent, or the label in the local posture.\<close>

datatype decide_who = DecideAs string | NeedsAuth | AgentMismatch string

definition decide_agent :: "string \<Rightarrow> identity \<Rightarrow> gateway \<Rightarrow> decide_who" where
  "decide_agent label who g =
     (let agentID = id_AgentID who;
          local = (gw_JWTValidator g = None \<and> \<not> gw_RequireAuth g \<and> agentID = ''anonymous'') in
      if label \<noteq> [] \<and> label \<noteq> agentID
      then
        (if \<not> local \<and> agentID = ''anonymous'' then NeedsAuth
         else if \<not> local
         then AgentMismatch (''agent field '' @ Quote label @ '' does not match the authenticated agent ''
                @ Quote agentID)
         else DecideAs label)
      else if gw_RequireAuth g \<and> agentID = ''anonymous'' then NeedsAuth
      else DecideAs agentID)"

datatype decide_result =
    DecideError int string string
  | DecideHalted halt string string
  | Decided int decision string string

text \<open>
  The local posture cannot require authentication, so the check that follows the label's cannot
  fail for it.
\<close>

definition decided_answer ::
  "request_env \<Rightarrow> trace_context \<Rightarrow> string \<Rightarrow> identity \<Rightarrow> string \<Rightarrow> params \<Rightarrow> gateway
     \<Rightarrow> decide_result \<times> gateway" where
  "decided_answer q tc sessionID who toolName p g =
     (let agentID = id_AgentID who;
          d = ApplyFloors (gw_Pins g) (Evaluate (qe_rt q) (gw_Policy g) agentID toolName p) (resolveTool g toolName);
          (d1, gr) = by_grant q agentID toolName d g;
          d1' = (case gr of None \<Rightarrow> d1 | Some x \<Rightarrow> d1\<lparr>d_Reason := ''temporal grant '' @ g_ID x\<rparr>);
          (d2, g1) = by_precedent q agentID toolName p d1' g;
          e = (call_entry tc sessionID who toolName p (d_Action d2) (d_Rule d2))
                \<lparr>te_GrantID := (case gr of None \<Rightarrow> [] | Some x \<Rightarrow> g_ID x),
                 te_ParentTraceID := (case gr of None \<Rightarrow> [] | Some x \<Rightarrow> og_TraceID (g_Origin x)),
                 te_LatencyMs := elapsed_ms q\<rparr> in
      (Decided (if d_Action d2 = ''deny'' then 403 else 200) d2 agentID (cx_TraceID tc), record_trace q e g1))"

definition handleDecide ::
  "request_env \<Rightarrow> http_call \<Rightarrow> decide_request option \<Rightarrow> gateway \<Rightarrow> decide_result \<times> gateway" where
  "handleDecide q r body g =
     (case body of
        None \<Rightarrow> (DecideError 400 ''invalid JSON body'' [], g)
      | Some req \<Rightarrow>
          if dq_Tool req = [] then (DecideError 400 ''tool field required'' [], g)
          else
            (let toolName = dq_Tool req; p = dq_Arguments req;
                 tc = NewContext (tv_draw (qe_trace q)) (hc_Traceparent r) (hc_XTraceId r);
                 sessionID = hc_SessionID r in
             case extractIdentity r g of
               Inl e \<Rightarrow>
                 (DecideError 401 (auth_message e) (cx_TraceID tc),
                  RecordRefused q tc sessionID toolName p ''auth:invalid_credential'' (auth_message e) 401 g)
             | Inr who0 \<Rightarrow>
                 (case decide_agent (dq_Agent req) who0 g of
                    NeedsAuth \<Rightarrow>
                      (DecideError 401 ''authentication required'' (cx_TraceID tc),
                       RecordRefused q tc sessionID toolName p ''auth:required'' ''authentication required'' 401 g)
                  | AgentMismatch msg \<Rightarrow>
                      (DecideError 403 msg (cx_TraceID tc),
                       RecordRefused q tc sessionID toolName p ''auth:agent_mismatch'' msg 403 g)
                  | DecideAs agentID \<Rightarrow>
                      (let who = who0\<lparr>id_AgentID := agentID\<rparr> in
                       case HaltFor q agentID sessionID g of
                         (Some hl, g1) \<Rightarrow>
                           (DecideHalted hl agentID (cx_TraceID tc),
                            RecordHalted q hl tc sessionID who toolName p g1)
                       | (None, g1) \<Rightarrow> decided_answer q tc sessionID who toolName p g1))))"

section \<open>Who may use the control plane\<close>

text \<open>\<open>loopback\<close> is what the standard library says of the peer's address.\<close>

definition adminAuthorized :: "(string \<Rightarrow> bool) \<Rightarrow> http_call \<Rightarrow> gateway \<Rightarrow> bool" where
  "adminAuthorized loopback r g =
     (if gw_AdminToken g \<noteq> [] then TrimPrefix (hc_Authorization r) ''Bearer '' = gw_AdminToken g
      else loopback (hc_RemoteAddr r))"

definition requireAuthOK :: "http_call \<Rightarrow> gateway \<Rightarrow> bool" where
  "requireAuthOK r g =
     (\<not> gw_RequireAuth g
      \<or> (case extractIdentity r g of Inl e \<Rightarrow> False | Inr who \<Rightarrow> id_AgentID who \<noteq> ''anonymous''))"

section \<open>Frames\<close>

lemma record_trace_frame [simp]:
  "gw_forwarded (record_trace q e g) = gw_forwarded g" "gw_Approvals (record_trace q e g) = gw_Approvals g"
  "gw_Grants (record_trace q e g) = gw_Grants g" "gw_Halts (record_trace q e g) = gw_Halts g"
  "gw_RateLimiter (record_trace q e g) = gw_RateLimiter g" "gw_Registry (record_trace q e g) = gw_Registry g"
  "gw_Policy (record_trace q e g) = gw_Policy g" "gw_Pins (record_trace q e g) = gw_Pins g"
  by (simp_all add: record_trace_def)

lemma update_trace_frame [simp]:
  "gw_forwarded (update_trace q i fn g) = gw_forwarded g" "gw_Approvals (update_trace q i fn g) = gw_Approvals g"
  "gw_Grants (update_trace q i fn g) = gw_Grants g" "gw_Halts (update_trace q i fn g) = gw_Halts g"
  "gw_RateLimiter (update_trace q i fn g) = gw_RateLimiter g"
  by (simp_all add: update_trace_def)

lemma record_usage_frame [simp]:
  "gw_forwarded (record_usage q a t p g) = gw_forwarded g" "gw_Approvals (record_usage q a t p g) = gw_Approvals g"
  by (simp_all add: record_usage_def)

definition sync_halts :: "request_env \<Rightarrow> gateway \<Rightarrow> gateway" where
  "sync_halts q g = g\<lparr>gw_Halts := map_option (syncIfStale (qe_halt q)) (gw_Halts g)\<rparr>"

definition halted :: "request_env \<Rightarrow> string \<Rightarrow> string \<Rightarrow> gateway \<Rightarrow> bool" where
  "halted q agentID sessionID g =
     (case gw_Halts g of None \<Rightarrow> False | Some s \<Rightarrow> stopped (syncIfStale (qe_halt q) s) agentID sessionID)"

lemma HaltFor_state [simp]: "snd (HaltFor q a sid g) = sync_halts q g"
  by (cases "gw_Halts g") (simp_all add: HaltFor_def sync_halts_def halt_Match_def Let_def)

lemma HaltFor_None_iff: "fst (HaltFor q a sid g) = None \<longleftrightarrow> \<not> halted q a sid g"
  by (auto simp: HaltFor_def halted_def halt_Match_None_iff [symmetric] split: option.splits prod.splits)

lemma HaltFor_cases:
  obtains "HaltFor q a sid g = (None, sync_halts q g)" "\<not> halted q a sid g"
  | hl where "HaltFor q a sid g = (Some hl, sync_halts q g)" "halted q a sid g"
proof (cases "HaltFor q a sid g")
  case (Pair x g1)
  then show ?thesis
    using that HaltFor_state [of q a sid g] HaltFor_None_iff [of q a sid g] by (cases x) auto
qed

lemma sync_halts_frame [simp]:
  "gw_forwarded (sync_halts q g) = gw_forwarded g" "gw_Approvals (sync_halts q g) = gw_Approvals g"
  "gw_Grants (sync_halts q g) = gw_Grants g" "gw_RateLimiter (sync_halts q g) = gw_RateLimiter g"
  "gw_Registry (sync_halts q g) = gw_Registry g" "gw_Policy (sync_halts q g) = gw_Policy g"
  "gw_Pins (sync_halts q g) = gw_Pins g" "gw_Traces (sync_halts q g) = gw_Traces g"
  by (simp_all add: sync_halts_def)

lemma resolveTool_sync [simp]: "resolveTool (sync_halts q g) t = resolveTool g t"
  by (simp add: resolveTool_def split: option.split)

text \<open>The floors act on the decision as the single floor of the tool does.\<close>

lemma floored_Nil [simp]: "ApplyFloors pins d None = d"
  by (simp add: ApplyFloors_def)

lemma ApplyFloors_action:
  "d_Action (ApplyFloors pins d tool) = d_Action (Tighten d (Floor pins tool))"
proof (cases tool)
  case None
  then show ?thesis by (simp add: Floor_def)
next
  case (Some u)
  let ?f = "DispatchFloor tool" and ?p = "pins_Floor (tl_Name u) pins"
  have pf: "pin_Floor (pin_Status (tl_Name u) pins) = ?p" by (simp add: pins_Floor_def)
  have two: "d_Action (ApplyFloors pins d tool) = d_Action (Tighten (Tighten d ?f) ?p)"
    using Some by (auto simp: ApplyFloors_def Let_def pf)
  show ?thesis
  proof (cases "?f = [] \<or> ?p = []")
    case True
    then show ?thesis using two Some by (auto simp: Floor_def)
  next
    case False
    let ?c = "\<lparr>d_Action = ?f, d_Rule = [], d_Reason = []\<rparr>"
    have "Floor pins tool = d_Action (Tighten ?c ?p)" using False Some by (simp add: Floor_def)
    then show ?thesis using two False by (auto simp: Tighten_def)
  qed
qed

section \<open>Complete mediation\<close>

text \<open>
  What has to hold for a call to reach a backend at once, stated without the order of the code:
  the caller is identified, no stop covers it, its budget allows it, and the policy with the
  floors of the tool does not refuse it, nor leaves it to a human whom neither a live grant nor
  the precedents replace.
\<close>

definition verdict_on :: "request_env \<Rightarrow> string \<Rightarrow> tool option \<Rightarrow> string \<Rightarrow> params \<Rightarrow> gateway \<Rightarrow> string" where
  "verdict_on q agentID tool toolName p g =
     d_Action (Tighten (Evaluate (qe_rt q) (gw_Policy g) agentID toolName p) (Floor (gw_Pins g) tool))"

definition granted :: "request_env \<Rightarrow> string \<Rightarrow> string \<Rightarrow> gateway \<Rightarrow> bool" where
  "granted q agentID toolName g =
     (\<exists>gs. gw_Grants g = Some gs \<and> (\<exists>gr \<in> live (qe_now q) gs. covers gr agentID toolName))"

definition precedented :: "request_env \<Rightarrow> string \<Rightarrow> string \<Rightarrow> params \<Rightarrow> gateway \<Rightarrow> bool" where
  "precedented q agentID toolName p g =
     (\<exists>s. gw_Approvals g = Some s
        \<and> fst (TryAutoResolveSafe (qe_rt q) (qe_mem q) (qe_now q) (qe_newID q) agentID toolName p s) \<noteq> None)"

definition within_budget :: "request_env \<Rightarrow> string \<Rightarrow> string \<Rightarrow> params \<Rightarrow> gateway \<Rightarrow> bool" where
  "within_budget q agentID toolName p g =
     (\<forall>l. gw_RateLimiter g = Some l \<longrightarrow>
        fst (limiter_Check (qe_now q) agentID
               (d_Rule (Evaluate (qe_rt q) (gw_Policy g) agentID toolName p)) toolName
               (SprintParams (qe_rt q) p) l) = None)"

definition call_passes :: "request_env \<Rightarrow> string \<Rightarrow> string \<Rightarrow> string \<Rightarrow> tool \<Rightarrow> params \<Rightarrow> gateway \<Rightarrow> bool" where
  "call_passes q agentID sessionID toolName tool p g =
     (let a = verdict_on q agentID (Some tool) toolName p g in
      \<not> (gw_RequireAuth g \<and> agentID = ''anonymous'') \<and> \<not> halted q agentID sessionID g
      \<and> within_budget q agentID toolName p g \<and> a \<noteq> ''deny''
      \<and> (a = ''human_approval'' \<longrightarrow> granted q agentID toolName g \<or> precedented q agentID toolName p g))"

lemma by_grant_action:
  "d_Action (fst (by_grant q a t d g)) =
     (if d_Action d = ''human_approval'' \<and> granted q a t g then ''allow'' else d_Action d)"
  by (auto simp: by_grant_def granted_def split: option.splits
      dest: grant_Check_SomeD grant_Check_None_iff [THEN iffD1])

lemma by_precedent_action:
  "d_Action (fst (by_precedent q a t p d g)) =
     (if d_Action d = ''human_approval'' \<and> precedented q a t p g then ''allow'' else d_Action d)"
  by (auto simp: by_precedent_def precedented_def split: option.splits prod.splits)

lemma by_precedent_frame:
  "gw_forwarded (snd (by_precedent q a t p d g)) = gw_forwarded g"
  "gw_Grants (snd (by_precedent q a t p d g)) = gw_Grants g"
  "gw_RateLimiter (snd (by_precedent q a t p d g)) = gw_RateLimiter g"
  by (auto simp: by_precedent_def split: option.splits prod.splits)

lemma rate_check_cases:
  obtains l where "rate_check q tc sid who t p g = (None, g\<lparr>gw_RateLimiter := l\<rparr>)"
      "within_budget q (id_AgentID who) t p g"
  | l msg e where "rate_check q tc sid who t p g = (Some msg, record_trace q e (g\<lparr>gw_RateLimiter := l\<rparr>))"
      "\<not> within_budget q (id_AgentID who) t p g"
proof (cases "gw_RateLimiter g")
  case None
  then have "rate_check q tc sid who t p g = (None, g\<lparr>gw_RateLimiter := None\<rparr>)"
    by (simp add: rate_check_def)
  then show ?thesis using None by (intro that(1)) (simp_all add: within_budget_def)
next
  case (Some l)
  let ?pre = "Evaluate (qe_rt q) (gw_Policy g) (id_AgentID who) t p"
  obtain err l1 where c:
      "limiter_Check (qe_now q) (id_AgentID who) (d_Rule ?pre) t (SprintParams (qe_rt q) p) l = (err, l1)"
    by (cases "limiter_Check (qe_now q) (id_AgentID who) (d_Rule ?pre) t (SprintParams (qe_rt q) p) l")
  show ?thesis
  proof (cases err)
    case None
    then show ?thesis using Some c that(1) [of "Some l1"] by (simp add: rate_check_def within_budget_def)
  next
    case (Some e)
    then show ?thesis
      using \<open>gw_RateLimiter g = Some l\<close> c that(2)
      by (simp add: rate_check_def within_budget_def)
  qed
qed

lemma forwarded_execute:
  "gw_forwarded (snd (execute_call q tc sid who t tool p d gr g))
     = gw_forwarded g @ [\<lparr>fw_Tool = tool, fw_Params = p, fw_Agent = id_AgentID who\<rparr>]"
  by (simp add: execute_call_def forward_def Let_def split: prod.splits option.splits)

lemma forwarded_await:
  "gw_forwarded (snd (await_approval q tc sid cb who t tool p d g)) = gw_forwarded g"
  by (simp add: await_approval_def split: option.splits prod.splits)

lemma forwarded_decided:
  "gw_forwarded (snd (decided_call q tc sid cb who t tool p g)) = gw_forwarded g @
     (let a = verdict_on q (id_AgentID who) (Some tool) t p g in
      if a \<noteq> ''deny'' \<and> (a = ''human_approval'' \<longrightarrow> granted q (id_AgentID who) t g
           \<or> precedented q (id_AgentID who) t p g)
      then [\<lparr>fw_Tool = tool, fw_Params = p, fw_Agent = id_AgentID who\<rparr>] else [])"
proof -
  let ?a = "id_AgentID who"
  let ?d = "ApplyFloors (gw_Pins g) (Evaluate (qe_rt q) (gw_Policy g) ?a t p) (Some tool)"
  obtain d1 gr where G: "by_grant q ?a t ?d g = (d1, gr)" by (cases "by_grant q ?a t ?d g")
  obtain d2 g1 where P: "by_precedent q ?a t p d1 g = (d2, g1)" by (cases "by_precedent q ?a t p d1 g")
  have v: "d_Action ?d = verdict_on q ?a (Some tool) t p g" by (simp add: ApplyFloors_action verdict_on_def)
  have d2: "d_Action d2 = (if d_Action ?d = ''human_approval'' \<and> (granted q ?a t g \<or> precedented q ?a t p g)
      then ''allow'' else d_Action ?d)"
    using by_grant_action [of q ?a t ?d g] by_precedent_action [of q ?a t p d1 g] G P by auto
  have "gw_forwarded g1 = gw_forwarded g" using by_precedent_frame(1) [of q ?a t p d1 g] P by simp
  then show ?thesis
    using G P d2 forwarded_execute [of q tc sid who t tool p d2 gr g1]
      forwarded_await [of q tc sid cb who t tool p d2 g1]
    by (auto simp: decided_call_def Let_def v split: prod.splits)
qed

definition call_tool :: "http_call \<Rightarrow> string" where
  "call_tool r = TrimPrefix (hc_Path r) ''/tool/''"

lemma passes_state [simp]:
  "verdict_on q a tool t p (sync_halts q g) = verdict_on q a tool t p g"
  "verdict_on q a tool t p (g\<lparr>gw_RateLimiter := l\<rparr>) = verdict_on q a tool t p g"
  "granted q a t (sync_halts q g) = granted q a t g" "granted q a t (g\<lparr>gw_RateLimiter := l\<rparr>) = granted q a t g"
  "precedented q a t p (sync_halts q g) = precedented q a t p g"
  "precedented q a t p (g\<lparr>gw_RateLimiter := l\<rparr>) = precedented q a t p g"
  "within_budget q a t p (sync_halts q g) = within_budget q a t p g"
  by (simp_all add: verdict_on_def granted_def precedented_def within_budget_def)

lemma handleToolCall_forwards:
  "gw_forwarded (snd (handleToolCall q r body g)) = gw_forwarded g @
     (case (extractIdentity r g, body, resolveTool g (call_tool r)) of
        (Inr who, Some p, Some tool) \<Rightarrow>
          if call_passes q (id_AgentID who) (hc_SessionID r) (call_tool r) tool p g
          then [\<lparr>fw_Tool = tool, fw_Params = p, fw_Agent = id_AgentID who\<rparr>] else []
      | _ \<Rightarrow> [])"
proof (cases "extractIdentity r g")
  case (Inl e)
  then show ?thesis by (simp add: handleToolCall_def Let_def RecordRefused_def)
next
  case (Inr who)
  let ?a = "id_AgentID who" and ?t = "call_tool r" and ?s = "hc_SessionID r"
  let ?tc = "NewContext (tv_draw (qe_trace q)) (hc_Traceparent r) (hc_XTraceId r)"
  show ?thesis
  proof (cases "(gw_RequireAuth g \<and> ?a = ''anonymous'') \<or> body = None")
    case True
    then show ?thesis using Inr
      by (auto simp: handleToolCall_def Let_def RecordRefused_def call_passes_def split: option.splits)
  next
    case False
    then obtain p where auth: "\<not> (gw_RequireAuth g \<and> ?a = ''anonymous'')" and p: "body = Some p" by auto
    show ?thesis
    proof (cases rule: HaltFor_cases [of q ?a ?s g])
      case (2 hl)
      then show ?thesis using Inr auth p
        by (auto simp: handleToolCall_def Let_def RecordHalted_def call_passes_def split: option.splits)
    next
      case 1
      show ?thesis
      proof (cases "resolveTool g ?t")
        case None
        then show ?thesis using Inr auth p 1
          by (auto simp: handleToolCall_def Let_def call_tool_def [symmetric])
      next
        case (Some tool)
        have H: "handleToolCall q r body g =
            (case rate_check q ?tc ?s who ?t p (sync_halts q g) of
               (Some msg, g2) \<Rightarrow> (Reply 429 (no_response\<lparr>tp_TraceID := cx_TraceID ?tc,
                   tp_Policy := ''rate_limited'', tp_Error := msg\<rparr>), g2)
             | (None, g2) \<Rightarrow> decided_call q ?tc ?s (hc_CallbackURL r) who ?t tool p g2)"
          using Inr auth p 1 Some by (auto simp: handleToolCall_def Let_def call_tool_def [symmetric])
        show ?thesis
        proof (cases rule: rate_check_cases [of q ?tc ?s who ?t p "sync_halts q g"])
          case (1 l)
          then show ?thesis
            unfolding H using Inr auth p Some \<open>\<not> halted q ?a ?s g\<close>
            by (simp add: forwarded_decided call_passes_def Let_def)
        next
          case (2 l msg e)
          then show ?thesis unfolding H using Inr p Some by (simp add: call_passes_def Let_def)
        qed
      qed
    qed
  qed
qed

section \<open>Properties\<close>

text \<open>
  C6. Complete mediation, and no more than that: \<open>handleToolCall\<close> hands the call to a backend, as
  it came and under the name of the caller's credential, exactly when the identity is accepted,
  the body parses, no emergency stop covers the agent or the session, the tool exists, the budget
  allows the call, and the policy tightened by the tool's floor is neither \<open>deny\<close> nor an approval
  that no live grant and no precedent replaces; otherwise nothing is forwarded.
\<close>

theorem forwarded_iff_permitted:
  "gw_forwarded (snd (handleToolCall q r body g)) = gw_forwarded g @
     (case (extractIdentity r g, body, resolveTool g (call_tool r)) of
        (Inr who, Some p, Some tool) \<Rightarrow>
          if call_passes q (id_AgentID who) (hc_SessionID r) (call_tool r) tool p g
          then [\<lparr>fw_Tool = tool, fw_Params = p, fw_Agent = id_AgentID who\<rparr>] else []
      | _ \<Rightarrow> [])"
  by (rule handleToolCall_forwards)

definition demo_request :: request_env where
  "demo_request = \<lparr>qe_rt = demo_rt,
     qe_token = \<lparr>tk_rt = demo_rt, tk_json_length = (\<lambda>_. 2), tk_int_of_huge = (\<lambda>_. 0)\<rparr>,
     qe_start = 1, qe_now = 5, qe_done = 9, qe_trace_rt = demo_trace_rt, qe_trace = demo_trace_env,
     qe_halt = demo_env 5 True, qe_mem = (\<lambda>_ _. None),
     qe_forward = \<lparr>fe_rt = demo_rt, fe_draw = demo_draw, fe_bad_request = (\<lambda>_ _. None),
       fe_http = (\<lambda>_. Answer 200 (Some ''ok'')), fe_json = (\<lambda>_. None), fe_mcp = None, fe_cli = None\<rparr>,
     qe_newID = ''id'', qe_date = Itoa\<rparr>"

definition demo_call :: http_call where
  "demo_call = \<lparr>hc_Path = ''/tool/t'', hc_Authorization = [], hc_Traceparent = [], hc_XTraceId = [],
     hc_SessionID = ''s'', hc_CallbackURL = [], hc_RemoteAddr = ''127.0.0.1:9''\<rparr>"

definition demo_backend :: tool where
  "demo_backend = no_tool\<lparr>tl_Name := ''t''\<rparr>"

definition demo_gateway :: gateway where
  "demo_gateway = \<lparr>gw_Registry = [(''t'', demo_backend)],
     gw_Policy = NewEngine [demo_policy ''p'' ''*'' [demo_rule ''*'' ''allow'']], gw_Pins = None,
     gw_Traces = trace_NewStore 0, gw_Approvals = None, gw_RateLimiter = None, gw_Grants = None,
     gw_Halts = None, gw_JWTValidator = None, gw_AllowLegacyAgent = False, gw_RequireAuth = False,
     gw_AdminToken = [], gw_forwarded = []\<rparr>"

lemma demo_identity:
  "gw_JWTValidator g = None \<Longrightarrow> extractIdentity demo_call g = Inr \<lparr>id_AgentID = ''anonymous'', id_UserID = []\<rparr>"
  by (simp add: extractIdentity_def demo_call_def ResolveIdentity_def TrimPrefix_def HasPrefix_def)

lemma demo_call_tool: "call_tool demo_call = ''t''"
  by (simp add: call_tool_def demo_call_def TrimPrefix_def HasPrefix_def)

lemma demo_resolve: "resolveTool demo_gateway ''t'' = Some demo_backend"
  by (simp add: resolveTool_def demo_gateway_def registry_Get_def)

text \<open>
  An emergency stop is checked before anything else that could change: for a caller it covers,
  a call answers 403 and touches neither approvals, nor grants, nor the rate limiter, nor a
  backend, whatever the tool, the grants and the precedents.
\<close>

theorem halted_call_is_inert:
  assumes "extractIdentity r g = Inr who" and "\<not> (gw_RequireAuth g \<and> id_AgentID who = ''anonymous'')"
    and "halted q (id_AgentID who) (hc_SessionID r) g"
  shows "\<exists>resp e. handleToolCall q r (Some p) g = (Reply 403 resp, record_trace q e (sync_halts q g))
    \<and> tp_Policy resp = ''halted'' \<and> te_Policy e = ''halted'' \<and> te_AgentID e = id_AgentID who
    \<and> te_Tool e = call_tool r"
proof (cases rule: HaltFor_cases [of q "id_AgentID who" "hc_SessionID r" g])
  case 1
  then show ?thesis using assms(3) by simp
next
  case (2 hl)
  let ?tc = "NewContext (tv_draw (qe_trace q)) (hc_Traceparent r) (hc_XTraceId r)"
  let ?e = "(call_entry ?tc (hc_SessionID r) who (call_tool r) p ''halted'' (''halt:'' @ h_ID hl))
      \<lparr>te_LatencyMs := elapsed_ms q, te_Error := halt_Message hl\<rparr>"
  let ?resp = "no_response\<lparr>tp_TraceID := cx_TraceID ?tc, tp_Policy := ''halted'', tp_Error := halt_Message hl\<rparr>"
  have "handleToolCall q r (Some p) g = (Reply 403 ?resp, record_trace q ?e (sync_halts q g))"
    using 2 assms(1,2) by (auto simp: handleToolCall_def Let_def RecordHalted_def call_tool_def)
  then show ?thesis by (intro exI [of _ ?resp] exI [of _ ?e] conjI) (simp_all add: call_entry_def)
qed

definition demo_stopped :: gateway where
  "demo_stopped = demo_gateway\<lparr>gw_Halts :=
     Some \<lparr>hs_active = [demo_halt\<lparr>h_Scope := ''all''\<rparr>], hs_lastSync = 5, hs_db = None\<rparr>\<rparr>"

theorem halted_call_is_inert_witness:
  "\<exists>resp e. handleToolCall demo_request demo_call (Some None) demo_stopped
     = (Reply 403 resp, record_trace demo_request e (sync_halts demo_request demo_stopped))
   \<and> te_Tool e = ''t''"
proof -
  have "extractIdentity demo_call demo_stopped = Inr \<lparr>id_AgentID = ''anonymous'', id_UserID = []\<rparr>"
    by (rule demo_identity) (simp add: demo_stopped_def demo_gateway_def)
  moreover have "\<not> gw_RequireAuth demo_stopped" by (simp add: demo_stopped_def demo_gateway_def)
  moreover have "halted demo_request ''anonymous'' (hc_SessionID demo_call) demo_stopped"
    by (simp add: halted_def demo_stopped_def stopped_def syncIfStale_def Covers_def)
  ultimately show ?thesis
    using halted_call_is_inert [of demo_call demo_stopped "\<lparr>id_AgentID = ''anonymous'', id_UserID = []\<rparr>" demo_request None]
      demo_call_tool by auto
qed

text \<open>
  C9. A call that waited is executed at most once, and only on an approval: when it goes on, it has
  taken the decision off its channel, is forwarded exactly as it was submitted if the decision is
  an approval and not at all otherwise, and can never go on again, whatever callers, people and
  timers do to the approvals afterwards.
\<close>

theorem waiting_call_runs_once:
  assumes "gw_Approvals g = Some s" and "approvals_inv s" and "resume_call q w g = Some (res, g')"
  shows "\<exists>r s1. receive (wc_ID w) s = Some (r, s1) \<and> gw_Approvals g' = Some s1
    \<and> gw_forwarded g' = gw_forwarded g @
        (if rs_Status r = StatusApproved
         then [\<lparr>fw_Tool = wc_Tool w, fw_Params = wc_Params w, fw_Agent = wc_Agent w\<rparr>] else [])
    \<and> (\<forall>now es now' s2 q' g2. approval_run (now, s1) es (now', s2) \<longrightarrow>
          resume_call q' w (g2\<lparr>gw_Approvals := Some s2\<rparr>) = None)"
proof -
  from assms(1,3) obtain r s1 where r: "receive (wc_ID w) s = Some (r, s1)"
    by (auto simp: resume_call_def split: option.splits)
  have g': "gw_Approvals g' = Some s1 \<and> gw_forwarded g' = gw_forwarded g @
      (if rs_Status r = StatusApproved
       then [\<lparr>fw_Tool = wc_Tool w, fw_Params = wc_Params w, fw_Agent = wc_Agent w\<rparr>] else [])"
    using assms(1,3) r
    by (cases "rs_Status r")
       (auto simp: resume_call_def run_approved_def forward_def Let_def split: prod.splits option.splits)
  have "approvals_inv s1" "spent (wc_ID w) s1"
    using receive_inv [OF assms(2) r] receive_spent [OF assms(2) r] by simp_all
  then have "receive (wc_ID w) s2 = None" if "approval_run (now, s1) es (now', s2)" for now es now' s2
    using spent_receive approval_run_spent [OF that] by simp
  then have "\<forall>now es now' s2 q' g2. approval_run (now, s1) es (now', s2) \<longrightarrow>
      resume_call q' w (g2\<lparr>gw_Approvals := Some s2\<rparr>) = None"
    by (simp add: resume_call_def)
  with r g' show ?thesis by blast
qed

definition demo_decided :: approval_store where
  "demo_decided = (approval_NewStore 0)\<lparr>as_pending := [(''a'',
     \<lparr>a_ID = ''a'', a_AgentID = ''bot'', a_Tool = ''t'', a_Params = None, a_PolicyRule = [], a_TraceID = ''x'',
      a_CallbackURL = [], a_Status = StatusApproved, a_CreatedAt = 1, a_ResolvedBy = ''op'', a_ResolvedAt = 2,
      a_Reasoning = [], a_Confidence = Fin 0, a_Result = Some [demo_decision ''op'']\<rparr>)]\<rparr>"

definition demo_waiting :: waiting_call where
  "demo_waiting = \<lparr>wc_ID = ''a'', wc_Context = \<lparr>cx_TraceID = ''x'', cx_SpanID = ''y'', cx_ParentSpanID = []\<rparr>,
     wc_Agent = ''bot'', wc_ToolName = ''t'', wc_Tool = demo_backend, wc_Params = None, wc_Start = 1\<rparr>"

theorem waiting_call_runs_once_witness:
  "\<exists>res g'. resume_call demo_request demo_waiting (demo_gateway\<lparr>gw_Approvals := Some demo_decided\<rparr>) = Some (res, g')
     \<and> gw_forwarded g' = [\<lparr>fw_Tool = demo_backend, fw_Params = None, fw_Agent = ''bot''\<rparr>]"
proof -
  let ?g = "demo_gateway\<lparr>gw_Approvals := Some demo_decided\<rparr>"
  have rc: "map_option (rs_Status \<circ> fst) (receive (wc_ID demo_waiting) demo_decided) = Some StatusApproved"
    by (simp add: receive_def demo_decided_def demo_waiting_def demo_decision_def)
  then have "resume_call demo_request demo_waiting ?g \<noteq> None"
    by (auto simp: resume_call_def Let_def split: option.split prod.split)
  then obtain res g' where r: "resume_call demo_request demo_waiting ?g = Some (res, g')" by auto
  have "approvals_inv demo_decided"
    by (simp add: approvals_inv_def approval_ok_def demo_decided_def keys_distinct_def approval_NewStore_def)
  from waiting_call_runs_once [OF _ this r] rc r show ?thesis
    by (auto simp: demo_waiting_def demo_gateway_def)
qed

lemma decided_answer_action:
  "\<exists>d. fst (decided_answer q tc sid who t p g) = Decided (if d_Action d = ''deny'' then 403 else 200) d
         (id_AgentID who) (cx_TraceID tc)
     \<and> d_Action d = (let a = verdict_on q (id_AgentID who) (resolveTool g t) t p g in
          if a = ''human_approval'' \<and> (granted q (id_AgentID who) t g \<or> precedented q (id_AgentID who) t p g)
          then ''allow'' else a)"
proof -
  let ?a = "id_AgentID who"
  let ?d = "ApplyFloors (gw_Pins g) (Evaluate (qe_rt q) (gw_Policy g) ?a t p) (resolveTool g t)"
  obtain d1 gr where G: "by_grant q ?a t ?d g = (d1, gr)" by (cases "by_grant q ?a t ?d g")
  let ?d1 = "case gr of None \<Rightarrow> d1 | Some x \<Rightarrow> d1\<lparr>d_Reason := ''temporal grant '' @ g_ID x\<rparr>"
  obtain d2 g1 where P: "by_precedent q ?a t p ?d1 g = (d2, g1)" by (cases "by_precedent q ?a t p ?d1 g")
  have "d_Action ?d1 = d_Action d1" by (simp split: option.split)
  then have "d_Action d2 = (let a = verdict_on q ?a (resolveTool g t) t p g in
      if a = ''human_approval'' \<and> (granted q ?a t g \<or> precedented q ?a t p g) then ''allow'' else a)"
    using by_grant_action [of q ?a t ?d g] by_precedent_action [of q ?a t p ?d1 g] G P
    by (auto simp: ApplyFloors_action verdict_on_def Let_def)
  then show ?thesis using G P by (auto simp: decided_answer_def Let_def)
qed

lemma decide_agent_own: "decide_agent label who g = DecideAs a \<Longrightarrow> label = [] \<or> label = id_AgentID who \<Longrightarrow>
    a = id_AgentID who \<and> \<not> (gw_RequireAuth g \<and> id_AgentID who = ''anonymous'')"
  by (auto simp: decide_agent_def Let_def split: if_splits)

text \<open>
  C14. \<open>/decide\<close> answers what the call would meet: for a caller asking about itself, within its
  budget, the call made in the same state is forwarded exactly when the answer is neither \<open>deny\<close>
  nor \<open>human_approval\<close>, and the answer names the caller.
\<close>

theorem decide_predicts_call:
  assumes "extractIdentity r g = Inr who" and "dq_Agent dr = [] \<or> dq_Agent dr = id_AgentID who"
    and "dq_Tool dr = call_tool r" and "resolveTool g (call_tool r) = Some tool"
    and "within_budget q (id_AgentID who) (call_tool r) (dq_Arguments dr) g"
    and "fst (handleDecide q r (Some dr) g) = Decided status d agent traceID"
  shows "agent = id_AgentID who
    \<and> gw_forwarded (snd (handleToolCall q r (Some (dq_Arguments dr)) g)) = gw_forwarded g @
        (if d_Action d = ''deny'' \<or> d_Action d = ''human_approval'' then []
         else [\<lparr>fw_Tool = tool, fw_Params = dq_Arguments dr, fw_Agent = agent\<rparr>])"
proof -
  let ?a = "id_AgentID who" and ?t = "call_tool r" and ?s = "hc_SessionID r" and ?p = "dq_Arguments dr"
  let ?tc = "NewContext (tv_draw (qe_trace q)) (hc_Traceparent r) (hc_XTraceId r)"
  obtain a where da: "decide_agent (dq_Agent dr) who g = DecideAs a"
    using assms(1,6) by (auto simp: handleDecide_def Let_def split: if_splits decide_who.splits)
  from decide_agent_own [OF da assms(2)]
  have a: "a = ?a" and auth: "\<not> (gw_RequireAuth g \<and> ?a = ''anonymous'')" by auto
  have who: "who\<lparr>id_AgentID := ?a\<rparr> = who" by simp
  show ?thesis
  proof (cases rule: HaltFor_cases [of q ?a ?s g])
    case (2 hl)
    then show ?thesis using assms(1,3,6) da a by (auto simp: handleDecide_def Let_def split: if_splits)
  next
    case 1
    then have "fst (decided_answer q ?tc ?s who ?t ?p (sync_halts q g)) = Decided status d agent traceID"
      using assms(1,3,6) da a who by (auto simp: handleDecide_def Let_def split: if_splits)
    with decided_answer_action [of q ?tc ?s who ?t ?p "sync_halts q g"]
    have d: "agent = ?a" "d_Action d = (let v = verdict_on q ?a (Some tool) ?t ?p g in
        if v = ''human_approval'' \<and> (granted q ?a ?t g \<or> precedented q ?a ?t ?p g) then ''allow'' else v)"
      using assms(4) by auto
    show ?thesis
      using assms(1,4,5) 1 auth d by (auto simp: handleToolCall_forwards call_passes_def Let_def)
  qed
qed

lemma demo_allows: "d_Action (Evaluate demo_rt (gw_Policy demo_gateway) ''anonymous'' ''t'' None) = ''allow''"
  by code_simp

theorem decide_predicts_call_witness:
  "\<exists>d. fst (handleDecide demo_request demo_call (Some \<lparr>dq_Agent = [], dq_Tool = ''t'', dq_Arguments = None\<rparr>)
             demo_gateway) = Decided 200 d ''anonymous'' (cx_TraceID (NewContext demo_draw [] []))
   \<and> gw_forwarded (snd (handleToolCall demo_request demo_call (Some None) demo_gateway))
       = [\<lparr>fw_Tool = demo_backend, fw_Params = None, fw_Agent = ''anonymous''\<rparr>]"
proof -
  let ?who = "\<lparr>id_AgentID = ''anonymous'', id_UserID = []\<rparr>"
  let ?dr = "\<lparr>dq_Agent = [], dq_Tool = ''t'', dq_Arguments = None\<rparr>"
  have fields: "gw_Halts demo_gateway = None" "gw_JWTValidator demo_gateway = None"
      "gw_RequireAuth demo_gateway = False" "gw_RateLimiter demo_gateway = None" "gw_Pins demo_gateway = None"
      "qe_rt demo_request = demo_rt" "gw_forwarded demo_gateway = []"
    by (simp_all add: demo_gateway_def demo_request_def)
  have v: "verdict_on demo_request ''anonymous'' (Some demo_backend) ''t'' None demo_gateway = ''allow''"
    using demo_allows by (simp add: verdict_on_def fields Floor_def pins_Floor_def pin_Status_def pin_Floor_def
        DispatchFloor_def demo_backend_def no_tool_def)
  have i: "extractIdentity demo_call demo_gateway = Inr ?who" by (rule demo_identity [OF fields(2)])
  let ?tc = "NewContext (tv_draw (qe_trace demo_request)) (hc_Traceparent demo_call) (hc_XTraceId demo_call)"
  have tc: "?tc = NewContext demo_draw [] []" by (simp add: demo_request_def demo_trace_env_def demo_call_def)
  have h: "HaltFor demo_request ''anonymous'' (hc_SessionID demo_call) demo_gateway = (None, demo_gateway)"
    by (simp add: HaltFor_def fields)
  obtain d where d: "fst (decided_answer demo_request ?tc (hc_SessionID demo_call) ?who ''t'' None demo_gateway)
      = Decided 200 d ''anonymous'' (cx_TraceID ?tc)" "d_Action d = ''allow''"
    using decided_answer_action [of demo_request ?tc "hc_SessionID demo_call" ?who "''t''" None demo_gateway]
      v demo_resolve by auto
  have "fst (handleDecide demo_request demo_call (Some ?dr) demo_gateway) = Decided 200 d ''anonymous'' (cx_TraceID ?tc)"
    using d(1) i h by (simp add: handleDecide_def Let_def decide_agent_def fields)
  moreover from decide_predicts_call [OF i _ _ _ _ this] have
    "gw_forwarded (snd (handleToolCall demo_request demo_call (Some None) demo_gateway))
       = [\<lparr>fw_Tool = demo_backend, fw_Params = None, fw_Agent = ''anonymous''\<rparr>]"
    using demo_resolve d(2) by (simp add: demo_call_tool within_budget_def fields)
  ultimately show ?thesis unfolding tc by blast
qed

text \<open>A rule whose action is none of the three known ones is not refused, and no floor changes it.\<close>

lemma unknown_action_passes:
  assumes "d_Action (Evaluate (qe_rt q) (gw_Policy g) a t p) \<notin> {''allow'', ''human_approval'', ''deny''}"
  shows "verdict_on q a tool t p g = d_Action (Evaluate (qe_rt q) (gw_Policy g) a t p)"
proof -
  let ?d = "Evaluate (qe_rt q) (gw_Policy g) a t p"
  have "actionSeverity (d_Action ?d) = 2" using assms by (simp add: actionSeverity_def)
  then have "Tighten ?d f = ?d" for f using actionSeverity_le2 [of f] by (simp add: Tighten_def)
  then show ?thesis by (simp add: verdict_on_def)
qed

end
