(* ===== verification/Control.thy ===== *)
theory Control
  imports Gateway
begin

text \<open>
  The control plane over HTTP (\<open>proxy/halts.go\<close>, \<open>proxy/pins.go\<close> and the approval and grant
  endpoints of \<open>proxy/handler.go\<close>): an operator opens and lifts an emergency stop, decides
  approvals, makes and revokes grants, accepts catalogue changes, and reads what is waiting. An
  operation that would block on the channel of an approval returns \<open>None\<close>.
\<close>

section \<open>Requests and answers\<close>

record halt_request =
  rq_Scope :: string
  rq_Target :: string
  rq_Reason :: string
  rq_By :: string

datatype halt_answer =
    HaltError int string
  | HaltActive halt
  | HaltOpened halt nat nat
  | HaltLifted halt nat

definition operator :: "string \<Rightarrow> http_call \<Rightarrow> string" where
  "operator by r =
     (let b = TrimSpace by in if b \<noteq> [] then b else ''http:'' @ hc_RemoteAddr r)"

definition halt_error_text :: "halt_error \<Rightarrow> string" where
  "halt_error_text e = (case e of
      HaltNeedsTarget sc \<Rightarrow> ''a '' @ sc @ '' halt needs a target''
    | HaltUnknownScope sc \<Rightarrow> ''unknown scope '' @ Quote sc @ '' (all, agent, session)''
    | HaltNotFound \<Rightarrow> ''no active halt with this ID''
    | HaltDBError \<Rightarrow> ''database error'')"

text \<open>The trace of an operator's action. A nil list of names encodes as null.\<close>

definition control_entry ::
  "request_env \<Rightarrow> string \<Rightarrow> string \<Rightarrow> (string \<times> gval) list \<Rightarrow> int \<Rightarrow> trace_entry" where
  "control_entry q by tool ps status =
     no_entry\<lparr>te_TraceID := NewID (tv_draw (qe_trace q)), te_AgentID := by, te_Tool := tool,
       te_Params := Some ps, te_Policy := ''allow'', te_PolicyRule := ''control-plane'',
       te_StatusCode := status, te_Timestamp := qe_now q\<rparr>"

definition grantIDs :: "grant list \<Rightarrow> gval" where
  "grantIDs gs = VList (map (VStr \<circ> g_ID) gs)"

definition id_list :: "string list \<Rightarrow> gval" where
  "id_list xs = (if xs = [] then VNil else VList (map VStr xs))"

section \<open>Emergency stops\<close>

definition revokes :: "halt \<Rightarrow> grant \<Rightarrow> bool" where
  "revokes hl gr = (g_Agent gr = h_Target hl \<or> Glob (h_Target hl) (g_Agent gr))"

definition revokeGrantsFor :: "time \<Rightarrow> halt \<Rightarrow> gateway \<Rightarrow> grant list \<times> gateway" where
  "revokeGrantsFor now hl g =
     (case gw_Grants g of
        None \<Rightarrow> ([], g)
      | Some gs \<Rightarrow>
          if h_Scope hl = ''all'' then
            (case RevokeWhere now (\<lambda>_. True) gs of (gone, gs1) \<Rightarrow> (gone, g\<lparr>gw_Grants := Some gs1\<rparr>))
          else if h_Scope hl = ''agent'' then
            (case RevokeWhere now (revokes hl) gs of (gone, gs1) \<Rightarrow> (gone, g\<lparr>gw_Grants := Some gs1\<rparr>))
          else ([], g))"

definition in_halt_scope :: "halt \<Rightarrow> string list \<Rightarrow> approval \<Rightarrow> bool" where
  "in_halt_scope hl inSession pa =
     (if h_Scope hl = ''session'' then a_TraceID pa \<noteq> [] \<and> a_TraceID pa \<in> set inSession
      else Covers hl (a_AgentID pa) [])"

fun deny_each ::
  "time \<Rightarrow> string \<Rightarrow> (approval \<Rightarrow> bool) \<Rightarrow> approval list \<Rightarrow> approval_store \<Rightarrow> (string list \<times> approval_store) option" where
  "deny_each now by covered [] s = Some ([], s)"
| "deny_each now by covered (pa # pas) s =
     (if \<not> covered pa then deny_each now by covered pas s
      else
        (case Deny now (a_ID pa) by s of
           None \<Rightarrow> None
         | Some (Some e, s1) \<Rightarrow> deny_each now by covered pas s1
         | Some (None, s1) \<Rightarrow>
             map_option (\<lambda>(denied, s2). (a_ID pa # denied, s2)) (deny_each now by covered pas s1)))"

definition denyPendingFor :: "time \<Rightarrow> halt \<Rightarrow> gateway \<Rightarrow> (string list \<times> gateway) option" where
  "denyPendingFor now hl g =
     (case gw_Approvals g of
        None \<Rightarrow> Some ([], g)
      | Some s \<Rightarrow>
          (let inSession = (if h_Scope hl = ''session''
                 then map te_TraceID (QueryBySession (h_Target hl) 1000000 (gw_Traces g)) else []) in
           map_option (\<lambda>(denied, s1). (denied, g\<lparr>gw_Approvals := Some s1\<rparr>))
             (deny_each now (''halt:'' @ h_ID hl) (in_halt_scope hl inSession) (ListPending s) s)))"

text \<open>What opening a stop does besides the stop itself.\<close>

definition enforce_halt ::
  "request_env \<Rightarrow> string \<Rightarrow> halt \<Rightarrow> gateway \<Rightarrow> (halt_answer \<times> gateway) option" where
  "enforce_halt q by hl g =
     (let (revoked, g1) = revokeGrantsFor (qe_now q) hl g;
          g2 = (if revoked \<noteq> []
                then g1\<lparr>gw_Halts := map_option (RecordRevoked (qe_halt q) (h_ID hl) revoked) (gw_Halts g1)\<rparr>
                else g1) in
      map_option (\<lambda>(denied, g3).
          (HaltOpened hl (length revoked) (length denied),
           record_trace q
             (control_entry q by ''mesh.halt''
                [(''halt_id'', VStr (h_ID hl)), (''scope'', VStr (h_Scope hl)), (''target'', VStr (h_Target hl)),
                 (''reason'', VStr (h_Reason hl)), (''revoked_grants'', grantIDs revoked),
                 (''denied_approvals'', id_list denied)] 201) g3))
        (denyPendingFor (qe_now q) hl g2))"

definition handleCreateHalt ::
  "request_env \<Rightarrow> http_call \<Rightarrow> halt_request option \<Rightarrow> gateway \<Rightarrow> (halt_answer \<times> gateway) option" where
  "handleCreateHalt q r body g =
     (case gw_Halts g of
        None \<Rightarrow> Some (HaltError 501 ''emergency stop not configured'', g)
      | Some hs \<Rightarrow>
          (case body of
             None \<Rightarrow> Some (HaltError 400 ''invalid JSON body'', g)
           | Some req \<Rightarrow>
               (let by = operator (rq_By req) r in
                case halt_Start (qe_halt q) (qe_newID q) (rq_Scope req) (rq_Target req) (rq_Reason req) by hs of
                  (Inl e, hs1) \<Rightarrow> Some (HaltError 400 (halt_error_text e), g\<lparr>gw_Halts := Some hs1\<rparr>)
                | (Inr (hl, created), hs1) \<Rightarrow>
                    (let g1 = g\<lparr>gw_Halts := Some hs1\<rparr> in
                     if \<not> created then Some (HaltActive hl, g1) else enforce_halt q by hl g1))))"

fun restore_all :: "time \<Rightarrow> grant list \<Rightarrow> grant_store \<Rightarrow> string list \<times> grant_store" where
  "restore_all now [] gs = ([], gs)"
| "restore_all now (x # xs) gs =
     (case grant_Restore now x gs of
        (ok, gs1) \<Rightarrow>
          (case restore_all now xs gs1 of (ns, gs2) \<Rightarrow> (if ok then g_ID x # ns else ns, gs2)))"

definition handleResumeHalt ::
  "request_env \<Rightarrow> http_call \<Rightarrow> string \<Rightarrow> gateway \<Rightarrow> halt_answer \<times> gateway" where
  "handleResumeHalt q r by0 g =
     (case gw_Halts g of
        None \<Rightarrow> (HaltError 501 ''emergency stop not configured'', g)
      | Some hs \<Rightarrow>
          (let i = TrimSuffix (TrimPrefix (hc_Path r) ''/halts/'') ''/resume''; by = operator by0 r in
           case halt_Resume (qe_halt q) i by hs of
             (Inl e, hs1) \<Rightarrow>
               (HaltError (if e = HaltNotFound then 404 else 500) (halt_error_text e), g\<lparr>gw_Halts := Some hs1\<rparr>)
           | (Inr hl, hs1) \<Rightarrow>
               (let g1 = g\<lparr>gw_Halts := Some hs1\<rparr>;
                    (restored, grants) =
                      (case gw_Grants g1 of
                         None \<Rightarrow> ([], None)
                       | Some gs \<Rightarrow> map_prod id Some (restore_all (qe_now q) (h_RevokedGrants hl) gs));
                    g2 = g1\<lparr>gw_Grants := grants\<rparr> in
                (HaltLifted hl (length restored),
                 record_trace q
                   (control_entry q by ''mesh.resume''
                      [(''halt_id'', VStr (h_ID hl)), (''scope'', VStr (h_Scope hl)),
                       (''target'', VStr (h_Target hl)), (''restored_grants'', id_list restored)] 200) g2))))"

definition handleListHalts :: "request_env \<Rightarrow> gateway \<Rightarrow> halt list \<times> gateway" where
  "handleListHalts q g =
     (case gw_Halts g of
        None \<Rightarrow> ([], g)
      | Some hs \<Rightarrow> (case halt_Active (qe_halt q) hs of (hls, hs1) \<Rightarrow> (hls, g\<lparr>gw_Halts := Some hs1\<rparr>)))"

section \<open>Catalogue pins\<close>

datatype pins_answer =
    PinsError int string nat
  | PinsPending "pin_view list"
  | PinsAccepted nat "pin_view list"

record pins_request =
  pq_Tools :: "string list"
  pq_Server :: string
  pq_By :: string

definition handlePinsPending :: "gateway \<Rightarrow> pins_answer" where
  "handlePinsPending g =
     (case gw_Pins g of None \<Rightarrow> PinsError 501 ''pin_tools is off'' 0 | Some ps \<Rightarrow> PinsPending (pin_Pending ps))"

definition pin_error_text :: "pin_error \<Rightarrow> string" where
  "pin_error_text e = (case e of
      NotLoaded name \<Rightarrow> ''tool '' @ Quote name @ '' is not loaded from an upstream MCP server''
    | PinWriteFailed name \<Rightarrow> ''pin '' @ name @ '': write failed'')"

definition pin_accept_entry :: "request_env \<Rightarrow> string \<Rightarrow> pin_view \<Rightarrow> trace_entry" where
  "pin_accept_entry q by v =
     control_entry q by ''mesh.pin_accept''
       [(''tool'', VStr (pv_Tool v)), (''server'', VStr (pv_Server v)), (''was'', VStr (pin_text (pv_Status v))),
        (''pinned_description'', VStr (pv_Pinned v)), (''accepted_description'', VStr (pv_Current v)),
        (''fingerprint'', VStr (pv_Fingerprint v))] 200"

definition handlePinsAccept ::
  "request_env \<Rightarrow> pin_env \<Rightarrow> pins_request option \<Rightarrow> gateway \<Rightarrow> pins_answer \<times> gateway" where
  "handlePinsAccept q pe body g =
     (case gw_Pins g of
        None \<Rightarrow> (PinsError 501 ''pin_tools is off'' 0, g)
      | Some ps \<Rightarrow>
          (case body of
             None \<Rightarrow> (PinsError 400 ''invalid JSON body'' 0, g)
           | Some req \<Rightarrow>
               (let tools = pq_Tools req @
                      (if pq_Server req \<noteq> []
                       then map pv_Tool (filter (\<lambda>v. pv_Server v = pq_Server req) (pin_Pending ps)) else []) in
                if tools = []
                then (PinsError 400 ''nothing to accept: give tools or a server with pending tools'' 0, g)
                else
                  (case pin_Accept pe tools ps of
                     ((err, before), ps1) \<Rightarrow>
                       (let by = (if pq_By req = [] then ''admin'' else pq_By req);
                            g1 = fold (\<lambda>v. record_trace q (pin_accept_entry q by v)) before (g\<lparr>gw_Pins := Some ps1\<rparr>) in
                        (case err of
                           Some e \<Rightarrow> PinsError 404 (pin_error_text e) (length before)
                         | None \<Rightarrow> PinsAccepted (length before) (pin_Pending ps1), g1))))))"

section \<open>Approvals\<close>

record resolve_request =
  rr_ResolvedBy :: string
  rr_Reasoning :: string
  rr_Confidence :: flt

text \<open>The identifier is the first segment of what follows \<open>/approvals/\<close> in the path.\<close>

definition approval_id_of :: "string \<Rightarrow> string" where
  "approval_id_of path = takeWhile (\<lambda>c. c \<noteq> CHR ''/'') (TrimPrefix path ''/approvals/'')"

text \<open>An unreadable or absent body is the empty request.\<close>

definition handleResolveAction ::
  "request_env \<Rightarrow> http_call \<Rightarrow> status \<Rightarrow> resolve_request \<Rightarrow> gateway \<Rightarrow> ((int \<times> string) \<times> gateway) option" where
  "handleResolveAction q r st req g =
     (case gw_Approvals g of
        None \<Rightarrow> Some ((404, ''approval system not configured''), g)
      | Some s \<Rightarrow>
          (let by = (if rr_ResolvedBy req = [] then ''http:'' @ hc_RemoteAddr r else rr_ResolvedBy req) in
           case Resolve (qe_now q) (approval_id_of (hc_Path r)) st
                  \<lparr>ro_ResolvedBy = by, ro_Reasoning = rr_Reasoning req, ro_Confidence = rr_Confidence req\<rparr> s of
             None \<Rightarrow> None
           | Some (Some ErrNotFound, s1) \<Rightarrow> Some ((404, ''approval not found''), g\<lparr>gw_Approvals := Some s1\<rparr>)
           | Some (Some ErrAlreadyResolved, s1) \<Rightarrow>
               Some ((409, ''approval already resolved''), g\<lparr>gw_Approvals := Some s1\<rparr>)
           | Some (None, s1) \<Rightarrow> Some ((200, status_text st), g\<lparr>gw_Approvals := Some s1\<rparr>)))"

definition handleApproveAction ::
  "request_env \<Rightarrow> http_call \<Rightarrow> resolve_request \<Rightarrow> gateway \<Rightarrow> ((int \<times> string) \<times> gateway) option" where
  "handleApproveAction q r req g = handleResolveAction q r StatusApproved req g"

definition handleDenyAction ::
  "request_env \<Rightarrow> http_call \<Rightarrow> resolve_request \<Rightarrow> gateway \<Rightarrow> ((int \<times> string) \<times> gateway) option" where
  "handleDenyAction q r req g = handleResolveAction q r StatusDenied req g"

text \<open>What a supervisor sees of an approval; the remaining time is in whole seconds.\<close>

record approval_view =
  av_Approval :: approval
  av_Params :: params
  av_Remaining :: "int option"
  av_InjectionRisk :: bool

definition toApprovalView ::
  "content_env \<Rightarrow> supervisor_config \<Rightarrow> go_rt \<Rightarrow> time \<Rightarrow> gateway \<Rightarrow> approval \<Rightarrow> approval_view" where
  "toApprovalView ce cfg rt now g pa =
     \<lparr>av_Approval = pa,
      av_Params = (if \<not> ShouldExposeContent cfg then RedactParams ce (a_Params pa) else a_Params pa),
      av_Remaining = (if a_Status pa = StatusPending
         then map_option (\<lambda>s. approval_Remaining now (as_timeout s) pa div second) (gw_Approvals g) else None),
      av_InjectionRisk = DetectInjection rt (a_Params pa)\<rparr>"

definition handleListApprovals ::
  "content_env \<Rightarrow> supervisor_config \<Rightarrow> go_rt \<Rightarrow> time \<Rightarrow> string \<Rightarrow> string \<Rightarrow> gateway \<Rightarrow> approval_view list" where
  "handleListApprovals ce cfg rt now status toolFilter g =
     (case gw_Approvals g of
        None \<Rightarrow> []
      | Some s \<Rightarrow>
          map (toApprovalView ce cfg rt now g)
            (filter (\<lambda>pa. \<not> (toolFilter \<noteq> [] \<and> \<not> Glob toolFilter (a_Tool pa)))
               (if status = ''pending'' then ListPending s else approval_List s)))"

section \<open>Grants\<close>

record grant_request =
  gq_Agent :: string
  gq_Tools :: string
  gq_Duration :: string
  gq_ApprovalID :: string
  gq_TraceID :: string

datatype grant_answer = GrantError int string | GrantMade grant | GrantRevoked string

definition handleListGrants :: "time \<Rightarrow> gateway \<Rightarrow> grant list" where
  "handleListGrants now g = (case gw_Grants g of None \<Rightarrow> [] | Some gs \<Rightarrow> grant_List now gs)"

definition handleCreateGrant ::
  "request_env \<Rightarrow> http_call \<Rightarrow> grant_request option \<Rightarrow> gateway \<Rightarrow> grant_answer \<times> gateway" where
  "handleCreateGrant q r body g =
     (case gw_Grants g of
        None \<Rightarrow> (GrantError 500 ''grant store not configured'', g)
      | Some gs \<Rightarrow>
          (case body of
             None \<Rightarrow> (GrantError 400 ''invalid JSON body'', g)
           | Some req \<Rightarrow>
               if gq_Agent req = [] \<or> gq_Tools req = [] \<or> gq_Duration req = []
               then (GrantError 400 ''agent, tools, and duration are required'', g)
               else
                 (case ParseDuration (gq_Duration req) of
                    None \<Rightarrow> (GrantError 400 ''invalid duration'', g)
                  | Some dur \<Rightarrow>
                      (case AddWithOrigin (qe_now q) (qe_newID q) (gq_Agent req) (gq_Tools req)
                              (''http:'' @ hc_RemoteAddr r) dur
                              \<lparr>og_ApprovalID = gq_ApprovalID req, og_TraceID = gq_TraceID req\<rparr> gs of
                         (gr, gs1) \<Rightarrow> (GrantMade gr, g\<lparr>gw_Grants := Some gs1\<rparr>)))))"

definition handleRevokeGrant :: "http_call \<Rightarrow> gateway \<Rightarrow> grant_answer \<times> gateway" where
  "handleRevokeGrant r g =
     (case gw_Grants g of
        None \<Rightarrow> (GrantError 404 ''grant store not configured'', g)
      | Some gs \<Rightarrow>
          (let i = TrimPrefix (hc_Path r) ''/grants/'' in
           case grant_Revoke i gs of
             (False, gs1) \<Rightarrow> (GrantError 404 ''grant not found'', g\<lparr>gw_Grants := Some gs1\<rparr>)
           | (True, gs1) \<Rightarrow> (GrantRevoked i, g\<lparr>gw_Grants := Some gs1\<rparr>)))"

section \<open>The catalogue as an agent's policy sees it\<close>

record tool_decision =
  td_Name :: string
  td_Source :: string
  td_MCPServer :: string
  td_Classification :: classification
  td_Pin :: pin_status
  td_Static :: static_decision

definition tool_decision_for :: "gateway \<Rightarrow> string \<Rightarrow> tool \<Rightarrow> tool_decision" where
  "tool_decision_for g agent t =
     (let sd = Explain (gw_Policy g) agent (tl_Name t);
          fl = Floor (gw_Pins g) (Some t);
          fd = ApplyFloors (gw_Pins g) \<lparr>d_Action = sd_Action sd, d_Rule = sd_Rule sd, d_Reason = []\<rparr> (Some t);
          conds = map (\<lambda>c. c\<lparr>cr_Action := d_Action (Tighten \<lparr>d_Action = cr_Action c, d_Rule = [], d_Reason = []\<rparr> fl)\<rparr>)
                    (sd_Conditional sd) in
      \<lparr>td_Name = tl_Name t, td_Source = tl_Source t, td_MCPServer = tl_MCPServer t,
       td_Classification = Classify (Some t), td_Pin = pin_Status (tl_Name t) (gw_Pins g),
       td_Static = sd\<lparr>sd_Action := d_Action fd, sd_Rule := d_Rule fd, sd_Conditional := conds\<rparr>\<rparr>)"

definition handleToolDecisions :: "string \<Rightarrow> gateway \<Rightarrow> tool_decision list option" where
  "handleToolDecisions agent g =
     (if agent = [] then None
      else Some (map (tool_decision_for g agent) (sort_key tl_Name (registry_All (gw_Registry g)))))"

section \<open>Denying what waits\<close>

lemma settled_pending:
  assumes "settled k res s s'" and "rs_Status res \<noteq> StatusPending"
    and "map_of (as_pending s') i = Some pa" and "a_Status pa = StatusPending"
  shows "map_of (as_pending s) i = Some pa \<and> i \<noteq> k"
  using assms by (cases "i = k") (auto simp: settled_def)

lemma deny_each_spec:
  assumes "approvals_inv s"
  shows "\<exists>denied s'. deny_each now by covered pas s = Some (denied, s') \<and> approvals_inv s'
    \<and> (\<forall>i pa. map_of (as_pending s') i = Some pa \<and> a_Status pa = StatusPending \<longrightarrow>
          map_of (as_pending s) i = Some pa \<and> \<not> (covered pa \<and> pa \<in> set pas))"
  using assms
proof (induction pas arbitrary: s)
  case Nil
  then show ?case by simp
next
  case (Cons p pas)
  note inv = Cons.prems
  let ?res = "\<lparr>rs_Status = StatusDenied, rs_ResolvedBy = by, rs_ResolvedAt = now, rs_Reasoning = [],
      rs_Confidence = Fin 0\<rparr>"
  have own: "findLocked (a_ID p) s = Some p" if "map_of (as_pending s) i = Some p" for i
    using that approvals_invD(1) [OF inv that] by (simp add: findLocked_def)
  show ?case
  proof (cases "covered p")
    case False
    with Cons.IH [OF inv] show ?thesis by auto
  next
    case True
    have "StatusDenied \<in> {StatusApproved, StatusDenied}" by simp
    from Resolve_spec [OF inv this, of "a_ID p" now "by_only by"] show ?thesis
    proof (elim disjE exE conjE)
      assume n: "findLocked (a_ID p) s = None"
        and "Resolve now (a_ID p) StatusDenied (by_only by) s = Some (Some ErrNotFound, s)"
      then have "deny_each now by covered (p # pas) s = deny_each now by covered pas s"
        using True by (simp add: Deny_def)
      with Cons.IH [OF inv] own n show ?thesis by fastforce
    next
      fix pa assume n: "findLocked (a_ID p) s = Some pa" "a_Status pa \<noteq> StatusPending"
        and "Resolve now (a_ID p) StatusDenied (by_only by) s = Some (Some ErrAlreadyResolved, s)"
      then have "deny_each now by covered (p # pas) s = deny_each now by covered pas s"
        using True by (simp add: Deny_def)
      with Cons.IH [OF inv] own n show ?thesis by fastforce
    next
      fix pa s1 assume f: "findLocked (a_ID p) s = Some pa"
        and r: "Resolve now (a_ID p) StatusDenied (by_only by) s = Some (None, s1)"
        and "settled (a_ID pa) \<lparr>rs_Status = StatusDenied, rs_ResolvedBy = ro_ResolvedBy (by_only by),
            rs_ResolvedAt = now, rs_Reasoning = ro_Reasoning (by_only by),
            rs_Confidence = ro_Confidence (by_only by)\<rparr> s s1"
      then have st: "settled (a_ID pa) ?res s s1" by (simp add: by_only_def)
      have inv1: "approvals_inv s1" by (rule settled_inv [OF inv st]) simp
      from Cons.IH [OF inv1] obtain denied s' where d: "deny_each now by covered pas s1 = Some (denied, s')"
          "approvals_inv s'"
          "\<forall>i pa. map_of (as_pending s') i = Some pa \<and> a_Status pa = StatusPending \<longrightarrow>
             map_of (as_pending s1) i = Some pa \<and> \<not> (covered pa \<and> pa \<in> set pas)" by blast
      have eq: "deny_each now by covered (p # pas) s = Some (a_ID p # denied, s')"
        using True r d(1) by (simp add: Deny_def)
      have "map_of (as_pending s) i = Some x \<and> \<not> (covered x \<and> x \<in> set (p # pas))"
        if x: "map_of (as_pending s') i = Some x" "a_Status x = StatusPending" for i x
      proof -
        from d(3) x have x1: "map_of (as_pending s1) i = Some x" "\<not> (covered x \<and> x \<in> set pas)" by auto
        from settled_pending [OF st _ x1(1) x(2)] have m: "map_of (as_pending s) i = Some x" "i \<noteq> a_ID pa"
          by simp_all
        have "x \<noteq> p"
        proof
          assume "x = p"
          with m(1) own f have "pa = p" by fastforce
          with \<open>x = p\<close> m approvals_invD(1) [OF inv m(1)] show False by simp
        qed
        with x1 m show ?thesis by simp
      qed
      with eq d(2) show ?thesis by blast
    qed
  qed
qed

lemma ListPending_iff:
  "approvals_inv s \<Longrightarrow> map_of (as_pending s) i = Some pa \<Longrightarrow> a_Status pa = StatusPending \<Longrightarrow>
   pa \<in> set (ListPending s)"
proof -
  assume "map_of (as_pending s) i = Some pa" and p: "a_Status pa = StatusPending"
  then have "(i, pa) \<in> set (as_pending s)" by (simp add: map_of_SomeD)
  then have m: "pa \<in> set (filter (\<lambda>pa. a_Status pa = StatusPending) (map snd (as_pending s)))"
    (is "_ \<in> set ?xs") using p by force
  have "set (exchange_sort ?xs) = set ?xs"
    using exchange_sort_spec [of ?xs] by (intro mset_eq_setD) blast
  with m show ?thesis by (simp add: ListPending_def collectLocked_def)
qed

section \<open>A stop that stands\<close>

definition same_scope :: "halt \<Rightarrow> halt \<Rightarrow> bool" where
  "same_scope h k = (h_Scope k = h_Scope h \<and> h_Target k = h_Target h)"

text \<open>The stop is known to the process and, where there is a table, to every process that reads it.\<close>

definition standing :: "halt \<Rightarrow> halt_store \<Rightarrow> bool" where
  "standing h s =
     ((\<exists>k \<in> set (hs_active s). same_scope h k)
      \<and> (\<forall>rows. hs_db s = Some rows \<longrightarrow> (\<exists>k \<in> set rows. same_scope h k \<and> h_ResumedAt k = zero_time)))"

lemma same_scope_Covers: "same_scope h k \<Longrightarrow> Covers k a sid = Covers h a sid"
  by (simp add: same_scope_def Covers_def)

lemma standing_sync: "standing h s \<Longrightarrow> standing h (syncIfStale env s)"
  by (auto simp: standing_def syncIfStale_def halt_reload_def split: option.splits)

lemma standing_stops: "standing h s \<Longrightarrow> Covers h a sid \<Longrightarrow> stopped (syncIfStale env s) a sid"
proof -
  assume "standing h s" and c: "Covers h a sid"
  then obtain k where "k \<in> set (hs_active (syncIfStale env s))" "same_scope h k"
    using standing_sync [of h s env] by (auto simp: standing_def)
  moreover from this(2) have "Covers k a sid" using c same_scope_Covers [of h k a sid] by simp
  ultimately show ?thesis by (auto simp: stopped_def)
qed

lemma record_in_set:
  "record_in i gs hs = Some (h', hs') \<Longrightarrow>
     (\<forall>k \<in> set hs. \<exists>k' \<in> set hs'. same_scope k k') \<and> (\<forall>k' \<in> set hs'. \<exists>k \<in> set hs. same_scope k k' \<and> h_ID k' = h_ID k)"
  by (induction hs arbitrary: h' hs') (fastforce simp: same_scope_def Let_def split: if_splits)+

lemma standing_RecordRevoked: "standing h s \<Longrightarrow> standing h (RecordRevoked env i gs s)"
proof (cases "record_in i gs (hs_active s)")
  case None
  assume "standing h s" with None show ?thesis by (simp add: RecordRevoked_def)
next
  case (Some p)
  assume st: "standing h s"
  obtain h' hs' where p: "p = (h', hs')" by (cases p)
  obtain k where "k \<in> set (hs_active s)" "same_scope h k" using st by (auto simp: standing_def)
  moreover from this record_in_set [OF Some [unfolded p]] obtain k' where "k' \<in> set hs'" "same_scope k k'" by blast
  ultimately have act: "\<exists>k' \<in> set hs'. same_scope h k'" by (auto simp: same_scope_def)
  have db: "\<exists>k \<in> set (map (\<lambda>r. if h_ID r = h_ID h' then r\<lparr>h_RevokedGrants := h_RevokedGrants h'\<rparr> else r) rows).
      same_scope h k \<and> h_ResumedAt k = zero_time" if "hs_db s = Some rows" for rows
  proof -
    from that st obtain k where k: "k \<in> set rows" "same_scope h k" "h_ResumedAt k = zero_time"
      by (auto simp: standing_def)
    then show ?thesis
      by (intro bexI [of _ "if h_ID k = h_ID h' then k\<lparr>h_RevokedGrants := h_RevokedGrants h'\<rparr> else k"])
         (auto simp: same_scope_def)
  qed
  from act db st show ?thesis
    by (auto simp: RecordRevoked_def Some p halt_dbUpdateRevoked_def standing_def)
qed

lemma started_stands:
  assumes "halt_Start env i scope target reason by s = (Inr (h, True), s')" shows "standing h s'"
proof -
  have "h \<in> set (hs_active s')" "h_ResumedAt h = zero_time" "hs_db s' = map_option (\<lambda>rows. rows @ [h]) (hs_db s)"
    using halt_Start_cases [OF assms] by blast+
  then show ?thesis by (auto simp: standing_def same_scope_def)
qed

lemma revokeGrantsFor_frame:
  assumes "revokeGrantsFor now hl g = (revoked, g1)"
  shows "gw_Halts g1 = gw_Halts g" "gw_Approvals g1 = gw_Approvals g" "gw_forwarded g1 = gw_forwarded g"
    "gw_Traces g1 = gw_Traces g"
  using assms by (auto simp: revokeGrantsFor_def split: option.splits if_splits prod.splits)

lemma denyPendingFor_spec:
  assumes "\<And>s. gw_Approvals g = Some s \<Longrightarrow> approvals_inv s"
  shows "\<exists>denied ap. denyPendingFor now hl g = Some (denied, g\<lparr>gw_Approvals := ap\<rparr>)
    \<and> (\<forall>s i pa. ap = Some s \<and> map_of (as_pending s) i = Some pa \<and> a_Status pa = StatusPending \<longrightarrow>
         \<not> (h_Scope hl \<noteq> ''session'' \<and> Covers hl (a_AgentID pa) []))"
proof (cases "gw_Approvals g")
  case None
  then show ?thesis by (intro exI [of _ "[]"] exI [of _ None]) (simp add: denyPendingFor_def)
next
  case (Some s)
  let ?in = "if h_Scope hl = ''session''
     then map te_TraceID (QueryBySession (h_Target hl) 1000000 (gw_Traces g)) else []"
  have inv: "approvals_inv s" using assms Some by simp
  from deny_each_spec [OF inv, of now "''halt:'' @ h_ID hl" "in_halt_scope hl ?in" "ListPending s"]
  obtain denied s' where d: "deny_each now (''halt:'' @ h_ID hl) (in_halt_scope hl ?in) (ListPending s) s = Some (denied, s')"
    and rest: "\<forall>i pa. map_of (as_pending s') i = Some pa \<and> a_Status pa = StatusPending \<longrightarrow>
       map_of (as_pending s) i = Some pa \<and> \<not> (in_halt_scope hl ?in pa \<and> pa \<in> set (ListPending s))" by blast
  have "denyPendingFor now hl g = Some (denied, g\<lparr>gw_Approvals := Some s'\<rparr>)"
    using Some d by (simp add: denyPendingFor_def)
  moreover have "\<not> (h_Scope hl \<noteq> ''session'' \<and> Covers hl (a_AgentID pa) [])"
    if "map_of (as_pending s') i = Some pa" "a_Status pa = StatusPending" for i pa
  proof -
    from rest that have m: "map_of (as_pending s) i = Some pa" "\<not> (in_halt_scope hl ?in pa \<and> pa \<in> set (ListPending s))"
      by blast+
    with ListPending_iff [OF inv m(1) that(2)] show ?thesis by (auto simp: in_halt_scope_def)
  qed
  ultimately show ?thesis by blast
qed

lemma enforce_halt_spec:
  assumes "\<And>s. gw_Approvals g = Some s \<Longrightarrow> approvals_inv s"
    and R: "revokeGrantsFor (qe_now q) hl g = (revoked, g1)"
  shows "\<exists>nd g' ap. enforce_halt q by hl g = Some (HaltOpened hl (length revoked) nd, g')
    \<and> gw_Approvals g' = ap \<and> gw_Grants g' = gw_Grants g1 \<and> gw_forwarded g' = gw_forwarded g
    \<and> gw_Halts g' = (if revoked \<noteq> [] then map_option (RecordRevoked (qe_halt q) (h_ID hl) revoked) (gw_Halts g)
         else gw_Halts g)
    \<and> (\<forall>s i pa. ap = Some s \<and> map_of (as_pending s) i = Some pa \<and> a_Status pa = StatusPending \<longrightarrow>
         \<not> (h_Scope hl \<noteq> ''session'' \<and> Covers hl (a_AgentID pa) []))"
proof -
  let ?g2 = "if revoked \<noteq> []
      then g1\<lparr>gw_Halts := map_option (RecordRevoked (qe_halt q) (h_ID hl) revoked) (gw_Halts g1)\<rparr> else g1"
  note f = revokeGrantsFor_frame [OF R]
  have "approvals_inv s" if "gw_Approvals ?g2 = Some s" for s
    using that assms(1) f by (auto split: if_splits)
  from denyPendingFor_spec [OF this] obtain denied ap where
    d: "denyPendingFor (qe_now q) hl ?g2 = Some (denied, ?g2\<lparr>gw_Approvals := ap\<rparr>)"
    and rest: "\<forall>s i pa. ap = Some s \<and> map_of (as_pending s) i = Some pa \<and> a_Status pa = StatusPending \<longrightarrow>
         \<not> (h_Scope hl \<noteq> ''session'' \<and> Covers hl (a_AgentID pa) [])" by blast
  have "\<exists>e. enforce_halt q by hl g = Some (HaltOpened hl (length revoked) (length denied),
      record_trace q e (?g2\<lparr>gw_Approvals := ap\<rparr>))"
    using d by (auto simp: enforce_halt_def R Let_def)
  then show ?thesis using rest f by fastforce
qed

text \<open>The grants that a stop has taken away travel with its record, by its identifier.\<close>

definition revoked_under :: "string \<Rightarrow> grant list \<Rightarrow> halt_store \<Rightarrow> bool" where
  "revoked_under i rv s =
     ((\<forall>k \<in> set (hs_active s). halt_matches i k \<longrightarrow> h_RevokedGrants k = rv)
      \<and> (\<forall>rows. hs_db s = Some rows \<longrightarrow> (\<forall>k \<in> set rows. halt_matches i k \<longrightarrow> h_RevokedGrants k = rv)))"

definition unknown_halt :: "string \<Rightarrow> halt_store \<Rightarrow> bool" where
  "unknown_halt i s =
     ((\<forall>k \<in> set (hs_active s). \<not> halt_matches i k)
      \<and> (\<forall>rows. hs_db s = Some rows \<longrightarrow> (\<forall>k \<in> set rows. \<not> halt_matches i k)))"

lemma unknown_halt_sync: "unknown_halt i s \<Longrightarrow> unknown_halt i (syncIfStale env s)"
  by (auto simp: unknown_halt_def syncIfStale_def halt_reload_def split: option.splits)

lemma revoked_under_sync: "revoked_under i rv s \<Longrightarrow> revoked_under i rv (syncIfStale env s)"
  by (auto simp: revoked_under_def syncIfStale_def halt_reload_def split: option.splits)

lemma halt_Start_created:
  assumes "halt_Start env i scope target reason by s = (Inr (h, True), s')"
  shows "h_ID h = i \<and> h_RevokedGrants h = [] \<and> hs_active s' = hs_active (syncIfStale env s) @ [h]
    \<and> hs_db s' = map_option (\<lambda>rows. rows @ [h]) (hs_db s)"
  using assms by (auto simp: halt_Start_def Let_def halt_dbInsert_def
      split: sum.splits option.splits if_splits bool.splits prod.splits)

lemma record_in_last:
  "\<forall>u \<in> set us. h_ID u \<noteq> h_ID h \<Longrightarrow>
   record_in (h_ID h) gs (us @ [h]) =
     Some (h\<lparr>h_RevokedGrants := h_RevokedGrants h @ gs\<rparr>, us @ [h\<lparr>h_RevokedGrants := h_RevokedGrants h @ gs\<rparr>])"
  by (induction us) (auto simp: Let_def)

lemma revoked_under_Start:
  assumes "halt_Start env i scope target reason by s = (Inr (h, True), s')" and "unknown_halt i s"
    and "he_write_ok env"
  shows "revoked_under i [] s'" and "revoked_under i rv (RecordRevoked env i rv s')"
proof -
  note c = halt_Start_created [OF assms(1)]
  note u = unknown_halt_sync [OF assms(2), of env]
  show "revoked_under i [] s'"
    using c u by (auto simp: revoked_under_def unknown_halt_def)
  let ?us = "hs_active (syncIfStale env s)"
  have "\<forall>k \<in> set ?us. h_ID k \<noteq> h_ID h" using u c by (auto simp: unknown_halt_def halt_matches_def)
  from record_in_last [OF this, of rv] c
  have "RecordRevoked env i rv s' =
      halt_dbUpdateRevoked env (h\<lparr>h_RevokedGrants := rv\<rparr>) (s'\<lparr>hs_active := ?us @ [h\<lparr>h_RevokedGrants := rv\<rparr>]\<rparr>)"
    by (simp add: RecordRevoked_def)
  then show "revoked_under i rv (RecordRevoked env i rv s')"
    using c u assms(3) by (auto simp: revoked_under_def unknown_halt_def halt_dbUpdateRevoked_def halt_matches_def)
qed

lemma restore_all_fold: "snd (restore_all now xs gs) = fold (\<lambda>x s. snd (grant_Restore now x s)) xs gs"
  by (induction xs arbitrary: gs) (auto split: prod.splits, metis snd_conv)

text \<open>What a successful opening consists of.\<close>

lemma handleCreateHalt_openedE:
  assumes "\<And>s. gw_Approvals g = Some s \<Longrightarrow> approvals_inv s"
    and "handleCreateHalt q r (Some req) g = Some (HaltOpened hl n m, g')"
  obtains hs hs1 rv g1 where "gw_Halts g = Some hs"
    "halt_Start (qe_halt q) (qe_newID q) (rq_Scope req) (rq_Target req) (rq_Reason req) (operator (rq_By req) r) hs
       = (Inr (hl, True), hs1)"
    "revokeGrantsFor (qe_now q) hl (g\<lparr>gw_Halts := Some hs1\<rparr>) = (rv, g1)"
    "gw_Halts g' = Some (if rv = [] then hs1 else RecordRevoked (qe_halt q) (qe_newID q) rv hs1)"
    "gw_Grants g' = gw_Grants g1" "gw_forwarded g' = gw_forwarded g"
    "\<forall>s i pa. gw_Approvals g' = Some s \<and> map_of (as_pending s) i = Some pa \<and> a_Status pa = StatusPending \<longrightarrow>
       \<not> (h_Scope hl \<noteq> ''session'' \<and> Covers hl (a_AgentID pa) [])"
proof -
  let ?by = "operator (rq_By req) r"
  obtain hs where hs: "gw_Halts g = Some hs"
    using assms(2) by (cases "gw_Halts g") (auto simp: handleCreateHalt_def)
  let ?start = "halt_Start (qe_halt q) (qe_newID q) (rq_Scope req) (rq_Target req) (rq_Reason req) ?by hs"
  obtain x hs1 where x: "?start = (x, hs1)" by (cases ?start)
  let ?g = "g\<lparr>gw_Halts := Some hs1\<rparr>"
  obtain h c where hc: "x = Inr (h, c)" "c"
    using assms(2) x hs by (cases x) (auto simp: handleCreateHalt_def Let_def split: if_splits)
  obtain rv g1 where R: "revokeGrantsFor (qe_now q) h ?g = (rv, g1)"
    by (cases "revokeGrantsFor (qe_now q) h ?g")
  have "\<And>s. gw_Approvals ?g = Some s \<Longrightarrow> approvals_inv s" using assms(1) by simp
  note spec = enforce_halt_spec [OF this R, of ?by]
  have en: "enforce_halt q ?by h ?g = Some (HaltOpened hl n m, g')"
    using assms(2) x hs hc by (simp add: handleCreateHalt_def Let_def)
  with spec have "h = hl" by auto
  moreover have "h_ID hl = qe_newID q" using halt_Start_created x hc \<open>h = hl\<close> by fastforce
  ultimately show thesis using that [of hs hs1 rv g1] hs x hc R spec en by (cases "rv = []") auto
qed

section \<open>Properties\<close>

definition demo_stop :: halt_request where
  "demo_stop = \<lparr>rq_Scope = ''all'', rq_Target = [], rq_Reason = [], rq_By = ''op''\<rparr>"

definition demo_control :: gateway where
  "demo_control = demo_gateway\<lparr>gw_Halts := Some \<lparr>hs_active = [], hs_lastSync = 5, hs_db = None\<rparr>,
     gw_Grants := Some demo_grants\<rparr>"

definition demo_lift :: http_call where
  "demo_lift = demo_call\<lparr>hc_Path := ''/halts/id/resume''\<rparr>"

lemma demo_lifted:
  "case handleCreateHalt demo_request demo_call (Some demo_stop) demo_control of
     Some (HaltOpened hl n m, g1) \<Rightarrow>
       (case handleResumeHalt demo_request demo_lift [] g1 of (HaltLifted hl' k, g2) \<Rightarrow> n = k | _ \<Rightarrow> False)
   | _ \<Rightarrow> False"
  by code_simp

lemma demo_approvals: "gw_Approvals demo_control = Some s \<Longrightarrow> approvals_inv s"
  by (simp add: demo_control_def demo_gateway_def)


lemma demo_stop_scope:
  assumes "handleCreateHalt demo_request demo_call (Some demo_stop) demo_control = Some (HaltOpened hl n m, g')"
  shows "h_Scope hl = ''all''"
proof (rule handleCreateHalt_openedE [OF demo_approvals assms])
  fix hs hs1
  assume "halt_Start (qe_halt demo_request) (qe_newID demo_request) (rq_Scope demo_stop) (rq_Target demo_stop)
    (rq_Reason demo_stop) (operator (rq_By demo_stop) demo_call) hs = (Inr (hl, True), hs1)"
  from halt_Start_cases [OF this] show ?thesis by (auto simp: demo_stop_def)
qed


text \<open>
  C15. Lifting a stop gives back exactly what opening it took away: when an operator lifts the stop
  under its identifier, later, the grants that let calls through are those that would have without
  the stop: the ones it revoked are back unless they expired in the meantime, and no other.
\<close>

theorem stop_and_lift_keep_grants:
  assumes "\<And>s. gw_Approvals g = Some s \<Longrightarrow> approvals_inv s"
    and "handleCreateHalt q r (Some req) g = Some (HaltOpened hl n m, g1)"
    and "gw_Grants g = Some gs" and "grants_inv gs"
    and "gw_Halts g = Some hs" and "unknown_halt (qe_newID q) hs" and "he_write_ok (qe_halt q)"
    and "handleResumeHalt q' r' by' g1 = (HaltLifted hl' k, g2)"
    and "TrimSuffix (TrimPrefix (hc_Path r') ''/halts/'') ''/resume'' = qe_newID q"
    and "qe_now q \<le> qe_now q'"
  shows "granted q' a t g2 \<longleftrightarrow> granted q' a t g"
proof -
  obtain hs1 rv g0 where
    st: "halt_Start (qe_halt q) (qe_newID q) (rq_Scope req) (rq_Target req) (rq_Reason req) (operator (rq_By req) r) hs
       = (Inr (hl, True), hs1)"
    and R: "revokeGrantsFor (qe_now q) hl (g\<lparr>gw_Halts := Some hs1\<rparr>) = (rv, g0)"
    and H: "gw_Halts g1 = Some (if rv = [] then hs1 else RecordRevoked (qe_halt q) (qe_newID q) rv hs1)"
    and G: "gw_Grants g1 = gw_Grants g0"
    by (rule handleCreateHalt_openedE [OF assms(1,2)]) (use assms(5) in auto)
  let ?hs2 = "if rv = [] then hs1 else RecordRevoked (qe_halt q) (qe_newID q) rv hs1"
  have ru: "revoked_under (qe_newID q) rv ?hs2"
    using revoked_under_Start [OF st assms(6,7)] by simp
  obtain sel where sel: "gw_Grants g0 = Some (snd (RevokeWhere (qe_now q) sel gs))" "rv = fst (RevokeWhere (qe_now q) sel gs)"
  proof -
    have "RevokeWhere (qe_now q) (\<lambda>_. False) gs = ([], gs)" by (simp add: RevokeWhere_def)
    then show thesis
      using R assms(3) that [of "\<lambda>_. True"] that [of "revokes hl"] that [of "\<lambda>_. False"]
      by (auto simp: revokeGrantsFor_def split: if_splits prod.splits)
  qed
  obtain hs3 where rs: "halt_Resume (qe_halt q') (qe_newID q) (operator by' r') ?hs2 = (Inr hl', hs3)"
    and g2: "gw_Grants g2 = Some (snd (restore_all (qe_now q') (h_RevokedGrants hl') (snd (RevokeWhere (qe_now q) sel gs))))"
    using assms(8,9) H G sel(1)
    by (auto simp: handleResumeHalt_def Let_def map_prod_def split: prod.splits sum.splits)
  from halt_Resume_InrD [OF rs] revoked_under_sync [OF ru, of "qe_halt q'"]
  have "h_RevokedGrants hl' = rv" by (auto simp: revoked_under_def)
  then have "live (qe_now q') (the (gw_Grants g2)) = live (qe_now q') gs"
    using g2 sel(2) grant_halt.stop_then_resume [OF assms(4,10), of sel] by (simp add: restore_all_fold)
  then show ?thesis using g2 assms(3) by (simp add: granted_def)
qed

theorem stop_and_lift_keep_grants_witness:
  "\<exists>hl n m g1 hl' k g2. handleCreateHalt demo_request demo_call (Some demo_stop) demo_control = Some (HaltOpened hl n m, g1)
     \<and> handleResumeHalt demo_request demo_lift [] g1 = (HaltLifted hl' k, g2)
     \<and> granted demo_request ''bot'' ''fs.read'' g2"
proof -
  obtain hl n m g1 where h:
      "handleCreateHalt demo_request demo_call (Some demo_stop) demo_control = Some (HaltOpened hl n m, g1)"
    and "case handleResumeHalt demo_request demo_lift [] g1 of (HaltLifted hl' k, g2) \<Rightarrow> n = k | _ \<Rightarrow> False"
    using demo_lifted by (auto split: option.splits prod.splits halt_answer.splits)
  then obtain hl' k g2 where l: "handleResumeHalt demo_request demo_lift [] g1 = (HaltLifted hl' k, g2)"
    by (auto split: prod.splits halt_answer.splits)
  have inv: "grants_inv demo_grants"
    by (simp add: grants_inv_def demo_grants_def grant_Add_def AddWithOrigin_def Let_def grant_NewStore_def)
  have "TrimSuffix (TrimPrefix (hc_Path demo_lift) ''/halts/'') ''/resume'' = qe_newID demo_request" by code_simp
  note keeps = stop_and_lift_keep_grants [OF demo_approvals h _ inv _ _ _ l this]
  have "granted demo_request ''bot'' ''fs.read'' g2 = granted demo_request ''bot'' ''fs.read'' demo_control"
    by (rule keeps [where hs = "\<lparr>hs_active = [], hs_lastSync = 5, hs_db = None\<rparr>"])
       (simp_all add: demo_control_def unknown_halt_def demo_request_def demo_env_def)
  moreover have "grant_Check 5 ''bot'' ''fs.read'' demo_grants \<noteq> None" by code_simp
  then have "granted demo_request ''bot'' ''fs.read'' demo_control"
    by (auto simp: granted_def demo_control_def demo_request_def grant_Check_None_iff)
  ultimately show ?thesis using h l by blast
qed

text \<open>
  C16. Opening a stop always answers: no lock is held for ever on the channel of an approval, and
  what cannot be opened is refused with an error.
\<close>

theorem handleCreateHalt_answers:
  assumes "\<And>s. gw_Approvals g = Some s \<Longrightarrow> approvals_inv s"
  shows "\<exists>answer g'. handleCreateHalt q r body g = Some (answer, g')
    \<and> (case (gw_Halts g, body) of
         (Some hs, Some req) \<Rightarrow>
           (case normal_target (rq_Scope req) (rq_Target req) of
              Inl e \<Rightarrow> answer = HaltError 400 (halt_error_text e)
            | Inr t \<Rightarrow>
                answer = HaltError 400 (halt_error_text HaltDBError) \<and> \<not> he_write_ok (qe_halt q)
                \<or> (\<exists>hl. (answer = HaltActive hl \<or> (\<exists>n m. answer = HaltOpened hl n m))
                       \<and> h_Scope hl = rq_Scope req \<and> h_Target hl = t))
       | (None, _) \<Rightarrow> \<exists>msg. answer = HaltError 501 msg
       | _ \<Rightarrow> \<exists>msg. answer = HaltError 400 msg)"
proof (cases "gw_Halts g")
  case None
  then show ?thesis by (simp add: handleCreateHalt_def)
next
  case (Some hs)
  show ?thesis
  proof (cases body)
    case None
    then show ?thesis using Some by (simp add: handleCreateHalt_def)
  next
    case body: (Some req)
    let ?by = "operator (rq_By req) r"
    let ?start = "halt_Start (qe_halt q) (qe_newID q) (rq_Scope req) (rq_Target req) (rq_Reason req) ?by hs"
    obtain x hs1 where x: "?start = (x, hs1)" by (cases ?start)
    show ?thesis
    proof (cases x)
      case (Inl e)
      then have h: "handleCreateHalt q r body g = Some (HaltError 400 (halt_error_text e), g\<lparr>gw_Halts := Some hs1\<rparr>)"
        using Some body x by (simp add: handleCreateHalt_def Let_def)
      show ?thesis
      proof (cases "normal_target (rq_Scope req) (rq_Target req)")
        case (Inl e')
        then show ?thesis using x \<open>x = Inl e\<close> h Some body by (simp add: halt_Start_def)
      next
        case (Inr t)
        then have "e = HaltDBError \<and> \<not> he_write_ok (qe_halt q)"
          using x \<open>x = Inl e\<close> by (auto simp: halt_Start_def halt_dbInsert_def Let_def
              split: option.splits if_splits prod.splits bool.splits)
        then show ?thesis using h Some body Inr by simp
      qed
    next
      case (Inr hc)
      obtain hl c where hc: "hc = (hl, c)" by (cases hc)
      from halt_Start_cases [OF x [unfolded Inr hc]] obtain t where
        t: "normal_target (rq_Scope req) (rq_Target req) = Inr t" "h_Scope hl = rq_Scope req" "h_Target hl = t"
        by blast
      obtain rv g1 where R: "revokeGrantsFor (qe_now q) hl (g\<lparr>gw_Halts := Some hs1\<rparr>) = (rv, g1)"
        by (cases "revokeGrantsFor (qe_now q) hl (g\<lparr>gw_Halts := Some hs1\<rparr>)")
      have "\<exists>nd g'. enforce_halt q ?by hl (g\<lparr>gw_Halts := Some hs1\<rparr>) = Some (HaltOpened hl (length rv) nd, g')"
        using enforce_halt_spec [OF _ R, of ?by] assms by auto
      then show ?thesis
        using Some body x Inr hc t by (cases c) (auto simp: handleCreateHalt_def Let_def)
    qed
  qed
qed

theorem handleCreateHalt_answers_witness:
  "\<exists>hl. fst (the (handleCreateHalt demo_request demo_call (Some demo_stop) demo_control)) = hl
     \<and> (\<exists>k n m. (hl = HaltActive k \<or> hl = HaltOpened k n m) \<and> h_Scope k = ''all'')"
proof -
  have f: "gw_Halts demo_control = Some \<lparr>hs_active = [], hs_lastSync = 5, hs_db = None\<rparr>"
      "normal_target ''all'' [] = Inr []" "rq_Scope demo_stop = ''all''" "rq_Target demo_stop = []"
      "he_write_ok (qe_halt demo_request)"
    by (simp_all add: demo_control_def demo_stop_def normal_target_def demo_request_def demo_env_def)
  from handleCreateHalt_answers [OF demo_approvals, where g = demo_control and q = demo_request and r = demo_call and body = "Some demo_stop"]
  show ?thesis by (auto simp: f)
qed

text \<open>
  The decision table of \<open>/tools/decisions\<close> and the floor: what a call can meet is among what the
  table lists for its tool.
\<close>

lemma Tighten_action_cong: "d_Action d = d_Action d' \<Longrightarrow> d_Action (Tighten d f) = d_Action (Tighten d' f)"
  by (simp add: Tighten_def)

text \<open>
  The decision table is the whole story of the policy and the floors: for every agent, every
  tool of the catalogue and all parameters, the action a call of the tool meets before grants and
  precedents is the action listed for it or one of the conditional actions listed with it, each
  with the tool's floor already in; and every tool of the catalogue is listed.
\<close>

theorem decision_table_is_complete:
  assumes "agent \<noteq> []"
  shows "\<exists>rows. handleToolDecisions agent g = Some rows
    \<and> (\<forall>t \<in> set (registry_All (gw_Registry g)). \<exists>td \<in> set rows. td_Name td = tl_Name t
         \<and> (\<forall>q p. verdict_on q agent (Some t) (tl_Name t) p g
               \<in> insert (sd_Action (td_Static td)) (cr_Action ` set (sd_Conditional (td_Static td)))))"
proof -
  let ?rows = "map (tool_decision_for g agent) (sort_key tl_Name (registry_All (gw_Registry g)))"
  have "\<exists>td \<in> set ?rows. td_Name td = tl_Name t
      \<and> (\<forall>q p. verdict_on q agent (Some t) (tl_Name t) p g
            \<in> insert (sd_Action (td_Static td)) (cr_Action ` set (sd_Conditional (td_Static td))))"
    if t: "t \<in> set (registry_All (gw_Registry g))" for t
  proof (intro bexI conjI allI)
    let ?td = "tool_decision_for g agent t"
    show "?td \<in> set ?rows" using t by simp
    show "td_Name ?td = tl_Name t" by (simp add: tool_decision_for_def Let_def)
    fix q :: request_env and p
    let ?sd = "Explain (gw_Policy g) agent (tl_Name t)" and ?fl = "Floor (gw_Pins g) (Some t)"
    let ?d = "Evaluate (qe_rt q) (gw_Policy g) agent (tl_Name t) p"
    have v: "verdict_on q agent (Some t) (tl_Name t) p g = d_Action (Tighten ?d ?fl)"
      by (simp add: verdict_on_def)
    from Evaluate_action_listed [of "qe_rt q" "gw_Policy g" agent "tl_Name t" p]
    consider "d_Action ?d = sd_Action ?sd" | c where "c \<in> set (sd_Conditional ?sd)" "d_Action ?d = cr_Action c"
      by auto
    then show "verdict_on q agent (Some t) (tl_Name t) p g
        \<in> insert (sd_Action (td_Static ?td)) (cr_Action ` set (sd_Conditional (td_Static ?td)))"
    proof cases
      case 1
      then have "verdict_on q agent (Some t) (tl_Name t) p g = sd_Action (td_Static ?td)"
        using Tighten_action_cong [of ?d "\<lparr>d_Action = sd_Action ?sd, d_Rule = sd_Rule ?sd, d_Reason = []\<rparr>" ?fl]
        by (simp add: v tool_decision_for_def Let_def ApplyFloors_action)
      then show ?thesis by simp
    next
      case 2
      then have "d_Action (Tighten ?d ?fl)
          = d_Action (Tighten \<lparr>d_Action = cr_Action c, d_Rule = [], d_Reason = []\<rparr> ?fl)"
        by (intro Tighten_action_cong) simp
      with 2(1) show ?thesis by (force simp: v tool_decision_for_def Let_def)
    qed
  qed
  then show ?thesis using assms by (simp add: handleToolDecisions_def)
qed

theorem decision_table_is_complete_witness:
  "\<exists>rows. handleToolDecisions ''bot'' demo_control = Some rows \<and> map td_Name rows = [''t'']"
proof -
  have "''bot'' \<noteq> []" by simp
  from decision_table_is_complete [OF this, of demo_control] obtain rows
    where r: "handleToolDecisions ''bot'' demo_control = Some rows" by blast
  have name: "td_Name (tool_decision_for g a t) = tl_Name t" for g a t
    by (simp add: tool_decision_for_def Let_def)
  have "registry_All (gw_Registry demo_control) = [demo_backend]"
    by (simp add: demo_control_def demo_gateway_def registry_All_def)
  with r have "rows = [tool_decision_for demo_control ''bot'' demo_backend]"
    by (simp add: handleToolDecisions_def)
  moreover have "tl_Name demo_backend = ''t''" by (simp add: demo_backend_def)
  ultimately have "map td_Name rows = [''t'']" by (simp only: name list.map)
  with r show ?thesis by (intro exI [of _ rows] conjI)
qed

end
