(* ===== verification/Otel.thy ===== *)
theory Otel
  imports Traces
begin

text \<open>
  The OTLP exporter (\<open>trace/otel.go\<close>): the span of a trace entry, and the delivery of spans to a
  collector over HTTP, a bounded queue that the goroutine \<open>run\<close> empties in batches, each with a few
  attempts. The answers of the collector and the random identifiers are arguments; the encoding of
  a span as JSON and the TLS settings of the transport are left out.
\<close>

section \<open>The span of an entry\<close>

datatype otlp_value = StrVal string | IntVal string

type_synonym otlp_kv = "string \<times> otlp_value"

record otlp_span =
  sp_TraceID :: string
  sp_SpanID :: string
  sp_ParentSpanID :: string
  sp_Name :: string
  sp_Kind :: int
  sp_StartTimeUnixNano :: string
  sp_EndTimeUnixNano :: string
  sp_Attributes :: "otlp_kv list"
  sp_StatusCode :: int
  sp_StatusMessage :: string

definition intVal :: "int \<Rightarrow> otlp_value" where
  "intVal n = IntVal (Itoa n)"

definition millisecond :: duration where
  "millisecond = 1000000"

definition randomTraceID :: "draw \<Rightarrow> string" where
  "randomTraceID d = hex_encode (dr_trace d)"

definition otlp_attributes :: "trace_entry \<Rightarrow> otlp_kv list" where
  "otlp_attributes e =
     [(''agent.id'', StrVal (te_AgentID e)), (''tool.name'', StrVal (te_Tool e)),
      (''policy.action'', StrVal (te_Policy e)), (''policy.rule'', StrVal (te_PolicyRule e)),
      (''http.status_code'', intVal (te_StatusCode e)), (''gen_ai.operation.name'', StrVal ''execute_tool''),
      (''gen_ai.tool.name'', StrVal (te_Tool e)), (''gen_ai.agent.id'', StrVal (te_AgentID e))]
     @ (if te_SessionID e \<noteq> [] then [(''session.id'', StrVal (te_SessionID e))] else [])
     @ (if te_UserID e \<noteq> [] then [(''enduser.id'', StrVal (te_UserID e))] else [])
     @ (if te_Error e \<noteq> [] then [(''error.message'', StrVal (te_Error e))] else [])
     @ (if te_GrantID e \<noteq> [] then [(''grant.id'', StrVal (te_GrantID e))] else [])
     @ (if te_ParentTraceID e \<noteq> [] then [(''mesh.parent_trace_id'', StrVal (te_ParentTraceID e))] else [])
     @ (if te_ApprovalID e \<noteq> [] then
          [(''approval.id'', StrVal (te_ApprovalID e)), (''approval.status'', StrVal (te_ApprovalStatus e))]
          @ (if te_ApprovalMs e > 0 then [(''approval.duration_ms'', intVal (te_ApprovalMs e))] else [])
        else [])
     @ (if te_EstimatedInputTokens e > 0 then
          [(''llm.token.input'', intVal (te_EstimatedInputTokens e)),
           (''llm.token.output'', intVal (te_EstimatedOutputTokens e)),
           (''gen_ai.usage.input_tokens'', intVal (te_EstimatedInputTokens e)),
           (''gen_ai.usage.output_tokens'', intVal (te_EstimatedOutputTokens e))]
        else [])"

text \<open>\<open>d\<close> holds the random bytes an identifier that cannot be used is replaced with.\<close>

definition toOTLP :: "draw \<Rightarrow> trace_entry \<Rightarrow> otlp_span" where
  "toOTLP d e =
     (let endTime = te_Timestamp e;
          startTime = endTime - te_LatencyMs e * millisecond;
          traceID = (if length (te_TraceID e) \<noteq> 32 \<or> \<not> isHex (te_TraceID e) then randomTraceID d else te_TraceID e);
          spanID = (if length (te_SpanID e) = 16 \<and> isHex (te_SpanID e) then te_SpanID e else spanIDFor d traceID);
          parentSpanID =
            (if length (te_ParentSpanID e) = 16 \<and> isHex (te_ParentSpanID e) then te_ParentSpanID e
             else if te_ParentTraceID e \<noteq> [] \<and> length (te_ParentTraceID e) = 32 \<and> isHex (te_ParentTraceID e)
             then spanIDFor d (te_ParentTraceID e)
             else []);
          (code, message) = (if te_Error e \<noteq> [] \<or> te_Policy e = ''deny'' then (2, te_Error e) else (1, [])) in
      \<lparr>sp_TraceID = traceID, sp_SpanID = spanID, sp_ParentSpanID = parentSpanID, sp_Name = te_Tool e, sp_Kind = 3,
       sp_StartTimeUnixNano = Itoa startTime, sp_EndTimeUnixNano = Itoa endTime,
       sp_Attributes = otlp_attributes e, sp_StatusCode = code, sp_StatusMessage = message\<rparr>)"

record otlp_export =
  ox_resource :: "otlp_kv list"
  ox_scope :: "string \<times> string"
  ox_spans :: "otlp_span list"

definition otlp_wrap :: "string \<Rightarrow> otlp_span list \<Rightarrow> otlp_export" where
  "otlp_wrap service spans =
     \<lparr>ox_resource = [(''service.name'', StrVal service)], ox_scope = (''flux7-mesh'', ''0.6.0''), ox_spans = spans\<rparr>"

definition EntriesToOTLP :: "(nat \<Rightarrow> draw) \<Rightarrow> trace_entry list \<Rightarrow> string \<Rightarrow> otlp_export" where
  "EntriesToOTLP draws es service =
     otlp_wrap (if service = [] then ''flux7-mesh'' else service)
       (map (\<lambda>(i, e). toOTLP (draws i) e) (enumerate 0 es))"

section \<open>Where spans go\<close>

definition isHTTP :: "string \<Rightarrow> bool" where
  "isHTTP s = (length s > 7 \<and> (take 7 s = ''http://'' \<or> take 8 s = ''https://''))"

datatype sink = ToStdout | ToFile bool | ToCollector

text \<open>\<open>ToFile False\<close>: the file could not be opened, and spans are dropped in silence.\<close>

definition sink_of :: "string \<Rightarrow> bool \<Rightarrow> sink" where
  "sink_of endpoint opens =
     (if isHTTP endpoint then ToCollector else if endpoint = ''stdout'' then ToStdout else ToFile opens)"

definition otelQueueSize :: nat where "otelQueueSize = 2048"
definition otelBatchSize :: nat where "otelBatchSize = 128"
definition otelMaxAttempts :: nat where "otelMaxAttempts = 4"
definition otelBackoffBase :: duration where "otelBackoffBase = 500 * millisecond"

text \<open>
  The exporter. \<open>ot_batch\<close> is the slice \<open>run\<close> is filling; \<open>ot_lines\<close> are the spans written to
  stdout or the file; \<open>ot_posted\<close>, as history, is each batch sent with what became of it.
\<close>

datatype delivery = Delivered | Rejected | Exhausted | Unbuilt

record exporter =
  ot_sink :: sink
  ot_queue :: "otlp_span list"
  ot_batch :: "otlp_span list"
  ot_done :: bool
  ot_stopped :: bool
  ot_sent :: nat
  ot_dropped :: nat
  ot_failed :: nat
  ot_lines :: "otlp_span list"
  ot_posted :: "(otlp_span list \<times> delivery) list"

definition NewOTELExporter :: "string \<Rightarrow> bool \<Rightarrow> exporter" where
  "NewOTELExporter endpoint opens =
     \<lparr>ot_sink = sink_of endpoint opens, ot_queue = [], ot_batch = [], ot_done = False, ot_stopped = False,
      ot_sent = 0, ot_dropped = 0, ot_failed = 0, ot_lines = [], ot_posted = []\<rparr>"

definition Export :: "draw \<Rightarrow> trace_entry \<Rightarrow> exporter \<Rightarrow> exporter" where
  "Export d e x =
     (let span = toOTLP d e in
      case ot_sink x of
        ToCollector \<Rightarrow>
          (if length (ot_queue x) < otelQueueSize then x\<lparr>ot_queue := ot_queue x @ [span]\<rparr>
           else x\<lparr>ot_dropped := Suc (ot_dropped x)\<rparr>)
      | ToStdout \<Rightarrow> x\<lparr>ot_lines := ot_lines x @ [span]\<rparr>
      | ToFile opened \<Rightarrow> if opened then x\<lparr>ot_lines := ot_lines x @ [span]\<rparr> else x)"

text \<open>
  The attempts of one batch. \<open>answer k\<close> is what the collector answers to attempt \<open>k\<close>, \<open>None\<close> a
  network error; \<open>builds\<close> is whether a request can be made of the endpoint at all; \<open>closing k\<close> is
  whether the exporter is closed before the wait that precedes attempt \<open>k\<close> is over. Also returned:
  the number of requests made and the waits that ran to their end.
\<close>

function attempts ::
  "bool \<Rightarrow> (nat \<Rightarrow> nat option) \<Rightarrow> (nat \<Rightarrow> bool) \<Rightarrow> nat \<Rightarrow> delivery \<times> nat \<times> duration list" where
  "attempts builds answer closing attempt =
     (if attempt \<ge> otelMaxAttempts then (Exhausted, 0, [])
      else if \<not> builds then (Unbuilt, 0, [])
      else
        (let waits = (if attempt > 0 \<and> \<not> closing attempt then [otelBackoffBase * 2 ^ (attempt - 1)] else []);
             again = (case attempts builds answer closing (Suc attempt) of (r, n, ws) \<Rightarrow> (r, Suc n, waits @ ws)) in
         case answer attempt of
           None \<Rightarrow> again
         | Some status \<Rightarrow>
             if status < 300 then (Delivered, 1, waits)
             else if status = 429 \<or> status \<ge> 500 then again
             else (Rejected, 1, waits)))"
  by pat_completeness auto
termination
  by (relation "measure (\<lambda>(_, _, _, k). otelMaxAttempts - k)") (auto simp: otelMaxAttempts_def)

declare attempts.simps [simp del]

definition otel_send :: "delivery \<Rightarrow> otlp_span list \<Rightarrow> exporter \<Rightarrow> exporter" where
  "otel_send result spans x =
     (let x1 = x\<lparr>ot_posted := ot_posted x @ [(spans, result)]\<rparr> in
      case result of
        Delivered \<Rightarrow> x1\<lparr>ot_sent := ot_sent x + length spans\<rparr>
      | Rejected \<Rightarrow> x1\<lparr>ot_failed := ot_failed x + length spans\<rparr>
      | Exhausted \<Rightarrow> x1\<lparr>ot_failed := ot_failed x + length spans\<rparr>
      | Unbuilt \<Rightarrow> x1)"

definition otel_flush :: "delivery \<Rightarrow> exporter \<Rightarrow> exporter" where
  "otel_flush result x =
     (if ot_batch x \<noteq> [] then (otel_send result (ot_batch x) x)\<lparr>ot_batch := []\<rparr> else x)"

text \<open>One span taken from the queue into the batch, and the batch sent when it is full.\<close>

definition otel_take :: "delivery \<Rightarrow> exporter \<Rightarrow> exporter" where
  "otel_take result x =
     (case ot_queue x of
        [] \<Rightarrow> x
      | sp # rest \<Rightarrow>
          (let x1 = x\<lparr>ot_queue := rest, ot_batch := ot_batch x @ [sp]\<rparr> in
           if length (ot_batch x1) \<ge> otelBatchSize then otel_flush result x1 else x1))"

text \<open>The queue emptied on \<open>Close\<close>; \<open>outcomes\<close> are what becomes of the batches still sent.\<close>

function otel_drain :: "(nat \<Rightarrow> delivery) \<Rightarrow> exporter \<Rightarrow> exporter" where
  "otel_drain outcomes x =
     (if ot_queue x = [] then (otel_flush (outcomes (length (ot_posted x))) x)\<lparr>ot_stopped := True\<rparr>
      else otel_drain outcomes (otel_take (outcomes (length (ot_posted x))) x))"
  by pat_completeness auto
termination
  by (relation "measure (\<lambda>(_, x). length (ot_queue x))")
     (auto simp: otel_take_def otel_flush_def otel_send_def Let_def neq_Nil_conv split: delivery.split)

declare otel_drain.simps [simp del]

text \<open>
  The steps: callers export, \<open>run\<close> takes a span, sees a tick, or sees the exporter closed. Where
  several channels are ready, Go takes any of them.
\<close>

datatype otel_event =
    Exported draw trace_entry
  | Took delivery
  | Ticked delivery
  | Closed
  | Drained "nat \<Rightarrow> delivery"

inductive otel_step :: "exporter \<Rightarrow> otel_event \<Rightarrow> exporter \<Rightarrow> bool" where
  "otel_step x (Exported d e) (Export d e x)"
| "\<not> ot_stopped x \<Longrightarrow> ot_queue x \<noteq> [] \<Longrightarrow> otel_step x (Took r) (otel_take r x)"
| "\<not> ot_stopped x \<Longrightarrow> otel_step x (Ticked r) (otel_flush r x)"
| "otel_step x Closed (x\<lparr>ot_done := True\<rparr>)"
| "\<not> ot_stopped x \<Longrightarrow> ot_done x \<Longrightarrow> otel_step x (Drained rs) (otel_drain rs x)"

inductive_cases otel_stepE [elim!]:
  "otel_step x (Exported d e) y" "otel_step x (Took r) y" "otel_step x (Ticked r) y" "otel_step x Closed y"
  "otel_step x (Drained rs) y"

inductive otel_run :: "exporter \<Rightarrow> otel_event list \<Rightarrow> exporter \<Rightarrow> bool" for x where
  otel_start: "otel_run x [] x"
| otel_next: "otel_run x es y \<Longrightarrow> otel_step y ev z \<Longrightarrow> otel_run x (es @ [ev]) z"

record otel_stats =
  os_Sent :: nat
  os_Dropped :: nat
  os_Failed :: nat
  os_Queued :: nat

definition Stats :: "exporter \<Rightarrow> otel_stats" where
  "Stats x = \<lparr>os_Sent = ot_sent x, os_Dropped = ot_dropped x, os_Failed = ot_failed x, os_Queued = length (ot_queue x)\<rparr>"

section \<open>Delivery\<close>

definition handled :: "exporter \<Rightarrow> otlp_span list" where
  "handled x = concat (map fst (ot_posted x)) @ ot_batch x @ ot_queue x"

text \<open>How many spans have met a given end.\<close>

definition met :: "(delivery \<Rightarrow> bool) \<Rightarrow> exporter \<Rightarrow> nat" where
  "met P x = sum_list (map (length \<circ> fst) (filter (P \<circ> snd) (ot_posted x)))"

definition exporter_ok :: "exporter \<Rightarrow> bool" where
  "exporter_ok x \<longleftrightarrow>
     ot_sink x = ToCollector \<and> length (ot_queue x) \<le> otelQueueSize \<and> length (ot_batch x) < otelBatchSize
     \<and> ot_sent x = met (\<lambda>r. r = Delivered) x \<and> ot_failed x = met (\<lambda>r. r = Rejected \<or> r = Exhausted) x"

lemma met_send [simp]:
  "met P (otel_send r xs x) = met P x + (if P r then length xs else 0)"
  by (cases r) (simp_all add: met_def otel_send_def)

lemma send_frame [simp]:
  "ot_queue (otel_send r xs x) = ot_queue x" "ot_batch (otel_send r xs x) = ot_batch x"
  "ot_sink (otel_send r xs x) = ot_sink x" "ot_dropped (otel_send r xs x) = ot_dropped x"
  "ot_sent (otel_send r xs x) = ot_sent x + (if r = Delivered then length xs else 0)"
  "ot_failed (otel_send r xs x) = ot_failed x + (if r = Rejected \<or> r = Exhausted then length xs else 0)"
  "ot_posted (otel_send r xs x) = ot_posted x @ [(xs, r)]"
  by (cases r; simp add: otel_send_def)+

lemma met_batch [simp]: "met P (x\<lparr>ot_batch := b\<rparr>) = met P x" "met P (x\<lparr>ot_queue := q\<rparr>) = met P x"
  "met P (x\<lparr>ot_stopped := st\<rparr>) = met P x" "met P (x\<lparr>ot_done := st\<rparr>) = met P x" "met P (x\<lparr>ot_dropped := n\<rparr>) = met P x"
  by (simp_all add: met_def)

lemma flush_handled [simp]: "handled (otel_flush r x) = handled x"
  by (simp add: otel_flush_def handled_def)

lemma flush_frame [simp]:
  "ot_queue (otel_flush r x) = ot_queue x" "ot_batch (otel_flush r x) = []" "ot_dropped (otel_flush r x) = ot_dropped x"
  by (simp_all add: otel_flush_def)

lemma flush_ok: "exporter_ok x \<Longrightarrow> exporter_ok (otel_flush r x)"
  by (auto simp: exporter_ok_def otel_flush_def)

lemma flush_ok_full:
  assumes "exporter_ok (x\<lparr>ot_batch := []\<rparr>)"
  shows "exporter_ok (otel_flush r x)"
  using assms by (auto simp: exporter_ok_def otel_flush_def)

lemma take_handled [simp]: "handled (otel_take r x) = handled x"
proof (cases "ot_queue x")
  case (Cons sp rest)
  let ?x = "x\<lparr>ot_queue := rest, ot_batch := ot_batch x @ [sp]\<rparr>"
  have "handled (otel_take r x) = handled ?x" using Cons by (simp add: otel_take_def Let_def)
  then show ?thesis using Cons by (simp add: handled_def)
qed (simp add: otel_take_def)

lemma take_ok:
  assumes "exporter_ok x"
  shows "exporter_ok (otel_take r x)"
proof (cases "ot_queue x")
  case (Cons sp rest)
  let ?x = "x\<lparr>ot_queue := rest, ot_batch := ot_batch x @ [sp]\<rparr>"
  have "exporter_ok (?x\<lparr>ot_batch := []\<rparr>)" using assms Cons by (simp add: exporter_ok_def otelBatchSize_def)
  then have "exporter_ok (otel_flush r ?x)" by (rule flush_ok_full)
  moreover have "exporter_ok ?x" if "length (ot_batch ?x) < otelBatchSize"
    using assms Cons that by (simp add: exporter_ok_def)
  ultimately show ?thesis using Cons by (simp add: otel_take_def Let_def)
qed (use assms in \<open>simp add: otel_take_def\<close>)

lemma take_frame [simp]: "ot_dropped (otel_take r x) = ot_dropped x"
  by (simp add: otel_take_def Let_def split: list.split)

lemma drain_spec:
  "handled (otel_drain rs x) = handled x \<and> ot_queue (otel_drain rs x) = [] \<and> ot_batch (otel_drain rs x) = []
   \<and> ot_stopped (otel_drain rs x) \<and> ot_dropped (otel_drain rs x) = ot_dropped x
   \<and> (exporter_ok x \<longrightarrow> exporter_ok (otel_drain rs x))"
proof (induction rs x rule: otel_drain.induct)
  case (1 rs x)
  show ?case
  proof (cases "ot_queue x = []")
    case True
    have "handled (y\<lparr>ot_stopped := True\<rparr>) = handled y" "exporter_ok (y\<lparr>ot_stopped := True\<rparr>) = exporter_ok y" for y
      by (simp_all add: handled_def exporter_ok_def)
    then show ?thesis using True flush_ok by (simp add: otel_drain.simps [of rs x])
  next
    case False
    then show ?thesis using 1 take_ok by (simp add: otel_drain.simps [of rs x])
  qed
qed

fun exported_spans :: "otel_event list \<Rightarrow> otlp_span list" where
  "exported_spans [] = []"
| "exported_spans (Exported d e # es) = toOTLP d e # exported_spans es"
| "exported_spans (_ # es) = exported_spans es"

lemma exported_spans_append [simp]: "exported_spans (es @ fs) = exported_spans es @ exported_spans fs"
  by (induction es rule: exported_spans.induct) simp_all

lemma otel_step_accounts:
  assumes "otel_step x ev y" and "exporter_ok x"
  shows "exporter_ok y \<and> (handled y = handled x @ exported_spans [ev] \<and> ot_dropped y = ot_dropped x
    \<or> handled y = handled x \<and> ot_dropped y = ot_dropped x + length (exported_spans [ev]))"
proof (cases ev)
  case (Exported d e)
  then show ?thesis using assms
    by (auto simp: Export_def Let_def exporter_ok_def handled_def)
next
  case Closed
  then show ?thesis using assms by (auto simp: exporter_ok_def handled_def)
next
  case (Drained rs)
  then show ?thesis using assms drain_spec [of rs x] by auto
qed (use assms in \<open>auto simp: take_ok flush_ok\<close>)

lemma otel_run_accounts:
  assumes "otel_run x es y" and "exporter_ok x" and "handled x = []" and "ot_dropped x = 0"
  shows "exporter_ok y \<and> subseq (handled y) (exported_spans es)
    \<and> length (handled y) + ot_dropped y = length (exported_spans es)"
  using assms
proof (induction rule: otel_run.induct)
  case (otel_next es y ev z)
  then have y: "exporter_ok y" "subseq (handled y) (exported_spans es)"
      "length (handled y) + ot_dropped y = length (exported_spans es)"
    by simp_all
  from otel_step_accounts [OF otel_next(2) y(1)] y(2,3) show ?case
    by (auto intro: list_emb_append_mono subseq_rev_drop_many)
qed simp

lemma met_partition:
  "length (concat (map fst (ot_posted x)))
     = met (\<lambda>r. r = Delivered) x + met (\<lambda>r. r = Rejected \<or> r = Exhausted) x + met (\<lambda>r. r = Unbuilt) x"
proof -
  have "length (concat (map fst ps)) = sum_list (map (length \<circ> fst) (filter ((\<lambda>r. r = Delivered) \<circ> snd) ps))
      + sum_list (map (length \<circ> fst) (filter ((\<lambda>r. r = Rejected \<or> r = Exhausted) \<circ> snd) ps))
      + sum_list (map (length \<circ> fst) (filter ((\<lambda>r. r = Unbuilt) \<circ> snd) ps))"
    for ps :: "(otlp_span list \<times> delivery) list"
  proof (induction ps)
    case (Cons z ps)
    then show ?case by (cases "snd z") simp_all
  qed simp
  then show ?thesis by (simp add: met_def)
qed

section \<open>Properties\<close>

text \<open>
  No span is lost unseen and none is sent out of order or twice: whatever callers export and
  however takes, ticks and the closing interleave, the spans posted, batched and queued are the
  exported ones in their order, less those dropped, and each exported span is in exactly one of
  the counters sent, dropped and failed, the queue, the batch, or a batch whose request could not
  be built; the queue never exceeds its size and the batch never reaches a full one.
\<close>

theorem spans_are_accounted_for:
  assumes "isHTTP endpoint" and "otel_run (NewOTELExporter endpoint opens) es x"
  shows "subseq (concat (map fst (ot_posted x)) @ ot_batch x @ ot_queue x) (exported_spans es)
    \<and> os_Sent (Stats x) + os_Dropped (Stats x) + os_Failed (Stats x) + os_Queued (Stats x)
        + length (ot_batch x) + met (\<lambda>r. r = Unbuilt) x = length (exported_spans es)
    \<and> os_Queued (Stats x) \<le> otelQueueSize \<and> length (ot_batch x) < otelBatchSize"
proof -
  have "exporter_ok (NewOTELExporter endpoint opens)"
    using assms(1)
    by (simp add: exporter_ok_def NewOTELExporter_def sink_of_def met_def otelBatchSize_def)
  moreover have "handled (NewOTELExporter endpoint opens) = []" "ot_dropped (NewOTELExporter endpoint opens) = 0"
    by (simp_all add: handled_def NewOTELExporter_def)
  ultimately have ok: "exporter_ok x" and sub: "subseq (handled x) (exported_spans es)"
    and len: "length (handled x) + ot_dropped x = length (exported_spans es)"
    using otel_run_accounts [OF assms(2)] by blast+
  show ?thesis
    using ok sub len met_partition [of x] by (simp add: handled_def exporter_ok_def Stats_def)
qed

definition demo_draw_ids :: draw where
  "demo_draw_ids = \<lparr>dr_span = replicate 8 171, dr_trace = replicate 16 205\<rparr>"

theorem spans_are_accounted_for_witness:
  "\<exists>x. otel_run (NewOTELExporter ''http://collector'' False)
        [Exported demo_draw_ids no_entry, Exported demo_draw_ids (no_entry\<lparr>te_Tool := ''t''\<rparr>), Took Delivered,
         Ticked Delivered] x
     \<and> Stats x = \<lparr>os_Sent = 1, os_Dropped = 0, os_Failed = 0, os_Queued = 1\<rparr>
     \<and> os_Queued (Stats x) \<le> otelQueueSize"
proof -
  let ?x0 = "NewOTELExporter ''http://collector'' False"
  let ?e2 = "no_entry\<lparr>te_Tool := ''t''\<rparr>"
  let ?x2 = "Export demo_draw_ids ?e2 (Export demo_draw_ids no_entry ?x0)"
  let ?x4 = "otel_flush Delivered (otel_take Delivered ?x2)"
  have h: "isHTTP ''http://collector''" by (simp add: isHTTP_def)
  have q: "ot_queue ?x2 = [toOTLP demo_draw_ids no_entry, toOTLP demo_draw_ids ?e2]" "\<not> ot_stopped ?x2"
      "ot_sink ?x2 = ToCollector" "ot_batch ?x2 = []" "ot_sent ?x2 = 0" "ot_dropped ?x2 = 0" "ot_failed ?x2 = 0"
    using h by (simp_all add: Export_def Let_def NewOTELExporter_def sink_of_def otelQueueSize_def)
  have st: "\<not> ot_stopped (otel_take Delivered ?x2)"
    using q by (simp add: otel_take_def otelBatchSize_def)
  have "otel_run ?x0 [Exported demo_draw_ids no_entry, Exported demo_draw_ids ?e2] ?x2"
    using otel_next [OF otel_next [OF otel_start otel_step.intros(1)] otel_step.intros(1)] by simp
  from otel_next [OF otel_next [OF this otel_step.intros(2)] otel_step.intros(3)]
  have run: "otel_run ?x0 [Exported demo_draw_ids no_entry, Exported demo_draw_ids ?e2, Took Delivered,
      Ticked Delivered] ?x4"
    using q st by simp
  moreover have "Stats ?x4 = \<lparr>os_Sent = 1, os_Dropped = 0, os_Failed = 0, os_Queued = 1\<rparr>"
    using q by (simp add: Stats_def otel_take_def otel_flush_def otelBatchSize_def)
  ultimately show ?thesis using spans_are_accounted_for [OF h run] run by blast
qed

text \<open>
  Closing sends what is left: once \<open>run\<close> has seen the exporter closed and drained, the queue and
  the batch are empty, and every span that was in them has been posted, in order, behind those
  posted before.
\<close>

theorem close_drains:
  "let y = otel_drain rs x in
     ot_queue y = [] \<and> ot_batch y = [] \<and> ot_stopped y \<and> ot_dropped y = ot_dropped x
     \<and> concat (map fst (ot_posted y)) = concat (map fst (ot_posted x)) @ ot_batch x @ ot_queue x"
  using drain_spec [of rs x] by (auto simp: handled_def Let_def)

definition retryable :: "nat option \<Rightarrow> bool" where
  "retryable r = (case r of None \<Rightarrow> True | Some s \<Rightarrow> s = 429 \<or> s \<ge> 500)"

lemma attempts_step:
  "attempts True answer closing k =
     (if k \<ge> 4 then (Exhausted, 0, [])
      else
        (let waits = (if k > 0 \<and> \<not> closing k then [otelBackoffBase * 2 ^ (k - 1)] else []);
             again = (case attempts True answer closing (Suc k) of (r, n, ws) \<Rightarrow> (r, Suc n, waits @ ws)) in
         if retryable (answer k) then again
         else if the (answer k) < 300 then (Delivered, 1, waits) else (Rejected, 1, waits)))"
  by (auto simp: attempts.simps [of True answer closing k] otelMaxAttempts_def retryable_def Let_def
      split: option.split prod.split)

lemma below_4: "(\<exists>k<4. P k) \<longleftrightarrow> P 0 \<or> P 1 \<or> P 2 \<or> P (3::nat)"
  by (auto simp: less_Suc_eq numeral_eq_Suc)

lemma before_4: "(\<forall>j<2. Q j) \<longleftrightarrow> Q 0 \<and> Q (1::nat)" "(\<forall>j<3. Q j) \<longleftrightarrow> Q 0 \<and> Q 1 \<and> Q (2::nat)"
  by (auto simp: less_Suc_eq numeral_eq_Suc)

text \<open>
  A batch is tried at most four times, over at most three and a half seconds of waiting, and
  goes on only after a network error, a 429 or a 5xx: it is delivered exactly when one of the four
  attempts is answered below 300 with nothing but such failures before it, and then no further
  request is made.
\<close>

theorem attempts_are_bounded:
  assumes "attempts builds answer closing 0 = (r, n, waits)"
  shows "n \<le> 4 \<and> sum_list waits \<le> 3500 * millisecond
    \<and> (r = Delivered \<longleftrightarrow> builds \<and> (\<exists>k<4. (\<exists>s. answer k = Some s \<and> s < 300) \<and> (\<forall>j<k. retryable (answer j))))
    \<and> (r = Unbuilt \<longleftrightarrow> \<not> builds)"
proof (cases builds)
  case False
  then show ?thesis using assms by (auto simp: attempts.simps [of False answer closing 0] otelMaxAttempts_def millisecond_def)
next
  case True
  note base = otelBackoffBase_def millisecond_def
  have two: "Suc (Suc 0) = 2" "Suc 2 = 3" "Suc 3 = 4" by simp_all
  have ok: "(\<exists>s. answer k = Some s \<and> s < 300) \<longleftrightarrow> \<not> retryable (answer k) \<and> the (answer k) < 300" for k
    by (cases "answer k") (auto simp: retryable_def)
  show ?thesis
    using assms True unfolding ok below_4
    by (auto simp: attempts_step [of answer closing 0] attempts_step [of answer closing "Suc 0"]
        attempts_step [of answer closing 2] attempts_step [of answer closing 3]
        attempts_step [of answer closing 4] Let_def two before_4 base split: if_splits) 
qed

theorem attempts_are_bounded_witness:
  "\<exists>r n waits. attempts True (\<lambda>k. if k = 0 then None else if k = 1 then Some 503 else Some 200) (\<lambda>_. False) 0
       = (r, n, waits) \<and> r = Delivered \<and> n = 3 \<and> n \<le> 4 \<and> waits = [500 * millisecond, 1000 * millisecond]"
proof -
  have "attempts True (\<lambda>k. if k = 0 then None else if k = 1 then Some 503 else Some 200) (\<lambda>_. False) 0
      = (Delivered, 3, [500 * millisecond, 1000 * millisecond])"
    by code_simp
  from attempts_are_bounded [OF this] this show ?thesis by blast
qed

definition span_ok :: "otlp_span \<Rightarrow> bool" where
  "span_ok sp \<longleftrightarrow>
     length (sp_TraceID sp) = 32 \<and> isHex (sp_TraceID sp) \<and> length (sp_SpanID sp) = 16 \<and> isHex (sp_SpanID sp)
     \<and> (sp_ParentSpanID sp = [] \<or> length (sp_ParentSpanID sp) = 16 \<and> isHex (sp_ParentSpanID sp))"

lemma random_trace_shape: "draw_ok d \<Longrightarrow> length (randomTraceID d) = 32 \<and> isHex (randomTraceID d)"
  by (simp add: randomTraceID_def draw_ok_def)

lemma toOTLP_ids [simp]:
  "sp_TraceID (toOTLP d e) =
     (if length (te_TraceID e) \<noteq> 32 \<or> \<not> isHex (te_TraceID e) then randomTraceID d else te_TraceID e)"
  "sp_SpanID (toOTLP d e) =
     (if length (te_SpanID e) = 16 \<and> isHex (te_SpanID e) then te_SpanID e
      else spanIDFor d (sp_TraceID (toOTLP d e)))"
  "sp_ParentSpanID (toOTLP d e) =
     (if length (te_ParentSpanID e) = 16 \<and> isHex (te_ParentSpanID e) then te_ParentSpanID e
      else if te_ParentTraceID e \<noteq> [] \<and> length (te_ParentTraceID e) = 32 \<and> isHex (te_ParentTraceID e)
      then spanIDFor d (te_ParentTraceID e) else [])"
  by (simp_all add: toOTLP_def Let_def split: prod.split)



text \<open>
  The chain of authority survives the export: the span of a call that a grant let through has
  as its parent the span of the call that obtained the grant, although the two are exported apart
  and with other random bytes, as long as the first has no span of the caller's own above it and
  the second has the span identifier that the mesh derives.
\<close>

theorem lineage_is_exported:
  assumes "length (te_TraceID parent) = 32" "isHex (te_TraceID parent)"
    and "te_SpanID parent = [] \<or> te_SpanID parent = spanIDFor d0 (te_TraceID parent)"
    and "te_ParentTraceID child = te_TraceID parent" "te_ParentSpanID child = []"
  shows "sp_ParentSpanID (toOTLP d child) = sp_SpanID (toOTLP d' parent)"
  using assms by (auto simp: spanIDFor_def)

theorem lineage_is_exported_witness:
  "sp_ParentSpanID (toOTLP demo_draw_ids (no_entry\<lparr>te_ParentTraceID := replicate 32 CHR ''A''\<rparr>))
     = sp_SpanID (toOTLP demo_draw_ids (no_entry\<lparr>te_TraceID := replicate 32 CHR ''A''\<rparr>))
   \<and> sp_SpanID (toOTLP demo_draw_ids (no_entry\<lparr>te_TraceID := replicate 32 CHR ''A''\<rparr>)) = replicate 16 CHR ''a''"
proof -
  let ?p = "no_entry\<lparr>te_TraceID := replicate 32 CHR ''A''\<rparr>"
  let ?c = "no_entry\<lparr>te_ParentTraceID := replicate 32 CHR ''A''\<rparr>"
  have h: "isHex (te_TraceID ?p)" by code_simp
  have "sp_SpanID (toOTLP demo_draw_ids ?p) = replicate 16 CHR ''a''" by code_simp
  then show ?thesis
    using lineage_is_exported [of ?p demo_draw_ids ?c demo_draw_ids demo_draw_ids] h
    by (simp add: no_entry_def)
qed

end
