(* ===== verification/Text_Edit.thy ===== *)
theory Text_Edit
  imports Policy
begin

text \<open>
  Files edited as text (\<open>policy/edit.go\<close>, \<open>config/edit.go\<close>): a policy file or the configuration
  is changed line by line at the places its YAML tree gives, so that everything else stays as the
  operator wrote it. The YAML parser is third-party code and an argument: it gives the root of the
  document, \<open>None\<close> for an error. The lines it reports lie within the text.
\<close>

section \<open>The tree\<close>

datatype yaml_kind = ScalarNode | MappingNode | SequenceNode | OtherNode

datatype yaml_node =
  YamlNode (yn_Kind: yaml_kind) (yn_Value: string) (yn_Line: nat) (yn_Column: nat) (yn_LineComment: string)
    (yn_Content: "yaml_node list")

type_synonym yaml_parser = "string \<Rightarrow> yaml_node option option"

text \<open>\<open>Some None\<close> is a document without content.\<close>

text \<open>
  A condition's value from YAML: what the decoder makes of a node as a number, a text and a list of
  texts are arguments. A number keeps the text it was written with.
\<close>

definition CondValue_UnmarshalYAML ::
  "(yaml_node \<Rightarrow> flt option) \<Rightarrow> (yaml_node \<Rightarrow> string option) \<Rightarrow> (yaml_node \<Rightarrow> string list option) \<Rightarrow> yaml_node
     \<Rightarrow> cond_value option" where
  "CondValue_UnmarshalYAML num str strs node =
     (case yn_Kind node of
        ScalarNode \<Rightarrow>
          (case num node of
             Some f \<Rightarrow> Some \<lparr>cv_Num = f, cv_IsNum = True, cv_Strings = [yn_Value node]\<rparr>
           | None \<Rightarrow> map_option (\<lambda>s. CondText [s]) (str node))
      | SequenceNode \<Rightarrow> map_option CondText (strs node)
      | _ \<Rightarrow> None)"

fun lastLine :: "yaml_node \<Rightarrow> nat" where
  "lastLine (YamlNode k v l col cm content) = fold (\<lambda>n m. if lastLine n > m then lastLine n else m) content l"

text \<open>The key and value pairs of a mapping: an odd last node is not read.\<close>

fun pairs_of :: "'a list \<Rightarrow> ('a \<times> 'a) list" where
  "pairs_of (k # v # rest) = (k, v) # pairs_of rest"
| "pairs_of _ = []"

definition child :: "yaml_node \<Rightarrow> string \<Rightarrow> (yaml_node \<times> yaml_node) option" where
  "child n key = find (\<lambda>(k, v). yn_Value k = key) (pairs_of (yn_Content n))"

section \<open>Lines\<close>

definition splitLines :: "string \<Rightarrow> string list" where
  "splitLines src = (let s = TrimSuffix src nl in if s = [] then [] else Split (CHR 0x0A) s)"

definition joinLines :: "string list \<Rightarrow> string \<Rightarrow> string" where
  "joinLines lines orig = Join lines nl @ (if orig = [] \<or> last orig = CHR 0x0A then nl else [])"

definition leading :: "string \<Rightarrow> nat" where
  "leading line = length (takeWhile (\<lambda>c. c = CHR '' '') line)"

definition nth_line :: "string list \<Rightarrow> nat \<Rightarrow> string" where
  "nth_line lines k = (if k < length lines then lines ! k else [])"

section \<open>The rules of a policy file\<close>

definition ConsoleMarker :: string where
  "ConsoleMarker = ''# set from console''"

record rule_span =
  rs_node :: yaml_node
  rs_first :: nat
  rs_last :: nat

definition span_of :: "yaml_node \<Rightarrow> rule_span" where
  "span_of it = \<lparr>rs_node = it, rs_first = yn_Line it, rs_last = lastLine it\<rparr>"

definition rules_of :: "yaml_parser \<Rightarrow> string \<Rightarrow> string + (rule_span list \<times> yaml_node)" where
  "rules_of parse src =
     (case parse src of
        None \<Rightarrow> Inl ''yaml: invalid document''
      | Some doc \<Rightarrow>
          (case doc of
             None \<Rightarrow> Inl ''policy file is not a mapping''
           | Some tree \<Rightarrow>
               if yn_Kind tree \<noteq> MappingNode then Inl ''policy file is not a mapping''
               else
                 (case child tree ''rules'' of
                    None \<Rightarrow> Inl ''policy file has no rules''
                  | Some (k, sq) \<Rightarrow>
                      if yn_Kind sq \<noteq> SequenceNode then Inl ''rules is not a list''
                      else Inr (map span_of (yn_Content sq), k))))"

text \<open>The walk over the keys of a rule: a condition ends it, the last \<open>tools\<close> before it counts.\<close>

fun tools_of :: "(yaml_node \<times> yaml_node) list \<Rightarrow> yaml_node option \<Rightarrow> yaml_node option option" where
  "tools_of [] found = Some found"
| "tools_of ((k, v) # rest) found =
     (if yn_Value k = ''condition'' then None
      else if yn_Value k = ''tools'' then tools_of rest (Some v)
      else tools_of rest found)"

definition isExact :: "yaml_node \<Rightarrow> string \<Rightarrow> bool" where
  "isExact r tool =
     (if yn_Kind r \<noteq> MappingNode then False
      else
        (case tools_of (pairs_of (yn_Content r)) None of
           None \<Rightarrow> False
         | Some tools \<Rightarrow>
             (case tools of
                None \<Rightarrow> False
              | Some t \<Rightarrow> yn_Kind t = SequenceNode \<and> length (yn_Content t) = 1
                  \<and> yn_Value (hd (yn_Content t)) = tool)))"

fun index_of :: "('a \<Rightarrow> bool) \<Rightarrow> 'a list \<Rightarrow> nat option" where
  "index_of P [] = None"
| "index_of P (x # xs) = (if P x then Some 0 else map_option Suc (index_of P xs))"

definition ExactRule :: "yaml_parser \<Rightarrow> string \<Rightarrow> string \<Rightarrow> string + nat option" where
  "ExactRule parse src tool =
     map_sum id (\<lambda>(spans, k). index_of (\<lambda>s. isExact (rs_node s) tool) spans) (rules_of parse src)"

text \<open>Over the lines that a value of the last rule still takes, and up over the comments of a rule.\<close>

fun past_value :: "int \<Rightarrow> string list \<Rightarrow> nat" where
  "past_value indent [] = 0"
| "past_value indent (l # ls) =
     (if TrimSpace l \<noteq> [] \<and> int (leading l) > indent \<and> \<not> HasPrefix (TrimSpace l) ''#''
      then Suc (past_value indent ls) else 0)"

fun above_comments :: "string list \<Rightarrow> nat \<Rightarrow> nat" where
  "above_comments lines 0 = 0"
| "above_comments lines (Suc k) =
     (if HasPrefix (TrimSpace (nth_line lines k)) ''#'' then above_comments lines k else Suc k)"

text \<open>
  Where a rule goes and how far it is indented; \<open>pos\<close> is \<open>None\<close> for the end.
\<close>

definition insert_place :: "rule_span list \<Rightarrow> string list \<Rightarrow> nat option \<Rightarrow> nat \<times> int" where
  "insert_place spans lines pos =
     (case pos of
        Some i \<Rightarrow>
          if i < length spans then
            (let s = spans ! i in (above_comments lines (rs_first s - 1), int (yn_Column (rs_node s)) - 3))
          else
            (let s = last spans; ind = int (yn_Column (rs_node s)) - 3 in
             (rs_last s + past_value ind (drop (rs_last s) lines), ind))
      | None \<Rightarrow>
          (let s = last spans; ind = int (yn_Column (rs_node s)) - 3 in
           (rs_last s + past_value ind (drop (rs_last s) lines), ind)))"

definition rule_block :: "int \<Rightarrow> string \<Rightarrow> string \<Rightarrow> string \<Rightarrow> string list" where
  "rule_block indent tool action note =
     (let pad = replicate (nat indent) (CHR '' '') in
      [pad @ ConsoleMarker @ '', '' @ note, pad @ ''- tools: ['' @ Quote tool @ '']'', pad @ ''  action: '' @ action])"

definition InsertRule ::
  "yaml_parser \<Rightarrow> string \<Rightarrow> string \<Rightarrow> string \<Rightarrow> nat option \<Rightarrow> string \<Rightarrow> string + string" where
  "InsertRule parse src tool action pos note =
     (case rules_of parse src of
        Inl err \<Rightarrow> Inl err
      | Inr (spans, rulesKey) \<Rightarrow>
          if spans = [] then Inl (''line '' @ Itoa (int (yn_Line rulesKey)) @ '': rules is empty, add a first rule by hand'')
          else
            (let lines = splitLines src; (place, indent) = insert_place spans lines pos in
             Inr (joinLines (take place lines @ rule_block indent tool action note @ drop place lines) src)))"

text \<open>
  The regular expression of an action on a line: what stands before the action, the action, what
  follows. \<open>is_re_space\<close> is the class \<open>\s\<close> of Go's expressions.
\<close>

definition is_re_space :: "char \<Rightarrow> bool" where
  "is_re_space c = (c = CHR '' '' \<or> c = CHR 0x09 \<or> c = CHR 0x0A \<or> c = CHR 0x0C \<or> c = CHR 0x0D)"

definition action_key :: "string \<Rightarrow> (string \<times> string) option" where
  "action_key s =
     (if HasPrefix s ''action:''
      then (let r = drop 7 s in Some (''action:'' @ takeWhile is_re_space r, dropWhile is_re_space r)) else None)"

definition action_head :: "string \<Rightarrow> (string \<times> string) option" where
  "action_head line =
     (let sp = takeWhile is_re_space line; r = dropWhile is_re_space line in
      case r of
        [] \<Rightarrow> None
      | c # r1 \<Rightarrow>
          if c = CHR ''-'' then
            (let sp1 = takeWhile is_re_space r1; r2 = dropWhile is_re_space r1 in
             if sp1 = [] then None else map_option (\<lambda>(k, v). (sp @ [c] @ sp1 @ k, v)) (action_key r2))
          else map_option (\<lambda>(k, v). (sp @ k, v)) (action_key r))"

definition closed_by :: "char \<Rightarrow> string \<Rightarrow> (string \<times> string) option" where
  "closed_by q s =
     (let inner = takeWhile (\<lambda>c. c \<noteq> q) s; r = dropWhile (\<lambda>c. c \<noteq> q) s in
      if r = [] then None else Some (q # inner @ [q], drop 1 r))"

definition action_value :: "string \<Rightarrow> (string \<times> string) option" where
  "action_value s =
     (let bare = (\<lambda>c. \<not> is_re_space c \<and> c \<noteq> CHR ''#'');
          plain = (if takeWhile bare s = [] then None else Some (takeWhile bare s, dropWhile bare s)) in
      case s of
        [] \<Rightarrow> None
      | c # r \<Rightarrow>
          if c = CHR 0x22 \<or> c = CHR 0x27
          then (case closed_by c r of Some m \<Rightarrow> Some m | None \<Rightarrow> plain)
          else plain)"

definition actionLine :: "string \<Rightarrow> (string \<times> string \<times> string) option" where
  "actionLine line =
     (case action_head line of
        None \<Rightarrow> None
      | Some (before, r) \<Rightarrow> map_option (\<lambda>(a, rest). (before, a, rest)) (action_value r))"

definition SetAction :: "yaml_parser \<Rightarrow> string \<Rightarrow> nat \<Rightarrow> string \<Rightarrow> string + string" where
  "SetAction parse src pos action =
     (case rules_of parse src of
        Inl err \<Rightarrow> Inl err
      | Inr (spans, k) \<Rightarrow>
          if pos \<ge> length spans then Inl (''rule '' @ Itoa (int pos) @ '' out of range'')
          else
            (case child (rs_node (spans ! pos)) ''action'' of
               None \<Rightarrow> Inl (''rule '' @ Itoa (int pos) @ '' has no action'')
             | Some (ak, av) \<Rightarrow>
                 (let lines = splitLines src; idx = yn_Line av - 1 in
                  case actionLine (nth_line lines idx) of
                    None \<Rightarrow> Inl (''line '' @ Itoa (int (Suc idx)) @ '': action is not on a line of its own'')
                  | Some (before, a, rest) \<Rightarrow> Inr (joinLines (lines[idx := before @ action @ rest]) src))))"

text \<open>A rule of the console for exactly this tool: its head line, and the line past its end.\<close>

definition console_rule :: "string list \<Rightarrow> string \<Rightarrow> rule_span \<Rightarrow> bool" where
  "console_rule lines tool s =
     (isExact (rs_node s) tool \<and> rs_first s \<ge> 2
      \<and> HasPrefix (TrimSpace (nth_line lines (rs_first s - 2))) ConsoleMarker)"

definition RemoveConsoleRule :: "yaml_parser \<Rightarrow> string \<Rightarrow> string \<Rightarrow> string + (string \<times> bool)" where
  "RemoveConsoleRule parse src tool =
     (case rules_of parse src of
        Inl err \<Rightarrow> Inl err
      | Inr (spans, k) \<Rightarrow>
          (let lines = splitLines src in
           case find (console_rule lines tool) spans of
             None \<Rightarrow> Inr (src, False)
           | Some s \<Rightarrow> Inr (joinLines (take (rs_first s - 2) lines @ drop (rs_last s) lines) src, True)))"

section \<open>Scalars of the configuration\<close>

record scalar =
  sl_Section :: string
  sl_Key :: string
  sl_Value :: string

definition TrimRight :: "char \<Rightarrow> string \<Rightarrow> string" where
  "TrimRight c s = rev (dropWhile (\<lambda>x. x = c) (rev s))"

definition setScalar :: "yaml_parser \<Rightarrow> string \<Rightarrow> scalar \<Rightarrow> string + string" where
  "setScalar parse src u =
     (case parse src of
        None \<Rightarrow> Inl ''config is not valid YAML''
      | Some doc \<Rightarrow>
          (case doc of
             None \<Rightarrow> Inl ''config root is not a mapping''
           | Some tree \<Rightarrow>
               if yn_Kind tree \<noteq> MappingNode then Inl ''config root is not a mapping''
               else
                 (let lines = Split (CHR 0x0A) src in
                  case child tree (sl_Section u) of
                    None \<Rightarrow>
                      Inr (TrimRight (CHR 0x0A) src @ nl @ nl @ sl_Section u @ '':'' @ nl @ ''  '' @ sl_Key u @ '': ''
                             @ sl_Value u @ nl)
                  | Some (sk, sec) \<Rightarrow>
                      if yn_Kind sec \<noteq> MappingNode then Inl (''config section '' @ Quote (sl_Section u) @ '' is not a mapping'')
                      else
                        (case child sec (sl_Key u) of
                           Some (k, v) \<Rightarrow>
                             if yn_Kind v \<noteq> ScalarNode \<or> yn_Line v \<noteq> yn_Line k
                             then Inl (sl_Section u @ ''.'' @ sl_Key u @ '' is not a one-line value; edit it in the file'')
                             else
                               (let idx = yn_Line v - 1;
                                    cm = (if yn_LineComment v \<noteq> [] then '' '' @ yn_LineComment v else []) in
                                Inr (Join (lines[idx := take (yn_Column v - 1) (nth_line lines idx) @ sl_Value u @ cm]) nl))
                         | None \<Rightarrow>
                             (let (indent, lst) = (if yn_Content sec \<noteq> []
                                    then (yn_Column (hd (yn_Content sec)) - 1, lastLine sec) else (2, yn_Line sec));
                                  entry = replicate indent (CHR '' '') @ sl_Key u @ '': '' @ sl_Value u in
                              Inr (Join (take lst lines @ [entry] @ drop lst lines) nl))))))"

fun SetScalars :: "yaml_parser \<Rightarrow> string \<Rightarrow> scalar list \<Rightarrow> string + string" where
  "SetScalars parse src [] = Inr src"
| "SetScalars parse src (u # us) =
     (case setScalar parse src u of Inl err \<Rightarrow> Inl err | Inr out \<Rightarrow> SetScalars parse out us)"

section \<open>Lines and text\<close>

lemma Split_Join:
  "ls \<noteq> [] \<Longrightarrow> \<forall>l \<in> set ls. c \<notin> set l \<Longrightarrow> Split c (Join ls [c]) = ls"
proof (induction ls)
  case (Cons l ls)
  have one: "c \<notin> set w \<Longrightarrow> Split c w = [w]" for w by (induction w) auto
  have app: "c \<notin> set w \<Longrightarrow> Split c (w @ c # r) = w # Split c r" for w r by (induction w) auto
  show ?case
  proof (cases "ls = []")
    case True
    then show ?thesis using Cons.prems one by simp
  next
    case False
    then show ?thesis using Cons by (simp add: Join_Cons app)
  qed
qed simp

lemma TrimSuffix_nl [simp]: "TrimSuffix (s @ nl) nl = s"
  by (simp add: TrimSuffix_def HasSuffix_def)

lemma TrimSuffix_none: "s = [] \<or> last s \<noteq> CHR 0x0A \<Longrightarrow> TrimSuffix s nl = s"
  by (cases s rule: rev_cases) (auto simp: TrimSuffix_def HasSuffix_def)

lemma joinLines_splitLines:
  assumes "src \<noteq> []"
  shows "joinLines (splitLines src) src = src"
proof (cases "last src = CHR 0x0A")
  case True
  then obtain s where s: "src = s @ nl" using assms by (metis append_butlast_last_id)
  then show ?thesis by (simp add: joinLines_def splitLines_def Let_def)
next
  case False
  then show ?thesis using assms by (simp add: joinLines_def splitLines_def Let_def TrimSuffix_none)
qed

lemma Join_eq_Nil: "Join ls [c] = [] \<longleftrightarrow> ls = [] \<or> ls = [[]]"
  by (induction ls "[c]" rule: Join.induct) auto

lemma last_Join: "ls \<noteq> [] \<Longrightarrow> last ls \<noteq> [] \<Longrightarrow> Join ls sep \<noteq> [] \<and> last (Join ls sep) = last (last ls)"
  by (induction ls) (auto simp: Join_Cons)

lemma splitLines_joinLines:
  assumes "ls \<noteq> []" "ls \<noteq> [[]]" "\<forall>l \<in> set ls. CHR 0x0A \<notin> set l"
    and "orig = [] \<or> last orig = CHR 0x0A \<or> last ls \<noteq> []"
  shows "splitLines (joinLines ls orig) = ls"
proof -
  have n: "Join ls nl \<noteq> []" using assms(1,2) by (simp add: Join_eq_Nil)
  show ?thesis
  proof (cases "orig = [] \<or> last orig = CHR 0x0A")
    case True
    then show ?thesis using n assms(1,3) by (simp add: joinLines_def splitLines_def Let_def Split_Join)
  next
    case False
    then have l: "last ls \<noteq> []" using assms(4) by simp
    then have "last (Join ls nl) \<noteq> CHR 0x0A"
      using last_Join [OF assms(1) l] assms(1,3) by (metis last_in_set)
    then show ?thesis using False n assms(1,3)
      by (simp add: joinLines_def splitLines_def Let_def TrimSuffix_none Split_Join)
  qed
qed

lemma splitLines_no_nl: "\<forall>l \<in> set (splitLines src). CHR 0x0A \<notin> set l"
  using Split_no_sep by (simp add: splitLines_def Let_def)

lemma splitLines_last:
  assumes "src \<noteq> []" "last src \<noteq> CHR 0x0A"
  shows "splitLines src \<noteq> [] \<and> last (splitLines src) \<noteq> []"
proof -
  have "last (Split c s) \<noteq> []" if "s \<noteq> []" "last s \<noteq> c" for c s
    using that
  proof (induction s)
    case (Cons x s)
    then show ?case by (cases "s = []") (auto split: list.split)
  qed simp
  then show ?thesis using assms by (simp add: splitLines_def Let_def TrimSuffix_none)
qed

lemma joinLines_ends:
  assumes "ls \<noteq> []" "\<forall>l \<in> set ls. CHR 0x0A \<notin> set l" "orig \<noteq> []" "last orig \<noteq> CHR 0x0A \<longrightarrow> last ls \<noteq> []"
  shows "joinLines ls orig \<noteq> [] \<and> (last (joinLines ls orig) = CHR 0x0A \<longleftrightarrow> last orig = CHR 0x0A)"
proof (cases "last orig = CHR 0x0A")
  case False
  then have "last ls \<noteq> []" using assms(4) by simp
  then show ?thesis using False assms(1-3) last_Join [OF assms(1)] by (auto simp: joinLines_def) (metis last_in_set)
qed (simp add: joinLines_def)

text \<open>A block of lines put into a text, and taken out again.\<close>

lemma block_roundtrip:
  assumes "src \<noteq> []" and "place \<le> length (splitLines src)"
    and "block \<noteq> []" "\<forall>l \<in> set block. l \<noteq> [] \<and> CHR 0x0A \<notin> set l"
  defines "lines' \<equiv> take place (splitLines src) @ block @ drop place (splitLines src)"
  shows "splitLines (joinLines lines' src) = lines'"
    and "joinLines (take place lines' @ drop (place + length block) lines') (joinLines lines' src) = src"
proof -
  let ?L = "splitLines src"
  have nl: "\<forall>l \<in> set lines'. CHR 0x0A \<notin> set l"
    using splitLines_no_nl [of src] assms(4) by (auto simp: lines'_def dest: in_set_takeD in_set_dropD)
  have ne: "lines' \<noteq> []" and one: "lines' \<noteq> [[]]"
    using assms(3,4) by (auto simp: lines'_def append_eq_Cons_conv)
  have lst: "last lines' \<noteq> []" if "last src \<noteq> CHR 0x0A"
  proof (cases "drop place ?L = []")
    case True
    then show ?thesis using assms(3,4) by (simp add: lines'_def)
  next
    case False
    then show ?thesis using splitLines_last [OF assms(1) that] by (simp add: lines'_def)
  qed
  show "splitLines (joinLines lines' src) = lines'"
    by (rule splitLines_joinLines [OF ne one nl]) (use lst in blast)
  have e: "joinLines lines' src \<noteq> []"
      "last (joinLines lines' src) = CHR 0x0A \<longleftrightarrow> last src = CHR 0x0A"
    using joinLines_ends [OF ne nl assms(1)] lst by blast+
  have "take place lines' @ drop (place + length block) lines' = ?L"
    using assms(2) by (simp add: lines'_def)
  moreover have "joinLines ?L (joinLines lines' src) = joinLines ?L src"
    using e assms(1) unfolding joinLines_def [of ?L] by simp
  ultimately show "joinLines (take place lines' @ drop (place + length block) lines') (joinLines lines' src) = src"
    using joinLines_splitLines [OF assms(1)] by simp
qed

lemma rule_block_lines:
  assumes "CHR 0x0A \<notin> set action" "CHR 0x0A \<notin> set note"
  shows "\<forall>l \<in> set (rule_block indent tool action note). l \<noteq> [] \<and> CHR 0x0A \<notin> set l"
proof -
  have "CHR 0x0A \<notin> set (quote_char c)" for c
  proof -
    have h: "hex_digit k \<noteq> CHR 0x0A" if "k < 16" for k
      using that by (auto simp: hex_digit_def of_char_eq_iff [where 'a = nat, symmetric])
    have "(of_char c :: nat) div 16 < 16" "(of_char c :: nat) mod 16 < 16"
      using nat_of_char_less_256 [of c] by (simp_all add: less_mult_imp_div_less)
    then show ?thesis using h
      by (auto simp: quote_char_def Let_def of_char_eq_iff [where 'a = nat, symmetric])
  qed
  then have "CHR 0x0A \<notin> set (Quote tool)" by (simp add: Quote_def)
  then show ?thesis using assms by (auto simp: rule_block_def Let_def ConsoleMarker_def)
qed

lemma InsertRule_InrE:
  assumes "InsertRule parse src tool action pos note = Inr out"
  obtains spans k place indent where "rules_of parse src = Inr (spans, k)" "spans \<noteq> []"
    "insert_place spans (splitLines src) pos = (place, indent)"
    "out = joinLines (take place (splitLines src) @ rule_block indent tool action note
             @ drop place (splitLines src)) src"
  using assms
  by (cases "rules_of parse src")
     (auto simp: InsertRule_def Let_def split: if_splits prod.splits sum.splits)

lemma actionLine_split:
  assumes "actionLine line = Some (b, a, r)"
  shows "line = b @ a @ r"
proof -
  have tw: "takeWhile P s @ dropWhile P s = s" for P and s :: string by simp
  have key: "action_key s = Some (k, v) \<Longrightarrow> s = k @ v" for s k v
    by (auto simp: action_key_def Let_def HasPrefix_def prefix_def split: if_splits)
  have hd: "action_head s = Some (k, v) \<Longrightarrow> s = k @ v" for s k v
  proof -
    assume h: "action_head s = Some (k, v)"
    obtain c r1 where r: "dropWhile is_re_space s = c # r1"
      using h by (cases "dropWhile is_re_space s") (auto simp: action_head_def)
    have s: "s = takeWhile is_re_space s @ c # r1" using tw [of is_re_space s] r by simp
    have r1: "r1 = takeWhile is_re_space r1 @ dropWhile is_re_space r1" by simp
    show "s = k @ v"
      using h r by (subst s) (auto simp: action_head_def Let_def split: if_splits dest!: key, (subst r1, simp)?)
  qed
  have cl: "closed_by q s = Some (m, v) \<Longrightarrow> q # s = m @ v" for q s m v
  proof -
    assume c: "closed_by q s = Some (m, v)"
    then obtain x r where r: "dropWhile (\<lambda>c. c \<noteq> q) s = x # r"
      by (cases "dropWhile (\<lambda>c. c \<noteq> q) s") (auto simp: closed_by_def)
    then have "x = q" by (auto simp: dropWhile_eq_Cons_conv)
    then show "q # s = m @ v" using c r tw [of "\<lambda>c. c \<noteq> q" s] by (auto simp: closed_by_def)
  qed
  have val: "action_value s = Some (m, v) \<Longrightarrow> s = m @ v" for s m v
    by (cases s) (auto simp: action_value_def Let_def split: if_splits option.splits dest: cl)
  from assms show ?thesis
    by (auto simp: actionLine_def split: option.splits dest!: hd val)
qed

section \<open>Properties\<close>

text \<open>
  The console can take back what it wrote: removing the rule of a tool after inserting one
  gives the file back byte for byte, wherever the rule was put and whether or not the file ended
  with a line break, provided the parser finds the new rule on the lines it was written to and no
  console rule for the tool stands before it.
\<close>

theorem console_rule_roundtrip:
  assumes "InsertRule parse src tool action pos note = Inr out"
    and "src \<noteq> []" "CHR 0x0A \<notin> set action" "CHR 0x0A \<notin> set note"
    and "rules_of parse src = Inr (spans, k)"
    and "insert_place spans (splitLines src) pos = (place, indent)" "place \<le> length (splitLines src)"
    and "rules_of parse out = Inr (spans', k')"
    and "find (console_rule (splitLines out) tool) spans' = Some s" "rs_first s = place + 2" "rs_last s = place + 3"
  shows "RemoveConsoleRule parse out tool = Inr (src, True)"
proof -
  have out: "out = joinLines (take place (splitLines src) @ rule_block indent tool action note
      @ drop place (splitLines src)) src"
    using assms(1,5,6) by (auto elim!: InsertRule_InrE)
  let ?b = "rule_block indent tool action note"
  have b: "?b \<noteq> []" "length ?b = 3" by (simp_all add: rule_block_def Let_def)
  note R = block_roundtrip [OF assms(2,7) b(1) rule_block_lines [OF assms(3,4)]]
  have lines: "splitLines out = take place (splitLines src) @ ?b @ drop place (splitLines src)"
    unfolding out by (rule R(1))
  have "joinLines (take place (splitLines out) @ drop (place + 3) (splitLines out)) out = src"
    using R(2) unfolding lines b(2) out [symmetric] by simp
  then show ?thesis using assms(8-11) by (simp add: RemoveConsoleRule_def Let_def)
qed

definition demo_scalar :: "nat \<Rightarrow> nat \<Rightarrow> string \<Rightarrow> yaml_node" where
  "demo_scalar line col v = YamlNode ScalarNode v line col [] []"

text \<open>The node of a rule of the shape the console writes, from its first line on.\<close>

definition demo_rule_node :: "nat \<Rightarrow> string \<Rightarrow> string \<Rightarrow> yaml_node" where
  "demo_rule_node line tool action = YamlNode MappingNode [] line 3 []
     [demo_scalar line 3 ''tools'', YamlNode SequenceNode [] line 10 [] [demo_scalar line 11 tool],
      demo_scalar (Suc line) 3 ''action'', demo_scalar (Suc line) 11 action]"

definition demo_tree :: "yaml_node list \<Rightarrow> yaml_node" where
  "demo_tree rules = YamlNode MappingNode [] 1 1 []
     [demo_scalar 1 1 ''rules'', YamlNode SequenceNode [] 2 1 [] rules]"

definition demo_file :: string where
  "demo_file = ''rules:'' @ nl @ ''- tools: [x]'' @ nl @ ''  action: deny''"

definition demo_parse :: yaml_parser where
  "demo_parse src = Some (Some (demo_tree
     (if src = demo_file then [demo_rule_node 2 ''x'' ''deny'']
      else [demo_rule_node 3 ''t'' ''allow'', demo_rule_node 5 ''x'' ''deny''])))"

theorem console_rule_roundtrip_witness:
  "\<exists>out. InsertRule demo_parse demo_file ''t'' ''allow'' (Some 0) ''today'' = Inr out
     \<and> out = ''rules:'' @ nl @ ''# set from console, today'' @ nl @ ''- tools: ['' @ Quote ''t'' @ '']'' @ nl
              @ ''  action: allow'' @ nl @ ''- tools: [x]'' @ nl @ ''  action: deny''
     \<and> RemoveConsoleRule demo_parse out ''t'' = Inr (demo_file, True)"
proof -
  let ?out = "''rules:'' @ nl @ ''# set from console, today'' @ nl @ ''- tools: ['' @ Quote ''t'' @ '']'' @ nl
              @ ''  action: allow'' @ nl @ ''- tools: [x]'' @ nl @ ''  action: deny''"
  let ?s = "span_of (demo_rule_node 3 ''t'' ''allow'')"
  have ins: "InsertRule demo_parse demo_file ''t'' ''allow'' (Some 0) ''today'' = Inr ?out" by code_simp
  have r1: "rules_of demo_parse demo_file = Inr ([span_of (demo_rule_node 2 ''x'' ''deny'')], demo_scalar 1 1 ''rules'')"
    by code_simp
  have pl: "insert_place [span_of (demo_rule_node 2 ''x'' ''deny'')] (splitLines demo_file) (Some 0) = (1, 0)"
    by code_simp
  have le: "(1::nat) \<le> length (splitLines demo_file)" by code_simp
  have r2: "rules_of demo_parse ?out
      = Inr ([?s, span_of (demo_rule_node 5 ''x'' ''deny'')], demo_scalar 1 1 ''rules'')"
    by code_simp
  have f: "find (console_rule (splitLines ?out) ''t'') [?s, span_of (demo_rule_node 5 ''x'' ''deny'')] = Some ?s"
    by code_simp
  have fl: "rs_first ?s = 1 + 2" "rs_last ?s = 1 + 3" by code_simp+
  have "demo_file \<noteq> []" by (simp add: demo_file_def)
  from console_rule_roundtrip [OF ins this _ _ r1 pl le r2 f fl] ins show ?thesis by simp
qed

text \<open>
  An action is changed in its place: when \<open>SetAction\<close> succeeds, the text differs from the file
  in one line, the one that holds the action of that rule, and there in the action alone: the
  indentation and key before it and the comment behind it stay.
\<close>

theorem SetAction_touches_the_action:
  assumes "SetAction parse src pos action = Inr out"
  shows "\<exists>spans k ak av before old behind. rules_of parse src = Inr (spans, k) \<and> pos < length spans
    \<and> child (rs_node (spans ! pos)) ''action'' = Some (ak, av)
    \<and> yn_Line av - 1 < length (splitLines src) \<and> old \<noteq> []
    \<and> splitLines src ! (yn_Line av - 1) = before @ old @ behind
    \<and> out = joinLines ((splitLines src)[yn_Line av - 1 := before @ action @ behind]) src"
proof -
  obtain spans k where R: "rules_of parse src = Inr (spans, k)"
    using assms by (cases "rules_of parse src") (auto simp: SetAction_def)
  then have pos: "pos < length spans" using assms by (simp add: SetAction_def not_le split: if_splits)
  then obtain ak av where C: "child (rs_node (spans ! pos)) ''action'' = Some (ak, av)"
    using assms R by (auto simp: SetAction_def split: option.splits)
  let ?l = "nth_line (splitLines src) (yn_Line av - 1)"
  obtain b a r where A: "actionLine ?l = Some (b, a, r)"
      and out: "out = joinLines ((splitLines src)[yn_Line av - 1 := b @ action @ r]) src"
    using assms R pos C by (cases "actionLine ?l") (auto simp: SetAction_def Let_def)
  have l: "?l = b @ a @ r" by (rule actionLine_split [OF A])
  have "?l \<noteq> []" using A by (auto simp: actionLine_def action_head_def)
  then have lt: "yn_Line av - 1 < length (splitLines src)" by (simp add: nth_line_def split: if_splits)
  have "a \<noteq> []"
    using A by (auto simp: actionLine_def action_value_def closed_by_def Let_def split: option.splits list.splits if_splits)
  then show ?thesis
    using R pos C out l lt by (intro exI conjI) (assumption | simp add: nth_line_def)+
qed

theorem SetAction_touches_the_action_witness:
  "SetAction (\<lambda>_. Some (Some (demo_tree [demo_rule_node 2 ''x'' ''deny'']))) (demo_file @ ''  # why'') 0 ''allow''
     = Inr (''rules:'' @ nl @ ''- tools: [x]'' @ nl @ ''  action: allow  # why'')
   \<and> (\<exists>before old behind. splitLines (demo_file @ ''  # why'') ! 2 = before @ old @ behind \<and> old \<noteq> [])"
proof -
  let ?p = "\<lambda>_. Some (Some (demo_tree [demo_rule_node 2 ''x'' ''deny'']))"
  have s: "SetAction ?p (demo_file @ ''  # why'') 0 ''allow''
      = Inr (''rules:'' @ nl @ ''- tools: [x]'' @ nl @ ''  action: allow  # why'')"
    by code_simp
  have c: "map_sum id (\<lambda>(spans, k). map_option (yn_Line \<circ> snd) (child (rs_node (spans ! 0)) ''action''))
      (rules_of ?p (demo_file @ ''  # why'')) = Inr (Some 3)"
    by code_simp
  from SetAction_touches_the_action [OF s] obtain spans k ak av before old behind
    where f: "rules_of ?p (demo_file @ ''  # why'') = Inr (spans, k)"
      "child (rs_node (spans ! 0)) ''action'' = Some (ak, av)" "old \<noteq> []"
      "splitLines (demo_file @ ''  # why'') ! (yn_Line av - 1) = before @ old @ behind"
    by blast
  have "yn_Line av = 3" using c f(1,2) by simp
  then have "splitLines (demo_file @ ''  # why'') ! 2 = before @ old @ behind" using f(4) by simp
  with s f(3) show ?thesis by blast
qed

end
