(* ===== verification/Precedents.thy ===== *)
theory Precedents
  imports Approvals Text_Edit
begin

text \<open>
  What mem7 remembers, as the console shows it (\<open>approval/memory.go\<close>): the list of decisions read
  back line by line and grouped by tool and agent, whether the next call would pass on precedents
  alone, their removal, and the counters of the writer.
\<close>

section \<open>A line of the list\<close>

definition is_hex_lower :: "char \<Rightarrow> bool" where
  "is_hex_lower c = (CHR ''0'' \<le> c \<and> c \<le> CHR ''9'' \<or> CHR ''a'' \<le> c \<and> c \<le> CHR ''f'')"

definition not_space :: "char \<Rightarrow> bool" where
  "not_space c = (\<not> is_re_space c)"

text \<open>The tool of a key \<open>decision.<tool>.<id>\<close>, the tags in brackets, the date behind the last dash.\<close>

definition key_tool :: "string \<Rightarrow> string option" where
  "key_tool w =
     (let r = rev w; hex = takeWhile is_hex_lower r; rest = dropWhile is_hex_lower r in
      if hex \<noteq> [] \<and> rest \<noteq> [] \<and> hd rest = CHR ''.'' \<and> drop 1 rest \<noteq> [] then Some (rev (drop 1 rest)) else None)"

definition last_word :: "string \<Rightarrow> string option" where
  "last_word s =
     (let r = rev s; w = takeWhile not_space r; rest = dropWhile not_space r in
      if w \<noteq> [] \<and> HasSuffix (rev rest) (emdash @ '' '') then Some (rev w) else None)"

definition list_line :: "string \<Rightarrow> (string \<times> string \<times> string) option" where
  "list_line line =
     (if \<not> HasPrefix line ''- decision.'' then None
      else
        (let s = TrimPrefix line ''- decision.''; w = takeWhile not_space s; rest = dropWhile not_space s in
         if \<not> HasPrefix rest '' ['' then None
         else
           (let t = TrimPrefix rest '' ['';
                tags = takeWhile (\<lambda>c. c \<noteq> CHR '']'') t; behind = dropWhile (\<lambda>c. c \<noteq> CHR '']'') t in
            if behind = [] then None
            else
              (case (key_tool w, last_word (drop 1 behind)) of
                 (Some tool, Some date) \<Rightarrow> Some (tool, tags, date)
               | _ \<Rightarrow> None))))"

section \<open>The list\<close>

record precedent =
  pr_Tool :: string
  pr_Agent :: string
  pr_HumanApproved :: int
  pr_OtherApproved :: int
  pr_Refused :: int
  pr_Untagged :: int
  pr_Last :: string
  pr_AutoApprovable :: bool
  pr_WouldAutoApprove :: bool

text \<open>The status, the resolver and the agent among the tags, each from the last tag that says so.\<close>

definition read_tag :: "string \<Rightarrow> string \<times> string \<times> string \<Rightarrow> string \<times> string \<times> string" where
  "read_tag tag0 acc =
     (case acc of
        (status, resolver, agent) \<Rightarrow>
          (let tag = TrimSpace tag0 in
           if tag = ''approved'' \<or> tag = ''denied'' \<or> tag = ''timeout'' then (tag, resolver, agent)
           else if HasPrefix tag ''by:'' then (status, TrimPrefix tag ''by:'', agent)
           else if HasPrefix tag ''agent:'' then (status, resolver, TrimPrefix tag ''agent:'')
           else (status, resolver, agent)))"

definition count_decision :: "string \<Rightarrow> string \<Rightarrow> string \<Rightarrow> precedent \<Rightarrow> precedent" where
  "count_decision status resolver date p0 =
     (let p = (if status = ''denied'' then p0\<lparr>pr_Refused := pr_Refused p0 + 1\<rparr>
               else if status = ''approved'' \<and> resolver = ''human'' then p0\<lparr>pr_HumanApproved := pr_HumanApproved p0 + 1\<rparr>
               else if status = ''approved'' \<and> resolver = [] then p0\<lparr>pr_Untagged := pr_Untagged p0 + 1\<rparr>
               else if status = ''approved'' then p0\<lparr>pr_OtherApproved := pr_OtherApproved p0 + 1\<rparr>
               else p0) in
      if pr_Last p < date then p\<lparr>pr_Last := date\<rparr> else p)"

definition no_precedent :: "string \<Rightarrow> string \<Rightarrow> precedent" where
  "no_precedent tool agent =
     \<lparr>pr_Tool = tool, pr_Agent = agent, pr_HumanApproved = 0, pr_OtherApproved = 0, pr_Refused = 0, pr_Untagged = 0,
      pr_Last = [], pr_AutoApprovable = False, pr_WouldAutoApprove = False\<rparr>"

text \<open>What a line says: tool, agent, status, resolver and date.\<close>

definition read_line :: "string \<Rightarrow> (string \<times> string \<times> string \<times> string \<times> string) option" where
  "read_line line =
     (case list_line (TrimSpace line) of
        None \<Rightarrow> None
      | Some (tool, tags, date) \<Rightarrow>
          (case fold read_tag (Split (CHR '','') tags) ([], [], []) of
             (status, resolver, agent) \<Rightarrow> Some (tool, agent, status, resolver, date)))"

text \<open>The couples in the order of their first decision; the key joins tool and agent with a zero byte.\<close>

definition couple_key :: "string \<Rightarrow> string \<Rightarrow> string" where
  "couple_key tool agent = tool @ [CHR 0x00] @ agent"

definition add_line :: "string \<Rightarrow> (string \<times> precedent) list \<Rightarrow> (string \<times> precedent) list" where
  "add_line line m =
     (case read_line line of
        None \<Rightarrow> m
      | Some (tool, agent, status, resolver, date) \<Rightarrow>
          (let p = (case map_of m (couple_key tool agent) of None \<Rightarrow> no_precedent tool agent | Some p \<Rightarrow> p) in
           AList.update (couple_key tool agent) (count_decision status resolver date p) m))"

definition ListPrecedents :: "mem7 \<Rightarrow> memory_reader option \<Rightarrow> precedent list option" where
  "ListPrecedents mem m =
     (case m of
        None \<Rightarrow> None
      | Some r \<Rightarrow>
          if mr_url r = [] then None
          else map_option (\<lambda>answer. map snd (fold add_line (Split (CHR 0x0A) answer) []))
                 (mem ''memory_list'' [''decision'']))"

definition Precedents :: "mem7 \<Rightarrow> approval_store option \<Rightarrow> precedent list option" where
  "Precedents mem st =
     (case st of
        None \<Rightarrow> None
      | Some s \<Rightarrow>
          if as_reader s = None then None
          else
            map_option (map (\<lambda>p.
                let ok = (case as_AutoApprovable s of None \<Rightarrow> True | Some f \<Rightarrow> f (pr_Tool p)) in
                p\<lparr>pr_AutoApprovable := ok,
                  pr_WouldAutoApprove := ok \<and> pr_Refused p = 0
                    \<and> pr_HumanApproved p \<ge> reader_MinApprovals (as_reader s)\<rparr>))
              (ListPrecedents mem (as_reader s)))"

definition ForgetPrecedents :: "mem7 \<Rightarrow> memory_reader option \<Rightarrow> string \<Rightarrow> string \<Rightarrow> string + string" where
  "ForgetPrecedents mem m tool agentID =
     (case m of
        None \<Rightarrow> Inl ''no memory server''
      | Some r \<Rightarrow>
          if mr_url r = [] then Inl ''no memory server''
          else if tool = [] \<or> agentID = [] then Inl ''tool and agent are required''
          else
            (case mem ''memory_forget'' [''decision'', tool, ''agent:'' @ agentID] of
               None \<Rightarrow> Inl ''mem7 call failed''
             | Some answer \<Rightarrow> Inr answer))"

section \<open>The counters of the writer\<close>

record writer_stats =
  ws_Attempted :: nat
  ws_Succeeded :: nat
  ws_Failed :: nat

text \<open>One write: the answer of mem7 is a status, \<open>None\<close> a failure before it.\<close>

definition memory_store :: "nat option \<Rightarrow> writer_stats \<Rightarrow> writer_stats" where
  "memory_store status w =
     (let w1 = w\<lparr>ws_Attempted := Suc (ws_Attempted w)\<rparr> in
      case status of
        None \<Rightarrow> w1\<lparr>ws_Failed := Suc (ws_Failed w)\<rparr>
      | Some s \<Rightarrow> if s \<ge> 400 then w1\<lparr>ws_Failed := Suc (ws_Failed w)\<rparr> else w1\<lparr>ws_Succeeded := Suc (ws_Succeeded w)\<rparr>)"

lemma memory_store_counts:
  "ws_Attempted w = ws_Succeeded w + ws_Failed w \<Longrightarrow>
   ws_Attempted (memory_store st w) = ws_Succeeded (memory_store st w) + ws_Failed (memory_store st w)"
  by (auto simp: memory_store_def Let_def split: option.split)

section \<open>Properties\<close>

lemma add_line_lookup:
  "map_of (add_line line m) =
     (case read_line line of
        None \<Rightarrow> map_of m
      | Some (tool, agent, status, resolver, date) \<Rightarrow>
          (map_of m)(couple_key tool agent \<mapsto> count_decision status resolver date
             (case map_of m (couple_key tool agent) of None \<Rightarrow> no_precedent tool agent | Some p \<Rightarrow> p)))"
  by (simp add: add_line_def Let_def update_conv' split: option.split prod.split)

lemma add_line_keys: "distinct (map fst m) \<Longrightarrow> distinct (map fst (add_line line m))"
  by (auto simp: add_line_def Let_def distinct_update split: option.split prod.split)

lemma add_lines_keys: "distinct (map fst m) \<Longrightarrow> distinct (map fst (fold add_line ls m))"
  by (induction ls arbitrary: m) (simp_all add: add_line_keys)

text \<open>A row stands under the key of its own couple.\<close>

definition rows_ok :: "(string \<times> precedent) list \<Rightarrow> bool" where
  "rows_ok m = (\<forall>k p. map_of m k = Some p \<longrightarrow> k = couple_key (pr_Tool p) (pr_Agent p))"

lemma count_decision_couple [simp]:
  "pr_Tool (count_decision st r d p) = pr_Tool p" "pr_Agent (count_decision st r d p) = pr_Agent p"
  by (simp_all add: count_decision_def Let_def)

lemma add_line_rows: "rows_ok m \<Longrightarrow> rows_ok (add_line line m)"
  by (auto simp: rows_ok_def add_line_lookup no_precedent_def split: option.splits)

lemma add_lines_rows: "rows_ok m \<Longrightarrow> rows_ok (fold add_line ls m)"
  by (induction ls arbitrary: m) (simp_all add: add_line_rows)

text \<open>The lines about a couple that say something of the status and the resolver.\<close>

definition says :: "(string \<Rightarrow> string \<Rightarrow> bool) \<Rightarrow> string \<Rightarrow> string \<Rightarrow> bool" where
  "says P key line =
     (case read_line line of
        None \<Rightarrow> False
      | Some (tool, agent, status, resolver, date) \<Rightarrow> couple_key tool agent = key \<and> P status resolver)"

definition tally :: "(string \<Rightarrow> string \<Rightarrow> bool) \<Rightarrow> string \<Rightarrow> string list \<Rightarrow> int" where
  "tally P key ls = int (length (filter (says P key) ls))"

definition counter :: "(precedent \<Rightarrow> int) \<Rightarrow> (string \<times> precedent) list \<Rightarrow> string \<Rightarrow> int" where
  "counter f m key = (case map_of m key of None \<Rightarrow> 0 | Some p \<Rightarrow> f p)"

lemma counter_is_tally:
  assumes "\<And>st r d p. f (count_decision st r d p) = f p + (if P st r then 1 else 0)"
    and "\<And>t a. f (no_precedent t a) = 0"
  shows "counter f (fold add_line ls m) key = counter f m key + tally P key ls"
proof (induction ls arbitrary: m)
  case (Cons l ls)
  have "counter f (add_line l m) key = counter f m key + tally P key [l]"
    by (auto simp: counter_def add_line_lookup tally_def says_def assms split: option.splits)
  with Cons [of "add_line l m"] show ?case by (simp add: tally_def)
qed (simp add: tally_def)

definition human_says :: "string \<Rightarrow> string \<Rightarrow> bool" where
  "human_says st r = (st = ''approved'' \<and> r = ''human'')"

definition refused_says :: "string \<Rightarrow> string \<Rightarrow> bool" where
  "refused_says st r = (st = ''denied'')"

lemmas counts_human = counter_is_tally [where f = pr_HumanApproved and P = human_says]
lemmas counts_refused = counter_is_tally [where f = pr_Refused and P = refused_says]

lemma row_counts:
  assumes "p \<in> set (map snd (fold add_line ls []))"
  shows "pr_HumanApproved p = tally human_says (couple_key (pr_Tool p) (pr_Agent p)) ls
    \<and> pr_Refused p = tally refused_says (couple_key (pr_Tool p) (pr_Agent p)) ls"
proof -
  let ?m = "fold add_line ls []"
  from assms obtain k where "(k, p) \<in> set ?m" by auto
  then have lookup: "map_of ?m k = Some p" using add_lines_keys [of "[]" ls] by simp
  have "rows_ok ?m" by (rule add_lines_rows) (simp add: rows_ok_def)
  with lookup have k: "k = couple_key (pr_Tool p) (pr_Agent p)" by (simp add: rows_ok_def)
  have "counter pr_HumanApproved ?m k = tally human_says k ls"
    by (subst counts_human) (auto simp: count_decision_def Let_def human_says_def no_precedent_def counter_def)
  moreover have "counter pr_Refused ?m k = tally refused_says k ls"
    by (subst counts_refused) (auto simp: count_decision_def Let_def refused_says_def no_precedent_def counter_def)
  ultimately show ?thesis using lookup k by (simp add: counter_def)
qed

lemma tally_zero: "tally P key ls = 0 \<longleftrightarrow> filter (says P key) ls = []"
  by (simp add: tally_def)

text \<open>
  What the console announces is what the verdict would say: the next call of an agent is shown as
  approved from precedents exactly when the tool may be approved that way and the verdict on the
  human approvals and the refusals of that couple, counted line by line in the answer of mem7, is to
  approve. No couple has two rows.
\<close>

theorem console_announces_the_verdict:
  assumes "Precedents mem (Some s) = Some ps" and "as_reader s = Some r"
    and "mem ''memory_list'' [''decision''] = Some answer"
  shows "distinct (map (\<lambda>p. couple_key (pr_Tool p) (pr_Agent p)) ps)
    \<and> (\<forall>p \<in> set ps. pr_WouldAutoApprove p
          = ((case as_AutoApprovable s of None \<Rightarrow> True | Some f \<Rightarrow> f (pr_Tool p))
             \<and> ar_Action (verdict r (tally human_says (couple_key (pr_Tool p) (pr_Agent p)) (Split (CHR 0x0A) answer))
                   (tally refused_says (couple_key (pr_Tool p) (pr_Agent p)) (Split (CHR 0x0A) answer)))
               = ''approve''))"
proof -
  let ?ls = "Split (CHR 0x0A) answer"
  let ?m = "fold add_line ?ls []"
  let ?ok = "\<lambda>t. case as_AutoApprovable s of None \<Rightarrow> True | Some f \<Rightarrow> f t"
  let ?g = "\<lambda>p. p\<lparr>pr_AutoApprovable := ?ok (pr_Tool p),
                  pr_WouldAutoApprove := ?ok (pr_Tool p) \<and> pr_Refused p = 0 \<and> pr_HumanApproved p \<ge> mr_min r\<rparr>"
  have ps: "ps = map ?g (map snd ?m)"
    using assms by (auto simp: Precedents_def ListPrecedents_def reader_MinApprovals_def Let_def split: if_splits)
  have rows: "rows_ok ?m" by (rule add_lines_rows) (simp add: rows_ok_def)
  have dist: "distinct (map fst ?m)" by (rule add_lines_keys) simp
  have keys: "map (\<lambda>p. couple_key (pr_Tool p) (pr_Agent p)) (map snd ?m) = map fst ?m"
    using rows dist by (auto simp: rows_ok_def)
  have "map (\<lambda>p. couple_key (pr_Tool p) (pr_Agent p)) ps = map fst ?m"
    unfolding ps using keys by (simp add: o_def)
  with dist have "distinct (map (\<lambda>p. couple_key (pr_Tool p) (pr_Agent p)) ps)" by simp
  moreover have "pr_WouldAutoApprove p = (?ok (pr_Tool p)
      \<and> ar_Action (verdict r (tally human_says (couple_key (pr_Tool p) (pr_Agent p)) ?ls)
           (tally refused_says (couple_key (pr_Tool p) (pr_Agent p)) ?ls)) = ''approve'')" if "p \<in> set ps" for p
  proof -
    from that ps obtain q where q: "q \<in> set (map snd ?m)" "p = ?g q" by auto
    from row_counts [OF q(1)] have c: "tally human_says (couple_key (pr_Tool q) (pr_Agent q)) ?ls = pr_HumanApproved q"
      "tally refused_says (couple_key (pr_Tool q) (pr_Agent q)) ?ls = pr_Refused q" by simp_all
    have "pr_Refused q \<ge> 0" using c(2) by (simp add: tally_def flip: c(2))
    then have "ar_Action (verdict r (pr_HumanApproved q) (pr_Refused q)) = ''approve''
        \<longleftrightarrow> pr_Refused q = 0 \<and> pr_HumanApproved q \<ge> mr_min r" by (auto simp: verdict_def)
    moreover have "pr_Tool p = pr_Tool q" "pr_Agent p = pr_Agent q"
      "pr_WouldAutoApprove p = (?ok (pr_Tool q) \<and> pr_Refused q = 0 \<and> pr_HumanApproved q \<ge> mr_min r)"
      unfolding q(2) by simp_all
    ultimately show ?thesis by (simp only: c)
  qed
  ultimately show ?thesis by blast
qed

definition demo_answer :: string where
  "demo_answer = Join [''3 memories:'',
     ''- decision.fs.read.a1 [decision, approved, by:human, agent:bot] bot '' @ emdash @ '' 2026-01-01'',
     ''- decision.fs.read.a2 [decision, approved, by:human, agent:bot] bot '' @ emdash @ '' 2026-01-02'',
     ''- decision.fs.write.b [decision, denied, by:human, agent:bot] bot '' @ emdash @ '' 2026-01-03''] [CHR 0x0A]"

definition demo_memory :: mem7 where
  "demo_memory name tags = (if name = ''memory_list'' then Some demo_answer else None)"

definition demo_store :: approval_store where
  "demo_store = (approval_NewStore 0)\<lparr>as_reader := Some (NewMemoryReader ''http://m'' 2)\<rparr>"

theorem console_announces_the_verdict_witness:
  "map (\<lambda>p. (pr_Tool p, pr_Agent p, pr_HumanApproved p, pr_Refused p, pr_Last p, pr_WouldAutoApprove p))
       (the (Precedents demo_memory (Some demo_store)))
     = [(''fs.read'', ''bot'', 2, 0, ''2026-01-02'', True), (''fs.write'', ''bot'', 0, 1, ''2026-01-03'', False)]
   \<and> ar_Action (verdict (NewMemoryReader ''http://m'' 2)
        (tally human_says (couple_key ''fs.read'' ''bot'') (Split (CHR 0x0A) demo_answer))
        (tally refused_says (couple_key ''fs.read'' ''bot'') (Split (CHR 0x0A) demo_answer))) = ''approve''"
  (is "?rows \<and> ?verdict")
proof
  show rows: ?rows by code_simp
  obtain ps where ps: "Precedents demo_memory (Some demo_store) = Some ps"
    by (simp add: Precedents_def ListPrecedents_def demo_store_def demo_memory_def NewMemoryReader_def)
  let ?p = "hd ps"
  from rows ps have p: "?p \<in> set ps" "pr_Tool ?p = ''fs.read''" "pr_Agent ?p = ''bot''" "pr_WouldAutoApprove ?p"
    by auto
  have reader: "as_reader demo_store = Some (NewMemoryReader ''http://m'' 2)" by (simp add: demo_store_def)
  have answer: "demo_memory ''memory_list'' [''decision''] = Some demo_answer" by (simp add: demo_memory_def)
  from bspec [OF conjunct2 [OF console_announces_the_verdict [OF ps reader answer]] p(1)] p show ?verdict by simp
qed

end
