(* ===== verification/Mcp_Client.thy ===== *)
theory Mcp_Client
  imports Forward
begin

text \<open>
  The connection to one upstream MCP server (\<open>mcp/client.go\<close>): the table of requests that wait for
  an answer, the reader that hands each answer to its request, the loss of a connection and the
  loops that restore it. A run is a sequence of events of the callers, the reader, the loops and
  \<open>Close\<close>, in any order.
\<close>

section \<open>The client\<close>

record rpc_answer =
  ra_ID :: gval
  ra_Result :: gval
  ra_Error :: "(int \<times> string) option"

text \<open>A tool as an upstream declares it.\<close>

record wire_tool =
  wt_Name :: string
  wt_Description :: string
  wt_Properties :: "(string \<times> mcp_prop_def) list"
  wt_Required :: "string list"
  wt_Annotations :: "annotations option"

text \<open>
  \<open>mc_pending\<close> holds the keys of the table, \<open>mc_chan\<close> what lies in the channel of each request (it
  has room for one answer). \<open>mc_done\<close> numbers the channel \<open>done\<close> in use, \<open>mc_closed\<close> lists those
  that are closed.
\<close>

record mcp_client =
  mc_Name :: string
  mc_Transport :: string
  mc_ForwardIdentity :: bool
  mc_nextID :: int
  mc_pending :: "int list"
  mc_chan :: "int \<Rightarrow> rpc_answer option"
  mc_tools :: "wire_tool list"
  mc_status :: string
  mc_lastError :: string
  mc_done :: nat
  mc_closed :: "nat list"

definition new_client :: "string \<Rightarrow> string \<Rightarrow> mcp_client" where
  "new_client name transport =
     \<lparr>mc_Name = name, mc_Transport = transport, mc_ForwardIdentity = False, mc_nextID = 0, mc_pending = [],
      mc_chan = (\<lambda>_. None), mc_tools = [], mc_status = ''connecting'', mc_lastError = [], mc_done = 0,
      mc_closed = []\<rparr>"

definition NewStdioClient :: "string \<Rightarrow> mcp_client" where
  "NewStdioClient name = new_client name ''stdio''"

definition NewSSEClient :: "string \<Rightarrow> mcp_client" where
  "NewSSEClient name = new_client name ''sse''"

definition NewStreamableHTTPClient :: "string \<Rightarrow> mcp_client" where
  "NewStreamableHTTPClient name = new_client name ''streamable-http''"

definition setStatus :: "string \<Rightarrow> string \<Rightarrow> mcp_client \<Rightarrow> mcp_client" where
  "setStatus status errMsg c =
     (if mc_status c = ''closed'' then c else c\<lparr>mc_status := status, mc_lastError := errMsg\<rparr>)"

definition client_Status :: "mcp_client \<Rightarrow> string \<times> string" where
  "client_Status c = (mc_status c, mc_lastError c)"

definition client_Tools :: "mcp_client \<Rightarrow> wire_tool list" where
  "client_Tools c = mc_tools c"

text \<open>
  The ID of an answer: Go truncates a number; \<open>huge\<close> is what the machine makes of one outside the
  64 bits, which the language leaves open.
\<close>

definition toInt64 :: "(flt \<Rightarrow> int) \<Rightarrow> gval \<Rightarrow> int option" where
  "toInt64 huge v =
     (case v of
        VInt i \<Rightarrow> Some i
      | VNum (Fin q) \<Rightarrow>
          (let i = (if q < 0 then - floor (- q) else floor q) in
           Some (if - (2 ^ 63) \<le> i \<and> i < 2 ^ 63 then i else huge (Fin q)))
      | VNum f \<Rightarrow> Some (huge f)
      | _ \<Rightarrow> None)"

section \<open>Requests and answers\<close>

text \<open>\<open>send\<close> before its request is written: a new ID, a new channel, an entry in the table.\<close>

definition register :: "mcp_client \<Rightarrow> int \<times> mcp_client" where
  "register c =
     (let i = mc_nextID c + 1 in
      (i, c\<lparr>mc_nextID := i, mc_pending := i # mc_pending c, mc_chan := (mc_chan c)(i := None)\<rparr>))"

definition unregister :: "int \<Rightarrow> mcp_client \<Rightarrow> mcp_client" where
  "unregister i c = c\<lparr>mc_pending := removeAll i (mc_pending c)\<rparr>"

text \<open>The reader with one answer; sending into a full channel blocks it for ever (\<open>None\<close>).\<close>

definition handle_answer :: "(flt \<Rightarrow> int) \<Rightarrow> rpc_answer \<Rightarrow> mcp_client \<Rightarrow> mcp_client option" where
  "handle_answer huge a c =
     (if ra_ID a = VNil then Some c
      else
        (case toInt64 huge (ra_ID a) of
           None \<Rightarrow> Some c
         | Some i \<Rightarrow>
             if i \<notin> set (mc_pending c) then Some c
             else if mc_chan c i \<noteq> None then None
             else Some ((unregister i c)\<lparr>mc_chan := (mc_chan c)(i := Some a)\<rparr>)))"

definition lost :: "string \<Rightarrow> rpc_answer" where
  "lost reason = \<lparr>ra_ID = VNil, ra_Result = VNil, ra_Error = Some (-1, reason)\<rparr>"

text \<open>A channel that holds an answer already is passed over.\<close>

definition failAllPending :: "string \<Rightarrow> mcp_client \<Rightarrow> mcp_client" where
  "failAllPending reason c =
     c\<lparr>mc_pending := [],
       mc_chan := (\<lambda>i. if i \<in> set (mc_pending c) \<and> mc_chan c i = None then Some (lost reason) else mc_chan c i)\<rparr>"

text \<open>
  The end of \<open>send\<close>: the channel it wakes up on, or the error of its context. \<open>None\<close> when that
  channel is not ready.
\<close>

datatype wake = FromChannel | FromDone | FromContext string

definition send_result ::
  "string \<Rightarrow> int \<Rightarrow> nat \<Rightarrow> wake \<Rightarrow> mcp_client \<Rightarrow> (string + rpc_answer) option" where
  "send_result meth i gen wk c =
     (case wk of
        FromChannel \<Rightarrow> map_option Inr (mc_chan c i)
      | FromDone \<Rightarrow> if gen \<in> set (mc_closed c) then Some (Inl (''connection lost while waiting for '' @ meth)) else None
      | FromContext e \<Rightarrow> Some (Inl e))"

definition CallTool_result :: "string + rpc_answer \<Rightarrow> string + gval" where
  "CallTool_result r =
     (case r of
        Inl e \<Rightarrow> Inl e
      | Inr a \<Rightarrow>
          (case ra_Error a of
             Some (code, message) \<Rightarrow> Inl (''MCP error '' @ Itoa code @ '': '' @ message)
           | None \<Rightarrow> Inr (ra_Result a)))"

definition client_Close :: "mcp_client \<Rightarrow> mcp_client" where
  "client_Close c =
     (let c1 = failAllPending ''client closed'' (setStatus ''closed'' [] c) in
      c1\<lparr>mc_closed := mc_done c1 # mc_closed c1\<rparr>)"

section \<open>Connecting\<close>

text \<open>What the handshake brings: the answers to its two requests, its notification, the decoded tools.\<close>

definition handshake ::
  "(gval \<Rightarrow> string + wire_tool list) \<Rightarrow> string + rpc_answer \<Rightarrow> string option \<Rightarrow> string + rpc_answer
     \<Rightarrow> string + wire_tool list" where
  "handshake parseTools init notified listed =
     (case init of
        Inl e \<Rightarrow> Inl (''initialize: '' @ e)
      | Inr _ \<Rightarrow>
          (case notified of
             Some e \<Rightarrow> Inl (''send initialized notification: '' @ e)
           | None \<Rightarrow>
               (case listed of
                  Inl e \<Rightarrow> Inl (''tools/list: '' @ e)
                | Inr a \<Rightarrow>
                    (case parseTools (ra_Result a) of
                       Inl e \<Rightarrow> Inl (''parse tools: '' @ e)
                     | Inr tools \<Rightarrow> Inr tools))))"

definition start_transport :: "string option \<Rightarrow> mcp_client \<Rightarrow> mcp_client" where
  "start_transport started c = (case started of Some e \<Rightarrow> setStatus ''error'' e c | None \<Rightarrow> c)"

definition finish_connect :: "string + wire_tool list \<Rightarrow> mcp_client \<Rightarrow> mcp_client" where
  "finish_connect shaken c =
     (case shaken of Inl _ \<Rightarrow> c | Inr tools \<Rightarrow> setStatus ''ready'' [] (c\<lparr>mc_tools := tools\<rparr>))"

text \<open>The reader at the end of its stream: the client, and whether a loop is started to reconnect.\<close>

definition reader_ends :: "mcp_client \<Rightarrow> mcp_client \<times> bool" where
  "reader_ends c =
     (if mc_status c = ''closed'' then (c, False)
      else (failAllPending ''connection lost'' (setStatus ''error'' ''connection lost'' c), True))"

text \<open>
  A connecting thread: the first connection, or a loop with its wait, at the top of its body,
  asleep, past its second look at the status, and in the connection itself before and after the
  start of the transport.
\<close>

datatype worker =
    FirstStart
  | FirstWait
  | AtTop duration
  | Asleep duration
  | Swapping duration
  | Starting duration
  | Waiting duration

definition next_backoff :: "duration \<Rightarrow> duration" where
  "next_backoff b = (if b * 2 > 30 * second then 30 * second else b * 2)"

text \<open>What a thread meets at its next step, and what it becomes; \<open>True\<close> when it started a reader.\<close>

datatype input = Tick | Started "string option" | Shaken "string + wire_tool list"

fun work :: "worker \<Rightarrow> input \<Rightarrow> mcp_client \<Rightarrow> (worker option \<times> bool \<times> mcp_client) option" where
  "work FirstStart (Started r) c =
     (case r of
        Some e \<Rightarrow> Some (None, False, client_Close (start_transport r c))
      | None \<Rightarrow> Some (Some FirstWait, True, c))"
| "work FirstWait (Shaken r) c =
     (case r of
        Inl e \<Rightarrow> Some (None, False, client_Close c)
      | Inr tools \<Rightarrow> Some (None, False, finish_connect r c))"
| "work (AtTop b) Tick c = Some (if mc_status c = ''closed'' then None else Some (Asleep b), False, c)"
| "work (Asleep b) Tick c = Some (if mc_status c = ''closed'' then None else Some (Swapping b), False, c)"
| "work (Swapping b) Tick c = Some (Some (Starting b), False, c\<lparr>mc_done := mc_done c + 1\<rparr>)"
| "work (Starting b) (Started r) c =
     (case r of
        Some e \<Rightarrow> Some (Some (AtTop (next_backoff b)), False, start_transport r c)
      | None \<Rightarrow> Some (Some (Waiting b), True, c))"
| "work (Waiting b) (Shaken r) c =
     (case r of
        Inl e \<Rightarrow> Some (Some (AtTop (next_backoff b)), False, c)
      | Inr tools \<Rightarrow> Some (None, False, finish_connect r c))"
| "work _ _ c = None"

section \<open>Runs\<close>

text \<open>
  The calls in progress with the channel \<open>done\<close> they wait on once their request is written, the
  results there were, the answers the readers received, the readers and the connecting threads.
\<close>

record upstream =
  up_client :: mcp_client
  up_sends :: "(int \<times> string \<times> nat option) list"
  up_returned :: "(int \<times> (string + rpc_answer)) list"
  up_heard :: "rpc_answer list"
  up_readers :: nat
  up_stuck :: bool
  up_workers :: "worker list"

datatype client_event =
    Send string
  | Written int
  | WriteFailed int string
  | Return int wake
  | Heard rpc_answer
  | StreamEnds
  | Work nat input
  | CloseClient

definition end_send :: "int \<Rightarrow> string + rpc_answer \<Rightarrow> upstream \<Rightarrow> upstream" where
  "end_send i r u =
     u\<lparr>up_client := unregister i (up_client u), up_sends := AList.delete i (up_sends u),
       up_returned := (i, r) # up_returned u\<rparr>"

definition put_worker :: "nat \<Rightarrow> worker option \<Rightarrow> worker list \<Rightarrow> worker list" where
  "put_worker k w ws = (case w of Some x \<Rightarrow> ws[k := x] | None \<Rightarrow> take k ws @ drop (Suc k) ws)"

fun client_do :: "(flt \<Rightarrow> int) \<Rightarrow> client_event \<Rightarrow> upstream \<Rightarrow> upstream option" where
  "client_do huge (Send meth) u =
     (case register (up_client u) of
        (i, c) \<Rightarrow> Some (u\<lparr>up_client := c, up_sends := (i, meth, None) # up_sends u\<rparr>))"
| "client_do huge (Written i) u =
     (case map_of (up_sends u) i of
        Some (meth, None) \<Rightarrow>
          Some (u\<lparr>up_sends := AList.update i (meth, Some (mc_done (up_client u))) (up_sends u)\<rparr>)
      | _ \<Rightarrow> None)"
| "client_do huge (WriteFailed i e) u =
     (case map_of (up_sends u) i of
        Some (meth, None) \<Rightarrow> Some (end_send i (Inl (''write '' @ meth @ '': '' @ e)) u)
      | _ \<Rightarrow> None)"
| "client_do huge (Return i wk) u =
     (case map_of (up_sends u) i of
        Some (meth, Some gen) \<Rightarrow>
          map_option (\<lambda>r. end_send i r u) (send_result meth i gen wk (up_client u))
      | _ \<Rightarrow> None)"
| "client_do huge (Heard a) u =
     (if up_readers u = 0 \<or> up_stuck u then None
      else
        (let u1 = u\<lparr>up_heard := a # up_heard u\<rparr> in
         case handle_answer huge a (up_client u) of
           None \<Rightarrow> Some (u1\<lparr>up_stuck := True\<rparr>)
         | Some c \<Rightarrow> Some (u1\<lparr>up_client := c\<rparr>)))"
| "client_do huge StreamEnds u =
     (if up_readers u = 0 \<or> up_stuck u then None
      else
        (case reader_ends (up_client u) of
           (c, again) \<Rightarrow>
             Some (u\<lparr>up_client := c, up_readers := up_readers u - 1,
                    up_workers := up_workers u @ (if again then [AtTop second] else [])\<rparr>)))"
| "client_do huge (Work k inp) u =
     (if k \<ge> length (up_workers u) then None
      else
        (case work (up_workers u ! k) inp (up_client u) of
           None \<Rightarrow> None
         | Some (w, reads, c) \<Rightarrow>
             Some (u\<lparr>up_client := c, up_readers := up_readers u + (if reads then 1 else 0),
                    up_workers := put_worker k w (up_workers u)\<rparr>)))"
| "client_do huge CloseClient u = Some (u\<lparr>up_client := client_Close (up_client u)\<rparr>)"

inductive client_run :: "(flt \<Rightarrow> int) \<Rightarrow> upstream \<Rightarrow> client_event list \<Rightarrow> upstream \<Rightarrow> bool" for huge u where
  start: "client_run huge u [] u"
| step: "client_run huge u es v \<Longrightarrow> client_do huge e v = Some w \<Longrightarrow> client_run huge u (es @ [e]) w"

definition fresh_upstream :: "string \<Rightarrow> string \<Rightarrow> upstream" where
  "fresh_upstream name transport =
     \<lparr>up_client = new_client name transport, up_sends = [], up_returned = [], up_heard = [], up_readers = 0,
      up_stuck = False, up_workers = [FirstStart]\<rparr>"

section \<open>The table of waiting requests\<close>

text \<open>
  An answer in a channel is one of the two losses or came from the upstream under the ID of this
  request. A call in progress is in the table exactly while its channel is empty.
\<close>

definition answer_origin :: "(flt \<Rightarrow> int) \<Rightarrow> rpc_answer list \<Rightarrow> int \<Rightarrow> rpc_answer \<Rightarrow> bool" where
  "answer_origin huge heard i a =
     (a = lost ''client closed'' \<or> a = lost ''connection lost''
      \<or> a \<in> set heard \<and> ra_ID a \<noteq> VNil \<and> toInt64 huge (ra_ID a) = Some i)"

definition table_ok :: "(flt \<Rightarrow> int) \<Rightarrow> rpc_answer list \<Rightarrow> int set \<Rightarrow> mcp_client \<Rightarrow> bool" where
  "table_ok huge heard waiting c =
     (set (mc_pending c) \<subseteq> waiting \<and> (\<forall>i \<in> waiting. i \<le> mc_nextID c)
      \<and> (\<forall>i \<in> waiting. i \<in> set (mc_pending c) \<longleftrightarrow> mc_chan c i = None)
      \<and> (\<forall>i a. mc_chan c i = Some a \<longrightarrow> answer_origin huge heard i a))"

lemma answer_origin_mono: "answer_origin huge heard i a \<Longrightarrow> answer_origin huge (b # heard) i a"
  by (auto simp: answer_origin_def)

lemma table_ok_heard: "table_ok huge heard waiting c \<Longrightarrow> table_ok huge (b # heard) waiting c"
  using answer_origin_mono [of huge heard _ _ b] by (auto simp: table_ok_def)

lemma setStatus_table [simp]:
  "mc_pending (setStatus s e c) = mc_pending c" "mc_nextID (setStatus s e c) = mc_nextID c"
  "mc_chan (setStatus s e c) = mc_chan c" "mc_closed (setStatus s e c) = mc_closed c"
  "mc_done (setStatus s e c) = mc_done c"
  by (simp_all add: setStatus_def)

lemma table_ok_cong:
  "mc_pending c' = mc_pending c \<Longrightarrow> mc_nextID c' = mc_nextID c \<Longrightarrow> mc_chan c' = mc_chan c
     \<Longrightarrow> table_ok huge heard waiting c' = table_ok huge heard waiting c"
  by (simp add: table_ok_def)

lemma register_table:
  assumes ok: "table_ok huge heard waiting c" and r: "register c = (i, c')"
  shows "table_ok huge heard (insert i waiting) c' \<and> i \<notin> waiting \<and> i = mc_nextID c + 1"
proof -
  from r have i: "i = mc_nextID c + 1" and c': "mc_nextID c' = i" "mc_pending c' = i # mc_pending c"
    "mc_chan c' = (mc_chan c)(i := None)" by (auto simp: register_def Let_def)
  from ok i have le: "j < i" if "j \<in> waiting" for j using that by (force simp: table_ok_def)
  then have fresh: "i \<notin> waiting" by blast
  have "j \<le> i" if "j \<in> insert i waiting" for j using that le by force
  then have "table_ok huge heard (insert i waiting) c'"
    using ok fresh unfolding table_ok_def c' by auto
  then show ?thesis using fresh i by simp
qed

lemma unregister_table: "table_ok huge heard waiting c \<Longrightarrow> table_ok huge heard (waiting - {i}) (unregister i c)"
  by (auto simp: table_ok_def unregister_def)

lemma handle_answer_table:
  assumes "table_ok huge heard waiting c"
  shows "\<exists>c'. handle_answer huge a c = Some c' \<and> table_ok huge (a # heard) waiting c'"
proof -
  have base: "table_ok huge (a # heard) waiting c" using assms by (rule table_ok_heard)
  show ?thesis
  proof (cases "ra_ID a \<noteq> VNil \<and> (\<exists>i. toInt64 huge (ra_ID a) = Some i \<and> i \<in> set (mc_pending c))")
    case True
    then obtain i where i: "ra_ID a \<noteq> VNil" "toInt64 huge (ra_ID a) = Some i" "i \<in> set (mc_pending c)" by blast
    from assms i(3) have free: "mc_chan c i = None" by (auto simp: table_ok_def)
    have "answer_origin huge (a # heard) i a" using i by (simp add: answer_origin_def)
    with base have "table_ok huge (a # heard) waiting ((unregister i c)\<lparr>mc_chan := (mc_chan c)(i := Some a)\<rparr>)"
      by (auto simp: table_ok_def unregister_def)
    then show ?thesis using i free by (simp add: handle_answer_def)
  next
    case False
    then show ?thesis using base by (auto simp: handle_answer_def split: option.split)
  qed
qed

lemma failAllPending_table:
  assumes "table_ok huge heard waiting c" "reason = ''client closed'' \<or> reason = ''connection lost''"
  shows "table_ok huge heard waiting (failAllPending reason c)"
  using assms by (auto simp: table_ok_def failAllPending_def answer_origin_def)

lemma client_Close_table: "table_ok huge heard waiting c \<Longrightarrow> table_ok huge heard waiting (client_Close c)"
proof -
  assume "table_ok huge heard waiting c"
  then have "table_ok huge heard waiting (setStatus ''closed'' [] c)" by (subst table_ok_cong) simp_all
  then have "table_ok huge heard waiting (failAllPending ''client closed'' (setStatus ''closed'' [] c))"
    by (rule failAllPending_table) simp
  then show ?thesis by (simp add: client_Close_def Let_def table_ok_cong [of "_\<lparr>mc_closed := _\<rparr>"])
qed

lemma reader_ends_table: "table_ok huge heard waiting c \<Longrightarrow> table_ok huge heard waiting (fst (reader_ends c))"
proof -
  assume ok: "table_ok huge heard waiting c"
  then have "table_ok huge heard waiting (setStatus ''error'' ''connection lost'' c)" by (subst table_ok_cong) simp_all
  then show ?thesis using ok by (simp add: reader_ends_def failAllPending_table)
qed

lemma finish_connect_table [simp]:
  "mc_pending (finish_connect r c) = mc_pending c" "mc_nextID (finish_connect r c) = mc_nextID c"
  "mc_chan (finish_connect r c) = mc_chan c"
  by (auto simp: finish_connect_def split: sum.split)

lemma start_transport_table [simp]:
  "mc_pending (start_transport r c) = mc_pending c" "mc_nextID (start_transport r c) = mc_nextID c"
  "mc_chan (start_transport r c) = mc_chan c"
  by (auto simp: start_transport_def split: option.split)

lemma table_ok_same [simp]:
  "table_ok huge heard waiting (setStatus st e c) = table_ok huge heard waiting c"
  "table_ok huge heard waiting (start_transport r c) = table_ok huge heard waiting c"
  "table_ok huge heard waiting (finish_connect q c) = table_ok huge heard waiting c"
  "table_ok huge heard waiting (c\<lparr>mc_done := d\<rparr>) = table_ok huge heard waiting c"
  by (rule table_ok_cong; simp)+

lemma work_table: "work w inp c = Some (w', b, c') \<Longrightarrow> table_ok huge heard waiting c \<Longrightarrow> table_ok huge heard waiting c'"
  by (induction w inp c rule: work.induct)
    (auto split: option.splits sum.splits if_splits intro!: client_Close_table)

definition upstream_ok :: "(flt \<Rightarrow> int) \<Rightarrow> upstream \<Rightarrow> bool" where
  "upstream_ok huge u =
     (\<not> up_stuck u \<and> table_ok huge (up_heard u) (fst ` set (up_sends u)) (up_client u)
      \<and> distinct (map fst (up_sends u)) \<and> distinct (map fst (up_returned u))
      \<and> fst ` set (up_sends u) \<inter> fst ` set (up_returned u) = {}
      \<and> (\<forall>i \<in> fst ` set (up_returned u). i \<le> mc_nextID (up_client u))
      \<and> (\<forall>i a. (i, Inr a) \<in> set (up_returned u) \<longrightarrow> answer_origin huge (up_heard u) i a))"

lemma nextID_same [simp]:
  "mc_nextID (unregister i c) = mc_nextID c"
  "mc_nextID (failAllPending reason c) = mc_nextID c"
  "mc_nextID (client_Close c) = mc_nextID c"
  "mc_nextID (fst (reader_ends c)) = mc_nextID c"
  by (simp_all add: unregister_def failAllPending_def client_Close_def reader_ends_def Let_def)

lemma handle_answer_nextID: "handle_answer huge a c = Some c' \<Longrightarrow> mc_nextID c' = mc_nextID c"
  by (auto simp: handle_answer_def split: if_splits option.splits)

lemma work_nextID: "work w inp c = Some (w', b, c') \<Longrightarrow> mc_nextID c' = mc_nextID c"
  by (induction w inp c rule: work.induct) (auto split: option.splits sum.splits if_splits)

lemma map_of_key: "map_of xs i = Some v \<Longrightarrow> i \<in> fst ` set xs"
  by (metis domI dom_map_of_conv_image_fst)

lemma end_send_ok:
  assumes ok: "upstream_ok huge u" and i: "i \<in> fst ` set (up_sends u)"
    and r: "\<And>a. r = Inr a \<Longrightarrow> answer_origin huge (up_heard u) i a"
  shows "upstream_ok huge (end_send i r u)"
proof -
  from ok have t: "table_ok huge (up_heard u) (fst ` set (up_sends u)) (up_client u)"
    and d: "distinct (map fst (up_sends u))" by (simp_all add: upstream_ok_def)
  have ks: "fst ` set (AList.delete i (up_sends u)) = fst ` set (up_sends u) - {i}"
    by (auto simp: AList.delete_eq)
  have le: "i \<le> mc_nextID (up_client u)" using t i by (auto simp: table_ok_def)
  have "i \<notin> fst ` set (up_returned u)" using ok i by (auto simp: upstream_ok_def)
  then show ?thesis
    using ok unregister_table [OF t, of i] le r
    by (auto simp: upstream_ok_def end_send_def ks distinct_delete)
qed

lemma send_result_answer_origin:
  assumes "table_ok huge heard waiting c" "send_result meth i gen wk c = Some (Inr a)"
  shows "answer_origin huge heard i a"
  using assms by (cases wk) (auto simp: send_result_def table_ok_def split: if_splits)

lemma upstream_ok_step:
  assumes ok: "upstream_ok huge u" and st: "client_do huge e u = Some v"
  shows "upstream_ok huge v"
proof -
  from ok have t: "table_ok huge (up_heard u) (fst ` set (up_sends u)) (up_client u)" by (simp add: upstream_ok_def)
  show ?thesis
  proof (cases e)
    case (Send meth)
    obtain i c where r: "register (up_client u) = (i, c)" by fastforce
    note reg = register_table [OF t r]
    from reg have i: "i = mc_nextID (up_client u) + 1" by blast
    have le: "j < i" if "j \<in> fst ` set (up_returned u)" for j
      using ok that i by (force simp: upstream_ok_def)
    have "mc_nextID c = i" using r by (auto simp: register_def Let_def)
    then have le': "\<forall>j \<in> fst ` set (up_returned u). j \<le> mc_nextID c" using le by force
    have new: "i \<notin> fst ` set (up_returned u)" using le by blast
    have v: "v = u\<lparr>up_client := c, up_sends := (i, meth, None) # up_sends u\<rparr>" using st Send r by simp
    from reg have "table_ok huge (up_heard u) (insert i (fst ` set (up_sends u))) c" "i \<notin> fst ` set (up_sends u)"
      by blast+
    then show ?thesis using ok le' new unfolding upstream_ok_def v by simp
  next
    case (Written i)
    then obtain m where m: "map_of (up_sends u) i = Some (m, None)"
      and v: "v = u\<lparr>up_sends := AList.update i (m, Some (mc_done (up_client u))) (up_sends u)\<rparr>"
      using st by (auto split: option.splits prod.splits)
    have "fst ` set (up_sends v) = fst ` set (up_sends u)"
      using map_of_key [OF m] unfolding v by (simp add: dom_update insert_absorb)
    then show ?thesis using ok v by (simp add: upstream_ok_def distinct_update)
  next
    case (WriteFailed i m)
    then show ?thesis using st end_send_ok [OF ok] map_of_key [of "up_sends u" i]
      by (auto split: option.splits prod.splits)
  next
    case (Return i wk)
    then obtain m gen r where m: "map_of (up_sends u) i = Some (m, Some gen)"
      and r: "send_result m i gen wk (up_client u) = Some r" "v = end_send i r u"
      using st by (auto split: option.splits prod.splits)
    show ?thesis unfolding r(2)
      by (rule end_send_ok [OF ok map_of_key [OF m]]) (use send_result_answer_origin [OF t, of m i gen wk] r(1) in simp)
  next
    case (Heard a)
    obtain c where c: "handle_answer huge a (up_client u) = Some c"
      "table_ok huge (a # up_heard u) (fst ` set (up_sends u)) c"
      using handle_answer_table [OF t] by blast
    then have "v = u\<lparr>up_heard := a # up_heard u, up_client := c\<rparr>"
      using st Heard by (auto simp: Let_def split: if_splits)
    then show ?thesis using ok c(2) handle_answer_nextID [OF c(1)] answer_origin_mono
      by (auto simp: upstream_ok_def)
  next
    case StreamEnds
    obtain c again where c: "reader_ends (up_client u) = (c, again)" by fastforce
    with reader_ends_table [OF t] nextID_same(4) [of "up_client u"]
    have "table_ok huge (up_heard u) (fst ` set (up_sends u)) c" "mc_nextID c = mc_nextID (up_client u)" by simp_all
    moreover have "v = u\<lparr>up_client := c, up_readers := up_readers u - 1,
                    up_workers := up_workers u @ (if again then [AtTop second] else [])\<rparr>"
      using st StreamEnds c by (simp split: if_splits)
    ultimately show ?thesis using ok by (simp add: upstream_ok_def)
  next
    case (Work k inp)
    then obtain w b c where w: "work (up_workers u ! k) inp (up_client u) = Some (w, b, c)"
      and v: "v = u\<lparr>up_client := c, up_readers := up_readers u + (if b then 1 else 0),
                    up_workers := put_worker k w (up_workers u)\<rparr>"
      using st by (auto split: if_splits option.splits)
    show ?thesis using ok v work_table [OF w t] work_nextID [OF w] by (simp add: upstream_ok_def)
  next
    case CloseClient
    then have "v = u\<lparr>up_client := client_Close (up_client u)\<rparr>" using st by simp
    then show ?thesis using ok client_Close_table [OF t] by (simp add: upstream_ok_def)
  qed
qed

lemma upstream_ok_fresh: "upstream_ok huge (fresh_upstream name transport)"
  by (simp add: upstream_ok_def fresh_upstream_def new_client_def table_ok_def)

lemma upstream_ok_run: "client_run huge u es v \<Longrightarrow> upstream_ok huge u \<Longrightarrow> upstream_ok huge v"
  by (induction rule: client_run.induct) (auto intro: upstream_ok_step)

section \<open>Properties\<close>


definition demo_rpc :: "rat \<Rightarrow> string \<Rightarrow> rpc_answer" where
  "demo_rpc i s = \<lparr>ra_ID = VNum (Fin i), ra_Result = VStr s, ra_Error = None\<rparr>"

text \<open>Two calls whose answers come in the other order, and a third that the loss ends.\<close>

definition demo_events :: "client_event list" where
  "demo_events =
     [Work 0 (Started None), Work 0 (Shaken (Inr [])), Send ''a'', Send ''b'', Written 2, Written 1, Send ''c'',
      Written 3, Heard (demo_rpc 2 ''B''), Heard (demo_rpc 1 ''A''), Return 1 FromChannel, StreamEnds,
      Return 3 FromChannel, Return 2 FromChannel]"

fun client_do_all :: "(flt \<Rightarrow> int) \<Rightarrow> client_event list \<Rightarrow> upstream \<Rightarrow> upstream option" where
  "client_do_all huge [] u = Some u"
| "client_do_all huge (e # es) u = (case client_do huge e u of None \<Rightarrow> None | Some v \<Rightarrow> client_do_all huge es v)"

lemma client_do_all_run:
  "client_run huge u es v \<Longrightarrow> client_do_all huge fs v = Some w \<Longrightarrow> client_run huge u (es @ fs) w"
proof (induction fs arbitrary: es v)
  case (Cons e fs)
  then obtain x where x: "client_do huge e v = Some x" "client_do_all huge fs x = Some w" by (auto split: option.splits)
  from Cons.IH [OF client_run.step [OF Cons.prems(1) x(1)] x(2)] show ?case by simp
qed simp

lemmas client_do_all_runs = client_do_all_run [OF client_run.start, simplified]


text \<open>
  C23. \<open>Close\<close> strands nobody: in every reachable state, once it has run, the channel of every call in
  progress holds an answer, so a call whose request is written returns at its next step.
\<close>

theorem Close_releases_every_call:
  assumes "client_run huge (fresh_upstream name transport) es u"
    and "map_of (up_sends u) i = Some (meth, Some gen)"
  shows "\<exists>v r. client_do huge CloseClient u = Some v \<and> client_do huge (Return i FromChannel) v = Some (end_send i (Inr r) v)"
proof -
  let ?v = "u\<lparr>up_client := client_Close (up_client u)\<rparr>"
  have "upstream_ok huge ?v"
    using upstream_ok_step [OF upstream_ok_run [OF assms(1) upstream_ok_fresh], of CloseClient] by simp
  then have t: "table_ok huge (up_heard u) (fst ` set (up_sends u)) (client_Close (up_client u))"
    by (simp add: upstream_ok_def)
  have "mc_pending (client_Close (up_client u)) = []" by (simp add: client_Close_def failAllPending_def Let_def)
  with t map_of_key [OF assms(2)] obtain r where "mc_chan (client_Close (up_client u)) i = Some r"
    by (auto simp: table_ok_def)
  then show ?thesis using assms(2) by (auto simp: send_result_def)
qed

theorem Close_releases_every_call_witness:
  "\<exists>u v r. client_run (\<lambda>_. 0) (fresh_upstream ''fs'' ''stdio'') [Send ''a'', Written 1] u
     \<and> client_do (\<lambda>_. 0) CloseClient u = Some v
     \<and> client_do (\<lambda>_. 0) (Return 1 FromChannel) v = Some (end_send 1 (Inr r) v)"
proof -
  have "map_option (\<lambda>u. map_of (up_sends u) 1)
      (client_do_all (\<lambda>_. 0) [Send ''a'', Written 1] (fresh_upstream ''fs'' ''stdio'')) = Some (Some (''a'', Some 0))"
    by code_simp
  then obtain u where u: "client_do_all (\<lambda>_. 0) [Send ''a'', Written 1] (fresh_upstream ''fs'' ''stdio'') = Some u"
    and s: "map_of (up_sends u) 1 = Some (''a'', Some 0)" by auto
  from client_do_all_runs [OF u] have run: "client_run (\<lambda>_. 0) (fresh_upstream ''fs'' ''stdio'') [Send ''a'', Written 1] u" .
  from Close_releases_every_call [OF run s] run show ?thesis by blast
qed

lemma status_after [simp]:
  "mc_status (failAllPending reason c) = mc_status c" "mc_status (unregister i c) = mc_status c"
  "mc_status (client_Close c) = ''closed''"
  by (simp_all add: failAllPending_def unregister_def client_Close_def setStatus_def Let_def)

lemma closed_after [simp]:
  assumes "mc_status c = ''closed''"
  shows "setStatus st e c = c" "start_transport r c = c" "mc_status (finish_connect q c) = ''closed''"
    "reader_ends c = (c, False)"
  using assms by (simp_all add: setStatus_def start_transport_def finish_connect_def reader_ends_def
      split: option.split sum.split)

lemma work_closed: "work w inp c = Some (w', b, c') \<Longrightarrow> mc_status c = ''closed'' \<Longrightarrow> mc_status c' = ''closed''"
  by (induction w inp c rule: work.induct) (auto split: option.splits sum.splits if_splits)

lemma client_do_closed:
  assumes "client_do huge e u = Some v" "mc_status (up_client u) = ''closed''"
  shows "mc_status (up_client v) = ''closed''"
proof (cases e)
  case (Heard a)
  then show ?thesis using assms
    by (auto simp: handle_answer_def Let_def split: if_splits option.splits)
next
  case (Work k inp)
  then obtain w b c where "work (up_workers u ! k) inp (up_client u) = Some (w, b, c)" "up_client v = c"
    using assms(1) by (auto split: if_splits option.splits)
  then show ?thesis using work_closed assms(2) by blast
qed (use assms in \<open>auto simp: register_def Let_def end_send_def split: option.splits prod.splits if_splits\<close>)

lemma put_worker_length: "k < length ws \<Longrightarrow> length (put_worker k w ws) \<le> length ws"
  by (cases w) (auto simp: put_worker_def)

lemma client_do_workers:
  assumes "client_do huge e u = Some v" "mc_status (up_client u) = ''closed''"
  shows "length (up_workers v) \<le> length (up_workers u)"
  using assms put_worker_length
  by (cases e) (auto simp: end_send_def reader_ends_def Let_def split: option.splits prod.splits if_splits)

text \<open>
  A closed client stays closed: no later event changes its status, none starts another loop to
  reconnect, and a loop that looks at the status ends.
\<close>

theorem closed_is_final:
  assumes "client_run huge u es v" and "mc_status (up_client u) = ''closed''"
  shows "mc_status (up_client v) = ''closed'' \<and> length (up_workers v) \<le> length (up_workers u)
    \<and> work (AtTop b) Tick (up_client v) = Some (None, False, up_client v)
    \<and> work (Asleep b) Tick (up_client v) = Some (None, False, up_client v)"
proof -
  have "mc_status (up_client v) = ''closed'' \<and> length (up_workers v) \<le> length (up_workers u)"
    using assms
  proof (induction rule: client_run.induct)
    case (step es x e y)
    then show ?case using client_do_closed [OF step.hyps(2)] client_do_workers [OF step.hyps(2)] by simp
  qed simp
  then show ?thesis by simp
qed

definition closed_upstream :: upstream where
  "closed_upstream =
     (fresh_upstream ''fs'' ''stdio'')\<lparr>up_client := client_Close (new_client ''fs'' ''stdio''), up_readers := 1,
        up_workers := [AtTop second]\<rparr>"

theorem closed_is_final_witness:
  "\<exists>v. client_run (\<lambda>_. 0) closed_upstream [StreamEnds, Work 0 Tick] v \<and> mc_status (up_client v) = ''closed''
     \<and> length (up_workers v) \<le> 1"
proof -
  have "client_do_all (\<lambda>_. 0) [StreamEnds, Work 0 Tick] closed_upstream \<noteq> None" by code_simp
  then obtain v where v: "client_do_all (\<lambda>_. 0) [StreamEnds, Work 0 Tick] closed_upstream = Some v" by auto
  have st: "mc_status (up_client closed_upstream) = ''closed''" by code_simp
  have len: "length (up_workers closed_upstream) = 1" by (simp add: closed_upstream_def)
  from client_do_all_runs [OF v] have run: "client_run (\<lambda>_. 0) closed_upstream [StreamEnds, Work 0 Tick] v" .
  from closed_is_final [OF run st] len run show ?thesis by (metis (no_types))
qed

text \<open>
  The wait between attempts doubles and stays below its bound.
\<close>

lemma next_backoff_bounds: "0 < b \<Longrightarrow> b \<le> 30 * second \<Longrightarrow> b \<le> next_backoff b \<and> next_backoff b \<le> 30 * second"
  by (auto simp: next_backoff_def)

text \<open>
  Loops multiply: an attempt that starts its transport and fails in the handshake leaves a reader
  behind, whose end starts a loop beside the one that made the attempt.
\<close>

definition two_loops :: "client_event list" where
  "two_loops =
     [Work 0 (Started None), Work 0 (Shaken (Inr [])), StreamEnds, Work 0 Tick, Work 0 Tick, Work 0 Tick,
      Work 0 (Started None), Work 0 (Shaken (Inl ''initialize: context deadline exceeded'')), StreamEnds]"

lemma reconnect_loops_multiply:
  "map_option (\<lambda>u. (up_readers u, up_workers u)) (client_do_all (\<lambda>_. 0) two_loops (fresh_upstream ''fs'' ''stdio''))
     = Some (0, [AtTop (2 * second), AtTop second])"
  by code_simp

text \<open>
  \<open>Close\<close> between the second look at the status and the connection leaves a reader that runs on a
  closed client.
\<close>

definition close_late :: "client_event list" where
  "close_late =
     [Work 0 (Started None), Work 0 (Shaken (Inr [])), StreamEnds, Work 0 Tick, Work 0 Tick, CloseClient, Work 0 Tick,
      Work 0 (Started None), Work 0 (Shaken (Inr []))]"

lemma late_close_leaves_a_connection:
  "map_option (\<lambda>u. (mc_status (up_client u), up_readers u, up_workers u))
     (client_do_all (\<lambda>_. 0) close_late (fresh_upstream ''fs'' ''stdio''))
     = Some (''closed'', 1, [])"
  by code_simp

end
