(* ===== verification/Upstreams.thy ===== *)
theory Upstreams
  imports Mcp_Client
begin

text \<open>
  The upstream MCP servers of a mesh: the manager that holds their clients (\<open>mcp/manager.go\<close>), what
  a connection brings into the registry and the pins (\<open>cmd/mesh7/main.go\<close> and the start of
  \<open>cmd/mesh7/mesh.go\<close>), and their status as the operator sees it.
\<close>

section \<open>The manager\<close>

record server_status =
  vs_Name :: string
  vs_Transport :: string
  vs_Status :: string
  vs_Error :: string
  vs_Tools :: "string list"

record manager =
  mg_clients :: "(string \<times> mcp_client) list"
  mg_retrying :: "(string \<times> server_status) list"

definition NewManager :: manager where
  "NewManager = \<lparr>mg_clients = [], mg_retrying = []\<rparr>"

definition manager_Add :: "mcp_client \<Rightarrow> manager \<Rightarrow> manager" where
  "manager_Add c m =
     m\<lparr>mg_clients := AList.update (mc_Name c) c (mg_clients m), mg_retrying := AList.delete (mc_Name c) (mg_retrying m)\<rparr>"

definition SetRetrying :: "string \<Rightarrow> string \<Rightarrow> string \<Rightarrow> manager \<Rightarrow> manager" where
  "SetRetrying name transport err m =
     m\<lparr>mg_retrying := AList.update name
         \<lparr>vs_Name = name, vs_Transport = transport, vs_Status = ''retrying'', vs_Error = err, vs_Tools = []\<rparr> (mg_retrying m)\<rparr>"

definition manager_Get :: "string \<Rightarrow> manager \<Rightarrow> mcp_client option" where
  "manager_Get name m = map_of (mg_clients m) name"

definition manager_All :: "manager \<Rightarrow> mcp_client list" where
  "manager_All m = map snd (mg_clients m)"

definition client_status :: "mcp_client \<Rightarrow> server_status" where
  "client_status c =
     (case client_Status c of
        (status, lastErr) \<Rightarrow>
          \<lparr>vs_Name = mc_Name c, vs_Transport = mc_Transport c, vs_Status = status, vs_Error = lastErr,
           vs_Tools = map wt_Name (client_Tools c)\<rparr>)"

definition ServerStatuses :: "manager \<Rightarrow> server_status list" where
  "ServerStatuses m = map client_status (map snd (mg_clients m)) @ map snd (mg_retrying m)"

text \<open>What a client answers to a call is an argument, by the name of its server.\<close>

definition manager_CallTool ::
  "(mcp_client \<Rightarrow> string \<Rightarrow> params \<Rightarrow> (string \<times> gval) list option \<Rightarrow> string + rpc_answer) \<Rightarrow> manager
     \<Rightarrow> string \<Rightarrow> string \<Rightarrow> params \<Rightarrow> (string \<times> gval) list \<Rightarrow> string + gval" where
  "manager_CallTool answers m serverName toolName arguments meta =
     (case manager_Get serverName m of
        None \<Rightarrow> Inl (''MCP server not found: '' @ serverName)
      | Some c \<Rightarrow> CallTool_result (answers c toolName arguments (callMeta (mc_ForwardIdentity c) meta)))"

definition CloseAll :: "manager \<Rightarrow> manager" where
  "CloseAll m = m\<lparr>mg_clients := map (\<lambda>(n, c). (n, client_Close c)) (mg_clients m)\<rparr>"

section \<open>Connecting an upstream\<close>

definition convertMCPTools :: "wire_tool list \<Rightarrow> mcp_tool_def list" where
  "convertMCPTools tools =
     map (\<lambda>t. (NewMCPToolDef (wt_Name t) (wt_Description t) (wt_Properties t) (wt_Required t))
                 \<lparr>mt_Annotations := wt_Annotations t\<rparr>) tools"

text \<open>
  \<open>Connect\<close> as one step: whether the transport starts, and what the handshake brings. The two
  requests of the handshake take two IDs.
\<close>

definition client_Connect :: "string option \<Rightarrow> string + wire_tool list \<Rightarrow> mcp_client \<Rightarrow> string option \<times> mcp_client" where
  "client_Connect started shaken c =
     (case started of
        Some e \<Rightarrow> (Some (''start transport: '' @ e), client_Close (start_transport started c))
      | None \<Rightarrow>
          (case shaken of
             Inl e \<Rightarrow> (Some e, client_Close c)
           | Inr _ \<Rightarrow> (None, finish_connect shaken (c\<lparr>mc_nextID := mc_nextID c + 2\<rparr>))))"

definition new_upstream_client :: "mcp_server_config \<Rightarrow> mcp_client option" where
  "new_upstream_client sc =
     map_option (\<lambda>c. c\<lparr>mc_ForwardIdentity := ms_ForwardIdentity sc\<rparr>)
       (if ms_Transport sc = ''stdio'' then Some (NewStdioClient (ms_Name sc))
        else if ms_Transport sc = ''sse'' then Some (NewSSEClient (ms_Name sc))
        else if ms_Transport sc = ''streamable-http'' then Some (NewStreamableHTTPClient (ms_Name sc))
        else None)"

record mesh_upstreams =
  mu_manager :: manager
  mu_reg :: registry
  mu_pins :: "pin_store option"

definition register_upstream :: "pin_env \<Rightarrow> mcp_client \<Rightarrow> string \<Rightarrow> mesh_upstreams \<Rightarrow> mesh_upstreams" where
  "register_upstream env c name m =
     (let reg = LoadMCP name (convertMCPTools (client_Tools c)) (mu_reg m) in
      \<lparr>mu_manager = manager_Add c (mu_manager m), mu_reg = reg,
       mu_pins = map_option (\<lambda>p. snd (Observe env name (ByServer reg name) p)) (mu_pins m)\<rparr>)"

definition connect_upstream ::
  "pin_env \<Rightarrow> string option \<Rightarrow> string + wire_tool list \<Rightarrow> mcp_server_config \<Rightarrow> mesh_upstreams
     \<Rightarrow> string option \<times> mesh_upstreams" where
  "connect_upstream env started shaken sc m =
     (case new_upstream_client sc of
        None \<Rightarrow> (Some (''unsupported MCP transport '' @ Quote (ms_Transport sc)), m)
      | Some c0 \<Rightarrow>
          (case client_Connect started shaken c0 of
             (Some e, _) \<Rightarrow> (Some e, m)
           | (None, c) \<Rightarrow> (None, register_upstream env c (ms_Name sc) m)))"

text \<open>The first connections run side by side; their effects come in the order of the list.\<close>

definition start_upstream ::
  "pin_env \<Rightarrow> mcp_server_config \<times> string option \<times> (string + wire_tool list) \<Rightarrow> mesh_upstreams \<Rightarrow> mesh_upstreams" where
  "start_upstream env x m =
     (case x of
        (sc, started, shaken) \<Rightarrow>
          (case connect_upstream env started shaken sc m of
             (None, m1) \<Rightarrow> m1
           | (Some e, m1) \<Rightarrow>
               if ms_Transport sc \<in> {''stdio'', ''sse'', ''streamable-http''}
               then m1\<lparr>mu_manager := SetRetrying (ms_Name sc) (ms_Transport sc) e (mu_manager m1)\<rparr>
               else m1))"

definition connect_upstreams ::
  "pin_env \<Rightarrow> (mcp_server_config \<times> string option \<times> (string + wire_tool list)) list \<Rightarrow> mesh_upstreams
     \<Rightarrow> mesh_upstreams" where
  "connect_upstreams env xs m = fold (start_upstream env) xs m"

section \<open>What is registered\<close>

text \<open>Every tool of the registry stands under its own name.\<close>

definition named :: "registry \<Rightarrow> bool" where
  "named r = (keys_distinct r \<and> (\<forall>(n, t) \<in> set r. tl_Name t = n))"

lemma alist_update_subset: "set (AList.update n t r) \<subseteq> insert (n, t) (set r)"
  by (induction r) auto

lemma named_set:
  assumes "named r" "tl_Name t = n"
  shows "named (registry_set n t r)"
proof -
  have "tl_Name u = k" if "(k, u) \<in> set (AList.update n t r)" for k u
    using alist_update_subset [of n t r] that assms by (auto simp: named_def)
  moreover have "keys_distinct (AList.update n t r)"
    using assms(1) by (simp add: named_def keys_distinct_def distinct_update)
  ultimately show ?thesis by (auto simp: named_def registry_set_def)
qed

lemma mcp_tool_name [simp]: "tl_Name (mcp_tool s t) = s @ ''.'' @ mt_Name t"
  by (simp add: mcp_tool_def)

lemma named_LoadMCP: "named r \<Longrightarrow> named (LoadMCP s ts r)"
  unfolding LoadMCP_def by (induction ts arbitrary: r) (simp_all add: named_set)

lemma ByServer_names:
  assumes "named r"
  shows "distinct (map tl_Name (ByServer r s))"
proof -
  have keys: "map tl_Name (map snd r) = map fst r" using assms by (auto simp: named_def)
  have "distinct (map fst r)" using assms by (simp add: named_def keys_distinct_def)
  then have "distinct (map tl_Name (map snd r))" by (simp only: keys)
  then show ?thesis unfolding ByServer_def by (rule distinct_map_filter)
qed

lemma ByServer_LoadMCP:
  assumes "named r" "t \<in> set ts" "distinct (map mt_Name ts)"
  shows "mcp_tool s t \<in> set (ByServer (LoadMCP s ts r) s)"
proof -
  have "find (\<lambda>u. s @ ''.'' @ mt_Name t = s @ ''.'' @ mt_Name u) (rev ts) = Some t"
  proof -
    have "find (\<lambda>u. s @ ''.'' @ mt_Name t = s @ ''.'' @ mt_Name u) (rev ts) \<noteq> None"
      using assms(2) by (auto simp: find_None_conv)
    then obtain u where u: "find (\<lambda>u. s @ ''.'' @ mt_Name t = s @ ''.'' @ mt_Name u) (rev ts) = Some u" by auto
    from find_SomeD [OF u] have "u \<in> set ts" "mt_Name u = mt_Name t" by simp_all
    with assms(2,3) have "u = t" by (auto simp: distinct_map inj_on_def)
    with u show ?thesis by simp
  qed
  then have "registry_Get (LoadMCP s ts r) (s @ ''.'' @ mt_Name t) = Some (mcp_tool s t)"
    by (simp add: LoadMCP_Get)
  then have "mcp_tool s t \<in> set (map snd (LoadMCP s ts r))"
    by (force simp: registry_Get_def dest: map_of_SomeD)
  then show ?thesis by (simp add: ByServer_def)
qed

section \<open>Properties\<close>

lemma finish_connect_client [simp]:
  "mc_Name (finish_connect r c) = mc_Name c" "mc_Transport (finish_connect r c) = mc_Transport c"
  by (auto simp: finish_connect_def setStatus_def split: sum.split)

lemma new_upstream_clientD:
  "new_upstream_client sc = Some c \<Longrightarrow>
     mc_Name c = ms_Name sc \<and> mc_Transport c = ms_Transport sc \<and> mc_status c = ''connecting''
     \<and> ms_Transport sc \<in> {''stdio'', ''sse'', ''streamable-http''}"
  by (auto simp: new_upstream_client_def NewStdioClient_def NewSSEClient_def NewStreamableHTTPClient_def
      new_client_def split: if_splits)

lemma connect_upstream_fails: "connect_upstream env started shaken sc m = (Some e, m1) \<Longrightarrow> m1 = m"
  by (auto simp: connect_upstream_def split: option.splits prod.splits)

lemma connect_upstreamD:
  assumes "connect_upstream env started shaken sc m = (None, m1)"
  obtains tools c where "shaken = Inr tools" "started = None" "m1 = register_upstream env c (ms_Name sc) m"
    "mc_tools c = tools" "mc_status c = ''ready''" "mc_Name c = ms_Name sc" "mc_Transport c = ms_Transport sc"
proof -
  from assms obtain c0 c where c0: "new_upstream_client sc = Some c0" and c: "client_Connect started shaken c0 = (None, c)"
    and m1: "m1 = register_upstream env c (ms_Name sc) m"
    by (auto simp: connect_upstream_def split: option.splits prod.splits)
  note d = new_upstream_clientD [OF c0]
  from c obtain tools where t: "shaken = Inr tools" "started = None"
    "c = finish_connect shaken (c0\<lparr>mc_nextID := mc_nextID c0 + 2\<rparr>)"
    by (auto simp: client_Connect_def split: option.splits sum.splits)
  with d have "mc_tools c = tools" "mc_status c = ''ready''" "mc_Name c = ms_Name sc" "mc_Transport c = ms_Transport sc"
    by (simp_all add: finish_connect_def setStatus_def)
  with t(1,2) m1 that show thesis by blast
qed


definition demo_wire :: "string \<Rightarrow> string \<Rightarrow> wire_tool" where
  "demo_wire name desc =
     \<lparr>wt_Name = name, wt_Description = desc, wt_Properties = [], wt_Required = [], wt_Annotations = None\<rparr>"

definition demo_server :: mcp_server_config where
  "demo_server = \<lparr>ms_Name = ''fs'', ms_Transport = ''stdio'', ms_Command = ''fs-server'', ms_Args = [], ms_Env = [], ms_URL = [],
     ms_Headers = [], ms_ForwardIdentity = False\<rparr>"

definition demo_pins :: pin_store where
  "demo_pins = snd (Observe demo_pin_env ''fs'' [demo_tool ''fs.read'' ''reads''] (pin_NewStore None))"

definition demo_mesh :: mesh_upstreams where
  "demo_mesh = \<lparr>mu_manager = NewManager, mu_reg = [], mu_pins = Some demo_pins\<rparr>"


text \<open>
  Registered before observed: between the two, a tool that appeared or changed has no view yet and
  so no floor.
\<close>

lemma no_floor_before_observation:
  "map_of (ps_current p) tool = None \<Longrightarrow> pins_Floor tool (Some p) = []"
  by (simp add: pins_Floor_def pin_Status_def pin_Floor_def)

text \<open>An upstream is listed when a ready client or a retry stands under its name.\<close>

definition listed :: "manager \<Rightarrow> string \<Rightarrow> bool" where
  "listed m name =
     ((\<exists>c. map_of (mg_clients m) name = Some c \<and> mc_Name c = name \<and> mc_status c = ''ready'')
      \<or> (\<exists>s. map_of (mg_retrying m) name = Some s \<and> vs_Name s = name \<and> vs_Status s = ''retrying''))"

lemma listed_Add: "mc_status c = ''ready'' \<Longrightarrow> listed m name \<or> mc_Name c = name \<Longrightarrow> listed (manager_Add c m) name"
  by (auto simp: listed_def manager_Add_def update_conv' delete_conv')

lemma listed_SetRetrying: "listed m name \<or> n = name \<Longrightarrow> listed (SetRetrying n tr e m) name"
  by (auto simp: listed_def SetRetrying_def update_conv')

lemma listed_start:
  assumes "listed (mu_manager m) name
    \<or> ms_Name (fst x) = name \<and> ms_Transport (fst x) \<in> {''stdio'', ''sse'', ''streamable-http''}"
  shows "listed (mu_manager (start_upstream env x m)) name"
proof -
  obtain sc started shaken where x: "x = (sc, started, shaken)" by (cases x)
  obtain r m1 where r: "connect_upstream env started shaken sc m = (r, m1)" by fastforce
  show ?thesis
  proof (cases r)
    case None
    with r obtain c where c: "m1 = register_upstream env c (ms_Name sc) m" "mc_status c = ''ready''" "mc_Name c = ms_Name sc"
      using connect_upstreamD [of env started shaken sc m m1] by blast
    have "listed (manager_Add c (mu_manager m)) name" by (rule listed_Add) (use assms c x in auto)
    then show ?thesis using r None c(1) x by (simp add: start_upstream_def register_upstream_def Let_def)
  next
    case (Some e)
    with r connect_upstream_fails have "m1 = m" by blast
    then show ?thesis using assms r Some x
      by (auto simp: start_upstream_def listed_SetRetrying)
  qed
qed

lemma listed_fold: "listed (mu_manager m) name \<Longrightarrow> listed (mu_manager (connect_upstreams env xs m)) name"
  unfolding connect_upstreams_def by (induction xs arbitrary: m) (simp_all add: listed_start)

lemma listed_status:
  assumes "listed m name"
  shows "\<exists>s \<in> set (ServerStatuses m). vs_Name s = name \<and> (vs_Status s = ''ready'' \<or> vs_Status s = ''retrying'')"
  using assms unfolding listed_def
proof
  assume "\<exists>c. map_of (mg_clients m) name = Some c \<and> mc_Name c = name \<and> mc_status c = ''ready''"
  then obtain c where c: "(name, c) \<in> set (mg_clients m)" "mc_Name c = name" "mc_status c = ''ready''"
    by (blast dest: map_of_SomeD)
  then have "client_status c \<in> set (ServerStatuses m)" by (force simp: ServerStatuses_def)
  moreover have "vs_Name (client_status c) = name" "vs_Status (client_status c) = ''ready''"
    using c by (simp_all add: client_status_def client_Status_def)
  ultimately show ?thesis by blast
next
  assume "\<exists>s. map_of (mg_retrying m) name = Some s \<and> vs_Name s = name \<and> vs_Status s = ''retrying''"
  then obtain s where s: "(name, s) \<in> set (mg_retrying m)" "vs_Name s = name" "vs_Status s = ''retrying''"
    by (blast dest: map_of_SomeD)
  then have "s \<in> set (ServerStatuses m)" by (force simp: ServerStatuses_def)
  with s show ?thesis by blast
qed

text \<open>
  No configured upstream is silently missing: after the first connections each one with a known
  transport is listed as ready or as retrying, whatever the others did.
\<close>

theorem every_upstream_is_listed:
  assumes "(sc, started, shaken) \<in> set xs" and "ms_Transport sc \<in> {''stdio'', ''sse'', ''streamable-http''}"
  shows "\<exists>s \<in> set (ServerStatuses (mu_manager (connect_upstreams env xs m))).
           vs_Name s = ms_Name sc \<and> (vs_Status s = ''ready'' \<or> vs_Status s = ''retrying'')"
proof -
  from split_list [OF assms(1)] obtain ys zs where xs: "xs = ys @ (sc, started, shaken) # zs" by blast
  have "listed (mu_manager (start_upstream env (sc, started, shaken) (connect_upstreams env ys m))) (ms_Name sc)"
    by (rule listed_start) (use assms(2) in simp)
  from listed_fold [OF this, of env zs] have "listed (mu_manager (connect_upstreams env xs m)) (ms_Name sc)"
    by (simp add: connect_upstreams_def xs)
  then show ?thesis by (rule listed_status)
qed

theorem every_upstream_is_listed_witness:
  "map (\<lambda>s. (vs_Name s, vs_Status s)) (ServerStatuses (mu_manager (connect_upstreams demo_pin_env
     [(demo_server, Some ''exec: not found'', Inr [])] demo_mesh))) = [(''fs'', ''retrying'')]
   \<and> (\<exists>s \<in> set (ServerStatuses (mu_manager (connect_upstreams demo_pin_env
     [(demo_server, Some ''exec: not found'', Inr [])] demo_mesh))). vs_Name s = ''fs'')"
proof
  show "map (\<lambda>s. (vs_Name s, vs_Status s)) (ServerStatuses (mu_manager (connect_upstreams demo_pin_env
     [(demo_server, Some ''exec: not found'', Inr [])] demo_mesh))) = [(''fs'', ''retrying'')]" by code_simp
  show "\<exists>s \<in> set (ServerStatuses (mu_manager (connect_upstreams demo_pin_env
     [(demo_server, Some ''exec: not found'', Inr [])] demo_mesh))). vs_Name s = ''fs''"
    using every_upstream_is_listed [of demo_server "Some ''exec: not found''" "Inr []"
        "[(demo_server, Some ''exec: not found'', Inr [])]" demo_pin_env demo_mesh]
    by (auto simp: demo_server_def)
qed

end
