(* ===== verification/Views.thy ===== *)
theory Views
  imports Control Otel Precedents Upstreams
begin

text \<open>
  The read-only views of the HTTP API and the two handlers on what mem7 remembers
  (\<open>proxy/handler.go\<close>): catalogue, upstreams, health, version, traces, sessions, metrics, precedents,
  and the detail of one approval. A view is the value its JSON encodes; the query parameters are the
  decoded query string.
\<close>

section \<open>Query parameters\<close>

definition query_of :: "(string \<times> string) list \<Rightarrow> string \<Rightarrow> string" where
  "query_of qs k = (case map_of qs k of None \<Rightarrow> [] | Some v \<Rightarrow> v)"

text \<open>\<open>strconv.Atoi\<close>: a sign and digits, within 64 bits.\<close>

definition Atoi :: "string \<Rightarrow> int option" where
  "Atoi s =
     (let ds = (if s \<noteq> [] \<and> (hd s = CHR ''+'' \<or> hd s = CHR ''-'') then drop 1 s else s);
          v = number_val ds;
          i = (if s \<noteq> [] \<and> hd s = CHR ''-'' then - v else v) in
      if ds = [] \<or> \<not> list_all is_digit ds \<or> i < - (2 ^ 63) \<or> i \<ge> 2 ^ 63 then None else Some i)"

text \<open>A limit is used when it reads as a positive number.\<close>

definition limit_of :: "int \<Rightarrow> (string \<times> string) list \<Rightarrow> string \<Rightarrow> int" where
  "limit_of dflt qs k =
     (case Atoi (query_of qs k) of None \<Rightarrow> dflt | Some n \<Rightarrow> if n > 0 then n else dflt)"

section \<open>Catalogue and process\<close>

definition handleListTools :: "http_call \<Rightarrow> gateway \<Rightarrow> (tool \<times> classification) list option" where
  "handleListTools r g =
     (if \<not> requireAuthOK r g then None
      else Some (map (\<lambda>t. (t, Classify (Some t))) (registry_All (gw_Registry g))))"

definition handleMCPServers :: "http_call \<Rightarrow> manager option \<Rightarrow> gateway \<Rightarrow> server_status list option" where
  "handleMCPServers r m g =
     (if \<not> requireAuthOK r g then None
      else (case m of None \<Rightarrow> Some [] | Some mgr \<Rightarrow> Some (ServerStatuses mgr)))"

record build_info =
  bi_Version :: string
  bi_ConfigID :: string
  bi_Commit :: string
  bi_BuildDate :: string

record health_view =
  hv_Tools :: nat
  hv_Traces :: "(string \<times> int) list"
  hv_Version :: string
  hv_Config :: string

definition handleHealth :: "build_info \<Rightarrow> gateway \<Rightarrow> health_view" where
  "handleHealth b g =
     \<lparr>hv_Tools = length (registry_All (gw_Registry g)), hv_Traces = trace_Stats (gw_Traces g),
      hv_Version = bi_Version b, hv_Config = bi_ConfigID b\<rparr>"

definition handleVersion :: "build_info \<Rightarrow> (string \<times> string) list" where
  "handleVersion b =
     [(''version'', if bi_Version b = [] then ''dev'' else bi_Version b),
      (''commit'', if bi_Commit b = [] then ''none'' else bi_Commit b),
      (''date'', if bi_BuildDate b = [] then ''unknown'' else bi_BuildDate b)]"

definition handlePolicies :: "gateway \<Rightarrow> policy list" where
  "handlePolicies g = Policies (gw_Policy g)"

text \<open>The counters of the writer of mem7, zero without an approval store; lines end with a newline.\<close>

definition metric :: "string \<Rightarrow> string \<Rightarrow> nat \<Rightarrow> string list" where
  "metric name help n =
     [''# HELP '' @ name @ '' '' @ help, ''# TYPE '' @ name @ '' counter'', name @ '' '' @ Itoa (int n)]"

definition handleMetrics :: "writer_stats \<Rightarrow> gateway \<Rightarrow> string list" where
  "handleMetrics stats g =
     (let w = (if gw_Approvals g = None then \<lparr>ws_Attempted = 0, ws_Succeeded = 0, ws_Failed = 0\<rparr> else stats) in
      metric ''agent_mesh_mem7_writes_attempted_total'' ''Total mem7 decision write attempts.'' (ws_Attempted w)
      @ metric ''agent_mesh_mem7_writes_succeeded_total'' ''Successful mem7 decision writes (HTTP 2xx/3xx).'' (ws_Succeeded w)
      @ metric ''agent_mesh_mem7_writes_failed_total''
          ''Failed mem7 decision writes (marshal, transport, or HTTP >= 400).'' (ws_Failed w))"

section \<open>Traces\<close>

definition handleTraceVerify :: "trace_rt \<Rightarrow> trace_env \<Rightarrow> string \<Rightarrow> gateway \<Rightarrow> chain_status option" where
  "handleTraceVerify rt env path g =
     (case VerifyChain rt env path (gw_Traces g) of (ok, st) \<Rightarrow> if ok then Some st else None)"

definition handleTraces :: "(string \<times> string) list \<Rightarrow> gateway \<Rightarrow> trace_entry list" where
  "handleTraces qs g =
     (let i = query_of qs ''trace'' in
      if i \<noteq> [] then QueryTrace i (gw_Traces g)
      else Query (query_of qs ''agent'') (query_of qs ''tool'') (min (limit_of 100 qs ''limit'') 1000) (gw_Traces g))"

definition why_id :: "string \<Rightarrow> string" where
  "why_id path = TrimSuffix (TrimPrefix path ''/traces/'') ''/why''"

datatype why_answer = WhyBad | WhyMissing | Why string "trace_entry list"

definition handleTraceWhy :: "string \<Rightarrow> (string \<times> string) list \<Rightarrow> gateway \<Rightarrow> why_answer" where
  "handleTraceWhy path qs g =
     (let i = why_id path in
      if i = [] \<or> CHR ''/'' \<in> set i then WhyBad
      else
        (let chain = trace_Chain i (min (limit_of 10 qs ''depth'') 50) (gw_Traces g) in
         if chain = [] then WhyMissing else Why i chain))"

definition handleOTELTraces :: "(nat \<Rightarrow> draw) \<Rightarrow> (string \<times> string) list \<Rightarrow> gateway \<Rightarrow> otlp_export" where
  "handleOTELTraces draws qs g =
     EntriesToOTLP draws
       (Query (query_of qs ''agent'') (query_of qs ''tool'') (limit_of 200 qs ''limit'') (gw_Traces g)) ''flux7-mesh''"

definition handleListSessions :: "(string \<times> string) list \<Rightarrow> gateway \<Rightarrow> session_summary list" where
  "handleListSessions qs g = QuerySessions (limit_of 50 qs ''limit'') (gw_Traces g)"

definition handleSessionEvents :: "string \<Rightarrow> (string \<times> string) list \<Rightarrow> gateway \<Rightarrow> trace_entry list option" where
  "handleSessionEvents path qs g =
     (let sid = TrimPrefix path ''/sessions/'' in
      if sid = [] then None else Some (QueryBySession sid (limit_of 200 qs ''limit'') (gw_Traces g)))"

section \<open>Precedents\<close>

datatype precedents_answer = PrecedentsOff | PrecedentsShown int "precedent list"

definition handlePrecedents :: "mem7 \<Rightarrow> gateway \<Rightarrow> precedents_answer" where
  "handlePrecedents mem g =
     (case Precedents mem (gw_Approvals g) of
        None \<Rightarrow> PrecedentsOff
      | Some ps \<Rightarrow>
          PrecedentsShown (reader_MinApprovals (Option.bind (gw_Approvals g) as_reader)) ps)"

datatype forget_answer = ForgetFailed int string | Forgotten string string string

definition handleForgetPrecedents :: "mem7 \<Rightarrow> (string \<times> string) option \<Rightarrow> gateway \<Rightarrow> forget_answer" where
  "handleForgetPrecedents mem body g =
     (case body of
        None \<Rightarrow> ForgetFailed 400 ''expected JSON {tool, agent}''
      | Some (tool, agent) \<Rightarrow>
          (case Option.bind (gw_Approvals g) as_reader of
             None \<Rightarrow> ForgetFailed 409 ''auto-approval from precedents is off''
           | Some m \<Rightarrow>
               (case ForgetPrecedents mem (Some m) tool agent of
                  Inl e \<Rightarrow> ForgetFailed 400 e
                | Inr result \<Rightarrow> Forgotten tool agent result)))"

section \<open>One approval\<close>

record grant_view =
  gv_ID :: string
  gv_Agent :: string
  gv_Tools :: string
  gv_ExpiresAt :: string
  gv_Remaining :: int
  gv_GrantedBy :: string
  gv_ApprovalID :: string
  gv_TraceID :: string

definition toGrantView :: "request_env \<Rightarrow> grant \<Rightarrow> grant_view" where
  "toGrantView q gr =
     \<lparr>gv_ID = g_ID gr, gv_Agent = g_Agent gr, gv_Tools = g_Tools gr, gv_ExpiresAt = qe_date q (g_ExpiresAt gr),
      gv_Remaining = grant_Remaining (qe_now q) gr div second, gv_GrantedBy = g_GrantedBy gr,
      gv_ApprovalID = og_ApprovalID (g_Origin gr), gv_TraceID = og_TraceID (g_Origin gr)\<rparr>"

record approval_detail =
  ad_View :: approval_view
  ad_RecentTraces :: "trace_entry list"
  ad_ActiveGrants :: "grant_view list"

definition handleGetApproval ::
  "content_env \<Rightarrow> supervisor_config \<Rightarrow> request_env \<Rightarrow> string \<Rightarrow> gateway \<Rightarrow> approval_detail option" where
  "handleGetApproval ce cfg q path g =
     (case gw_Approvals g of
        None \<Rightarrow> None
      | Some s \<Rightarrow>
          (case approval_Get (TrimPrefix path ''/approvals/'') s of
             None \<Rightarrow> None
           | Some pa \<Rightarrow>
               Some \<lparr>ad_View = toApprovalView ce cfg (qe_rt q) (qe_now q) g pa,
                     ad_RecentTraces = Query (a_AgentID pa) [] 10 (gw_Traces g),
                     ad_ActiveGrants =
                       (case gw_Grants g of
                          None \<Rightarrow> []
                        | Some gs \<Rightarrow>
                            map (toGrantView q) (filter (\<lambda>gr. Glob (g_Agent gr) (a_AgentID pa)) (grant_List (qe_now q) gs)))\<rparr>))"

section \<open>Properties\<close>

lemma limit_of_pos: "0 < dflt \<Longrightarrow> 0 < limit_of dflt qs k"
  by (simp add: limit_of_def split: option.split)

lemma query_loop_take: "query_loop limit P es [] = (if 0 < limit then take (nat limit) (filter P es) else [])"
  by (simp add: query_loop_eq)

text \<open>
  The views stay within their bounds whatever the query string says: at most 1000 traces, at most 50
  steps of a chain of authority, and the chain shown ends with the trace asked for.
\<close>

theorem views_are_bounded:
  "(query_of qs ''trace'' \<noteq> [] \<or> length (handleTraces qs g) \<le> 1000)
   \<and> (case handleTraceWhy path qs g of
        Why i chain \<Rightarrow> chain \<noteq> [] \<and> length chain \<le> 50 \<and> te_TraceID (last chain) = why_id path
      | WhyMissing \<Rightarrow> latest (why_id path) (ts_entries (gw_Traces g)) = None
      | WhyBad \<Rightarrow> why_id path = [] \<or> CHR ''/'' \<in> set (why_id path))"
proof
  let ?n = "min (limit_of 100 qs ''limit'') 1000"
  have "0 < ?n" using limit_of_pos [of 100 qs] by simp
  then have "Query a t ?n st = take (nat ?n) (filter (\<lambda>e. \<not> (a \<noteq> [] \<and> te_AgentID e \<noteq> a) \<and> \<not> (t \<noteq> [] \<and> te_Tool e \<noteq> t))
      (rev (ts_entries st)))" for a t st
    by (simp add: Query_def query_loop_take)
  moreover have "nat ?n \<le> 1000" by simp
  ultimately have "length (Query a t ?n st) \<le> 1000" for a t st
    by (simp only: length_take)
  then show "query_of qs ''trace'' \<noteq> [] \<or> length (handleTraces qs g) \<le> 1000"
    by (simp add: handleTraces_def Let_def)
  let ?i = "why_id path" and ?d = "min (limit_of 10 qs ''depth'') 50" and ?es = "ts_entries (gw_Traces g)"
  have d: "0 < ?d" using limit_of_pos [of 10 qs] by simp
  show "case handleTraceWhy path qs g of
        Why i chain \<Rightarrow> chain \<noteq> [] \<and> length chain \<le> 50 \<and> te_TraceID (last chain) = ?i
      | WhyMissing \<Rightarrow> latest ?i ?es = None
      | WhyBad \<Rightarrow> ?i = [] \<or> CHR ''/'' \<in> set ?i"
  proof (cases "latest ?i ?es")
    case None
    then show ?thesis by (simp add: handleTraceWhy_def trace_Chain_def Let_def)
  next
    case (Some e)
    let ?r = "chain_walk (nat ?d - 1) ?es [?i] [e]"
    from latest_in [OF Some] have e: "te_TraceID e = ?i" "e \<in> set ?es" by simp_all
    have "1 + (nat ?d - 1) \<le> 50" using d by linarith
    with chain_walk_ok [of "[e]" "[?i]" ?es "nat ?d - 1"] e
    have "?r \<noteq> []" "length ?r \<le> 50" "last ?r = e" by (simp_all add: Let_def del: One_nat_def) linarith?
    then show ?thesis using d Some e(1) by (simp add: handleTraceWhy_def trace_Chain_def Let_def)
  qed
qed

text \<open>
  The detail of an approval shows the latest traces of its agent with their parameters as they are,
  also when the configuration hides contents from the view of the approval itself.
\<close>

lemma recent_traces_bypass_redaction:
  assumes "gw_Approvals g = Some s" "approval_Get i s = Some pa" "ts_entries (gw_Traces g) = es @ [e]"
    and "te_AgentID e = a_AgentID pa"
  shows "\<exists>d. handleGetApproval ce cfg q (''/approvals/'' @ i) g = Some d \<and> e \<in> set (ad_RecentTraces d)"
  using assms by (simp add: handleGetApproval_def Query_def query_loop_take TrimPrefix_def)

end
