(* ===== verification/Policy_Edit.thy ===== *)
theory Policy_Edit
  imports Control Text_Edit
begin

text \<open>
  Edits through the control plane (\<open>proxy/policy_edit.go\<close>, \<open>proxy/approval_settings.go\<close>): one
  tool's action for one agent, changed in the agent's policy file, and the approval settings,
  changed in the configuration file. Both write the file, load it again to check it, and restore
  it when it is refused. Files are texts under their names; a step of the file system that fails
  is told by the environment. The temporary file of the atomic replacement and file modes are left
  out.
\<close>

section \<open>Paths\<close>

definition hex_val :: "char \<Rightarrow> nat option" where
  "hex_val c =
     (let n = (of_char c :: nat) in
      if 48 \<le> n \<and> n \<le> 57 then Some (n - 48)
      else if 97 \<le> n \<and> n \<le> 102 then Some (n - 87)
      else if 65 \<le> n \<and> n \<le> 70 then Some (n - 55)
      else None)"

text \<open>\<open>url.PathUnescape\<close>.\<close>

fun PathUnescape :: "string \<Rightarrow> string option" where
  "PathUnescape [] = Some []"
| "PathUnescape (c # s) =
     (if c = CHR ''%'' then
        (case s of
           h # l # rest \<Rightarrow>
             (case (hex_val h, hex_val l) of
                (Some a, Some b) \<Rightarrow> map_option (Cons (char_of (16 * a + b))) (PathUnescape rest)
              | _ \<Rightarrow> None)
         | _ \<Rightarrow> None)
      else map_option (Cons c) (PathUnescape s))"

definition parsePolicyEditPath :: "string \<Rightarrow> (string \<times> string) option" where
  "parsePolicyEditPath escaped =
     (if \<not> HasPrefix escaped ''/policies/'' then None
      else
        (case Split (CHR ''/'') (TrimPrefix escaped ''/policies/'') of
           [a, w, t] \<Rightarrow>
             if w \<noteq> ''tools'' then None
             else
               (case (PathUnescape a, PathUnescape t) of
                  (Some agent, Some tool) \<Rightarrow>
                    if agent = [] \<or> tool = [] \<or> (\<exists>c \<in> set (agent @ tool). c = CHR ''*'' \<or> c = CHR ''?'' \<or> c = CHR 0x0A)
                    then None else Some (agent, tool)
                | _ \<Rightarrow> None)
         | _ \<Rightarrow> None))"

text \<open>\<open>filepath.Base\<close>.\<close>

definition filepath_Base :: "string \<Rightarrow> string" where
  "filepath_Base path =
     (if path = [] then ''.''
      else
        (let p = TrimRight (CHR ''/'') path in
         if p = [] then ''/'' else rev (takeWhile (\<lambda>c. c \<noteq> CHR ''/'') (rev p))))"

section \<open>The policy of a tool\<close>

text \<open>What \<open>mesh7\<close> does with a policy set that has been checked.\<close>

definition applyPolicies :: "policy list \<Rightarrow> gateway \<Rightarrow> gateway" where
  "applyPolicies policies g =
     (let newLimits = fold (\<lambda>p m. case p_RateLimit p of
              None \<Rightarrow> m
            | Some rl \<Rightarrow> AList.update (p_Name p) \<lparr>lm_MaxPerMinute = rl_MaxPerMinute rl, lm_MaxTotal = rl_MaxTotal rl\<rparr> m)
            policies [] in
      g\<lparr>gw_Policy := Reload policies (gw_Policy g),
        gw_RateLimiter := map_option (ReplaceLimits newLimits) (gw_RateLimiter g)\<rparr>)"

record policy_editing =
  pe_Dir :: string
  pe_Reload :: bool

text \<open>\<open>ee_listing\<close> is what the loader finds in the directory with those files, \<open>ee_config\<close> the
  configuration it reads again.\<close>

record edit_env =
  ee_req :: request_env
  ee_parse :: yaml_parser
  ee_today :: string
  ee_missing :: string
  ee_backup :: "string option"
  ee_write :: "string option"
  ee_restore :: bool
  ee_listing :: "(string \<times> string) list \<Rightarrow> dir_listing"
  ee_config :: "config_error + config"

type_synonym files = "(string \<times> string) list"

datatype edit_answer =
    EditFailed int string
  | EditRejected config_error
  | EditDone string string string static_decision static_decision

definition edit_target :: "string \<Rightarrow> static_decision \<Rightarrow> policy list \<Rightarrow> string \<times> nat option" where
  "edit_target agent before ps =
     (if sd_SourceFile before \<noteq> [] \<and> sd_PolicyAgent before = agent
      then (sd_SourceFile before, if sd_RuleIndex before < 0 then None else Some (nat (sd_RuleIndex before)))
      else
        (case find (\<lambda>p. p_Agent p = agent \<and> p_SourceFile p \<noteq> []) ps of
           Some p \<Rightarrow> (p_SourceFile p, None)
         | None \<Rightarrow> ([], None)))"

text \<open>The edited text, or the status and the message of the refusal.\<close>

definition edit_text ::
  "edit_env \<Rightarrow> string \<Rightarrow> string \<Rightarrow> string \<Rightarrow> nat option \<Rightarrow> string \<Rightarrow> string \<Rightarrow> (int \<times> string) + string" where
  "edit_text v tool action by pos file src =
     (if action = ''inherit'' then
        (case RemoveConsoleRule (ee_parse v) src tool of
           Inl err \<Rightarrow> Inl (422, err)
         | Inr (out, removed) \<Rightarrow>
             if \<not> removed
             then Inl (409, ''no console rule for this tool in '' @ file @ ''; hand-written rules are edited in the file'')
             else Inr out)
      else
        (case ExactRule (ee_parse v) src tool of
           Inl err \<Rightarrow> Inl (422, err)
         | Inr exact \<Rightarrow>
             (let note = ee_today v @ (if by \<noteq> [] then '' by '' @ by else []) in
              map_sum (Pair 422) id
                (case exact of
                   Some i \<Rightarrow>
                     (if (case pos of None \<Rightarrow> True | Some j \<Rightarrow> i \<le> j) then SetAction (ee_parse v) src i action
                      else InsertRule (ee_parse v) src tool action pos note)
                 | None \<Rightarrow> InsertRule (ee_parse v) src tool action pos note))))"

definition shown :: "static_decision \<Rightarrow> string" where
  "shown sd = sd_Action sd @ '' ('' @ sd_Rule sd @ '')''"

text \<open>\<open>body\<close> is the decoded request: the action and who asked.\<close>

definition handlePolicyEdit ::
  "edit_env \<Rightarrow> policy_editing option \<Rightarrow> string \<Rightarrow> (string \<times> string) option \<Rightarrow> files \<Rightarrow> gateway
     \<Rightarrow> edit_answer \<times> files \<times> gateway" where
  "handlePolicyEdit v editing path body fs g =
     (case editing of
        None \<Rightarrow> (EditFailed 501 ''policy editing needs policy_dir'', fs, g)
      | Some pe \<Rightarrow>
          if pe_Dir pe = [] then (EditFailed 501 ''policy editing needs policy_dir'', fs, g)
          else
            (case parsePolicyEditPath path of
               None \<Rightarrow> (EditFailed 400 ''want /policies/{agent}/tools/{tool}'', fs, g)
             | Some (agent, tool) \<Rightarrow>
                 (case body of
                    None \<Rightarrow> (EditFailed 400 ''invalid JSON body'', fs, g)
                  | Some (action, by) \<Rightarrow>
                      if action \<notin> {''allow'', ''deny'', ''human_approval'', ''inherit''}
                      then (EditFailed 400 ''action must be allow, deny, human_approval or inherit'', fs, g)
                      else
                        (let before = Explain (gw_Policy g) agent tool;
                             (file, pos) = edit_target agent before (Policies (gw_Policy g)) in
                         if file = []
                         then (EditFailed 409 (''no policy file for agent '' @ Quote agent @ '' in policy_dir''), fs, g)
                         else
                           (let name = filepath_Base file in
                            case map_of fs name of
                              None \<Rightarrow> (EditFailed 500 (''read policy file: '' @ ee_missing v), fs, g)
                            | Some src \<Rightarrow>
                                (case edit_text v tool action by pos file src of
                                   Inl (code, msg) \<Rightarrow> (EditFailed code msg, fs, g)
                                 | Inr out \<Rightarrow>
                                     (case ee_backup v of
                                        Some m \<Rightarrow> (EditFailed 500 (''backup: '' @ m), fs, g)
                                      | None \<Rightarrow>
                                          (let fs1 = AList.update (name @ ''.bak'') src fs in
                                           case ee_write v of
                                             Some m \<Rightarrow> (EditFailed 500 (''write: '' @ m), fs1, g)
                                           | None \<Rightarrow>
                                               (let fs2 = AList.update name out fs1 in
                                                case LoadPolicies (ee_listing v fs2) (ee_config v) of
                                                  Inl err \<Rightarrow>
                                                    (EditRejected err,
                                                     if ee_restore v then AList.update name src fs2 else fs2, g)
                                                | Inr policies \<Rightarrow>
                                                    (let g1 = (if pe_Reload pe then applyPolicies policies g
                                                               else g\<lparr>gw_Policy := Reload policies (gw_Policy g)\<rparr>);
                                                         after = Explain (gw_Policy g1) agent tool;
                                                         g2 = record_trace (ee_req v)
                                                           (control_entry (ee_req v) (if by = [] then ''admin'' else by)
                                                              ''mesh.policy_edit''
                                                              [(''agent'', VStr agent), (''tool'', VStr tool),
                                                               (''requested'', VStr action), (''file'', VStr file),
                                                               (''before'', VStr (shown before)),
                                                               (''after'', VStr (shown after))] 200) g1 in
                                                     (EditDone agent tool file before after, fs2, g2)))))))))))"

section \<open>The approval settings\<close>

text \<open>
  \<open>se_parse\<close>, \<open>se_doc\<close> and \<open>se_listing\<close> are what the libraries read in a configuration text;
  \<open>se_taken\<close> says which names of backups exist, \<open>se_stamp\<close> is the date in them.
\<close>

record settings_env =
  se_req :: request_env
  se_parse :: yaml_parser
  se_path :: string
  se_unreadable :: "string option"
  se_stamp :: string
  se_taken :: "string \<Rightarrow> bool"
  se_backup :: "string option"
  se_write :: "string option"
  se_restore :: bool
  se_expand :: "string \<Rightarrow> string"
  se_listing :: dir_listing
  se_doc :: "string \<Rightarrow> config_error + config"

datatype settings_answer =
    SettingsFailed int string
  | SettingsBad settings_error
  | SettingsRejected "config_error option"
  | SettingsSame settings
  | SettingsDone settings "string list" string
  | SettingsShown settings string bool bool

definition handleGetApprovalSettings :: "string option \<Rightarrow> gateway \<Rightarrow> settings_answer" where
  "handleGetApprovalSettings editing g =
     (case gw_Approvals g of
        None \<Rightarrow> SettingsFailed 409 ''no approval store''
      | Some s \<Rightarrow>
          SettingsShown (Settings s) (case editing of None \<Rightarrow> [] | Some path \<Rightarrow> path) (editing \<noteq> None)
            (as_reader s \<noteq> None))"

definition bool_text :: "bool \<Rightarrow> string" where
  "bool_text b = (if b then ''true'' else ''false'')"

definition setting_updates :: "go_rt \<Rightarrow> settings \<Rightarrow> settings \<Rightarrow> scalar list" where
  "setting_updates rt before next =
     (let add = (\<lambda>sec key val changed. if changed then [\<lparr>sl_Section = sec, sl_Key = key, sl_Value = val\<rparr>] else []) in
      add ''approval'' ''timeout_seconds'' (Itoa (st_TimeoutSeconds next)) (st_TimeoutSeconds next \<noteq> st_TimeoutSeconds before)
      @ add ''approval'' ''wait_seconds'' (rt_FormatFloat rt (st_WaitSeconds next))
          (\<not> flt_eq (st_WaitSeconds next) (st_WaitSeconds before))
      @ add ''supervisor'' ''auto_approve'' (bool_text (st_AutoApprove next)) (st_AutoApprove next \<noteq> st_AutoApprove before)
      @ add ''supervisor'' ''min_approvals'' (Itoa (st_MinApprovals next)) (st_MinApprovals next \<noteq> st_MinApprovals before)
      @ add ''supervisor'' ''auto_approve_writes'' (bool_text (st_AutoApproveWrites next))
          (st_AutoApproveWrites next \<noteq> st_AutoApproveWrites before))"

fun backup_name :: "(string \<Rightarrow> bool) \<Rightarrow> string \<Rightarrow> nat list \<Rightarrow> string option" where
  "backup_name taken base [] = None"
| "backup_name taken base (i # is) =
     (let name = (if i > 0 then base @ ''-'' @ Itoa (int i) else base) in
      if \<not> taken name then Some name else backup_name taken base is)"

definition uniqueBackup :: "(string \<Rightarrow> bool) \<Rightarrow> string \<Rightarrow> string \<Rightarrow> string option" where
  "uniqueBackup taken path stamp = backup_name taken (path @ ''.bak-'' @ stamp) [0..<100]"

definition reads_back :: "config \<Rightarrow> settings \<Rightarrow> bool" where
  "reads_back cfg next =
     (flt_eq (ac_WaitSeconds (cfg_Approval cfg)) (st_WaitSeconds next)
      \<and> ac_TimeoutSeconds (cfg_Approval cfg) = st_TimeoutSeconds next
      \<and> IsAutoApproveEnabled (cfg_Supervisor cfg) = st_AutoApprove next
      \<and> GetMinApprovals (cfg_Supervisor cfg) = st_MinApprovals next
      \<and> sc_AutoApproveWrites (cfg_Supervisor cfg) = st_AutoApproveWrites next)"

definition settings_val :: "settings \<Rightarrow> gval" where
  "settings_val st =
     VMap [(''timeout_seconds'', VInt (st_TimeoutSeconds st)), (''wait_seconds'', VNum (st_WaitSeconds st)),
           (''auto_approve'', VBool (st_AutoApprove st)), (''min_approvals'', VInt (st_MinApprovals st)),
           (''auto_approve_writes'', VBool (st_AutoApproveWrites st))]"

text \<open>\<open>src\<close> is the text of the configuration file, \<open>body\<close> the decoded request.\<close>

definition handlePutApprovalSettings ::
  "settings_env \<Rightarrow> bool \<Rightarrow> (settings \<times> string) option \<Rightarrow> string \<Rightarrow> gateway
     \<Rightarrow> settings_answer \<times> string \<times> gateway" where
  "handlePutApprovalSettings v editable body src g =
     (case (editable, gw_Approvals g) of
        (True, Some s) \<Rightarrow>
          (case body of
             None \<Rightarrow> (SettingsFailed 400 ''expected JSON approval settings'', src, g)
           | Some (next, by) \<Rightarrow>
               (case settings_Validate next of
                  Some err \<Rightarrow> (SettingsBad err, src, g)
                | None \<Rightarrow>
                    if st_AutoApprove next \<and> as_reader s = None
                    then (SettingsFailed 400 ''auto_approve needs memory.url (mem7) in the config'', src, g)
                    else
                      (let before = Settings s;
                           updates = setting_updates (qe_rt (se_req v)) before next in
                       case se_unreadable v of
                         Some m \<Rightarrow> (SettingsFailed 500 (''read config: '' @ m), src, g)
                       | None \<Rightarrow>
                       if updates = [] then (SettingsSame before, src, g)
                       else
                         (case SetScalars (se_parse v) src updates of
                            Inl err \<Rightarrow> (SettingsFailed 422 err, src, g)
                          | Inr out \<Rightarrow>
                              (case uniqueBackup (se_taken v) (se_path v) (se_stamp v) of
                                 None \<Rightarrow> (SettingsFailed 500 (''backup: no free backup name next to '' @ se_path v), src, g)
                               | Some backup \<Rightarrow>
                                   (case (se_backup v, se_write v) of
                                      (Some m, _) \<Rightarrow> (SettingsFailed 500 (''backup: '' @ m), src, g)
                                    | (None, Some m) \<Rightarrow> (SettingsFailed 500 (''write: '' @ m), src, g)
                                    | (None, None) \<Rightarrow>
                                        (case Load (se_expand v) (se_listing v) (se_doc v out) of
                                           Inl err \<Rightarrow> (SettingsRejected (Some err), if se_restore v then src else out, g)
                                         | Inr cfg \<Rightarrow>
                                             if \<not> reads_back cfg next
                                             then (SettingsRejected None, if se_restore v then src else out, g)
                                             else
                                               (let changed = map (\<lambda>u. sl_Section u @ ''.'' @ sl_Key u) updates;
                                                    g1 = g\<lparr>gw_Approvals := Some (Apply next s)\<rparr> in
                                                (SettingsDone next changed backup, out,
                                                 record_trace (se_req v)
                                                   (control_entry (se_req v) (if by = [] then ''admin'' else by)
                                                      ''mesh.approval_settings_edit''
                                                      [(''changed'', VList (map VStr changed)),
                                                       (''before'', settings_val before), (''after'', settings_val next),
                                                       (''backup'', VStr backup)] 200) g1)))))))))
      | _ \<Rightarrow> (SettingsFailed 501 ''approval settings are not editable here (no config file)'', src, g))"

section \<open>A rule put into a policy\<close>

definition one_tool :: "string \<Rightarrow> string \<Rightarrow> rule" where
  "one_tool tool action = \<lparr>r_Tools = [tool], r_Action = action, r_Condition = None\<rparr>"

definition with_rule :: "nat \<Rightarrow> string \<Rightarrow> string \<Rightarrow> policy \<Rightarrow> policy" where
  "with_rule i tool action p = p\<lparr>p_Rules := take i (p_Rules p) @ one_tool tool action # drop i (p_Rules p)\<rparr>"

lemma with_rule_frame [simp]:
  "p_Name (with_rule i tool action p) = p_Name p" "p_Agent (with_rule i tool action p) = p_Agent p"
  "p_SourceFile (with_rule i tool action p) = p_SourceFile p"
  "p_Rules (with_rule i tool action p) = take i (p_Rules p) @ one_tool tool action # drop i (p_Rules p)"
  by (simp_all add: with_rule_def)

lemma one_tool_matches: "matchTool (r_Tools (one_tool tool action)) tool"
  by (simp add: one_tool_def matchTool_def GlobAny_iff)

lemma explain_rules_of_policy:
  assumes "p_Name q = p_Name p" "p_Agent q = p_Agent p" "p_SourceFile q = p_SourceFile p"
  shows "explain_rules q tool k acc rs = explain_rules p tool k acc rs"
  using assms by (induction rs arbitrary: k acc) (auto simp: conditional_of_def split: option.split)

lemma explain_rules_place:
  assumes "explain_rules p tool k acc rs = Inr sd"
  shows "\<exists>i. sd_RuleIndex sd = int (k + i) \<and> sd_SourceFile sd = p_SourceFile p \<and> sd_PolicyAgent sd = p_Agent p
    \<and> (\<forall>action. explain_rules p tool k acc (take i rs @ one_tool tool action # drop i rs)
          = Inr (sd\<lparr>sd_Action := action\<rparr>))"
  using assms
proof (induction rs arbitrary: k acc)
  case (Cons r rs)
  note m = one_tool_matches [of tool]
  show ?case
  proof (cases "matchTool (r_Tools r) tool \<and> r_Condition r = None")
    case True
    then show ?thesis using Cons.prems m
      by (intro exI [of _ 0]) (auto simp: one_tool_def)
  next
    case False
    let ?acc = "if matchTool (r_Tools r) tool then acc @ [conditional_of p r (the (r_Condition r))] else acc"
    have step: "explain_rules p tool k acc (r # xs) = explain_rules p tool (Suc k) ?acc xs" for xs
      using False by (auto split: option.split)
    from Cons.IH [OF Cons.prems [unfolded step]] obtain i where
      "sd_RuleIndex sd = int (Suc k + i)" "sd_SourceFile sd = p_SourceFile p" "sd_PolicyAgent sd = p_Agent p"
      "\<forall>action. explain_rules p tool (Suc k) ?acc (take i rs @ one_tool tool action # drop i rs)
         = Inr (sd\<lparr>sd_Action := action\<rparr>)"
      by blast
    then show ?thesis by (intro exI [of _ "Suc i"]) (simp add: step del: explain_rules.simps)
  qed
qed simp

lemma explain_policies_place:
  assumes "explain_policies agent tool acc ps = sd" and "sd_RuleIndex sd \<ge> 0"
  shows "\<exists>xs p ys. ps = xs @ p # ys \<and> p_SourceFile p = sd_SourceFile sd \<and> p_Agent p = sd_PolicyAgent sd
    \<and> (\<forall>action. explain_policies agent tool acc (xs @ with_rule (nat (sd_RuleIndex sd)) tool action p # ys)
          = sd\<lparr>sd_Action := action\<rparr>)"
  using assms
proof (induction ps arbitrary: acc)
  case (Cons p ps)
  show ?case
  proof (cases "matchAgent (p_Agent p) agent")
    case False
    then obtain xs q ys where "ps = xs @ q # ys" "p_SourceFile q = sd_SourceFile sd" "p_Agent q = sd_PolicyAgent sd"
      "\<forall>action. explain_policies agent tool acc (xs @ with_rule (nat (sd_RuleIndex sd)) tool action q # ys)
         = sd\<lparr>sd_Action := action\<rparr>"
      using Cons.IH [of acc] Cons.prems by auto
    then show ?thesis using False by (intro exI [of _ "p # xs"] exI [of _ q] exI [of _ ys]) simp
  next
    case match: True
    show ?thesis
    proof (cases "explain_rules p tool 0 acc (p_Rules p)")
      case (Inr sd')
      then have sd: "sd' = sd" using Cons.prems match by simp
      from explain_rules_place [OF Inr [unfolded sd]] obtain i where i: "sd_RuleIndex sd = int i"
        "sd_SourceFile sd = p_SourceFile p" "sd_PolicyAgent sd = p_Agent p"
        "\<forall>action. explain_rules p tool 0 acc (take i (p_Rules p) @ one_tool tool action # drop i (p_Rules p))
           = Inr (sd\<lparr>sd_Action := action\<rparr>)"
        by auto
      have "explain_policies agent tool acc (with_rule i tool action p # ps) = sd\<lparr>sd_Action := action\<rparr>" for action
        using i(4) match explain_rules_of_policy [of "with_rule i tool action p" p] by simp
      then show ?thesis using i by (intro exI [of _ "[]"] exI [of _ p] exI [of _ ps]) simp
    next
      case (Inl acc')
      then obtain xs q ys where "ps = xs @ q # ys" "p_SourceFile q = sd_SourceFile sd" "p_Agent q = sd_PolicyAgent sd"
        "\<forall>action. explain_policies agent tool acc' (xs @ with_rule (nat (sd_RuleIndex sd)) tool action q # ys)
           = sd\<lparr>sd_Action := action\<rparr>"
        using Cons.IH [of acc'] Cons.prems match by auto
      then show ?thesis using match Inl by (intro exI [of _ "p # xs"] exI [of _ q] exI [of _ ys]) simp
    qed
  qed
qed auto

lemma evaluate_rules_with:
  assumes "\<not> matchTool (r_Tools r) t"
  shows "evaluate_rules rt p t prm (take i rs @ r # drop i rs) = evaluate_rules rt p t prm rs"
proof -
  have "evaluate_rules rt p t prm (us @ r # vs) = evaluate_rules rt p t prm (us @ vs)" for us vs
    using assms by (induction us) (auto split: option.split)
  from this [of "take i rs" "drop i rs"] show ?thesis by simp
qed

lemma evaluate_rules_of_policy:
  "p_Name q = p_Name p \<Longrightarrow> evaluate_rules rt q t prm rs = evaluate_rules rt p t prm rs"
  by (induction rs) (auto simp: decide_def split: option.split)

lemma evaluate_policies_with:
  assumes "\<not> matchTool [tool] t"
  shows "evaluate_policies rt a t prm (xs @ with_rule i tool action p # ys) = evaluate_policies rt a t prm (xs @ p # ys)"
proof -
  have "evaluate_rules rt (with_rule i tool action p) t prm (p_Rules (with_rule i tool action p))
      = evaluate_rules rt p t prm (p_Rules p)"
    using assms evaluate_rules_of_policy [of "with_rule i tool action p" p]
      evaluate_rules_with [of "one_tool tool action" t rt p prm i "p_Rules p"]
    by (simp add: one_tool_def)
  then show ?thesis by (induction xs) (auto split: option.split)
qed

section \<open>Properties\<close>


definition demo_engine :: engine where
  "demo_engine = NewEngine [demo_policy ''p'' ''bot'' [demo_rule ''x'' ''allow'', demo_rule ''*'' ''deny'']]"


text \<open>
  C20. A policy edit is all or nothing: an edit that does not succeed, for whatever reason, leaves
  the mesh's whole state and, as long as the restored file can be written, every file but backups
  as it was; one that succeeds has loaded the whole policy set with the edited file, made it the
  one in force, answered with what it decides, and kept the previous text next to the file.
\<close>

theorem policy_edit_is_atomic:
  assumes "handlePolicyEdit v editing path body fs g = (answer, fs', g')"
  shows "case answer of
      EditDone agent tool file before after \<Rightarrow>
        (\<exists>policies. LoadPolicies (ee_listing v fs') (ee_config v) = Inr policies
           \<and> gw_Policy g' = Reload policies (gw_Policy g) \<and> before = Explain (gw_Policy g) agent tool
           \<and> after = Explain (gw_Policy g') agent tool
           \<and> map_of fs' (filepath_Base file @ ''.bak'') = map_of fs (filepath_Base file))
    | _ \<Rightarrow> g' = g \<and> (ee_restore v \<longrightarrow> (\<forall>n. \<not> HasSuffix n ''.bak'' \<longrightarrow> map_of fs' n = map_of fs n))"
proof -
  have bak: "HasSuffix (x @ ''.bak'') ''.bak''" for x by (simp add: HasSuffix_def)
  show ?thesis
    using assms
    by (auto simp: handlePolicyEdit_def Let_def update_conv' applyPolicies_def bak
        split: option.splits sum.splits prod.splits if_splits)
qed

definition demo_edit :: edit_env where
  "demo_edit = \<lparr>ee_req = demo_request, ee_parse = demo_parse, ee_today = ''today'', ee_missing = [],
     ee_backup = None, ee_write = None, ee_restore = True, ee_listing = (\<lambda>_. DirMissing),
     ee_config = Inl (ReadError ''yaml'')\<rparr>"

definition demo_editable :: gateway where
  "demo_editable = demo_gateway\<lparr>gw_Policy := NewEngine
     [(demo_policy ''p'' ''bot'' [demo_rule ''x'' ''deny''])\<lparr>p_SourceFile := ''bot.yaml''\<rparr>]\<rparr>"

theorem policy_edit_is_atomic_witness:
  "\<exists>answer fs' g'. handlePolicyEdit demo_edit (Some \<lparr>pe_Dir = ''d'', pe_Reload = False\<rparr>) ''/policies/bot/tools/t''
        (Some (''allow'', [])) [(''bot.yaml'', demo_file)] demo_editable = (answer, fs', g')
     \<and> answer = EditRejected (ReadError ''yaml'') \<and> g' = demo_editable
     \<and> map_of fs' ''bot.yaml'' = Some demo_file \<and> map_of fs' ''bot.yaml.bak'' = Some demo_file"
proof -
  let ?H = "handlePolicyEdit demo_edit (Some \<lparr>pe_Dir = ''d'', pe_Reload = False\<rparr>) ''/policies/bot/tools/t''
        (Some (''allow'', [])) [(''bot.yaml'', demo_file)] demo_editable"
  have pp: "parsePolicyEditPath ''/policies/bot/tools/t'' = Some (''bot'', ''t'')" by code_simp
  have tg: "edit_target ''bot'' (Explain (gw_Policy demo_editable) ''bot'' ''t'') (Policies (gw_Policy demo_editable))
      = (''bot.yaml'', None)" by code_simp
  have nm: "filepath_Base ''bot.yaml'' = ''bot.yaml''" by code_simp
  have "case edit_text demo_edit ''t'' ''allow'' [] None ''bot.yaml'' demo_file of Inl _ \<Rightarrow> False | Inr _ \<Rightarrow> True"
    by code_simp
  then obtain out where ed: "edit_text demo_edit ''t'' ''allow'' [] None ''bot.yaml'' demo_file = Inr out"
    by (cases "edit_text demo_edit ''t'' ''allow'' [] None ''bot.yaml'' demo_file") simp_all
  have "?H = (EditRejected (ReadError ''yaml''),
      AList.update ''bot.yaml'' demo_file (AList.update ''bot.yaml'' out
        (AList.update ''bot.yaml.bak'' demo_file [(''bot.yaml'', demo_file)])), demo_editable)"
    using tg ed by (simp add: handlePolicyEdit_def pp nm Let_def)
      (simp add: demo_edit_def LoadPolicies_def)
  then obtain answer fs' g' where H: "?H = (answer, fs', g')" and a: "answer = EditRejected (ReadError ''yaml'')"
    and bak: "map_of fs' ''bot.yaml.bak'' = Some demo_file"
    by auto
  have "ee_restore demo_edit" "\<not> HasSuffix ''bot.yaml'' ''.bak''"
    by (simp_all add: demo_edit_def HasSuffix_def)
  with policy_edit_is_atomic [OF H] a have "g' = demo_editable" "map_of fs' ''bot.yaml'' = Some demo_file"
    by simp_all
  with H a bak show ?thesis by blast
qed

lemma Settings_Apply: "settings_Validate st = None \<Longrightarrow> Settings (Apply st s) = st"
  by (cases "as_reader s")
     (auto simp: settings_Validate_def Settings_def Apply_def Let_def SetMinApprovals_def reader_MinApprovals_def
        split: if_splits)

lemma backup_name_free: "backup_name taken base is = Some name \<Longrightarrow> \<not> taken name"
  by (induction taken base "is" rule: backup_name.induct) (auto simp: Let_def split: if_splits)

lemma uniqueBackup_free: "uniqueBackup taken path stamp = Some name \<Longrightarrow> \<not> taken name"
  unfolding uniqueBackup_def by (rule backup_name_free)

text \<open>
  So is an edit of the approval settings: refused, it leaves the mesh as it was and, as long as
  the restored file can be written, the file too; accepted, the configuration loads from the
  written text with exactly the settings asked for, they are the ones in force from then on, and
  the backup has overwritten no earlier one.
\<close>

theorem settings_edit_is_atomic:
  assumes "handlePutApprovalSettings v editable body src g = (answer, src', g')"
  shows "case answer of
      SettingsDone next changed backup \<Rightarrow>
        (\<exists>s cfg. gw_Approvals g = Some s \<and> gw_Approvals g' = Some (Apply next s) \<and> Settings (Apply next s) = next
           \<and> Load (se_expand v) (se_listing v) (se_doc v src') = Inr cfg \<and> reads_back cfg next \<and> \<not> se_taken v backup)
    | _ \<Rightarrow> g' = g \<and> (se_restore v \<longrightarrow> src' = src)"
  using assms uniqueBackup_free [of "se_taken v" "se_path v" "se_stamp v"]
  by (auto simp: handlePutApprovalSettings_def Let_def Settings_Apply
      split: option.splits sum.splits if_splits bool.splits)

definition demo_settings_env :: settings_env where
  "demo_settings_env = \<lparr>se_req = demo_request, se_parse = (\<lambda>_. Some (Some (YamlNode MappingNode [] 1 1 [] []))),
     se_path = ''c.yaml'', se_unreadable = None, se_stamp = ''1'', se_taken = (\<lambda>n. n = ''c.yaml.bak-1''),
     se_backup = None, se_write = None, se_restore = True, se_expand = id, se_listing = DirMissing,
     se_doc = (\<lambda>_. Inl (ReadError ''yaml''))\<rparr>"

theorem settings_edit_is_atomic_witness:
  "\<exists>answer src' g'. handlePutApprovalSettings demo_settings_env True
        (Some (\<lparr>st_TimeoutSeconds = 60, st_WaitSeconds = Fin 0, st_AutoApprove = False, st_MinApprovals = 3,
                st_AutoApproveWrites = False\<rparr>, [])) ''a: 1''
        (demo_gateway\<lparr>gw_Approvals := Some (approval_NewStore 0)\<rparr>) = (answer, src', g')
     \<and> answer = SettingsRejected (Some (ReadError ''yaml'')) \<and> src' = ''a: 1''
     \<and> g' = demo_gateway\<lparr>gw_Approvals := Some (approval_NewStore 0)\<rparr>"
proof -
  let ?next = "\<lparr>st_TimeoutSeconds = 60, st_WaitSeconds = Fin 0, st_AutoApprove = False, st_MinApprovals = 3,
      st_AutoApproveWrites = False\<rparr>"
  let ?g = "demo_gateway\<lparr>gw_Approvals := Some (approval_NewStore 0)\<rparr>"
  let ?H = "handlePutApprovalSettings demo_settings_env True (Some (?next, [])) ''a: 1'' ?g"
  have "fst ?H = SettingsRejected (Some (ReadError ''yaml''))" by code_simp
  then obtain src' g' where H: "?H = (SettingsRejected (Some (ReadError ''yaml'')), src', g')"
    by (cases ?H) auto
  have "se_restore demo_settings_env" by (simp add: demo_settings_env_def)
  with settings_edit_is_atomic [OF H] have "g' = ?g" "src' = ''a: 1''" by simp_all
  with H show ?thesis by blast
qed

end
