(* ===== verification/Mcp_Server.thy ===== *)
theory Mcp_Server
  imports Control
begin

text \<open>
  The governed call over MCP (\<open>mcp/server.go\<close>): the JSON-RPC dispatch, the virtual tools of the
  operator, the catalogue an agent sees, and \<open>tools/call\<close> with its approval channel: a prompt on
  the terminal, the approval a person has already given, the queue with or without a short wait,
  and the supervisor's decision. The server shares the stores of the HTTP handler, which it always
  has in the program. A call blocked on a channel is returned as a value and goes on with
  \<open>resume_tools_call\<close> or, when its wait ends first, with \<open>expire_tools_call\<close>.
\<close>

section \<open>The server\<close>

record mcp_server =
  sv_AgentID :: string
  sv_HideDenied :: bool
  sv_UserID :: string
  sv_SessionID :: string
  sv_SupervisorMode :: bool
  sv_SupervisorAgents :: "string list"
  sv_ApprovalChannel :: string
  sv_ApprovalWait :: duration

text \<open>What the terminal answers, and the indented JSON of a result (\<open>Inl\<close> is the encoder's error).\<close>

record mcp_env =
  mv_req :: request_env
  mv_tty :: "string \<Rightarrow> params \<Rightarrow> (bool \<times> string) option"
  mv_indent :: "backend_result \<Rightarrow> string + string"

text \<open>An answer: text content with the \<open>isError\<close> flag, or a JSON-RPC error.\<close>

datatype mcp_answer = ToolText string bool | RpcError int string

record pending_call =
  pc_Approval :: approval
  pc_TraceID :: string
  pc_ToolName :: string
  pc_Arguments :: params
  pc_Until :: "time option"

datatype mcp_result = Done mcp_answer | Blocked pending_call

definition approvalChannelAction :: "string \<Rightarrow> bool \<times> bool" where
  "approvalChannelAction channel =
     (if channel = ''queue'' then (False, False)
      else if channel = ''tty'' then (True, True)
      else (True, False))"

definition isSupervisorAgent :: "mcp_server \<Rightarrow> bool" where
  "isSupervisorAgent sv = GlobAny (sv_SupervisorAgents sv) (sv_AgentID sv)"

definition seconds_of :: "duration \<Rightarrow> int" where
  "seconds_of d = d div second"

definition approvalRequiredText :: "string \<Rightarrow> string \<Rightarrow> int \<Rightarrow> string" where
  "approvalRequiredText i tool secs =
     ''Approval required (id: '' @ i @ '') for '' @ tool @ '', valid '' @ Itoa secs @ ''s.'' @ nl
     @ ''Ask the user to approve it, with one of:'' @ nl
     @ ''  mesh approve '' @ i @ ''        (terminal)'' @ nl
     @ ''  the Approvals page of flux7-console'' @ nl
     @ ''  POST /approvals/'' @ i @ ''/approve on the mesh HTTP port'' @ nl
     @ ''Once approved, call '' @ tool @ '' again with the same arguments: the approved call runs once.''"

section \<open>The catalogue of an agent\<close>

text \<open>Every path through the policy ends in a refusal, whatever the arguments.\<close>

definition deniedOnly :: "mcp_server \<Rightarrow> gateway \<Rightarrow> tool \<Rightarrow> bool" where
  "deniedOnly sv g t =
     (if \<not> sv_HideDenied sv then False
      else
        (let fl = Floor (gw_Pins g) (Some t);
             final = (\<lambda>action. d_Action (Tighten \<lparr>d_Action = action, d_Rule = [], d_Reason = []\<rparr> fl));
             sd = Explain (gw_Policy g) (sv_AgentID sv) (tl_Name t) in
         final (sd_Action sd) = ''deny''
         \<and> list_all (\<lambda>c. final (cr_Action c) = ''deny'') (sd_Conditional sd)))"

text \<open>The schema of a parameter: the upstream's own, or the shallow one.\<close>

datatype mcp_prop = RawProp gval | PlainProp string string

record mcp_listing =
  ml_Name :: string
  ml_Description :: string
  ml_Props :: "(string \<times> mcp_prop) list"
  ml_Required :: "string list"

definition param_prop :: "param \<Rightarrow> mcp_prop" where
  "param_prop p =
     (case pa_RawSchema p of
        Some raw \<Rightarrow> RawProp raw
      | None \<Rightarrow> PlainProp (if pa_Type p = [] then ''string'' else pa_Type p)
                  (pa_Name p @ '' parameter ('' @ pa_In p @ '')''))"

definition list_tool :: "tool \<Rightarrow> mcp_listing" where
  "list_tool t =
     \<lparr>ml_Name = tl_Name t, ml_Description = tl_Description t,
      ml_Props = fold (\<lambda>p m. AList.update (pa_Name p) (param_prop p) m) (tl_Params t) [],
      ml_Required = map pa_Name (filter pa_Required (tl_Params t))\<rparr>"

definition virtual_tool ::
  "string \<Rightarrow> string \<Rightarrow> (string \<times> string) list \<Rightarrow> string list \<Rightarrow> mcp_listing" where
  "virtual_tool name desc props required =
     \<lparr>ml_Name = name, ml_Description = desc,
      ml_Props = map (\<lambda>(k, d). (k, PlainProp ''string'' d)) props, ml_Required = required\<rparr>"

definition approval_tools :: "mcp_listing list" where
  "approval_tools =
     [virtual_tool ''approval.resolve'' ''Approve or deny a pending approval request''
        [(''id'', ''Approval ID (full or 8-char prefix)''), (''decision'', ''Decision: approve or deny'')]
        [''id'', ''decision''],
      virtual_tool ''approval.pending'' ''List all pending approval requests'' [] []]"

text \<open>The dash of the description is one character of three bytes.\<close>

definition em_dash :: string where
  "em_dash = [CHR 0xE2, CHR 0x80, CHR 0x94]"

definition quoted :: "string \<Rightarrow> string" where
  "quoted s = [CHR 0x27] @ s @ [CHR 0x27]"

definition grant_tools :: "mcp_listing list" where
  "grant_tools =
     [virtual_tool ''grant.create''
        (''Create a temporal grant '' @ em_dash @ '' temporarily allow a tool pattern without approval. Like sudo for agents. Supervisor/operator only.'')
        [(''agent'', ''Agent glob the grant applies to (e.g. worker-*). Defaults to the calling agent.''),
         (''tools'', ''Tool glob pattern (e.g. filesystem.write_*, gmail.*)''),
         (''duration'', ''Duration (e.g. 30m, 2h, 1h30m)''),
         (''approval_id'', ''Optional: the approval this grant answers. Recorded so later calls can be traced back to it.''),
         (''trace_id'', ''Optional: the call this grant answers. Becomes the parent of every call the grant authorizes.'')] [''tools'', ''duration''],
      virtual_tool ''grant.revoke'' ''Revoke an active temporal grant. Supervisor/operator only.''
        [(''id'', ''Grant ID (full or prefix)'')] [''id'']]"

definition handleToolsList :: "mcp_server \<Rightarrow> gateway \<Rightarrow> mcp_listing list" where
  "handleToolsList sv g =
     map list_tool (filter (\<lambda>t. \<not> deniedOnly sv g t) (registry_All (gw_Registry g)))
     @ (if isSupervisorAgent sv then approval_tools else [])
     @ [virtual_tool ''grant.list'' ''List all active temporal grants'' [] []]
     @ (if isSupervisorAgent sv then grant_tools else [])
     @ [virtual_tool ''mesh.catalog''
          ''List all available tools grouped by source/category, with policy actions for the current agent''
          [(''source'', ''Filter by source name (e.g. '' @ quoted ''filesystem'' @ '', '' @ quoted ''git'' @ '', '' @ quoted ''gmail'' @ ''). Omit to show all.'')] []]"

section \<open>Answers of a call\<close>

definition sv_identity :: "mcp_server \<Rightarrow> identity" where
  "sv_identity sv = \<lparr>id_AgentID = sv_AgentID sv, id_UserID = sv_UserID sv\<rparr>"

definition mcp_entry ::
  "mcp_server \<Rightarrow> trace_context \<Rightarrow> string \<Rightarrow> params \<Rightarrow> string \<Rightarrow> string \<Rightarrow> trace_entry" where
  "mcp_entry sv tc toolName args pol rule = call_entry tc (sv_SessionID sv) (sv_identity sv) toolName args pol rule"

text \<open>Where the code ignores the encoder's error, the text is empty.\<close>

definition result_text :: "mcp_env \<Rightarrow> backend_result \<Rightarrow> string" where
  "result_text e r = (case mv_indent e r of Inl _ \<Rightarrow> [] | Inr s \<Rightarrow> s)"

text \<open>The call is allowed.\<close>

definition mcp_execute ::
  "mcp_env \<Rightarrow> mcp_server \<Rightarrow> trace_context \<Rightarrow> string \<Rightarrow> tool \<Rightarrow> params \<Rightarrow> decision \<Rightarrow> gateway
     \<Rightarrow> mcp_answer \<times> gateway" where
  "mcp_execute e sv tc toolName tool args d g =
     (let q = mv_req e;
          ((result, code, err), g1) = forward q tool args tc (sv_AgentID sv) g;
          (inTok, outTok, src) = resolveTokens (qe_token q) toolName args result;
          g2 = record_trace q
                 ((mcp_entry sv tc toolName args ''allow'' (d_Rule d))
                    \<lparr>te_StatusCode := code, te_LatencyMs := ms_between (qe_start q) (qe_done q),
                     te_EstimatedInputTokens := inTok, te_EstimatedOutputTokens := outTok,
                     te_TokensSource := src, te_Error := (case err of None \<Rightarrow> [] | Some m \<Rightarrow> m)\<rparr>) g1 in
      (case err of
         Some m \<Rightarrow> ToolText (''Backend error: '' @ m) False
       | None \<Rightarrow>
           (case mv_indent e result of
              Inl m \<Rightarrow> ToolText (''Failed to serialize result: '' @ m) False
            | Inr txt \<Rightarrow> ToolText txt False), g2))"

text \<open>The person at the terminal has decided.\<close>

definition tty_decided ::
  "mcp_env \<Rightarrow> mcp_server \<Rightarrow> trace_context \<Rightarrow> string \<Rightarrow> tool \<Rightarrow> params \<Rightarrow> trace_entry \<Rightarrow> bool \<Rightarrow> string
     \<Rightarrow> gateway \<Rightarrow> mcp_answer \<times> gateway" where
  "tty_decided e sv tc toolName tool args entry approved by g =
     (let q = mv_req e; g1 = record_trace q entry g in
      if approved then
        (let g2 = update_trace q (te_TraceID entry)
                    (\<lambda>x. x\<lparr>te_ApprovalStatus := ''approved'', te_ApprovedBy := by\<rparr>) g1;
             ((result, code, err), g3) = forward q tool args tc (sv_AgentID sv) g2;
             (inTok, outTok, src) = resolveTokens (qe_token q) toolName args result;
             g4 = update_trace q (te_TraceID entry)
                    (\<lambda>x. x\<lparr>te_StatusCode := code, te_LatencyMs := ms_between (qe_start q) (qe_done q),
                          te_EstimatedInputTokens := inTok, te_EstimatedOutputTokens := outTok,
                          te_TokensSource := src,
                          te_Error := (case err of None \<Rightarrow> te_Error x | Some m \<Rightarrow> m)\<rparr>) g3 in
         (case err of
            Some m \<Rightarrow> ToolText (''Backend error: '' @ m) False
          | None \<Rightarrow> ToolText (result_text e result) False, g4))
      else
        (ToolText (''Approval denied by '' @ by) False,
         update_trace q (te_TraceID entry)
           (\<lambda>x. x\<lparr>te_ApprovalStatus := ''denied'', te_ApprovedBy := by\<rparr>) g1))"

text \<open>
  \<open>handleResolution\<close>: the call of an approval that has been decided. The tool is looked up by its
  exact name, without the fallback to a command-line dispatcher.
\<close>

definition handleResolution ::
  "mcp_env \<Rightarrow> mcp_server \<Rightarrow> approval \<Rightarrow> string \<Rightarrow> resolution \<Rightarrow> string \<Rightarrow> params \<Rightarrow> gateway
     \<Rightarrow> mcp_answer \<times> gateway" where
  "handleResolution e sv pa traceID res toolName args g =
     (let q = mv_req e;
          g1 = update_trace q traceID
                 (\<lambda>x. x\<lparr>te_ApprovalStatus := status_text (rs_Status res), te_ApprovedBy := rs_ResolvedBy res,
                       te_ApprovalMs := ms_between (a_CreatedAt pa) (qe_now q),
                       te_SupervisorReasoning := rs_Reasoning res,
                       te_SupervisorConfidence := rs_Confidence res\<rparr>) g in
      (case rs_Status res of
         StatusApproved \<Rightarrow>
           (case registry_Get (gw_Registry g1) toolName of
              None \<Rightarrow> (ToolText (''Approved by supervisor but tool '' @ toolName @ '' no longer exists.'') False, g1)
            | Some tool \<Rightarrow>
                (let ((result, code, err), g2) =
                       forward q tool args \<lparr>cx_TraceID = traceID, cx_SpanID = [], cx_ParentSpanID = []\<rparr>
                         (sv_AgentID sv) g1;
                     g3 = update_trace q traceID
                            (\<lambda>x. x\<lparr>te_StatusCode := code,
                                  te_LatencyMs := ms_between (a_CreatedAt pa) (qe_done q),
                                  te_EstimatedInputTokens := int (estimate_params (qe_token q) args),
                                  te_EstimatedOutputTokens := int (estimate_result (qe_token q) result),
                                  te_Error := (case err of None \<Rightarrow> te_Error x | Some m \<Rightarrow> m)\<rparr>) g2 in
                 (case err of
                    Some m \<Rightarrow> ToolText (''Approved by supervisor but backend error: '' @ m) False
                  | None \<Rightarrow> ToolText (result_text e result) False, g3)))
       | StatusDenied \<Rightarrow> (ToolText (''Denied by supervisor: '' @ rs_Reasoning res) False, g1)
       | StatusTimeout \<Rightarrow>
           (ToolText (''Approval timed out '' @ em_dash @ '' no supervisor or human resolved it.'') False, g1)
       | StatusPending \<Rightarrow> (ToolText (''Unexpected approval status: pending'') False, g1)))"

section \<open>The approval of a call\<close>

definition approval_wait :: "mcp_server \<Rightarrow> gateway \<Rightarrow> duration" where
  "approval_wait sv g = (if sv_ApprovalWait sv = 0 then Wait (gw_Approvals g) else sv_ApprovalWait sv)"

definition short_id :: "approval \<Rightarrow> string" where
  "short_id pa = take 8 (a_ID pa)"

definition required_answer :: "mcp_env \<Rightarrow> approval \<Rightarrow> string \<Rightarrow> approval_store \<Rightarrow> mcp_answer" where
  "required_answer e pa toolName s =
     ToolText (approvalRequiredText (short_id pa) toolName
                 (seconds_of (approval_Remaining (qe_now (mv_req e)) (as_timeout s) pa))) False"

text \<open>No decision yet: the call is submitted, and waits as the mode says.\<close>

definition submit_call ::
  "mcp_env \<Rightarrow> mcp_server \<Rightarrow> string \<Rightarrow> params \<Rightarrow> decision \<Rightarrow> trace_entry \<Rightarrow> approval_store \<Rightarrow> gateway
     \<Rightarrow> mcp_result \<times> gateway" where
  "submit_call e sv toolName args d entry s g =
     (let q = mv_req e;
          (pa, s1) = SubmitWithTrace (qe_now q) (qe_newID q) (sv_AgentID sv) toolName (d_Rule d) args []
                       (te_TraceID entry) s;
          g1 = record_trace q (entry\<lparr>te_ApprovalID := a_ID pa\<rparr>) (g\<lparr>gw_Approvals := Some s1\<rparr>);
          w = \<lparr>pc_Approval = pa, pc_TraceID = te_TraceID entry, pc_ToolName = toolName, pc_Arguments = args,
               pc_Until = None\<rparr>;
          wait = approval_wait sv g1 in
      if sv_SupervisorMode sv then (Blocked w, g1)
      else if wait > 0 then (Blocked (w\<lparr>pc_Until := Some (qe_now q + wait)\<rparr>), g1)
      else (Done (required_answer e pa toolName s1), g1))"

definition queue_call ::
  "mcp_env \<Rightarrow> mcp_server \<Rightarrow> string \<Rightarrow> params \<Rightarrow> decision \<Rightarrow> trace_entry \<Rightarrow> gateway
     \<Rightarrow> mcp_result \<times> gateway" where
  "queue_call e sv toolName args d entry g =
     (let q = mv_req e; agent = sv_AgentID sv in
      case gw_Approvals g of
        None \<Rightarrow>
          (Done (ToolText ''This action requires human approval but no approval store is configured.'' False),
           record_trace q entry g)
      | Some s \<Rightarrow>
          if sv_SupervisorMode sv then submit_call e sv toolName args d entry s g
          else
            (case ClaimApproved (qe_now q) agent toolName args (as_timeout s) s of
               (Some pa, s1) \<Rightarrow>
                 (case handleResolution e sv pa (te_TraceID entry)
                         \<lparr>rs_Status = StatusApproved, rs_ResolvedBy = a_ResolvedBy pa,
                          rs_ResolvedAt = a_ResolvedAt pa, rs_Reasoning = [], rs_Confidence = Fin 0\<rparr>
                         toolName args
                         (record_trace q (entry\<lparr>te_ApprovalID := a_ID pa\<rparr>) (g\<lparr>gw_Approvals := Some s1\<rparr>)) of
                    (answer, g1) \<Rightarrow> (Done answer, g1))
             | (None, s1) \<Rightarrow>
                 (case ClaimDenied (qe_now q) agent toolName args (as_timeout s1) s1 of
                    (Some pa, s2) \<Rightarrow>
                      (Done (ToolText (''Approval denied by ''
                               @ (if a_ResolvedBy pa = [] then ''a human'' else a_ResolvedBy pa) @ '' for '' @ toolName
                               @ '' (id: '' @ short_id pa @ ''): do not retry this call.'') True),
                       g\<lparr>gw_Approvals := Some s2\<rparr>)
                  | (None, s2) \<Rightarrow>
                      (case FindPending agent toolName args s2 of
                         Some pa \<Rightarrow> (Done (required_answer e pa toolName s2), g\<lparr>gw_Approvals := Some s2\<rparr>)
                       | None \<Rightarrow> submit_call e sv toolName args d entry s2 g))))"

definition needs_approval ::
  "mcp_env \<Rightarrow> mcp_server \<Rightarrow> trace_context \<Rightarrow> string \<Rightarrow> tool \<Rightarrow> params \<Rightarrow> decision \<Rightarrow> gateway
     \<Rightarrow> mcp_result \<times> gateway" where
  "needs_approval e sv tc toolName tool args d g =
     (let entry = mcp_entry sv tc toolName args ''human_approval'' (d_Rule d);
          (tryTTY, failClosed) = approvalChannelAction (sv_ApprovalChannel sv) in
      case (if tryTTY then mv_tty e toolName args else None) of
        Some (approved, by) \<Rightarrow>
          (case tty_decided e sv tc toolName tool args entry approved by g of (answer, g1) \<Rightarrow> (Done answer, g1))
      | None \<Rightarrow>
          if failClosed then
            (Done (ToolText (''Approval denied: approval.channel is '' @ quoted ''tty''
                      @ '' but no interactive terminal is available. Use '' @ quoted ''queue'' @ '' or ''
                      @ quoted ''tty-fallback'' @ '' for headless deployments.'') False),
             record_trace (mv_req e)
               (entry\<lparr>te_ApprovalStatus := ''denied'', te_ApprovedBy := ''channel:tty-unavailable''\<rparr>) g)
          else queue_call e sv toolName args d entry g)"

text \<open>The channel of a blocked call holds its resolution.\<close>

definition resume_tools_call ::
  "mcp_env \<Rightarrow> mcp_server \<Rightarrow> pending_call \<Rightarrow> gateway \<Rightarrow> (mcp_answer \<times> gateway) option" where
  "resume_tools_call e sv w g =
     (case gw_Approvals g of
        None \<Rightarrow> None
      | Some s \<Rightarrow>
          (case receive (a_ID (pc_Approval w)) s of
             None \<Rightarrow> None
           | Some (res, s1) \<Rightarrow>
               Some
                 (if pc_Until w = None
                  then handleResolution e sv (pc_Approval w) (pc_TraceID w) res (pc_ToolName w) (pc_Arguments w)
                         (g\<lparr>gw_Approvals := Some s1\<rparr>)
                  else
                    (case Claim (a_ID (pc_Approval w)) s1 of
                       (True, s2) \<Rightarrow>
                         handleResolution e sv (pc_Approval w) (pc_TraceID w) res (pc_ToolName w) (pc_Arguments w)
                           (g\<lparr>gw_Approvals := Some s2\<rparr>)
                     | (False, s2) \<Rightarrow>
                         (required_answer e (pc_Approval w) (pc_ToolName w) s2, g\<lparr>gw_Approvals := Some s2\<rparr>)))))"

text \<open>The short wait of a blocked call ends first.\<close>

definition expire_tools_call ::
  "mcp_env \<Rightarrow> pending_call \<Rightarrow> gateway \<Rightarrow> mcp_answer option" where
  "expire_tools_call e w g =
     (case (pc_Until w, gw_Approvals g) of
        (Some t, Some s) \<Rightarrow>
          (if qe_now (mv_req e) \<ge> t then Some (required_answer e (pc_Approval w) (pc_ToolName w) s) else None)
      | _ \<Rightarrow> None)"

section \<open>The virtual tools\<close>

definition str_arg :: "params \<Rightarrow> string \<Rightarrow> string" where
  "str_arg args k = (case map_of (entries args) k of Some (VStr s) \<Rightarrow> s | _ \<Rightarrow> [])"

text \<open>\<open>time.Duration.String\<close> of a whole number of seconds.\<close>

definition duration_text :: "duration \<Rightarrow> string" where
  "duration_text d =
     (let n = \<bar>d\<bar> div second; h = n div 3600; m = n mod 3600 div 60; s = n mod 60 in
      (if d < 0 \<and> n > 0 then ''-'' else [])
      @ (if h > 0 then Itoa h @ ''h'' else []) @ (if n \<ge> 60 then Itoa m @ ''m'' else []) @ Itoa s @ ''s'')"

definition truncated_text :: "duration \<Rightarrow> string" where
  "truncated_text d = duration_text (if d < 0 then - (\<bar>d\<bar> div second * second) else d div second * second)"

definition approval_error_text :: "approval_error \<Rightarrow> string" where
  "approval_error_text e =
     (case e of ErrNotFound \<Rightarrow> ''approval not found'' | ErrAlreadyResolved \<Rightarrow> ''approval already resolved'')"

definition resolved_trace ::
  "request_env \<Rightarrow> approval \<Rightarrow> (trace_entry \<Rightarrow> trace_entry) \<Rightarrow> gateway \<Rightarrow> gateway" where
  "resolved_trace q pa fn g = (if a_TraceID pa \<noteq> [] then update_trace q (a_TraceID pa) fn g else g)"

text \<open>
  \<open>approval.resolve\<close>: the approved call is run here, by its exact tool name, under the name of the
  agent that made it and outside its trace. \<open>None\<close> is blocked on the channel of the approval.
\<close>

definition run_resolved ::
  "mcp_env \<Rightarrow> string \<Rightarrow> approval \<Rightarrow> gateway \<Rightarrow> mcp_answer \<times> gateway" where
  "run_resolved e by pa g =
     (let q = mv_req e in
      case registry_Get (gw_Registry g) (a_Tool pa) of
        None \<Rightarrow> (ToolText (''Approved but tool '' @ a_Tool pa @ '' no longer exists in registry.'') False, g)
      | Some tool \<Rightarrow>
          (let ((result, code, err), g1) =
                 forward q tool (a_Params pa) \<lparr>cx_TraceID = [], cx_SpanID = [], cx_ParentSpanID = []\<rparr> (a_AgentID pa) g;
               g2 = resolved_trace q pa
                      (\<lambda>x. x\<lparr>te_ApprovalStatus := ''approved'', te_ApprovedBy := by,
                            te_ApprovalMs := ms_between (a_CreatedAt pa) (qe_done q), te_StatusCode := code,
                            te_EstimatedInputTokens := int (estimate_params (qe_token q) (a_Params pa)),
                            te_EstimatedOutputTokens := int (estimate_result (qe_token q) result),
                            te_Error := (case err of None \<Rightarrow> te_Error x | Some m \<Rightarrow> m)\<rparr>) g1 in
           (case err of
              Some m \<Rightarrow> ToolText (''Approved but backend error: '' @ m) False
            | None \<Rightarrow> ToolText (result_text e result) False, g2)))"

definition handleApprovalResolve ::
  "mcp_env \<Rightarrow> mcp_server \<Rightarrow> params \<Rightarrow> gateway \<Rightarrow> (mcp_answer \<times> gateway) option" where
  "handleApprovalResolve e sv args g =
     (let q = mv_req e; i = str_arg args ''id''; decision = str_arg args ''decision'';
          by = ''mcp:'' @ sv_AgentID sv in
      if i = [] then Some (RpcError (-32602) (''Missing '' @ quoted ''id'' @ '' parameter''), g)
      else if decision \<noteq> ''approve'' \<and> decision \<noteq> ''deny''
      then Some (RpcError (-32602) (''Invalid '' @ quoted ''decision'' @ '': must be '' @ quoted ''approve''
             @ '' or '' @ quoted ''deny''), g)
      else
        (case gw_Approvals g of
           None \<Rightarrow> Some (RpcError (-32000) ''No approval store configured'', g)
         | Some s \<Rightarrow>
             (case approval_Get i s of
                None \<Rightarrow> Some (RpcError (-32602) (''Approval not found: '' @ i), g)
              | Some pa \<Rightarrow>
                  (case (if decision = ''deny'' then Deny (qe_now q) i by s else Approve (qe_now q) i by s) of
                     None \<Rightarrow> None
                   | Some (Some err, s1) \<Rightarrow>
                       Some (ToolText (''Cannot resolve: '' @ approval_error_text err) False, g\<lparr>gw_Approvals := Some s1\<rparr>)
                   | Some (None, s1) \<Rightarrow>
                       (let g1 = g\<lparr>gw_Approvals := Some s1\<rparr> in
                        Some
                          (if decision = ''deny''
                           then (ToolText (''Denied. Tool '' @ a_Tool pa @ '' was not executed.'') False,
                                 resolved_trace q pa
                                   (\<lambda>x. x\<lparr>te_ApprovalStatus := ''denied'', te_ApprovedBy := by,
                                         te_ApprovalMs := ms_between (a_CreatedAt pa) (qe_now q)\<rparr>) g1)
                           else run_resolved e by pa g1))))))"

definition handleApprovalPending :: "mcp_env \<Rightarrow> gateway \<Rightarrow> mcp_answer" where
  "handleApprovalPending e g =
     (case gw_Approvals g of
        None \<Rightarrow> ToolText ''No approval store configured.'' False
      | Some s \<Rightarrow>
          (let pending = ListPending s in
           if pending = [] then ToolText ''No pending approvals.'' False
           else ToolText (''Pending approvals ('' @ Itoa (int (length pending)) @ ''):'' @ nl
             @ concat (map (\<lambda>pa. ''- ID: '' @ short_id pa @ ''  tool: '' @ a_Tool pa @ ''  agent: '' @ a_AgentID pa
                 @ ''  age: '' @ truncated_text (qe_now (mv_req e) - a_CreatedAt pa) @ nl) pending)) False))"

definition maxGrantDuration :: duration where
  "maxGrantDuration = 24 * (60 * minute)"

definition handleGrantCreate ::
  "mcp_env \<Rightarrow> mcp_server \<Rightarrow> params \<Rightarrow> gateway \<Rightarrow> mcp_answer \<times> gateway" where
  "handleGrantCreate e sv args g =
     (let q = mv_req e; tools = str_arg args ''tools''; duration = str_arg args ''duration'' in
      case gw_Grants g of
        None \<Rightarrow> (RpcError (-32603) ''Grant store not configured'', g)
      | Some gs \<Rightarrow>
          if tools = [] \<or> duration = [] then (RpcError (-32602) ''tools and duration are required'', g)
          else
            (case ParseDuration duration of
               None \<Rightarrow> (RpcError (-32602) ''invalid duration'', g)
             | Some dur \<Rightarrow>
                 if dur > maxGrantDuration
                 then (RpcError (-32602) (''duration exceeds maximum ('' @ duration_text maxGrantDuration @ '')''), g)
                 else
                   (let target = (if str_arg args ''agent'' = [] then sv_AgentID sv else str_arg args ''agent'') in
                    case AddWithOrigin (qe_now q) (qe_newID q) target tools (''mcp:'' @ sv_AgentID sv) dur
                           \<lparr>og_ApprovalID = str_arg args ''approval_id'', og_TraceID = str_arg args ''trace_id''\<rparr> gs of
                      (gr, gs1) \<Rightarrow>
                        (ToolText (''Grant created: '' @ g_ID gr @ nl @ ''  agent: '' @ g_Agent gr @ nl @ ''  tools: ''
                            @ g_Tools gr @ nl @ ''  expires: '' @ qe_date q (g_ExpiresAt gr) @ nl @ ''  remaining: ''
                            @ truncated_text (grant_Remaining (qe_now q) gr)) False,
                         g\<lparr>gw_Grants := Some gs1\<rparr>))))"

definition handleGrantList :: "mcp_env \<Rightarrow> gateway \<Rightarrow> mcp_answer" where
  "handleGrantList e g =
     (case gw_Grants g of
        None \<Rightarrow> ToolText ''No grant store configured.'' False
      | Some gs \<Rightarrow>
          (let grants = grant_List (qe_now (mv_req e)) gs in
           if grants = [] then ToolText ''No active grants.'' False
           else ToolText (''Active grants ('' @ Itoa (int (length grants)) @ ''):'' @ nl
             @ concat (map (\<lambda>gr. ''- ID: '' @ take 8 (g_ID gr) @ ''  tools: '' @ g_Tools gr @ ''  agent: '' @ g_Agent gr
                 @ ''  remaining: '' @ truncated_text (grant_Remaining (qe_now (mv_req e)) gr) @ nl) grants)) False))"

definition handleGrantRevoke :: "params \<Rightarrow> gateway \<Rightarrow> mcp_answer \<times> gateway" where
  "handleGrantRevoke args g =
     (case gw_Grants g of
        None \<Rightarrow> (RpcError (-32603) ''Grant store not configured'', g)
      | Some gs \<Rightarrow>
          (let i = str_arg args ''id'' in
           if i = [] then (RpcError (-32602) ''id is required'', g)
           else
             (case grant_Revoke i gs of
                (False, gs1) \<Rightarrow> (RpcError (-32602) (''grant not found: '' @ i), g\<lparr>gw_Grants := Some gs1\<rparr>)
              | (True, gs1) \<Rightarrow> (ToolText (''Grant revoked: '' @ i) False, g\<lparr>gw_Grants := Some gs1\<rparr>))))"

section \<open>The catalogue by source\<close>

record catalog_entry =
  ce_Name :: string
  ce_Description :: string
  ce_Action :: string

record catalog_group =
  cg_Source :: string
  cg_Runtime :: string
  cg_Tools :: "catalog_entry list"

text \<open>The group of a tool and the kind of its source.\<close>

definition catalog_key :: "tool \<Rightarrow> string \<times> string" where
  "catalog_key t =
     (if tl_Source t = ''mcp'' then (tl_MCPServer t, ''mcp'')
      else if tl_Source t = ''cli''
      then (let head = takeWhile (\<lambda>c. c \<noteq> CHR ''.'') (tl_Name t) in
            (if head \<noteq> [] then head else tl_Name t, ''cli''))
      else (''openapi'', ''openapi''))"

definition add_to_catalog ::
  "mcp_env \<Rightarrow> mcp_server \<Rightarrow> gateway \<Rightarrow> string \<Rightarrow> tool \<Rightarrow> (string \<times> catalog_group) list
     \<Rightarrow> (string \<times> catalog_group) list" where
  "add_to_catalog e sv g sourceFilter t groups =
     (case catalog_key t of
        (key, source) \<Rightarrow>
          if sourceFilter \<noteq> [] \<and> ToLower key \<noteq> sourceFilter then groups
          else
            (let action = d_Action (ApplyFloors (gw_Pins g)
                   (Evaluate (qe_rt (mv_req e)) (gw_Policy g) (sv_AgentID sv) (tl_Name t) None) (Some t));
                 gr = (case map_of groups key of
                         None \<Rightarrow> \<lparr>cg_Source = source, cg_Runtime = [], cg_Tools = []\<rparr> | Some x \<Rightarrow> x) in
             AList.update key
               (gr\<lparr>cg_Tools := cg_Tools gr @
                  [\<lparr>ce_Name = tl_Name t, ce_Description = tl_Description t, ce_Action = action\<rparr>]\<rparr>) groups))"

definition virtual_entries :: "catalog_entry list" where
  "virtual_entries =
     [\<lparr>ce_Name = ''approval.resolve'', ce_Description = ''Approve or deny a pending approval request'', ce_Action = ''allow''\<rparr>,
      \<lparr>ce_Name = ''approval.pending'', ce_Description = ''List all pending approval requests'', ce_Action = ''allow''\<rparr>,
      \<lparr>ce_Name = ''grant.create'', ce_Description = ''Create a temporal grant'', ce_Action = ''allow''\<rparr>,
      \<lparr>ce_Name = ''grant.list'', ce_Description = ''List all active temporal grants'', ce_Action = ''allow''\<rparr>,
      \<lparr>ce_Name = ''grant.revoke'', ce_Description = ''Revoke an active temporal grant'', ce_Action = ''allow''\<rparr>,
      \<lparr>ce_Name = ''mesh.catalog'', ce_Description = ''This tool'', ce_Action = ''allow''\<rparr>]"

definition cli_runtime :: "gateway \<Rightarrow> string \<Rightarrow> catalog_group \<Rightarrow> catalog_group" where
  "cli_runtime g key gr =
     (if cg_Source gr = ''cli'' \<and> cg_Tools gr \<noteq> [] then
        (case Option.bind (registry_Get (gw_Registry g) (ce_Name (hd (cg_Tools gr)))) tl_CLIMeta of
           Some m \<Rightarrow> gr\<lparr>cg_Runtime := cm_Bin m\<rparr>
         | None \<Rightarrow>
             (case Option.bind (registry_Get (gw_Registry g) (key @ ''.__dispatch'')) tl_CLIMeta of
                Some m \<Rightarrow> gr\<lparr>cg_Runtime := cm_Bin m\<rparr>
              | None \<Rightarrow> gr))
      else gr)"

text \<open>\<open>clients\<close>: the connected upstreams, each with what the catalogue shows of its transport.\<close>

definition handleCatalog ::
  "mcp_env \<Rightarrow> mcp_server \<Rightarrow> (string \<times> string) list \<Rightarrow> params \<Rightarrow> gateway
     \<Rightarrow> string \<times> (string \<times> catalog_group) list" where
  "handleCatalog e sv clients args g =
     (let sourceFilter = ToLower (str_arg args ''source'');
          g1 = fold (add_to_catalog e sv g sourceFilter) (registry_All (gw_Registry g)) [];
          g2 = (if sourceFilter = [] \<or> sourceFilter = ''mesh''
                then AList.update ''mesh'' \<lparr>cg_Source = ''virtual'', cg_Runtime = [], cg_Tools = virtual_entries\<rparr> g1
                else g1);
          g3 = fold (\<lambda>(name, runtime) m. case map_of m name of
                 None \<Rightarrow> m | Some gr \<Rightarrow> AList.update name (gr\<lparr>cg_Runtime := runtime\<rparr>) m) clients g2;
          g4 = map (\<lambda>(k, gr). (k, cli_runtime g k gr)) g3;
          g5 = map (\<lambda>(k, gr). (k, gr\<lparr>cg_Tools := sort_key ce_Name (cg_Tools gr)\<rparr>)) g4;
          total = sum_list (map (\<lambda>(k, gr). length (cg_Tools gr)) g5) in
      (Itoa (int total) @ '' tools across '' @ Itoa (int (length g5)) @ '' sources'', sort_key fst g5))"

section \<open>The dispatch\<close>

text \<open>The catalogue is encoded as text by \<open>show\<close>.\<close>

definition operator_only :: "string \<Rightarrow> mcp_answer" where
  "operator_only name =
     RpcError (-32601) (name @ '' is operator-only '' @ em_dash
       @ '' not callable by this agent. Use the HTTP API or a declared supervisor agent.'')"

definition virtual_names :: "string list" where
  "virtual_names = [''approval.resolve'', ''approval.pending'', ''grant.create'', ''grant.list'', ''grant.revoke'',
     ''mesh.catalog'']"

definition virtual_call ::
  "mcp_env \<Rightarrow> (string \<times> (string \<times> catalog_group) list \<Rightarrow> string) \<Rightarrow> (string \<times> string) list \<Rightarrow> mcp_server
     \<Rightarrow> string \<Rightarrow> params \<Rightarrow> gateway \<Rightarrow> (mcp_answer \<times> gateway) option" where
  "virtual_call e show_catalog clients sv toolName args g =
     (if toolName = ''grant.list'' then Some (handleGrantList e g, g)
      else if toolName = ''mesh.catalog''
      then Some (ToolText (show_catalog (handleCatalog e sv clients args g)) False, g)
      else if \<not> isSupervisorAgent sv then Some (operator_only toolName, g)
      else if toolName = ''approval.resolve'' then handleApprovalResolve e sv args g
      else if toolName = ''approval.pending'' then Some (handleApprovalPending e g, g)
      else if toolName = ''grant.create'' then Some (handleGrantCreate e sv args g)
      else Some (handleGrantRevoke args g))"

text \<open>A call of a tool of the registry.\<close>

definition governed_call ::
  "mcp_env \<Rightarrow> mcp_server \<Rightarrow> trace_context \<Rightarrow> string \<Rightarrow> params \<Rightarrow> gateway \<Rightarrow> mcp_result \<times> gateway" where
  "governed_call e sv tc toolName args g =
     (let q = mv_req e in
      case HaltFor q (sv_AgentID sv) (sv_SessionID sv) g of
        (Some hl, g1) \<Rightarrow>
          (Done (ToolText (halt_Message hl) True),
           RecordHalted q hl tc (sv_SessionID sv) (sv_identity sv) toolName args g1)
      | (None, g1) \<Rightarrow>
          (case resolveTool g1 toolName of
             None \<Rightarrow> (Done (RpcError (-32602) (''Unknown tool: '' @ toolName)), g1)
           | Some tool \<Rightarrow>
               (let d = ApplyFloors (gw_Pins g1)
                      (Evaluate (qe_rt q) (gw_Policy g1) (sv_AgentID sv) toolName args) (Some tool) in
                if d_Action d = ''deny'' then
                  (Done (ToolText (''Policy denied: '' @ d_Reason d) False),
                   record_trace q
                     ((mcp_entry sv tc toolName args ''deny'' (d_Rule d))\<lparr>te_LatencyMs := elapsed_ms q\<rparr>) g1)
                else
                  (case by_precedent q (sv_AgentID sv) toolName args d g1 of
                     (d1, g2) \<Rightarrow>
                       if d_Action d1 = ''human_approval'' then needs_approval e sv tc toolName tool args d1 g2
                       else
                         (case mcp_execute e sv tc toolName tool args d1 g2 of
                            (answer, g3) \<Rightarrow> (Done answer, g3))))))"

definition handleToolsCall ::
  "mcp_env \<Rightarrow> (string \<times> (string \<times> catalog_group) list \<Rightarrow> string) \<Rightarrow> (string \<times> string) list \<Rightarrow> mcp_server
     \<Rightarrow> params \<Rightarrow> trace_context \<Rightarrow> gateway \<Rightarrow> (mcp_result \<times> gateway) option" where
  "handleToolsCall e show_catalog clients sv p tc0 g =
     (let tc = (if cx_TraceID tc0 = [] then NewContext (tv_draw (qe_trace (mv_req e))) [] [] else tc0);
          toolName = str_arg p ''name'';
          args = (case map_of (entries p) ''arguments'' of Some (VMap m) \<Rightarrow> Some m | _ \<Rightarrow> None) in
      if toolName = [] then Some (Done (RpcError (-32602) ''Missing tool name''), g)
      else if toolName \<in> set virtual_names
      then map_option (\<lambda>(answer, g1). (Done answer, g1)) (virtual_call e show_catalog clients sv toolName args g)
      else Some (governed_call e sv tc toolName args g))"

datatype rpc_result =
    Initialized
  | NoReply
  | ToolList "mcp_listing list"
  | Called mcp_result
  | Pong
  | MethodNotFound string

text \<open>\<open>newID\<close> is the session identifier minted at \<open>initialize\<close> where there is none.\<close>

definition HandleRequestWith ::
  "mcp_env \<Rightarrow> (string \<times> (string \<times> catalog_group) list \<Rightarrow> string) \<Rightarrow> (string \<times> string) list \<Rightarrow> string
     \<Rightarrow> string \<Rightarrow> params \<Rightarrow> trace_context \<Rightarrow> mcp_server \<Rightarrow> gateway \<Rightarrow> (rpc_result \<times> mcp_server \<times> gateway) option" where
  "HandleRequestWith e show_catalog clients newID meth p tc sv g =
     (if meth = ''initialize''
      then Some (Initialized, if sv_SessionID sv = [] then sv\<lparr>sv_SessionID := newID\<rparr> else sv, g)
      else if meth = ''notifications/initialized'' then Some (NoReply, sv, g)
      else if meth = ''tools/list'' then Some (ToolList (handleToolsList sv g), sv, g)
      else if meth = ''tools/call''
      then map_option (\<lambda>(r, g1). (Called r, sv, g1)) (handleToolsCall e show_catalog clients sv p tc g)
      else if meth = ''ping'' then Some (Pong, sv, g)
      else Some (MethodNotFound (''Method not found: '' @ meth), sv, g))"

section \<open>What reaches a backend\<close>

lemma forwarded_mcp_execute:
  "gw_forwarded (snd (mcp_execute e sv tc t tool args d g))
     = gw_forwarded g @ [\<lparr>fw_Tool = tool, fw_Params = args, fw_Agent = sv_AgentID sv\<rparr>]"
  by (simp add: mcp_execute_def forward_def Let_def split: prod.splits)

lemma forwarded_tty:
  "gw_forwarded (snd (tty_decided e sv tc t tool args entry approved by g)) = gw_forwarded g @
     (if approved then [\<lparr>fw_Tool = tool, fw_Params = args, fw_Agent = sv_AgentID sv\<rparr>] else [])"
  by (simp add: tty_decided_def forward_def Let_def split: prod.splits)

lemma forwarded_resolution:
  "gw_forwarded (snd (handleResolution e sv pa i res t args g)) = gw_forwarded g @
     (case registry_Get (gw_Registry g) t of
        Some tool \<Rightarrow> if rs_Status res = StatusApproved
          then [\<lparr>fw_Tool = tool, fw_Params = args, fw_Agent = sv_AgentID sv\<rparr>] else []
      | None \<Rightarrow> [])"
  by (cases "rs_Status res")
     (auto simp: handleResolution_def forward_def update_trace_def Let_def split: prod.splits option.splits)

lemma forwarded_submit: "gw_forwarded (snd (submit_call e sv t args d entry s g)) = gw_forwarded g"
  by (simp add: submit_call_def Let_def split: prod.splits)

text \<open>A person has approved exactly this call, recently, and no call has used the approval.\<close>

definition approved_earlier ::
  "mcp_env \<Rightarrow> mcp_server \<Rightarrow> string \<Rightarrow> params \<Rightarrow> gateway \<Rightarrow> bool" where
  "approved_earlier e sv toolName args g =
     (case (gw_Approvals g, Marshal args) of
        (Some s, Some want) \<Rightarrow>
          list_ex (claimable StatusApproved (qe_now (mv_req e)) (sv_AgentID sv) toolName want (as_timeout s)
                     (as_claimed s)) (as_pending s)
      | _ \<Rightarrow> False)"

lemma ClaimApproved_None_iff:
  assumes "gw_Approvals g = Some s"
  shows "fst (ClaimApproved (qe_now (mv_req e)) (sv_AgentID sv) t args (as_timeout s) s) = None
    \<longleftrightarrow> \<not> approved_earlier e sv t args g"
  using assms
  by (auto simp: approved_earlier_def ClaimApproved_def claim_status_def list_ex_iff find_None_iff
      split: option.splits dest: find_SomeD)

lemma ClaimApproved_frame:
  "ClaimApproved now a t args w s = (x, s1) \<Longrightarrow> as_timeout s1 = as_timeout s"
  by (auto simp: ClaimApproved_def claim_status_def split: option.splits)

lemma forwarded_queue:
  "gw_forwarded (snd (queue_call e sv t args d entry g)) = gw_forwarded g @
     (case registry_Get (gw_Registry g) t of
        Some tool \<Rightarrow> if \<not> sv_SupervisorMode sv \<and> approved_earlier e sv t args g
          then [\<lparr>fw_Tool = tool, fw_Params = args, fw_Agent = sv_AgentID sv\<rparr>] else []
      | None \<Rightarrow> [])"
proof (cases "gw_Approvals g")
  case None
  then show ?thesis by (simp add: queue_call_def approved_earlier_def split: option.split)
next
  case (Some s)
  let ?claim = "ClaimApproved (qe_now (mv_req e)) (sv_AgentID sv) t args (as_timeout s) s"
  note none = ClaimApproved_None_iff [OF Some, of e sv t args]
  show ?thesis
  proof (cases "sv_SupervisorMode sv")
    case True
    then show ?thesis using Some by (simp add: queue_call_def forwarded_submit split: option.split)
  next
    case False
    obtain x s1 where c: "?claim = (x, s1)" by (cases ?claim)
    show ?thesis
    proof (cases x)
      case None
      then show ?thesis using False Some c none
        by (auto simp: queue_call_def forwarded_submit Let_def split: option.splits prod.splits)
    next
      case x: (Some pa)
      let ?g = "record_trace (mv_req e) (entry\<lparr>te_ApprovalID := a_ID pa\<rparr>) (g\<lparr>gw_Approvals := Some s1\<rparr>)"
      let ?r = "\<lparr>rs_Status = StatusApproved, rs_ResolvedBy = a_ResolvedBy pa, rs_ResolvedAt = a_ResolvedAt pa,
          rs_Reasoning = [], rs_Confidence = Fin 0\<rparr>"
      have "snd (queue_call e sv t args d entry g) = snd (handleResolution e sv pa (te_TraceID entry) ?r t args ?g)"
        using False Some c x by (simp add: queue_call_def Let_def split: prod.split)
      then show ?thesis using False c x none by (simp add: forwarded_resolution split: option.split)
    qed
  qed
qed

text \<open>What the terminal says, where the channel asks it.\<close>

definition terminal_answer :: "mcp_env \<Rightarrow> mcp_server \<Rightarrow> string \<Rightarrow> params \<Rightarrow> bool option" where
  "terminal_answer e sv toolName args =
     (if sv_ApprovalChannel sv = ''queue'' then None else map_option fst (mv_tty e toolName args))"

definition human_agrees :: "mcp_env \<Rightarrow> mcp_server \<Rightarrow> string \<Rightarrow> tool \<Rightarrow> params \<Rightarrow> gateway \<Rightarrow> bool" where
  "human_agrees e sv toolName tool args g =
     (case terminal_answer e sv toolName args of
        Some approved \<Rightarrow> approved
      | None \<Rightarrow> sv_ApprovalChannel sv \<noteq> ''tty'' \<and> \<not> sv_SupervisorMode sv
          \<and> registry_Get (gw_Registry g) toolName = Some tool \<and> approved_earlier e sv toolName args g)"

lemma registry_Get_resolve: "registry_Get (gw_Registry g) t = Some u \<Longrightarrow> resolveTool g t = Some u"
  by (simp add: resolveTool_def)

lemma forwarded_needs_approval:
  assumes "resolveTool g t = Some tool"
  shows "gw_forwarded (snd (needs_approval e sv tc t tool args d g)) = gw_forwarded g @
     (if human_agrees e sv t tool args g
      then [\<lparr>fw_Tool = tool, fw_Params = args, fw_Agent = sv_AgentID sv\<rparr>] else [])"
proof -
  let ?entry = "mcp_entry sv tc t args ''human_approval'' (d_Rule d)"
  let ?ask = "if fst (approvalChannelAction (sv_ApprovalChannel sv)) then mv_tty e t args else None"
  have ask: "map_option fst ?ask = terminal_answer e sv t args"
    by (simp add: approvalChannelAction_def terminal_answer_def)
  show ?thesis
  proof (cases ?ask)
    case (Some ab)
    then obtain approved who where ab: "?ask = Some (approved, who)" by (cases ab) auto
    then have "human_agrees e sv t tool args g = approved"
      by (simp add: human_agrees_def flip: ask)
    then show ?thesis using ab
      by (simp add: needs_approval_def Let_def case_prod_unfold forwarded_tty)
  next
    case None
    then have na: "terminal_answer e sv t args = None" using ask by simp
    have fc: "snd (approvalChannelAction (sv_ApprovalChannel sv)) = (sv_ApprovalChannel sv = ''tty'')"
      by (simp add: approvalChannelAction_def)
    have "gw_forwarded (snd (needs_approval e sv tc t tool args d g)) =
        (if sv_ApprovalChannel sv = ''tty'' then gw_forwarded g
         else gw_forwarded (snd (queue_call e sv t args d ?entry g)))"
      using None by (simp add: needs_approval_def Let_def case_prod_unfold fc)
    moreover have "registry_Get (gw_Registry g) t = None \<or> registry_Get (gw_Registry g) t = Some tool"
      using assms registry_Get_resolve [of g t] by (cases "registry_Get (gw_Registry g) t") auto
    ultimately show ?thesis
      by (elim disjE) (simp_all add: forwarded_queue human_agrees_def na)
  qed
qed

lemma TryAutoResolveSafe_None: "TryAutoResolveSafe rt mem now i a t p s = (None, s') \<Longrightarrow> s' = s"
  by (auto simp: TryAutoResolveSafe_def TryAutoResolve_def Let_def split: if_splits option.splits)

lemma by_precedent_same:
  "d_Action (fst (by_precedent q a t p d g)) = ''human_approval'' \<Longrightarrow> snd (by_precedent q a t p d g) = g"
  by (cases g) (auto simp: by_precedent_def dest: TryAutoResolveSafe_None split: option.splits prod.splits if_splits)

lemma human_agrees_sync [simp]:
  "human_agrees e sv t tool args (sync_halts q g) = human_agrees e sv t tool args g"
  by (simp add: human_agrees_def approved_earlier_def split: option.split)

definition mcp_passes ::
  "mcp_env \<Rightarrow> mcp_server \<Rightarrow> string \<Rightarrow> tool \<Rightarrow> params \<Rightarrow> gateway \<Rightarrow> bool" where
  "mcp_passes e sv toolName tool args g =
     (let q = mv_req e; a = verdict_on q (sv_AgentID sv) (Some tool) toolName args g in
      \<not> halted q (sv_AgentID sv) (sv_SessionID sv) g \<and> a \<noteq> ''deny''
      \<and> (a = ''human_approval'' \<longrightarrow> precedented q (sv_AgentID sv) toolName args g
           \<or> human_agrees e sv toolName tool args g))"

lemma governed_call_forwards:
  "gw_forwarded (snd (governed_call e sv tc t args g)) = gw_forwarded g @
     (case resolveTool g t of
        Some tool \<Rightarrow> if mcp_passes e sv t tool args g
          then [\<lparr>fw_Tool = tool, fw_Params = args, fw_Agent = sv_AgentID sv\<rparr>] else []
      | None \<Rightarrow> [])"
proof (cases rule: HaltFor_cases [of "mv_req e" "sv_AgentID sv" "sv_SessionID sv" g])
  case (2 hl)
  then show ?thesis
    by (auto simp: governed_call_def Let_def RecordHalted_def mcp_passes_def split: option.splits)
next
  case 1
  let ?q = "mv_req e" and ?a = "sv_AgentID sv"
  let ?g = "sync_halts ?q g"
  show ?thesis
  proof (cases "resolveTool g t")
    case None
    then show ?thesis using 1 by (simp add: governed_call_def Let_def)
  next
    case (Some tool)
    let ?d = "ApplyFloors (gw_Pins ?g) (Evaluate (qe_rt ?q) (gw_Policy ?g) ?a t args) (Some tool)"
    have v: "d_Action ?d = verdict_on ?q ?a (Some tool) t args g"
      by (simp add: ApplyFloors_action verdict_on_def)
    obtain d1 g2 where P: "by_precedent ?q ?a t args ?d ?g = (d1, g2)"
      by (cases "by_precedent ?q ?a t args ?d ?g")
    have act: "d_Action d1 = (if d_Action ?d = ''human_approval'' \<and> precedented ?q ?a t args g then ''allow''
        else d_Action ?d)"
      using by_precedent_action [of ?q ?a t args ?d ?g] P by simp
    have fr: "gw_forwarded g2 = gw_forwarded g" using by_precedent_frame(1) [of ?q ?a t args ?d ?g] P by simp
    have G: "snd (governed_call e sv tc t args g) =
        (if d_Action ?d = ''deny'' then record_trace ?q ((mcp_entry sv tc t args ''deny'' (d_Rule ?d))
             \<lparr>te_LatencyMs := elapsed_ms ?q\<rparr>) ?g
         else if d_Action d1 = ''human_approval'' then snd (needs_approval e sv tc t tool args d1 g2)
         else snd (mcp_execute e sv tc t tool args d1 g2))"
      using 1 Some P by (simp add: governed_call_def Let_def split: prod.split)
    show ?thesis
    proof (cases "d_Action ?d = ''deny'' \<or> d_Action d1 \<noteq> ''human_approval''")
      case True
      then show ?thesis unfolding G using 1 act v fr Some
        by (auto simp: forwarded_mcp_execute mcp_passes_def Let_def)
    next
      case False
      then have "g2 = ?g" using by_precedent_same [of ?q ?a t args ?d ?g] P by simp
      moreover have "resolveTool ?g t = Some tool" using Some by simp
      ultimately have "gw_forwarded (snd (governed_call e sv tc t args g)) = gw_forwarded g @
          (if human_agrees e sv t tool args g
           then [\<lparr>fw_Tool = tool, fw_Params = args, fw_Agent = sv_AgentID sv\<rparr>] else [])"
        unfolding G using False by (simp add: forwarded_needs_approval)
      moreover have "verdict_on ?q ?a (Some tool) t args g = ''human_approval''"
        and "\<not> precedented ?q ?a t args g"
        using False act unfolding v by (auto split: if_splits)
      ultimately show ?thesis using 1 Some by (simp add: mcp_passes_def Let_def)
    qed
  qed
qed

section \<open>Properties\<close>

text \<open>
  C4. Complete mediation over MCP, and no more than that: \<open>tools/call\<close> hands the call to a backend,
  with its arguments and under the name of the session's agent, exactly when no emergency stop
  covers the agent or the session, the tool exists, and the policy tightened by the tool's floor
  is not \<open>deny\<close>, nor an approval without one of: the precedents, a yes at the terminal, or, where
  the channel has a queue, an approval a person has given to exactly this call that no call has
  used yet.
\<close>

theorem tools_call_iff_permitted:
  "gw_forwarded (snd (governed_call e sv tc toolName args g)) = gw_forwarded g @
     (case resolveTool g toolName of
        Some tool \<Rightarrow> if mcp_passes e sv toolName tool args g
          then [\<lparr>fw_Tool = tool, fw_Params = args, fw_Agent = sv_AgentID sv\<rparr>] else []
      | None \<Rightarrow> [])"
  by (rule governed_call_forwards)

text \<open>What the mesh governs with, but for approvals: the rest of its state is what calls leave behind.\<close>

definition approval_at :: "string \<Rightarrow> gateway \<Rightarrow> approval option" where
  "approval_at i g = Option.bind (gw_Approvals g) (\<lambda>s. map_of (as_pending s) i)"

definition asks_only :: "request_env \<Rightarrow> gateway \<Rightarrow> gateway \<Rightarrow> bool" where
  "asks_only q g g' \<longleftrightarrow>
     gw_Policy g' = gw_Policy g \<and> gw_Registry g' = gw_Registry g \<and> gw_Pins g' = gw_Pins g
     \<and> gw_Grants g' = gw_Grants g \<and> gw_Halts g' = gw_Halts g
     \<and> (\<forall>i. i \<noteq> qe_newID q \<longrightarrow> approval_at i g' = approval_at i g)"

lemma asks_only_refl [simp]: "asks_only q g g"
  by (simp add: asks_only_def)

lemma asks_only_trans [trans]: "asks_only q g h \<Longrightarrow> asks_only q h k \<Longrightarrow> asks_only q g k"
  by (simp add: asks_only_def)

lemma update_trace_rest [simp]:
  "gw_Registry (update_trace q i fn g) = gw_Registry g" "gw_Policy (update_trace q i fn g) = gw_Policy g"
  "gw_Pins (update_trace q i fn g) = gw_Pins g"
  by (simp_all add: update_trace_def)

lemma approval_at_same: "gw_Approvals g' = gw_Approvals g \<Longrightarrow> approval_at i g' = approval_at i g"
  by (simp add: approval_at_def)

lemma asks_only_record: "asks_only q g (record_trace q' x g)"
  and asks_only_update: "asks_only q g (update_trace q' j fn g)"
  by (simp_all add: asks_only_def approval_at_def)

lemma asks_only_forward: "forward q' t p tc a g = (out, g') \<Longrightarrow> asks_only q g g'"
  by (auto simp: asks_only_def approval_at_def forward_def)

lemma asks_only_approvals:
  assumes "gw_Approvals g = Some s" "\<And>i. i \<noteq> qe_newID q \<Longrightarrow> map_of (as_pending s') i = map_of (as_pending s) i"
  shows "asks_only q g (g\<lparr>gw_Approvals := Some s'\<rparr>)"
  using assms by (simp add: asks_only_def approval_at_def)

lemma asks_only_execute: "asks_only q g (snd (mcp_execute e sv tc t tool p d g))"
  by (simp add: asks_only_def approval_at_def mcp_execute_def forward_def Let_def split: prod.splits)

lemma asks_only_tty: "asks_only q g (snd (tty_decided e sv tc t tool p x ok by g))"
  by (simp add: asks_only_def approval_at_def tty_decided_def forward_def Let_def split: prod.splits)

lemma asks_only_resolution: "asks_only q g (snd (handleResolution e sv pa i res t p g))"
  by (cases "rs_Status res")
     (auto simp: asks_only_def approval_at_def handleResolution_def forward_def Let_def
        split: prod.splits option.splits)

lemma Submit_others:
  "i \<noteq> n \<Longrightarrow> map_of (as_pending (snd (SubmitWithTrace now n a t r p cb tr s))) i = map_of (as_pending s) i"
  by (simp add: SubmitWithTrace_def approval_dbSave_def Let_def update_conv')

lemma asks_only_submit:
  assumes "\<And>i. i \<noteq> qe_newID (mv_req e) \<Longrightarrow> approval_at i g = map_of (as_pending s) i"
  shows "asks_only (mv_req e) g (snd (submit_call e sv t p d x s g))"
  using assms Submit_others
  by (auto simp: submit_call_def Let_def asks_only_def approval_at_def case_prod_unfold)

lemma claim_others: "as_pending (snd (claim_status st now a t p w s)) = as_pending s"
  by (auto simp: claim_status_def split: option.splits)

lemma asks_only_queue: "asks_only (mv_req e) g (snd (queue_call e sv t p d x g))"
proof (cases "gw_Approvals g")
  case None
  then show ?thesis by (simp add: queue_call_def asks_only_record)
next
  case (Some s)
  let ?q = "mv_req e" and ?a = "sv_AgentID sv"
  have at: "approval_at i g = map_of (as_pending s') i" if "as_pending s' = as_pending s" for i s'
    using Some that by (simp add: approval_at_def)
  obtain c1 s1 where C1: "ClaimApproved (qe_now ?q) ?a t p (as_timeout s) s = (c1, s1)"
    by (cases "ClaimApproved (qe_now ?q) ?a t p (as_timeout s) s")
  obtain c2 s2 where C2: "ClaimDenied (qe_now ?q) ?a t p (as_timeout s1) s1 = (c2, s2)"
    by (cases "ClaimDenied (qe_now ?q) ?a t p (as_timeout s1) s1")
  have p1: "as_pending s1 = as_pending s" and p2: "as_pending s2 = as_pending s"
    using claim_others [of StatusApproved "qe_now ?q" ?a t p "as_timeout s" s]
      claim_others [of StatusDenied "qe_now ?q" ?a t p "as_timeout s1" s1] C1 C2
    by (simp_all add: ClaimApproved_def ClaimDenied_def)
  have k1: "asks_only ?q g (g\<lparr>gw_Approvals := Some s1\<rparr>)" and k2: "asks_only ?q g (g\<lparr>gw_Approvals := Some s2\<rparr>)"
    using Some p1 p2 by (auto intro: asks_only_approvals)
  show ?thesis
  proof (cases "sv_SupervisorMode sv")
    case True
    then show ?thesis using Some asks_only_submit [OF at] by (simp add: queue_call_def)
  next
    case False
    show ?thesis
    proof (cases c1)
      case None
      then show ?thesis using False Some C1 C2 k2 asks_only_submit [OF at [OF p2]]
        by (auto simp: queue_call_def split: option.split)
    next
      case pa: (Some pa)
      let ?g = "record_trace ?q (x\<lparr>te_ApprovalID := a_ID pa\<rparr>) (g\<lparr>gw_Approvals := Some s1\<rparr>)"
      have "asks_only ?q g ?g" by (rule asks_only_trans [OF k1 asks_only_record])
      then show ?thesis using False Some C1 pa
        by (auto simp: queue_call_def Let_def case_prod_unfold intro: asks_only_trans [OF _ asks_only_resolution])
    qed
  qed
qed

lemma asks_only_needs: "asks_only (mv_req e) g (snd (needs_approval e sv tc t tool p d g))"
  by (auto simp: needs_approval_def Let_def case_prod_unfold asks_only_tty asks_only_record asks_only_queue
      split: option.split)

lemma asks_only_precedent: "asks_only q g (snd (by_precedent q' a t p d g))"
proof -
  have "as_pending s1 = as_pending s" if "TryAutoResolveSafe rt mem now i a t p s = (x, s1)" for rt mem now i s x s1
    using that by (auto simp: TryAutoResolveSafe_def TryAutoResolve_def Let_def split: if_splits option.splits)
  then show ?thesis
    by (auto simp: by_precedent_def asks_only_def approval_at_def split: option.splits prod.splits)
qed

lemma asks_only_governed: "asks_only (mv_req e) (sync_halts (mv_req e) g) (snd (governed_call e sv tc t p g))"
proof (cases rule: HaltFor_cases [of "mv_req e" "sv_AgentID sv" "sv_SessionID sv" g])
  case (2 hl)
  then show ?thesis by (simp add: governed_call_def Let_def RecordHalted_def asks_only_record)
next
  case 1
  let ?q = "mv_req e" and ?g = "sync_halts (mv_req e) g"
  show ?thesis
  proof (cases "resolveTool g t")
    case None
    then show ?thesis using 1 by (simp add: governed_call_def Let_def)
  next
    case (Some tool)
    let ?d = "ApplyFloors (gw_Pins ?g) (Evaluate (qe_rt ?q) (gw_Policy ?g) (sv_AgentID sv) t p) (Some tool)"
    obtain d1 g2 where P: "by_precedent ?q (sv_AgentID sv) t p ?d ?g = (d1, g2)"
      by (cases "by_precedent ?q (sv_AgentID sv) t p ?d ?g")
    have pre: "asks_only ?q ?g g2" using asks_only_precedent [of ?q ?g ?q "sv_AgentID sv" t p ?d] P by simp
    have "snd (governed_call e sv tc t p g) =
        (if d_Action ?d = ''deny'' then record_trace ?q ((mcp_entry sv tc t p ''deny'' (d_Rule ?d))
             \<lparr>te_LatencyMs := elapsed_ms ?q\<rparr>) ?g
         else if d_Action d1 = ''human_approval'' then snd (needs_approval e sv tc t tool p d1 g2)
         else snd (mcp_execute e sv tc t tool p d1 g2))"
      using 1 Some P by (simp add: governed_call_def Let_def split: prod.split)
    then show ?thesis
      using asks_only_record asks_only_trans [OF pre asks_only_needs] asks_only_trans [OF pre asks_only_execute]
      by simp
  qed
qed

text \<open>
  C5. An agent cannot raise its own rights: whatever an agent that is not declared a supervisor
  sends to \<open>tools/call\<close>, the virtual tools of the operator included, the policy, the catalogue, the
  pins and the grants stay what they were, the emergency stops change at most by what other
  processes have written to their store, and no approval is decided or altered: the only entry of
  the queue the call can touch is the new one it asks for itself.
\<close>

theorem agent_cannot_govern:
  assumes "\<not> isSupervisorAgent sv" and "handleToolsCall e show_catalog clients sv p tc g = Some (r, g')"
  shows "asks_only (mv_req e) g g' \<or> asks_only (mv_req e) (sync_halts (mv_req e) g) g'"
  using assms asks_only_governed [of e g sv]
  by (auto simp: handleToolsCall_def virtual_call_def Let_def split: if_splits) (metis snd_conv)+

text \<open>The terminal says no to every call.\<close>

definition demo_env :: mcp_env where
  "demo_env = \<lparr>mv_req = demo_request, mv_tty = (\<lambda>t p. Some (False, ''human'')), mv_indent = (\<lambda>r. Inr ''ok'')\<rparr>"

definition demo_session :: mcp_server where
  "demo_session =
     \<lparr>sv_AgentID = ''a'', sv_HideDenied = True, sv_UserID = [], sv_SessionID = ''s'', sv_SupervisorMode = False,
      sv_SupervisorAgents = [''ops-*''], sv_ApprovalChannel = ''queue'', sv_ApprovalWait = 0\<rparr>"

definition demo_self_grant :: params where
  "demo_self_grant = Some
     [(''name'', VStr ''grant.create''),
      (''arguments'', VMap [(''tools'', VStr ''*''), (''duration'', VStr ''1h'')])]"

theorem agent_cannot_govern_witness:
  "\<exists>r g'. handleToolsCall demo_env (\<lambda>_. []) [] demo_session demo_self_grant
            \<lparr>cx_TraceID = ''1'', cx_SpanID = ''2'', cx_ParentSpanID = []\<rparr> demo_gateway = Some (r, g')
     \<and> r = Done (operator_only ''grant.create'') \<and> gw_Grants g' = gw_Grants demo_gateway"
proof -
  let ?tc = "\<lparr>cx_TraceID = ''1'', cx_SpanID = ''2'', cx_ParentSpanID = []\<rparr>"
  have no: "\<not> isSupervisorAgent demo_session" by code_simp
  then have "handleToolsCall demo_env (\<lambda>_. []) [] demo_session demo_self_grant ?tc demo_gateway
      = Some (Done (operator_only ''grant.create''), demo_gateway)"
    by (simp add: handleToolsCall_def virtual_call_def virtual_names_def demo_self_grant_def str_arg_def entries_def)
  with agent_cannot_govern [OF no this] show ?thesis by (auto simp: asks_only_def)
qed

text \<open>What the catalogue hides.\<close>

lemma deniedOnly_verdict:
  assumes "deniedOnly sv g tool"
  shows "verdict_on q (sv_AgentID sv) (Some tool) (tl_Name tool) p g = ''deny''"
proof -
  let ?sd = "Explain (gw_Policy g) (sv_AgentID sv) (tl_Name tool)" and ?f = "Floor (gw_Pins g) (Some tool)"
  let ?d = "Evaluate (qe_rt q) (gw_Policy g) (sv_AgentID sv) (tl_Name tool) p"
  let ?final = "\<lambda>a. d_Action (Tighten \<lparr>d_Action = a, d_Rule = [], d_Reason = []\<rparr> ?f)"
  have all: "?final a = ''deny''" if "a \<in> insert (sd_Action ?sd) (cr_Action ` set (sd_Conditional ?sd))" for a
    using assms that by (auto simp: deniedOnly_def Let_def list_all_iff split: if_splits)
  have "verdict_on q (sv_AgentID sv) (Some tool) (tl_Name tool) p g = ?final (d_Action ?d)"
    unfolding verdict_on_def by (intro Tighten_action_cong) simp
  then show ?thesis using all [OF Evaluate_action_listed] by simp
qed

text \<open>
  What the catalogue hides from an agent, the agent cannot run: a tool of the registry that
  \<open>tools/list\<close> leaves out is not handed to its backend by \<open>tools/call\<close>, whatever the arguments,
  the approvals, the precedents and the answers of the terminal.
\<close>

theorem hidden_tool_never_runs:
  assumes "registry_Get (gw_Registry g) (tl_Name tool) = Some tool"
    and "list_tool tool \<notin> set (handleToolsList sv g)"
  shows "gw_forwarded (snd (governed_call e sv tc (tl_Name tool) args g)) = gw_forwarded g"
proof -
  have "tool \<in> set (registry_All (gw_Registry g))"
    using assms(1) by (force simp: registry_Get_def registry_All_def dest: map_of_SomeD)
  then have "deniedOnly sv g tool" using assms(2) by (auto simp: handleToolsList_def)
  then have "\<not> mcp_passes e sv (tl_Name tool) tool args g"
    by (simp add: mcp_passes_def Let_def deniedOnly_verdict)
  then show ?thesis
    using registry_Get_resolve [OF assms(1)] by (simp add: governed_call_forwards)
qed

definition demo_locked :: gateway where
  "demo_locked = demo_gateway\<lparr>gw_Policy := NewEngine [demo_policy ''p'' ''*'' [demo_rule ''*'' ''deny'']]\<rparr>"

theorem hidden_tool_never_runs_witness:
  "map ml_Name (handleToolsList demo_session demo_locked) = [''grant.list'', ''mesh.catalog'']
    \<and> gw_forwarded (snd (governed_call demo_env demo_session
          \<lparr>cx_TraceID = ''1'', cx_SpanID = ''2'', cx_ParentSpanID = []\<rparr> ''t'' None demo_locked)) = []"
proof -
  have names: "map ml_Name (handleToolsList demo_session demo_locked) = [''grant.list'', ''mesh.catalog'']"
    by code_simp
  then have "ml_Name (list_tool demo_backend) \<notin> ml_Name ` set (handleToolsList demo_session demo_locked)"
    unfolding set_map [symmetric] by (simp add: list_tool_def demo_backend_def)
  then have h: "list_tool demo_backend \<notin> set (handleToolsList demo_session demo_locked)"
    by blast
  have n: "tl_Name demo_backend = ''t''" by (simp add: demo_backend_def)
  have "registry_Get (gw_Registry demo_locked) (tl_Name demo_backend) = Some demo_backend"
    by (simp add: n demo_locked_def demo_gateway_def registry_Get_def)
  from hidden_tool_never_runs [OF this h, of demo_env] names show ?thesis
    unfolding n by (simp add: demo_locked_def demo_gateway_def)
qed

text \<open>A call that has waited for its approval.\<close>

lemma resolution_approvals: "gw_Approvals (snd (handleResolution e sv pa i res t p g)) = gw_Approvals g"
  by (cases "rs_Status res")
     (auto simp: handleResolution_def forward_def Let_def split: prod.splits option.splits)

lemma receive_claimed: "receive i s = Some (res, s1) \<Longrightarrow> as_claimed s1 = as_claimed s"
  by (auto simp: receive_def split: option.splits list.splits)

lemma claimed_not_approved:
  assumes "approvals_inv s" and "a_ID pa \<in> set (as_claimed s)"
  shows "fst (ClaimApproved now a t p w s) \<noteq> Some pa"
proof (cases rule: claim_status_cases [of StatusApproved now a t p w s])
  case no
  then show ?thesis by (simp add: ClaimApproved_def)
next
  case (yes i x)
  have "a_ID x = i" using yes(2) assms(1) by (auto simp: approvals_inv_def approval_ok_def list_all_iff)
  then show ?thesis using yes assms(2) by (auto simp: ClaimApproved_def)
qed

text \<open>
  C10. One approval, one run, whichever of the two ways it is used: a call that waits a short while
  for its approval reaches the backend only when the approval is granted and no retry of the agent
  has used it before, and once it has gone on, no retry can use the approval any more.
\<close>

theorem wait_and_retry_share_one_run:
  assumes "pc_Until w \<noteq> None" and "gw_Approvals g = Some s" and "approvals_inv s"
    and "resume_tools_call e sv w g = Some (answer, g')"
  shows "\<exists>s'. gw_Approvals g' = Some s' \<and> a_ID (pc_Approval w) \<in> set (as_claimed s')
    \<and> (gw_forwarded g' \<noteq> gw_forwarded g \<longrightarrow> a_ID (pc_Approval w) \<notin> set (as_claimed s)
         \<and> (\<exists>res s1 tool. receive (a_ID (pc_Approval w)) s = Some (res, s1) \<and> rs_Status res = StatusApproved
              \<and> gw_forwarded g' = gw_forwarded g @
                  [\<lparr>fw_Tool = tool, fw_Params = pc_Arguments w, fw_Agent = sv_AgentID sv\<rparr>]))
    \<and> (\<forall>now a t p win pa. a_ID pa = a_ID (pc_Approval w) \<longrightarrow> fst (ClaimApproved now a t p win s') \<noteq> Some pa)"
proof -
  let ?i = "a_ID (pc_Approval w)"
  from assms(2,4) obtain res s1 where r: "receive ?i s = Some (res, s1)"
    by (auto simp: resume_tools_call_def split: option.splits)
  have c1: "as_claimed s1 = as_claimed s" by (rule receive_claimed [OF r])
  obtain ok s2 where C: "Claim ?i s1 = (ok, s2)" by (cases "Claim ?i s1")
  have i2: "approvals_inv s2" using Claim_inv [OF receive_inv [OF assms(3) r], of ?i] C by simp
  have in2: "?i \<in> set (as_claimed s2)" and ok: "ok = (?i \<notin> set (as_claimed s))"
    using C c1 by (auto simp: Claim_def split: if_splits)
  let ?call = "handleResolution e sv (pc_Approval w) (pc_TraceID w) res (pc_ToolName w) (pc_Arguments w)
      (g\<lparr>gw_Approvals := Some s2\<rparr>)"
  have g': "g' = (if ok then snd ?call else g\<lparr>gw_Approvals := Some s2\<rparr>)"
    using assms(1,2,4) r C by (cases ok) (auto simp: resume_tools_call_def)
  have app: "gw_Approvals g' = Some s2" unfolding g' by (simp add: resolution_approvals)
  have fwd: "gw_forwarded g' = gw_forwarded g \<or> ok \<and> rs_Status res = StatusApproved \<and> (\<exists>tool.
      gw_forwarded g' = gw_forwarded g @ [\<lparr>fw_Tool = tool, fw_Params = pc_Arguments w, fw_Agent = sv_AgentID sv\<rparr>])"
    unfolding g' by (auto simp: forwarded_resolution split: option.split)
  have claims: "fst (ClaimApproved now a t p win s2) \<noteq> Some pa" if "a_ID pa = ?i" for now a t p win pa
    using claimed_not_approved [OF i2, of pa] in2 that by simp
  show ?thesis
    using app in2 fwd ok r claims by (intro exI [of _ s2]) blast
qed

definition demo_blocked :: pending_call where
  "demo_blocked = \<lparr>pc_Approval = snd (hd (as_pending demo_decided)), pc_TraceID = ''x'', pc_ToolName = ''t'',
     pc_Arguments = None, pc_Until = Some 5\<rparr>"

theorem wait_and_retry_share_one_run_witness:
  "\<exists>answer g' s'. resume_tools_call demo_env demo_session demo_blocked
        (demo_gateway\<lparr>gw_Approvals := Some demo_decided\<rparr>) = Some (answer, g')
     \<and> gw_Approvals g' = Some s' \<and> as_claimed s' = [''a''] \<and> ''a'' \<in> set (as_claimed s')
     \<and> gw_forwarded g' = [\<lparr>fw_Tool = demo_backend, fw_Params = None, fw_Agent = ''a''\<rparr>]"
proof -
  let ?g = "demo_gateway\<lparr>gw_Approvals := Some demo_decided\<rparr>"
  let ?run = "resume_tools_call demo_env demo_session demo_blocked ?g"
  have inv: "approvals_inv demo_decided"
    by (simp add: approvals_inv_def approval_ok_def demo_decided_def keys_distinct_def approval_NewStore_def)
  have "map_option (\<lambda>(a, g'). (gw_forwarded g', map_option as_claimed (gw_Approvals g'))) ?run
      = Some ([\<lparr>fw_Tool = demo_backend, fw_Params = None, fw_Agent = ''a''\<rparr>], Some [''a''])"
    by code_simp
  then obtain answer g' s' where r: "?run = Some (answer, g')"
      and f: "gw_forwarded g' = [\<lparr>fw_Tool = demo_backend, fw_Params = None, fw_Agent = ''a''\<rparr>]"
      and c: "gw_Approvals g' = Some s'" "as_claimed s' = [''a'']"
    by auto
  have "pc_Until demo_blocked \<noteq> None" and "gw_Approvals ?g = Some demo_decided"
    and i: "a_ID (pc_Approval demo_blocked) = ''a''"
    by (simp_all add: demo_blocked_def demo_decided_def)
  from wait_and_retry_share_one_run [OF this(1,2) inv r] r f c show ?thesis
    unfolding i by auto
qed

end
