(* ===== verification/Mcp_Sessions.thy ===== *)
theory Mcp_Sessions
  imports Mcp_Server
begin

text \<open>
  The two ways into the MCP server: the Streamable HTTP transport with its sessions
  (\<open>mcp/http_server.go\<close>), the loop over standard input (\<open>Serve\<close> of \<open>mcp/server.go\<close>), and the
  retries that bring an upstream back (\<open>mcp/retry.go\<close>). The lock of the HTTP handler covers the
  lookup of a session and its creation separately, so the two are separate steps here and other
  requests may come between them.
\<close>

section \<open>The handler\<close>

record http_handler =
  hh_JWTValidator :: "validator option"
  hh_AllowLegacyAgent :: bool
  hh_RequireAuth :: bool
  hh_SupervisorMode :: bool
  hh_SupervisorAgents :: "string list"
  hh_ApprovalChannel :: string
  hh_HideDenied :: bool
  hh_ApprovalWait :: duration
  hh_sessions :: "(string \<times> mcp_server) list"

text \<open>A request: its headers, and its body once decoded (method and parameters).\<close>

record mcp_call =
  mp_Authorization :: string
  mp_SessionID :: string
  mp_Traceparent :: string
  mp_XTraceId :: string
  mp_Body :: "(string \<times> params) option"

datatype http_reply =
    RpcFailure int string int
  | PlainFailure int string
  | Accepted string
  | Replied string rpc_result
  | NoContent
  | NotFound

definition mcp_extractIdentity :: "http_handler \<Rightarrow> mcp_call \<Rightarrow> auth_error + identity" where
  "mcp_extractIdentity h c = ResolveIdentity (mp_Authorization c) (hh_JWTValidator h) (hh_AllowLegacyAgent h)"

definition getOrCreateSession ::
  "string \<Rightarrow> string \<Rightarrow> identity \<Rightarrow> http_handler \<Rightarrow> mcp_server \<times> http_handler" where
  "getOrCreateSession newID sessionID who h =
     (case (if sessionID \<noteq> [] then map_of (hh_sessions h) sessionID else None) of
        Some sv \<Rightarrow> (sv, h)
      | None \<Rightarrow>
          (let sv = \<lparr>sv_AgentID = id_AgentID who, sv_HideDenied = hh_HideDenied h, sv_UserID = id_UserID who,
                     sv_SessionID = newID, sv_SupervisorMode = hh_SupervisorMode h,
                     sv_SupervisorAgents = hh_SupervisorAgents h, sv_ApprovalChannel = hh_ApprovalChannel h,
                     sv_ApprovalWait = hh_ApprovalWait h\<rparr> in
           (sv, h\<lparr>hh_sessions := AList.update newID sv (hh_sessions h)\<rparr>)))"

text \<open>
  The checks of \<open>handlePost\<close>: the identity of this request and the session it may use, the empty
  identifier on \<open>initialize\<close>.
\<close>

definition check_post :: "http_handler \<Rightarrow> mcp_call \<Rightarrow> http_reply + (string \<times> identity \<times> string \<times> params)" where
  "check_post h c =
     (case mp_Body c of
        None \<Rightarrow> Inl (RpcFailure (-32700) ''Parse error'' 400)
      | Some (meth, p) \<Rightarrow>
          (case mcp_extractIdentity h c of
             Inl err \<Rightarrow> Inl (RpcFailure (-32600) (auth_message err) 401)
           | Inr who \<Rightarrow>
               (let isInit = (meth = ''initialize'');
                    sessionID = (if isInit then [] else mp_SessionID c) in
                if \<not> isInit \<and> sessionID = []
                then Inl (RpcFailure (-32600) ''Missing Mcp-Session-Id header'' 400)
                else if hh_RequireAuth h \<and> id_AgentID who = ''anonymous''
                then Inl (RpcFailure (-32600) ''authentication required'' 401)
                else if \<not> isInit \<and> sessionID \<noteq> [] then
                  (case map_of (hh_sessions h) sessionID of
                     None \<Rightarrow> Inl (RpcFailure (-32600) ''Unknown session'' 404)
                   | Some sv \<Rightarrow>
                       if sv_AgentID sv \<noteq> id_AgentID who \<or> sv_UserID sv \<noteq> id_UserID who
                       then Inl (RpcFailure (-32600) ''session belongs to another agent'' 403)
                       else Inr (sessionID, who, meth, p))
                else Inr (sessionID, who, meth, p))))"

text \<open>
  What follows the checks: the session, the call within the caller's trace, the answer. A session
  is an object the handler and the request share: what the call changes of it is seen in the
  table as long as it is there. \<open>None\<close> is a call that never returns.
\<close>

definition put_session :: "mcp_server \<Rightarrow> http_handler \<Rightarrow> http_handler" where
  "put_session sv h =
     h\<lparr>hh_sessions := map (\<lambda>(k, x). (k, if k = sv_SessionID sv then sv else x)) (hh_sessions h)\<rparr>"

definition serve_post ::
  "mcp_env \<Rightarrow> (string \<times> (string \<times> catalog_group) list \<Rightarrow> string) \<Rightarrow> (string \<times> string) list \<Rightarrow> string
     \<Rightarrow> mcp_call \<Rightarrow> string \<times> identity \<times> string \<times> params \<Rightarrow> http_handler \<Rightarrow> gateway
     \<Rightarrow> (http_reply \<times> mcp_server \<times> http_handler \<times> gateway) option" where
  "serve_post e show_catalog clients newID c req h g =
     (case req of
        (sessionID, who, meth, p) \<Rightarrow>
          (case getOrCreateSession newID sessionID who h of
             (sv, h1) \<Rightarrow>
               (let tc = NewContext (tv_draw (qe_trace (mv_req e))) (mp_Traceparent c) (mp_XTraceId c) in
                map_option
                  (\<lambda>(r, sv1, g1).
                     (case r of NoReply \<Rightarrow> Accepted (sv_SessionID sv1) | _ \<Rightarrow> Replied (sv_SessionID sv1) r,
                      sv1, put_session sv1 h1, g1))
                  (HandleRequestWith e show_catalog clients newID meth p tc sv g))))"

definition handlePost ::
  "mcp_env \<Rightarrow> (string \<times> (string \<times> catalog_group) list \<Rightarrow> string) \<Rightarrow> (string \<times> string) list \<Rightarrow> string
     \<Rightarrow> mcp_call \<Rightarrow> http_handler \<Rightarrow> gateway \<Rightarrow> (http_reply \<times> http_handler \<times> gateway) option" where
  "handlePost e show_catalog clients newID c h g =
     (case check_post h c of
        Inl failure \<Rightarrow> Some (failure, h, g)
      | Inr req \<Rightarrow>
          map_option (\<lambda>(reply, sv, h1, g1). (reply, h1, g1)) (serve_post e show_catalog clients newID c req h g))"

definition handleDelete :: "mcp_call \<Rightarrow> http_handler \<Rightarrow> http_reply \<times> http_handler" where
  "handleDelete c h =
     (let sessionID = mp_SessionID c in
      if sessionID = [] then (PlainFailure 400 ''Missing Mcp-Session-Id'', h)
      else
        (case mcp_extractIdentity h c of
           Inl err \<Rightarrow> (PlainFailure 401 (auth_message err), h)
         | Inr who \<Rightarrow>
             if hh_RequireAuth h \<and> id_AgentID who = ''anonymous''
             then (PlainFailure 401 ''authentication required'', h)
             else
               (case map_of (hh_sessions h) sessionID of
                  None \<Rightarrow> (NotFound, h)
                | Some sv \<Rightarrow>
                    if sv_AgentID sv \<noteq> id_AgentID who \<or> sv_UserID sv \<noteq> id_UserID who
                    then (PlainFailure 403 ''session belongs to another agent'', h)
                    else (NoContent, h\<lparr>hh_sessions := AList.delete sessionID (hh_sessions h)\<rparr>))))"

definition mcp_ServeHTTP ::
  "mcp_env \<Rightarrow> (string \<times> (string \<times> catalog_group) list \<Rightarrow> string) \<Rightarrow> (string \<times> string) list \<Rightarrow> string
     \<Rightarrow> string \<Rightarrow> mcp_call \<Rightarrow> http_handler \<Rightarrow> gateway \<Rightarrow> (http_reply \<times> http_handler \<times> gateway) option" where
  "mcp_ServeHTTP e show_catalog clients newID verb c h g =
     (if verb = ''POST'' then handlePost e show_catalog clients newID c h g
      else if verb = ''DELETE'' then (case handleDelete c h of (reply, h1) \<Rightarrow> Some (reply, h1, g))
      else Some (PlainFailure 405 ''Method Not Allowed'', h, g))"

section \<open>Standard input\<close>

text \<open>
  \<open>Serve\<close>: the lines read until the end of the input, each with what its call meets outside.
  \<open>decode\<close> is \<open>json.Unmarshal\<close> of a request. The replies are what is written, in order; the last
  component is false when a call never returns.
\<close>

datatype stdio_reply = ParseError | Wrote rpc_result

fun Serve ::
  "(string \<Rightarrow> (string \<times> params) option) \<Rightarrow> (string \<times> (string \<times> catalog_group) list \<Rightarrow> string)
     \<Rightarrow> (string \<times> string) list \<Rightarrow> (string \<times> mcp_env \<times> string) list \<Rightarrow> mcp_server \<Rightarrow> gateway
     \<Rightarrow> stdio_reply list \<times> mcp_server \<times> gateway \<times> bool" where
  "Serve decode show_catalog clients [] sv g = ([], sv, g, True)"
| "Serve decode show_catalog clients ((line, e, newID) # rest) sv g =
     (case decode line of
        None \<Rightarrow> (case Serve decode show_catalog clients rest sv g of (out, fin) \<Rightarrow> (ParseError # out, fin))
      | Some (meth, p) \<Rightarrow>
          (case HandleRequestWith e show_catalog clients newID meth p
                  \<lparr>cx_TraceID = [], cx_SpanID = [], cx_ParentSpanID = []\<rparr> sv g of
             None \<Rightarrow> ([], sv, g, False)
           | Some (r, sv1, g1) \<Rightarrow>
               (case Serve decode show_catalog clients rest sv1 g1 of
                  (out, fin) \<Rightarrow> ((if r = NoReply then out else Wrote r # out), fin))))"

section \<open>Requests in any order\<close>

text \<open>
  The transport with the requests that have passed their checks and not been served, and, as
  history, the identifiers minted so far and who was served by which session. Between the check
  of a request and its service, others may be checked, served, and sessions deleted.
\<close>

record transport =
  tp_handler :: http_handler
  tp_gateway :: gateway
  tp_checked :: "(mcp_call \<times> (string \<times> identity \<times> string \<times> params)) list"
  tp_minted :: "string list"
  tp_served :: "(mcp_call \<times> identity \<times> mcp_server) list"

datatype transport_event =
    Check mcp_call
  | Serve_checked nat string mcp_env
  | Delete mcp_call

inductive transport_step ::
  "(string \<times> (string \<times> catalog_group) list \<Rightarrow> string) \<Rightarrow> (string \<times> string) list
     \<Rightarrow> transport \<Rightarrow> transport_event \<Rightarrow> transport \<Rightarrow> bool"
  for show_catalog clients where
  refused: "check_post (tp_handler x) c = Inl failure \<Longrightarrow> transport_step show_catalog clients x (Check c) x"
| checked: "check_post (tp_handler x) c = Inr req \<Longrightarrow>
    transport_step show_catalog clients x (Check c) (x\<lparr>tp_checked := tp_checked x @ [(c, req)]\<rparr>)"
| served: "n < length (tp_checked x) \<Longrightarrow> tp_checked x ! n = (c, req) \<Longrightarrow>
    newID \<noteq> [] \<Longrightarrow> newID \<notin> set (tp_minted x) \<Longrightarrow>
    serve_post e show_catalog clients newID c req (tp_handler x) (tp_gateway x) = Some (reply, sv, h', g') \<Longrightarrow>
    transport_step show_catalog clients x (Serve_checked n newID e)
      (x\<lparr>tp_handler := h', tp_gateway := g',
         tp_checked := take n (tp_checked x) @ drop (Suc n) (tp_checked x),
         tp_minted := newID # tp_minted x,
         tp_served := (c, fst (snd req), sv) # tp_served x\<rparr>)"
| deleted: "transport_step show_catalog clients x (Delete c)
    (x\<lparr>tp_handler := snd (handleDelete c (tp_handler x))\<rparr>)"

inductive transport_run ::
  "(string \<times> (string \<times> catalog_group) list \<Rightarrow> string) \<Rightarrow> (string \<times> string) list
     \<Rightarrow> transport \<Rightarrow> transport_event list \<Rightarrow> transport \<Rightarrow> bool"
  for show_catalog clients x where
  start: "transport_run show_catalog clients x [] x"
| step: "transport_run show_catalog clients x es y \<Longrightarrow> transport_step show_catalog clients y ev z
    \<Longrightarrow> transport_run show_catalog clients x (es @ [ev]) z"

inductive_cases transport_stepE: "transport_step show_catalog clients x ev y"

section \<open>Who a session serves\<close>

definition session_of :: "identity \<Rightarrow> mcp_server \<Rightarrow> bool" where
  "session_of who sv \<longleftrightarrow> sv_AgentID sv = id_AgentID who \<and> sv_UserID sv = id_UserID who"

definition key_ok :: "string list \<Rightarrow> string \<times> mcp_server \<Rightarrow> bool" where
  "key_ok minted ksv \<longleftrightarrow> sv_SessionID (snd ksv) = fst ksv \<and> fst ksv \<noteq> [] \<and> fst ksv \<in> set minted"

definition checked_ok ::
  "http_handler \<Rightarrow> string list \<Rightarrow> mcp_call \<times> (string \<times> identity \<times> string \<times> params) \<Rightarrow> bool" where
  "checked_ok h minted cr \<longleftrightarrow>
     (case cr of (c, sid, who, meth, p) \<Rightarrow>
        mcp_extractIdentity h c = Inr who
        \<and> (sid \<noteq> [] \<longrightarrow> sid \<in> set minted
             \<and> (\<forall>sv. map_of (hh_sessions h) sid = Some sv \<longrightarrow> session_of who sv)))"

definition served_ok :: "http_handler \<Rightarrow> string list \<Rightarrow> mcp_call \<times> identity \<times> mcp_server \<Rightarrow> bool" where
  "served_ok h minted z \<longleftrightarrow>
     (case z of (c, who, sv) \<Rightarrow>
        mcp_extractIdentity h c = Inr who \<and> session_of who sv \<and> sv_SessionID sv \<in> set minted)"

definition sessions_ok :: "transport \<Rightarrow> bool" where
  "sessions_ok x \<longleftrightarrow>
     keys_distinct (hh_sessions (tp_handler x))
     \<and> list_all (key_ok (tp_minted x)) (hh_sessions (tp_handler x))
     \<and> list_all (checked_ok (tp_handler x) (tp_minted x)) (tp_checked x)
     \<and> list_all (served_ok (tp_handler x) (tp_minted x)) (tp_served x)"

lemma HandleRequestWith_session:
  assumes "HandleRequestWith e sc cl n meth p tc sv g = Some (r, sv1, g1)" and "sv_SessionID sv \<noteq> []"
  shows "sv1 = sv"
  using assms by (auto simp: HandleRequestWith_def split: if_splits)

lemma put_session_same:
  assumes "keys_distinct (hh_sessions h)" and "map_of (hh_sessions h) (sv_SessionID sv) = Some sv"
  shows "put_session sv h = h"
proof -
  have "(k, if k = sv_SessionID sv then sv else x) = (k, x)" if "(k, x) \<in> set (hh_sessions h)" for k x
    using map_of_is_SomeI [OF assms(1) [unfolded keys_distinct_def] that] assms(2) by auto
  then have "map (\<lambda>(k, x). (k, if k = sv_SessionID sv then sv else x)) (hh_sessions h) = hh_sessions h"
    by (intro map_idI) auto
  then show ?thesis by (simp add: put_session_def)
qed

lemma extract_sessions [simp]: "mcp_extractIdentity (h\<lparr>hh_sessions := m\<rparr>) c = mcp_extractIdentity h c"
  by (simp add: mcp_extractIdentity_def)

lemma check_post_InrD:
  assumes "check_post h c = Inr (sid, who, meth, p)"
  shows "mcp_extractIdentity h c = Inr who"
    and "sid \<noteq> [] \<Longrightarrow> \<exists>sv. map_of (hh_sessions h) sid = Some sv \<and> session_of who sv"
    and "sid = [] \<longleftrightarrow> meth = ''initialize''"
    and "sid \<noteq> [] \<Longrightarrow> sid = mp_SessionID c"
    and "\<not> (hh_RequireAuth h \<and> id_AgentID who = ''anonymous'')"
  using assms by (auto simp: check_post_def Let_def session_of_def split: option.splits sum.splits if_splits)

lemma handleDelete_handler:
  "snd (handleDelete c h) = h
   \<or> (\<exists>who sv. mcp_extractIdentity h c = Inr who \<and> map_of (hh_sessions h) (mp_SessionID c) = Some sv
        \<and> session_of who sv
        \<and> snd (handleDelete c h) = h\<lparr>hh_sessions := AList.delete (mp_SessionID c) (hh_sessions h)\<rparr>)"
  by (auto simp: handleDelete_def Let_def session_of_def split: option.splits sum.splits)

lemma serve_postE:
  assumes "serve_post e sc cl newID c (sid, who, meth, p) h g = Some (reply, sv, h', g')"
    and "keys_distinct (hh_sessions h)" and "newID \<noteq> []"
    and "\<forall>(k, x) \<in> set (hh_sessions h). sv_SessionID x = k \<and> k \<noteq> []"
  obtains (found) "sid \<noteq> []" "map_of (hh_sessions h) sid = Some sv" "h' = h" "sv_SessionID sv = sid"
  | (created) "sid = [] \<or> map_of (hh_sessions h) sid = None" "session_of who sv" "sv_SessionID sv = newID"
      "h' = h\<lparr>hh_sessions := AList.update newID sv (hh_sessions h)\<rparr>"
proof -
  obtain sv0 h1 where G: "getOrCreateSession newID sid who h = (sv0, h1)"
    by (cases "getOrCreateSession newID sid who h")
  obtain r where R: "HandleRequestWith e sc cl newID meth p
      (NewContext (tv_draw (qe_trace (mv_req e))) (mp_Traceparent c) (mp_XTraceId c)) sv0 g = Some (r, sv, g')"
    and h': "h' = put_session sv h1"
    using assms(1) G by (auto simp: serve_post_def Let_def)
  show ?thesis
  proof (cases "sid \<noteq> [] \<and> map_of (hh_sessions h) sid \<noteq> None")
    case True
    then have m: "map_of (hh_sessions h) sid = Some sv0" and h1: "h1 = h"
      using G by (auto simp: getOrCreateSession_def)
    then have k: "sv_SessionID sv0 = sid" using assms(4) by (auto dest!: map_of_SomeD)
    then have "sv = sv0" using HandleRequestWith_session [OF R] True by simp
    then show ?thesis using found True m k h1 h' put_session_same [OF assms(2)] by simp
  next
    case False
    then have none: "(if sid \<noteq> [] then map_of (hh_sessions h) sid else None) = None" by auto
    have id0: "session_of who sv0" "sv_SessionID sv0 = newID"
      and h1: "h1 = h\<lparr>hh_sessions := AList.update newID sv0 (hh_sessions h)\<rparr>"
      using G unfolding getOrCreateSession_def none by (auto simp: Let_def session_of_def)
    then have "sv = sv0" using HandleRequestWith_session [OF R] assms(3) by simp
    moreover have "put_session sv0 h1 = h1"
      by (rule put_session_same) (use assms(2) id0 h1 in \<open>simp_all add: update_conv'\<close>)
    ultimately show ?thesis using created False id0 h1 h' by auto
  qed
qed

lemma set_update: "set (AList.update k v m) \<subseteq> insert (k, v) (set m)"
  by (induction m) auto

lemma set_delete_subset: "set (AList.delete k m) \<subseteq> set m"
  by (auto simp: AList.delete_eq)

lemma key_ok_mono: "list_all (key_ok m) xs \<Longrightarrow> list_all (key_ok (i # m)) xs"
  by (auto simp: list_all_iff key_ok_def)

lemma checked_ok_mono:
  assumes "list_all (checked_ok h m) xs" and "set m \<subseteq> set m'"
    and "\<And>k sv. k \<in> set m \<Longrightarrow> map_of s' k = Some sv \<Longrightarrow> map_of (hh_sessions h) k = Some sv"
  shows "list_all (checked_ok (h\<lparr>hh_sessions := s'\<rparr>) m') xs"
  using assms by (fastforce simp: list_all_iff checked_ok_def)

lemma served_ok_mono:
  assumes "list_all (served_ok h m) xs" and "set m \<subseteq> set m'"
  shows "list_all (served_ok (h\<lparr>hh_sessions := s'\<rparr>) m') xs"
  using assms by (fastforce simp: list_all_iff served_ok_def)

lemma same_sessions [simp]: "h\<lparr>hh_sessions := hh_sessions h\<rparr> = (h :: http_handler)"
  by simp

lemma sessions_ok_checked:
  assumes "check_post (tp_handler x) c = Inr req" and "sessions_ok x"
  shows "sessions_ok (x\<lparr>tp_checked := tp_checked x @ [(c, req)]\<rparr>)"
proof -
  obtain sid who meth p where req: "req = (sid, who, meth, p)" by (cases req)
  note D = check_post_InrD [OF assms(1) [unfolded req]]
  have "sid \<in> set (tp_minted x) \<and> (\<forall>sv. map_of (hh_sessions (tp_handler x)) sid = Some sv \<longrightarrow> session_of who sv)"
    if "sid \<noteq> []"
  proof -
    obtain sv where sv: "map_of (hh_sessions (tp_handler x)) sid = Some sv" "session_of who sv"
      using D(2) \<open>sid \<noteq> []\<close> by blast
    moreover have "sid \<in> set (tp_minted x)"
      using map_of_SomeD [OF sv(1)] assms(2) by (auto simp: sessions_ok_def list_all_iff key_ok_def)
    ultimately show ?thesis by simp
  qed
  then have "checked_ok (tp_handler x) (tp_minted x) (c, req)" using D(1) by (simp add: req checked_ok_def)
  then show ?thesis using assms(2) by (simp add: sessions_ok_def)
qed

lemma sessions_ok_served:
  assumes "n < length (tp_checked x)" "tp_checked x ! n = (c, req)" "newID \<noteq> []" "newID \<notin> set (tp_minted x)"
    and "serve_post e sc cl newID c req (tp_handler x) g = Some (reply, sv, h', g')" and ok: "sessions_ok x"
  shows "sessions_ok (x\<lparr>tp_handler := h', tp_gateway := g',
      tp_checked := take n (tp_checked x) @ drop (Suc n) (tp_checked x),
      tp_minted := newID # tp_minted x, tp_served := (c, fst (snd req), sv) # tp_served x\<rparr>)"
proof -
  let ?h = "tp_handler x" and ?m = "tp_minted x"
  let ?s = "hh_sessions ?h" and ?rest = "take n (tp_checked x) @ drop (Suc n) (tp_checked x)"
  obtain sid who meth p where req: "req = (sid, who, meth, p)" by (cases req)
  have all: "list_all (checked_ok ?h ?m) (tp_checked x)" "list_all (served_ok ?h ?m) (tp_served x)"
    and keys: "list_all (key_ok ?m) ?s" and kd: "keys_distinct ?s"
    using ok by (simp_all add: sessions_ok_def)
  have rest: "list_all (checked_ok ?h ?m) ?rest"
    using all(1) by (auto simp: list_all_iff dest: in_set_takeD in_set_dropD)
  have "(c, sid, who, meth, p) \<in> set (tp_checked x)" using nth_mem [OF assms(1)] assms(2) req by simp
  then have who: "mcp_extractIdentity ?h c = Inr who"
    and own: "\<And>sv. sid \<noteq> [] \<Longrightarrow> map_of ?s sid = Some sv \<Longrightarrow> session_of who sv"
    using all(1) by (auto simp: list_all_iff checked_ok_def)
  have "\<forall>(k, x) \<in> set ?s. sv_SessionID x = k \<and> k \<noteq> []"
    using keys by (auto simp: list_all_iff key_ok_def)
  from assms(5) [unfolded req] kd assms(3) this show ?thesis
  proof (cases rule: serve_postE)
    case found
    have "sid \<in> set ?m" using map_of_SomeD [OF found(2)] keys by (auto simp: list_all_iff key_ok_def)
    then have "served_ok ?h (newID # ?m) (c, who, sv)"
      using who own [OF found(1,2)] found(4) by (simp add: served_ok_def)
    then show ?thesis
      using kd key_ok_mono [OF keys] found(3) checked_ok_mono [OF rest, of "newID # ?m" ?s]
        served_ok_mono [OF all(2), of "newID # ?m" ?s]
      by (simp add: sessions_ok_def req subset_insertI)
  next
    case created
    let ?s' = "AList.update newID sv ?s"
    have "map_of ?s' k = Some v \<Longrightarrow> map_of ?s k = Some v" if "k \<in> set ?m" for k v
      using that assms(4) by (auto simp: update_conv' split: if_splits)
    then have "list_all (checked_ok h' (newID # ?m)) ?rest"
      unfolding created(4) by (intro checked_ok_mono [OF rest]) auto
    moreover have "list_all (served_ok h' (newID # ?m)) ((c, who, sv) # tp_served x)"
      using who created served_ok_mono [OF all(2), of "newID # ?m" ?s']
      by (auto simp: served_ok_def)
    moreover have "list_all (key_ok (newID # ?m)) ?s'"
      using set_update [of newID sv ?s] key_ok_mono [OF keys, of newID] created(3) assms(3)
      by (auto simp: list_all_iff key_ok_def)
    ultimately show ?thesis using kd created(4) by (simp add: sessions_ok_def req)
  qed
qed

lemma sessions_ok_deleted:
  assumes "sessions_ok x"
  shows "sessions_ok (x\<lparr>tp_handler := snd (handleDelete c (tp_handler x))\<rparr>)"
proof (cases "snd (handleDelete c (tp_handler x)) = tp_handler x")
  case True
  then show ?thesis using assms by simp
next
  case False
  let ?h = "tp_handler x" and ?m = "tp_minted x"
  let ?s' = "AList.delete (mp_SessionID c) (hh_sessions ?h)"
  have h: "snd (handleDelete c ?h) = ?h\<lparr>hh_sessions := ?s'\<rparr>"
    using handleDelete_handler [of c ?h] False by auto
  have "list_all (checked_ok (?h\<lparr>hh_sessions := ?s'\<rparr>) ?m) (tp_checked x)"
    using assms by (intro checked_ok_mono [of ?h ?m]) (auto simp: sessions_ok_def delete_conv' split: if_splits)
  moreover have "list_all (served_ok (?h\<lparr>hh_sessions := ?s'\<rparr>) ?m) (tp_served x)"
    using assms by (intro served_ok_mono [of ?h ?m]) (auto simp: sessions_ok_def)
  moreover have "list_all (key_ok ?m) ?s'"
    using assms set_delete_subset [of "mp_SessionID c" "hh_sessions ?h"] by (auto simp: sessions_ok_def list_all_iff)
  ultimately show ?thesis using assms by (simp add: sessions_ok_def h)
qed

lemma sessions_ok_step: "transport_step sc cl x ev y \<Longrightarrow> sessions_ok x \<Longrightarrow> sessions_ok y"
  by (erule transport_stepE) (auto intro: sessions_ok_checked sessions_ok_served sessions_ok_deleted)

lemma sessions_ok_run: "transport_run sc cl x es y \<Longrightarrow> sessions_ok x \<Longrightarrow> sessions_ok y"
  by (induction rule: transport_run.induct) (auto intro: sessions_ok_step)

section \<open>Bringing an upstream back\<close>

text \<open>
  \<open>RetryConnect\<close> from attempt \<open>k\<close> at time \<open>t\<close>: \<open>connects k\<close> is whether the attempt succeeds,
  \<open>takes k\<close> how long it runs, \<open>stop\<close> when the channel closes, if ever; when it is closed and the
  timer has ended at the same moment, Go may take either branch and this one stops. The answer
  holds the waits there were. A loop that never ends is \<open>None\<close>.
\<close>

partial_function (option) retry_from ::
  "(nat \<Rightarrow> bool) \<Rightarrow> (nat \<Rightarrow> duration) \<Rightarrow> time option \<Rightarrow> duration \<Rightarrow> nat \<Rightarrow> duration \<Rightarrow> time \<Rightarrow> duration list
     \<Rightarrow> (bool \<times> duration list) option" where
  "retry_from connects takes stop maxi k wait t waits =
     (if \<exists>s. stop = Some s \<and> s \<le> t + max 0 wait then Some (False, waits)
      else if connects k then Some (True, waits @ [wait])
      else retry_from connects takes stop maxi (Suc k) (min (wait * 2) maxi) (t + max 0 wait + takes k)
             (waits @ [wait]))"

definition RetryConnect ::
  "(nat \<Rightarrow> bool) \<Rightarrow> (nat \<Rightarrow> duration) \<Rightarrow> time option \<Rightarrow> duration \<Rightarrow> duration \<Rightarrow> time
     \<Rightarrow> (bool \<times> duration list) option" where
  "RetryConnect connects takes stop first maxi t = retry_from connects takes stop maxi 0 first t []"

text \<open>The wait before attempt \<open>k\<close>, in closed form.\<close>

definition backoff :: "duration \<Rightarrow> duration \<Rightarrow> nat \<Rightarrow> duration" where
  "backoff first maxi k = (if k = 0 then first else min (first * 2 ^ k) maxi)"

lemma backoff_Suc: "maxi \<ge> 0 \<Longrightarrow> min (backoff first maxi k * 2) maxi = backoff first maxi (Suc k)"
  by (cases k) (auto simp: backoff_def min_def)

lemma retry_until_connected:
  assumes "connects n" "\<forall>j<n. \<not> connects j" "k \<le> n" "maxi \<ge> 0" "stop = None"
  shows "retry_from connects takes stop maxi k (backoff first maxi k) t waits
    = Some (True, waits @ map (backoff first maxi) [k..<Suc n])"
  using assms(3)
proof (induction "n - k" arbitrary: k t waits)
  case 0
  then show ?case using assms by (subst retry_from.simps) simp
next
  case (Suc d)
  then have k: "k < n" by simp
  then have "[k..<Suc n] = k # [Suc k..<Suc n]" by (simp add: upt_conv_Cons)
  then show ?case
    using k assms Suc(1) [of "Suc k"] Suc(2) by (subst retry_from.simps) (simp add: backoff_Suc)
qed

lemma retry_until_stopped:
  assumes "stop = Some s" "step > 0" "step \<le> maxi" "\<forall>j. takes j \<ge> 0" "step \<le> wait"
  shows "\<exists>res. retry_from connects takes stop maxi k wait t waits = Some res"
  using assms(5)
proof (induction "nat (s - t)" arbitrary: k t wait waits rule: less_induct)
  case less
  let ?t = "t + max 0 wait + takes k"
  show ?case
  proof (cases "s \<le> t + max 0 wait \<or> connects k")
    case True
    then show ?thesis using assms(1) by (subst retry_from.simps) auto
  next
    case False
    have "takes k \<ge> 0" using assms(4) by simp
    then have "nat (s - ?t) < nat (s - t)" using False less(2) assms(2) by (simp add: max_def)
    moreover have "step \<le> min (wait * 2) maxi" using less(2) assms(2,3) by simp
    ultimately obtain res where
      "retry_from connects takes stop maxi (Suc k) (min (wait * 2) maxi) ?t (waits @ [wait]) = Some res"
      using less(1) by blast
    then show ?thesis using False assms(1) by (subst retry_from.simps) auto
  qed
qed

section \<open>Properties\<close>

definition fresh_transport :: "http_handler \<Rightarrow> gateway \<Rightarrow> transport" where
  "fresh_transport h g =
     \<lparr>tp_handler = h\<lparr>hh_sessions := []\<rparr>, tp_gateway = g, tp_checked = [], tp_minted = [], tp_served = []\<rparr>"

lemma fresh_ok: "sessions_ok (fresh_transport h g)"
  by (simp add: sessions_ok_def fresh_transport_def)

lemma identity_step:
  assumes "transport_step sc cl x ev y"
  shows "mcp_extractIdentity (tp_handler y) = mcp_extractIdentity (tp_handler x)"
  using assms
proof cases
  case (served n c req newID e reply sv h' g')
  have "\<exists>m. h' = (tp_handler x)\<lparr>hh_sessions := m\<rparr>"
    using served(7) by (cases req)
      (auto simp: serve_post_def getOrCreateSession_def put_session_def Let_def split: prod.splits option.splits)
  then show ?thesis using served(2) by (auto simp: fun_eq_iff)
next
  case (deleted c)
  then show ?thesis using handleDelete_handler [of c "tp_handler x"] by (auto simp: fun_eq_iff)
qed simp_all

lemma identity_run:
  "transport_run sc cl x es y \<Longrightarrow> mcp_extractIdentity (tp_handler y) = mcp_extractIdentity (tp_handler x)"
  by (induction rule: transport_run.induct) (simp_all add: identity_step)

text \<open>
  C21. A session identifier is no credential: however requests, their checks and deletions are
  interleaved, each request that is served is served by a session of the agent and the user its
  own credential names, and no session has an identifier that the server has not minted.
\<close>

theorem session_serves_its_owner:
  assumes "transport_run show_catalog clients (fresh_transport h g) es y"
  shows "(\<forall>(c, who, sv) \<in> set (tp_served y). mcp_extractIdentity h c = Inr who \<and> session_of who sv)
     \<and> fst ` set (hh_sessions (tp_handler y)) \<subseteq> set (tp_minted y)"
proof -
  have "mcp_extractIdentity (tp_handler y) = mcp_extractIdentity h"
    using identity_run [OF assms] by (simp add: fresh_transport_def fun_eq_iff)
  then show ?thesis
    using sessions_ok_run [OF assms fresh_ok]
    by (auto simp: sessions_ok_def list_all_iff served_ok_def key_ok_def)
qed

definition demo_handler :: http_handler where
  "demo_handler = \<lparr>hh_JWTValidator = None, hh_AllowLegacyAgent = False, hh_RequireAuth = True,
     hh_SupervisorMode = False, hh_SupervisorAgents = [], hh_ApprovalChannel = ''queue'', hh_HideDenied = False,
     hh_ApprovalWait = 0, hh_sessions = []\<rparr>"

definition demo_post :: "string \<Rightarrow> string \<Rightarrow> string \<Rightarrow> mcp_call" where
  "demo_post who sid meth = \<lparr>mp_Authorization = ''Bearer agent:'' @ who, mp_SessionID = sid,
     mp_Traceparent = [], mp_XTraceId = [], mp_Body = Some (meth, None)\<rparr>"

text \<open>The client of \<open>initialize\<close> proposes an identifier; another agent then tries the one it got.\<close>

theorem session_serves_its_owner_witness:
  "\<exists>y. transport_run (\<lambda>_. []) [] (fresh_transport demo_handler demo_gateway)
        [Check (demo_post ''a'' ''mine'' ''initialize''), Serve_checked 0 ''s1'' demo_env,
         Check (demo_post ''b'' ''s1'' ''tools/list'')] y
     \<and> map fst (hh_sessions (tp_handler y)) = [''s1''] \<and> tp_checked y = []
     \<and> map (id_AgentID \<circ> fst \<circ> snd) (tp_served y) = [''a''] \<and> tp_minted y = [''s1'']
     \<and> fst ` set (hh_sessions (tp_handler y)) \<subseteq> set (tp_minted y)"
proof -
  let ?run = "transport_run (\<lambda>_. []) [] (fresh_transport demo_handler demo_gateway)"
  let ?init = "demo_post ''a'' ''mine'' ''initialize''" and ?who = "\<lparr>id_AgentID = ''a'', id_UserID = []\<rparr>"
  let ?req = "([], ?who, ''initialize'', None)"
  let ?sv = "\<lparr>sv_AgentID = ''a'', sv_HideDenied = False, sv_UserID = [], sv_SessionID = ''s1'',
      sv_SupervisorMode = False, sv_SupervisorAgents = [], sv_ApprovalChannel = ''queue'', sv_ApprovalWait = 0\<rparr>"
  let ?h0 = "demo_handler\<lparr>hh_sessions := []\<rparr>" and ?h1 = "demo_handler\<lparr>hh_sessions := [(''s1'', ?sv)]\<rparr>"
  let ?x0 = "fresh_transport demo_handler demo_gateway"
  let ?x1 = "?x0\<lparr>tp_checked := [(?init, ?req)]\<rparr>"
  let ?x2 = "?x1\<lparr>tp_handler := ?h1, tp_gateway := demo_gateway, tp_checked := [], tp_minted := [''s1''],
      tp_served := [(?init, ?who, ?sv)]\<rparr>"
  have "check_post ?h0 ?init = Inr ?req" by code_simp
  then have 1: "transport_step (\<lambda>_. []) [] ?x0 (Check ?init) ?x1"
    using checked [of ?x0 ?init ?req] by (simp add: fresh_transport_def)
  have "serve_post demo_env (\<lambda>_. []) [] ''s1'' ?init ?req ?h0 demo_gateway
      = Some (Replied ''s1'' Initialized, ?sv, ?h1, demo_gateway)"
    by (simp add: serve_post_def getOrCreateSession_def HandleRequestWith_def put_session_def Let_def demo_handler_def)
  then have 2: "transport_step (\<lambda>_. []) [] ?x1 (Serve_checked 0 ''s1'' demo_env) ?x2"
    using served [of 0 ?x1 ?init ?req "''s1''" demo_env "\<lambda>_. []" "[]"] by (simp add: fresh_transport_def)
  have "check_post ?h1 (demo_post ''b'' ''s1'' ''tools/list'')
      = Inl (RpcFailure (-32600) ''session belongs to another agent'' 403)"
    by code_simp
  then have 3: "transport_step (\<lambda>_. []) [] ?x2 (Check (demo_post ''b'' ''s1'' ''tools/list'')) ?x2"
    by (intro refused) simp
  have "?run [Check ?init, Serve_checked 0 ''s1'' demo_env, Check (demo_post ''b'' ''s1'' ''tools/list'')] ?x2"
    using step [OF step [OF step [OF start 1] 2] 3] by simp
  from this session_serves_its_owner [OF this] show ?thesis
    by (intro exI [of _ ?x2]) simp
qed

definition wants_reply :: "(string \<Rightarrow> (string \<times> params) option) \<Rightarrow> string \<Rightarrow> bool" where
  "wants_reply decode line \<longleftrightarrow>
     (case decode line of None \<Rightarrow> True | Some (meth, p) \<Rightarrow> meth \<noteq> ''notifications/initialized'')"

lemma HandleRequestWith_server:
  assumes "HandleRequestWith e sc cl n meth p tc sv g = Some (r, sv1, g1)"
  shows "sv1 = (if meth = ''initialize'' \<and> sv_SessionID sv = [] then sv\<lparr>sv_SessionID := n\<rparr> else sv)"
    and "r = NoReply \<longleftrightarrow> meth = ''notifications/initialized''"
  using assms by (auto simp: HandleRequestWith_def split: if_splits)

text \<open>
  One reply per request over standard input, in order: a process that reaches the end of its
  input has written exactly one reply for each line, the unreadable ones included, but for the
  notification that wants none; and its session gets at most one identifier, kept from the first
  \<open>initialize\<close> on.
\<close>

theorem stdio_answers_every_line:
  assumes "Serve decode show_catalog clients lines sv g = (out, sv', g', True)"
  shows "length out = length (filter (\<lambda>(line, e, n). wants_reply decode line) lines)
    \<and> (sv_SessionID sv \<noteq> [] \<longrightarrow> sv' = sv)
    \<and> (\<exists>i \<in> insert (sv_SessionID sv) (set (map (snd \<circ> snd) lines)). sv' = sv\<lparr>sv_SessionID := i\<rparr>)"
  using assms
proof (induction lines arbitrary: sv g out)
  case Nil
  then show ?case by simp
next
  case (Cons l rest)
  obtain line e n where l: "l = (line, e, n)" by (cases l)
  show ?case
  proof (cases "decode line")
    case None
    then obtain out1 where S: "Serve decode show_catalog clients rest sv g = (out1, sv', g', True)"
      and out: "out = ParseError # out1"
      using Cons.prems l by (auto split: prod.splits)
    from Cons.IH [OF S] out l None show ?thesis by (auto simp: wants_reply_def)
  next
    case (Some mp)
    obtain meth p where mp: "mp = (meth, p)" by (cases mp)
    let ?tc = "\<lparr>cx_TraceID = [], cx_SpanID = [], cx_ParentSpanID = []\<rparr>"
    obtain r sv1 g1 out1 where H: "HandleRequestWith e show_catalog clients n meth p ?tc sv g = Some (r, sv1, g1)"
      and S: "Serve decode show_catalog clients rest sv1 g1 = (out1, sv', g', True)"
      and out: "out = (if r = NoReply then out1 else Wrote r # out1)"
      using Cons.prems l Some mp by (auto split: option.splits prod.splits)
    from Cons.IH [OF S] HandleRequestWith_server [OF H] out l Some mp show ?thesis
      by (auto simp: wants_reply_def split: if_splits)
  qed
qed

theorem stdio_answers_every_line_witness:
  "\<exists>out sv'. Serve (\<lambda>l. if l = ''{'' then None else Some (l, None)) (\<lambda>_. []) []
        [(''initialize'', demo_env, ''i''), (''{'', demo_env, ''j''), (''notifications/initialized'', demo_env, ''k''),
         (''ping'', demo_env, ''l'')] (demo_session\<lparr>sv_SessionID := []\<rparr>) demo_gateway = (out, sv', demo_gateway, True)
     \<and> out = [Wrote Initialized, ParseError, Wrote Pong] \<and> length out = 3 \<and> sv_SessionID sv' = ''i''"
proof -
  let ?dec = "\<lambda>l. if l = ''{'' then None else Some (l, None :: params)"
  let ?lines = "[(''initialize'', demo_env, ''i''), (''{'', demo_env, ''j''),
      (''notifications/initialized'', demo_env, ''k''), (''ping'', demo_env, ''l'')]"
  let ?sv = "demo_session\<lparr>sv_SessionID := []\<rparr>"
  have S: "Serve ?dec (\<lambda>_. []) [] ?lines ?sv demo_gateway
      = ([Wrote Initialized, ParseError, Wrote Pong], ?sv\<lparr>sv_SessionID := ''i''\<rparr>, demo_gateway, True)"
    by (simp add: HandleRequestWith_def)
  from stdio_answers_every_line [OF S] S show ?thesis by (simp add: wants_reply_def)
qed

text \<open>
  C31. The retries of an upstream end and never hurry: when the mesh stops, or as soon as an attempt
  succeeds, \<open>RetryConnect\<close> returns; and without a stop it has waited, before the attempt that
  succeeds, exactly the doubling backoff cut at its maximum, once before each attempt.
\<close>

theorem RetryConnect_returns:
  assumes "0 < first" and "0 < maxi" and "\<forall>j. takes j \<ge> 0"
  shows "(stop \<noteq> None \<longrightarrow> RetryConnect connects takes stop first maxi t \<noteq> None)
    \<and> (connects n \<and> (\<forall>j<n. \<not> connects j) \<longrightarrow>
         RetryConnect connects takes None first maxi t = Some (True, map (backoff first maxi) [0..<Suc n]))"
proof (intro conjI impI)
  assume "stop \<noteq> None"
  then obtain s where "stop = Some s" by auto
  from retry_until_stopped [OF this, where step = "min first maxi" and maxi = maxi and wait = first and t = t
      and connects = connects and takes = takes and k = 0 and waits = "[]"] assms
  show "RetryConnect connects takes stop first maxi t \<noteq> None"
    by (auto simp: RetryConnect_def)
next
  assume "connects n \<and> (\<forall>j<n. \<not> connects j)"
  then show "RetryConnect connects takes None first maxi t = Some (True, map (backoff first maxi) [0..<Suc n])"
    using retry_until_connected [of connects n 0 maxi None takes first t "[]"] assms
    by (simp add: RetryConnect_def backoff_def)
qed

text \<open>The waits of the program, in seconds: five at first, at most five minutes.\<close>

theorem RetryConnect_returns_witness:
  "RetryConnect (\<lambda>k. k = 7) (\<lambda>_. 1) None 5 300 0 = Some (True, [5, 10, 20, 40, 80, 160, 300, 300])
   \<and> RetryConnect (\<lambda>_. False) (\<lambda>_. 1) (Some 1000) 5 300 0 \<noteq> None"
proof -
  have "map (backoff 5 300) [0..<Suc 7] = [5, 10, 20, 40, 80, 160, 300, 300]" by code_simp
  moreover have "(7::nat) = 7 \<and> (\<forall>j<7. \<not> j = (7::nat))" by simp
  ultimately have "RetryConnect (\<lambda>k. k = 7) (\<lambda>_. 1) None 5 300 0 = Some (True, [5, 10, 20, 40, 80, 160, 300, 300])"
    using RetryConnect_returns [of 5 300 "\<lambda>_. 1" None "\<lambda>k. k = 7" 0 7] by simp
  moreover have "RetryConnect (\<lambda>_. False) (\<lambda>_. 1) (Some 1000) 5 300 0 \<noteq> None"
    using RetryConnect_returns [of 5 300 "\<lambda>_. 1" "Some 1000" "\<lambda>_. False" 0 0] by simp
  ultimately show ?thesis by blast
qed

end
