(* ===== verification/Outbound.thy ===== *)
theory Outbound
  imports Approvals "HOL-Library.Word"
begin

unbundle bit_operations_syntax

text \<open>
  Requests the mesh makes to addresses others choose (\<open>internal/ssrf/ssrf.go\<close>,
  \<open>approval/notify.go\<close>, the fetch of \<open>registry/openapi.go\<close>): which addresses are refused, the guarded
  dialer, the notifications of approvals. The parser of URLs (scheme and host name), the resolver
  and the servers are arguments; an IP is a list of 4 or 16 bytes, as in Go's \<open>net\<close>.
\<close>

type_synonym ip = "8 word list"
type_synonym host_parser = "string \<Rightarrow> (string \<times> string) option"

section \<open>Addresses\<close>

text \<open>\<open>To4\<close> of package \<open>net\<close>: the IPv4 address an IP stands for, if any.\<close>

definition To4 :: "ip \<Rightarrow> ip option" where
  "To4 ip =
     (if length ip = 4 then Some ip
      else if length ip = 16 \<and> take 10 ip = replicate 10 0 \<and> ip ! 10 = 255 \<and> ip ! 11 = 255 then Some (drop 12 ip)
      else None)"

definition ip_Equal :: "ip \<Rightarrow> ip \<Rightarrow> bool" where
  "ip_Equal a b =
     (if length a = length b then a = b
      else if length a = 4 \<and> length b = 16 then take 12 b = replicate 10 0 @ [255, 255] \<and> a = drop 12 b
      else if length a = 16 \<and> length b = 4 then take 12 a = replicate 10 0 @ [255, 255] \<and> drop 12 a = b
      else False)"

definition IPv4zero :: ip where
  "IPv4zero = replicate 10 0 @ [255, 255] @ replicate 4 0"

definition IPv6unspecified :: ip where
  "IPv6unspecified = replicate 16 0"

definition IPv6loopback :: ip where
  "IPv6loopback = replicate 15 0 @ [1]"

definition IsUnspecified :: "ip \<Rightarrow> bool" where
  "IsUnspecified ip = (ip_Equal ip IPv4zero \<or> ip_Equal ip IPv6unspecified)"

definition IsLoopback :: "ip \<Rightarrow> bool" where
  "IsLoopback ip = (case To4 ip of Some a \<Rightarrow> a ! 0 = 127 | None \<Rightarrow> ip_Equal ip IPv6loopback)"

definition IsPrivate :: "ip \<Rightarrow> bool" where
  "IsPrivate ip =
     (case To4 ip of
        Some a \<Rightarrow> a ! 0 = 10 \<or> (a ! 0 = 172 \<and> a ! 1 AND 0xF0 = 16) \<or> (a ! 0 = 192 \<and> a ! 1 = 168)
      | None \<Rightarrow> length ip = 16 \<and> ip ! 0 AND 0xFE = 0xFC)"

definition IsLinkLocalMulticast :: "ip \<Rightarrow> bool" where
  "IsLinkLocalMulticast ip =
     (case To4 ip of
        Some a \<Rightarrow> a ! 0 = 224 \<and> a ! 1 = 0 \<and> a ! 2 = 0
      | None \<Rightarrow> length ip = 16 \<and> ip ! 0 = 0xFF \<and> ip ! 1 AND 0x0F = 0x02)"

definition IsLinkLocalUnicast :: "ip \<Rightarrow> bool" where
  "IsLinkLocalUnicast ip =
     (case To4 ip of
        Some a \<Rightarrow> a ! 0 = 169 \<and> a ! 1 = 254
      | None \<Rightarrow> length ip = 16 \<and> ip ! 0 = 0xFE \<and> ip ! 1 AND 0xC0 = 0x80)"

section \<open>The guarded client\<close>

definition isBlocked :: "ip \<Rightarrow> bool" where
  "isBlocked ip =
     (IsLoopback ip \<or> IsPrivate ip \<or> IsLinkLocalUnicast ip \<or> IsLinkLocalMulticast ip \<or> IsUnspecified ip)"

definition CheckURL :: "host_parser \<Rightarrow> string \<Rightarrow> string option" where
  "CheckURL parse rawURL =
     (case parse rawURL of
        None \<Rightarrow> Some ''invalid url''
      | Some (scheme, host) \<Rightarrow>
          if scheme \<noteq> ''http'' \<and> scheme \<noteq> ''https'' then Some (''disallowed scheme '' @ Quote scheme)
          else if host = ''localhost'' then Some ''localhost not allowed''
          else None)"

text \<open>One connection: the addresses the resolver gives, the address dialled.\<close>

definition guarded_dial :: "string + ip list \<Rightarrow> string + ip" where
  "guarded_dial resolved =
     (case resolved of
        Inl e \<Rightarrow> Inl e
      | Inr [] \<Rightarrow> Inl ''ssrf: no address''
      | Inr (ip # others) \<Rightarrow> if \<exists>x \<in> set (ip # others). isBlocked x then Inl ''ssrf: blocked address'' else Inr ip)"

text \<open>Fetching an OpenAPI document; \<open>fetch\<close> is the guarded client, its body \<open>None\<close> when reading fails.\<close>

definition spec_error :: "gval option \<Rightarrow> string" where
  "spec_error spec =
     (case spec of
        Some (VMap _) \<Rightarrow> ''no paths found in spec''
      | Some VNil \<Rightarrow> ''no paths found in spec''
      | _ \<Rightarrow> ''parse spec'')"

definition LoadOpenAPI ::
  "host_parser \<Rightarrow> (string \<Rightarrow> string + string option) \<Rightarrow> (string \<Rightarrow> gval option) \<Rightarrow> string \<Rightarrow> string
     \<Rightarrow> (string \<times> string) list \<Rightarrow> registry \<Rightarrow> string option \<times> registry" where
  "LoadOpenAPI parse fetch decode specURL backendURL headers r =
     (case CheckURL parse specURL of
        Some e \<Rightarrow> (Some (''spec url: '' @ e), r)
      | None \<Rightarrow>
          (case fetch specURL of
             Inl e \<Rightarrow> (Some (''fetch spec: '' @ e), r)
           | Inr None \<Rightarrow> (Some ''read spec'', r)
           | Inr (Some body) \<Rightarrow>
               (case loadOpenAPISpec (decode body) backendURL headers r of
                  None \<Rightarrow> (Some (spec_error (decode body)), r)
                | Some r1 \<Rightarrow> (None, r1))))"

definition LoadOpenAPIFile ::
  "(string \<Rightarrow> string option) \<Rightarrow> (string \<Rightarrow> gval option) \<Rightarrow> string \<Rightarrow> string \<Rightarrow> registry
     \<Rightarrow> string option \<times> registry" where
  "LoadOpenAPIFile read decode path backendURL r =
     (case read path of
        None \<Rightarrow> (Some ''read spec file'', r)
      | Some body \<Rightarrow>
          (case loadOpenAPISpec (decode body) backendURL [] r of
             None \<Rightarrow> (Some (spec_error (decode body)), r)
           | Some r1 \<Rightarrow> (None, r1)))"

section \<open>Notifications\<close>

record notify_payload =
  np_Event :: string
  np_ID :: string
  np_AgentID :: string
  np_Tool :: string
  np_Params :: params
  np_PolicyRule :: string
  np_ResolvedBy :: string
  np_Timestamp :: time

datatype notify_client = TrustedClient | GuardedClient

record notification =
  nt_client :: notify_client
  nt_url :: string
  nt_payload :: notify_payload

text \<open>The address \<open>isSafeCallbackURL\<close> looks at: the host itself, or the first one it resolves to.\<close>

definition isSafeCallbackURL ::
  "host_parser \<Rightarrow> (string \<Rightarrow> ip option) \<Rightarrow> (string \<Rightarrow> string list option) \<Rightarrow> string \<Rightarrow> bool" where
  "isSafeCallbackURL parse parseIP lookup rawURL =
     (case parse rawURL of
        None \<Rightarrow> False
      | Some (scheme, host) \<Rightarrow>
          if scheme \<noteq> ''http'' \<and> scheme \<noteq> ''https'' then False
          else if host = ''localhost'' then False
          else
            (case (case parseIP host of
                     Some ip \<Rightarrow> Some ip
                   | None \<Rightarrow>
                       (case lookup host of
                          None \<Rightarrow> None
                        | Some [] \<Rightarrow> None
                        | Some (addr # _) \<Rightarrow> parseIP addr)) of
               None \<Rightarrow> False
             | Some ip \<Rightarrow>
                 \<not> (IsLoopback ip \<or> IsPrivate ip \<or> IsLinkLocalUnicast ip \<or> IsLinkLocalMulticast ip)))"

text \<open>A missing notifier or an empty \<open>notify_url\<close> notifies nobody.\<close>

definition OnSubmit :: "string option \<Rightarrow> approval \<Rightarrow> notification option" where
  "OnSubmit notifier pa =
     (case notifier of
        None \<Rightarrow> None
      | Some notifyURL \<Rightarrow>
          if notifyURL = [] then None
          else Some \<lparr>nt_client = TrustedClient, nt_url = notifyURL,
                     nt_payload = \<lparr>np_Event = ''pending'', np_ID = a_ID pa, np_AgentID = a_AgentID pa, np_Tool = a_Tool pa,
                       np_Params = a_Params pa, np_PolicyRule = a_PolicyRule pa, np_ResolvedBy = [],
                       np_Timestamp = a_CreatedAt pa\<rparr>\<rparr>)"

definition OnResolve ::
  "(string \<Rightarrow> bool) \<Rightarrow> string option \<Rightarrow> approval \<Rightarrow> resolution \<Rightarrow> notification option" where
  "OnResolve safe notifier pa res =
     (if notifier = None \<or> a_CallbackURL pa = [] then None
      else if \<not> safe (a_CallbackURL pa) then None
      else Some \<lparr>nt_client = GuardedClient, nt_url = a_CallbackURL pa,
                 nt_payload = \<lparr>np_Event = status_text (rs_Status res), np_ID = a_ID pa, np_AgentID = a_AgentID pa,
                   np_Tool = a_Tool pa, np_Params = a_Params pa, np_PolicyRule = a_PolicyRule pa,
                   np_ResolvedBy = rs_ResolvedBy res, np_Timestamp = rs_ResolvedAt res\<rparr>\<rparr>)"

text \<open>
  Posting: the guarded client resolves and checks when it connects, the trusted one connects to what
  it is given.
\<close>

definition post_notification :: "(string \<Rightarrow> string + ip list) \<Rightarrow> notification \<Rightarrow> (string + ip) option" where
  "post_notification resolve n =
     (case nt_client n of TrustedClient \<Rightarrow> None | GuardedClient \<Rightarrow> Some (guarded_dial (resolve (nt_url n))))"

section \<open>The addresses, as blocks\<close>

text \<open>An address as a number, and the block of all addresses that share its first bits.\<close>

definition ip_number :: "ip \<Rightarrow> nat" where
  "ip_number ip = foldl (\<lambda>n b. 256 * n + unat b) 0 ip"

definition in_block :: "nat \<Rightarrow> nat \<Rightarrow> nat \<Rightarrow> nat \<Rightarrow> bool" where
  "in_block width network bits a = (a div 2 ^ (width - bits) = network div 2 ^ (width - bits))"

definition v4 :: "nat \<Rightarrow> nat \<Rightarrow> nat \<Rightarrow> nat \<Rightarrow> nat" where
  "v4 a b c d = ((a * 256 + b) * 256 + c) * 256 + d"

definition reserved_v4 :: "nat \<Rightarrow> bool" where
  "reserved_v4 a =
     (in_block 32 (v4 127 0 0 0) 8 a \<or> in_block 32 (v4 10 0 0 0) 8 a \<or> in_block 32 (v4 172 16 0 0) 12 a
      \<or> in_block 32 (v4 192 168 0 0) 16 a \<or> in_block 32 (v4 169 254 0 0) 16 a
      \<or> in_block 32 (v4 224 0 0 0) 24 a \<or> a = 0)"

text \<open>::1, ::, fc00::/7, fe80::/10 and the sixteen blocks ff02::/16, ff12::/16 and so on.\<close>

definition reserved_v6 :: "nat \<Rightarrow> bool" where
  "reserved_v6 a =
     (a = 1 \<or> a = 0 \<or> in_block 128 (0xFC * 2 ^ 120) 7 a \<or> in_block 128 (0xFE80 * 2 ^ 112) 10 a
      \<or> (\<exists>k < 16. in_block 128 ((0xFF02 + 16 * k) * 2 ^ 112) 16 a))"

definition reserved :: "ip \<Rightarrow> bool" where
  "reserved ip = (case To4 ip of Some a \<Rightarrow> reserved_v4 (ip_number a) | None \<Rightarrow> reserved_v6 (ip_number ip))"

lemma and_push: "n AND push_bit k m = push_bit k (drop_bit k n AND m)" for n :: nat
  by (rule bit_eqI) (auto simp: bit_simps)

lemma and_block: "n AND push_bit k (mask j) = 2 ^ k * ((n div 2 ^ k) mod 2 ^ j)" for n :: nat
  by (simp only: and_push flip: take_bit_eq_mask) (simp add: take_bit_eq_mod push_bit_eq_mult drop_bit_eq_div)

lemma byte_less: "unat (b :: 8 word) < 256"
  using unsigned_less [of b] by simp

lemma byte_eq: "n < 256 \<Longrightarrow> (b = (word_of_nat n :: 8 word)) = (unat b = n)"
  by (auto simp: unat_of_nat take_bit_nat_eq_self)

lemma byte_and: "unat ((b :: 8 word) AND c) = unat b AND unat c"
  by (simp add: unsigned_and_eq)

lemma byte_masks:
  fixes b :: "8 word"
  shows "(b AND 0xF0 = 16) = (unat b div 16 = 1)" "(b AND 0xFE = 0xFC) = (unat b div 2 = 126)"
    "(b AND 0x0F = 2) = (unat b mod 16 = 2)" "(b AND 0xC0 = 0x80) = (unat b div 64 = 2)"
proof -
  have "unat (b AND 0xF0) = 16 * (unat b div 16 mod 16)" "unat (b AND 0xFE) = 2 * (unat b div 2 mod 128)"
    "unat (b AND 0x0F) = unat b mod 16" "unat (b AND 0xC0) = 64 * (unat b div 64 mod 4)"
    using and_block [of "unat b" 4 4] and_block [of "unat b" 1 7] and_block [of "unat b" 0 4] and_block [of "unat b" 6 2]
    by (simp_all add: byte_and mask_eq_exp_minus_1 push_bit_eq_mult)
  moreover have "unat b div 16 < 16" "unat b div 2 < 128" "unat b div 64 < 4" using byte_less [of b] by simp_all
  ultimately show "(b AND 0xF0 = 16) = (unat b div 16 = 1)" "(b AND 0xFE = 0xFC) = (unat b div 2 = 126)"
    "(b AND 0x0F = 2) = (unat b mod 16 = 2)" "(b AND 0xC0 = 0x80) = (unat b div 64 = 2)"
    using byte_eq [of 16 "b AND 0xF0"] byte_eq [of 252 "b AND 0xFE"] byte_eq [of 2 "b AND 0x0F"] byte_eq [of 128 "b AND 0xC0"]
    by simp_all
qed

lemma byte_values:
  fixes b :: "8 word"
  shows "(b = 127) = (unat b = 127)" "(b = 10) = (unat b = 10)" "(b = 172) = (unat b = 172)" "(b = 192) = (unat b = 192)"
    "(b = 168) = (unat b = 168)" "(b = 169) = (unat b = 169)" "(b = 254) = (unat b = 254)" "(b = 224) = (unat b = 224)"
    "(b = 0) = (unat b = 0)" "(b = 255) = (unat b = 255)"
  using byte_eq [of 127 b] byte_eq [of 10 b] byte_eq [of 172 b] byte_eq [of 192 b] byte_eq [of 168 b]
    byte_eq [of 169 b] byte_eq [of 254 b] byte_eq [of 224 b] byte_eq [of 0 b] byte_eq [of 255 b]
  by simp_all

lemma foldl_number: "foldl (\<lambda>n b. 256 * n + unat b) k ip = k * 256 ^ length ip + ip_number ip" for ip :: ip
proof (induction ip arbitrary: k)
  case (Cons b ip)
  let ?f = "\<lambda>n b. 256 * n + unat (b :: 8 word)"
  have "ip_number (b # ip) = foldl ?f (unat b) ip" by (simp add: ip_number_def)
  also have "\<dots> = unat b * 256 ^ length ip + ip_number ip" by (rule Cons.IH)
  finally have n: "ip_number (b # ip) = unat b * 256 ^ length ip + ip_number ip" .
  have "foldl ?f k (b # ip) = foldl ?f (256 * k + unat b) ip" by simp
  also have "\<dots> = (256 * k + unat b) * 256 ^ length ip + ip_number ip" by (rule Cons.IH)
  finally show ?case unfolding n by (simp add: algebra_simps)
qed (simp add: ip_number_def)

lemma ip_number_Cons: "ip_number (b # ip) = unat b * 256 ^ length ip + ip_number ip"
  using foldl_number [of "unat b" ip] by (simp add: ip_number_def)

lemma ip_number_less: "ip_number ip < 256 ^ length ip"
proof (induction ip)
  case (Cons b ip)
  have "unat b * 256 ^ length ip + ip_number ip < (unat b + 1) * 256 ^ length ip" using Cons by simp
  also have "\<dots> \<le> 256 * 256 ^ length ip" using byte_less [of b] by (intro mult_right_mono) simp_all
  finally show ?case by (simp add: ip_number_Cons)
qed (simp add: ip_number_def)

lemma ip_number_div: "ip_number (b # ip) div 256 ^ length ip = unat b"
  using ip_number_less [of ip] by (simp add: ip_number_Cons)

lemma ip_number_inj: "length a = length b \<Longrightarrow> ip_number a = ip_number b \<Longrightarrow> a = b"
proof (induction a b rule: list_induct2)
  case (Cons x xs y ys)
  have "unat x = unat y" using ip_number_div [of x xs] ip_number_div [of y ys] Cons.hyps Cons.prems by simp
  then show ?case using Cons by (auto simp: ip_number_Cons word_unat_eq_iff)
qed simp

text \<open>The first bytes of an address as the quotients of its number.\<close>

lemma v4_digits:
  fixes a b c d :: nat
  assumes "b < 256" "c < 256" "d < 256"
  shows "v4 a b c d div 16777216 = a" "v4 a b c d div 65536 = a * 256 + b" "v4 a b c d div 256 = (a * 256 + b) * 256 + c"
    "v4 a b c d div 1048576 = a * 16 + b div 16"
  using assms by (simp_all add: v4_def)

lemma v4_number: "ip_number [a, b, c, d] = v4 (unat a) (unat b) (unat c) (unat d)"
  by (simp add: ip_number_def v4_def algebra_simps)

lemma pair_eq:
  fixes a b x y k :: nat
  assumes "b < k" "y < k"
  shows "(a * k + b = x * k + y) = (a = x \<and> b = y)"
proof
  assume eq: "a * k + b = x * k + y"
  from eq have "(a * k + b) div k = (x * k + y) div k" "(a * k + b) mod k = (x * k + y) mod k" by simp_all
  with assms show "a = x \<and> b = y" by simp
qed simp

lemma number_zero: "ip_number ip = 0 \<longleftrightarrow> ip = replicate (length ip) 0"
proof
  have z: "ip_number (replicate n 0) = 0" for n
    by (induction n) (simp_all add: ip_number_Cons ip_number_def)
  show "ip_number ip = 0 \<Longrightarrow> ip = replicate (length ip) 0"
    by (rule ip_number_inj) (simp_all add: z)
  show "ip = replicate (length ip) 0 \<Longrightarrow> ip_number ip = 0" using z [of "length ip"] by simp
qed

lemma v4_reserved:
  assumes "length q = 4"
  shows "reserved_v4 (ip_number q) =
    (q ! 0 = 127 \<or> q ! 0 = 10 \<or> (q ! 0 = 172 \<and> q ! 1 AND 0xF0 = 16) \<or> (q ! 0 = 192 \<and> q ! 1 = 168)
     \<or> (q ! 0 = 169 \<and> q ! 1 = 254) \<or> (q ! 0 = 224 \<and> q ! 1 = 0 \<and> q ! 2 = 0) \<or> q = replicate 4 0)"
proof -
  from assms obtain a b c d where q: "q = [a, b, c, d]"
    by (auto simp: length_Suc_conv eval_nat_numeral)
  let ?n = "v4 (unat a) (unat b) (unat c) (unat d)"
  note lt = byte_less [of b] byte_less [of c] byte_less [of d]
  note dg = v4_digits [OF lt, of "unat a"]
  have n: "ip_number q = ?n" unfolding q by (rule v4_number)
  have "in_block 32 (v4 127 0 0 0) 8 ?n = (a = 127)" "in_block 32 (v4 10 0 0 0) 8 ?n = (a = 10)"
    using dg(1) by (simp_all add: in_block_def byte_values v4_def [of 127] v4_def [of 10])
  moreover have "in_block 32 (v4 192 168 0 0) 16 ?n = (a = 192 \<and> b = 168)"
    "in_block 32 (v4 169 254 0 0) 16 ?n = (a = 169 \<and> b = 254)"
    using dg(2) pair_eq [OF lt(1), of 168 "unat a" 192] pair_eq [OF lt(1), of 254 "unat a" 169] lt
    by (simp_all add: in_block_def byte_values v4_def [of 192] v4_def [of 169])
  moreover have "in_block 32 (v4 172 16 0 0) 12 ?n = (a = 172 \<and> b AND 0xF0 = 16)"
  proof -
    have "unat a * 16 + unat b div 16 = 172 * 16 + 1 \<longleftrightarrow> unat a = 172 \<and> unat b div 16 = 1"
      by (rule pair_eq) (use lt(1) in simp_all)
    then show ?thesis using dg(4) by (simp add: in_block_def byte_values byte_masks v4_def [of 172])
  qed
  moreover have "in_block 32 (v4 224 0 0 0) 24 ?n = (a = 224 \<and> b = 0 \<and> c = 0)"
  proof -
    have "(unat a * 256 + unat b) * 256 + unat c = (224 * 256 + 0) * 256 + 0 \<longleftrightarrow> unat a = 224 \<and> unat b = 0 \<and> unat c = 0"
      using lt by (simp only: pair_eq) simp
    then show ?thesis using dg(3) by (simp add: in_block_def byte_values v4_def [of 224])
  qed
  moreover have "(?n = 0) = (q = replicate 4 0)" using number_zero [of q] n assms by simp
  ultimately show ?thesis by (simp add: q reserved_v4_def v4_number)
qed

lemma v6_digits:
  assumes "length ip = 16"
  shows "ip_number ip div 2 ^ 120 = unat (ip ! 0)" "ip_number ip div 2 ^ 112 = unat (ip ! 0) * 256 + unat (ip ! 1)"
proof -
  from assms obtain a b r where ip: "ip = a # b # r" and r: "length r = 14"
    by (auto simp: length_Suc_conv eval_nat_numeral)
  show "ip_number ip div 2 ^ 120 = unat (ip ! 0)"
    using ip_number_div [of a "b # r"] r by (simp add: ip)
  have n: "ip_number ip = (unat a * 256 + unat b) * 2 ^ 112 + ip_number r"
    using r by (simp add: ip ip_number_Cons algebra_simps)
  have "ip_number r < 2 ^ 112" using ip_number_less [of r] r by simp
  then show "ip_number ip div 2 ^ 112 = unat (ip ! 0) * 256 + unat (ip ! 1)" unfolding n by (simp add: ip)
qed

lemma v6_reserved:
  assumes "length ip = 16"
  shows "reserved_v6 (ip_number ip) =
    (ip = IPv6loopback \<or> ip = IPv6unspecified \<or> ip ! 0 AND 0xFE = 0xFC \<or> (ip ! 0 = 0xFE \<and> ip ! 1 AND 0xC0 = 0x80)
     \<or> (ip ! 0 = 0xFF \<and> ip ! 1 AND 0x0F = 0x02))"
proof -
  let ?n = "ip_number ip" and ?a = "unat (ip ! 0)" and ?b = "unat (ip ! 1)"
  note dg = v6_digits [OF assms]
  have b: "?b < 256" by (rule byte_less)
  have "ip_number (replicate n 0 @ [1]) = 1" for n
    by (induction n) (simp_all add: ip_number_Cons, simp add: ip_number_def)
  then have "ip_number IPv6loopback = 1" by (simp add: IPv6loopback_def)
  then have l: "(?n = 1) = (ip = IPv6loopback)"
    using ip_number_inj [of ip IPv6loopback] assms by (auto simp: IPv6loopback_def)
  have z: "(?n = 0) = (ip = IPv6unspecified)" using number_zero [of ip] assms by (simp add: IPv6unspecified_def)
  have p: "in_block 128 (0xFC * 2 ^ 120) 7 ?n = (ip ! 0 AND 0xFE = 0xFC)"
  proof -
    have "?n div 2 ^ 121 = ?a div 2" using dg(1) div_mult2_eq [of ?n "2 ^ 120" 2] by simp
    then show ?thesis by (simp add: in_block_def byte_masks)
  qed
  have u: "in_block 128 (0xFE80 * 2 ^ 112) 10 ?n = (ip ! 0 = 0xFE \<and> ip ! 1 AND 0xC0 = 0x80)"
  proof -
    have "?n div 2 ^ 118 = (?a * 256 + ?b) div 64" using dg(2) div_mult2_eq [of ?n "2 ^ 112" 64] by simp
    also have "\<dots> = ?a * 4 + ?b div 64" by simp
    finally have "?n div 2 ^ 118 = 254 * 4 + 2 \<longleftrightarrow> ?a = 254 \<and> ?b div 64 = 2"
      using pair_eq [of "?b div 64" 4 2 ?a 254] b by simp
    then show ?thesis by (simp add: in_block_def byte_values byte_masks)
  qed
  have "in_block 128 ((0xFF02 + 16 * k) * 2 ^ 112) 16 ?n = (?a * 256 + ?b = 0xFF02 + 16 * k)" for k
    using dg(2) by (simp add: in_block_def)
  moreover have "(\<exists>k < 16. ?a * 256 + ?b = 0xFF02 + 16 * k) = (?a = 255 \<and> ?b mod 16 = 2)"
  proof
    assume "\<exists>k < 16. ?a * 256 + ?b = 0xFF02 + 16 * k"
    then obtain k where k: "k < 16" "?a * 256 + ?b = 255 * 256 + (2 + 16 * k)" by auto
    then have "?a = 255" "?b = 2 + 16 * k" using pair_eq [of ?b 256 "2 + 16 * k" ?a 255] b by simp_all
    moreover have "(2 + 16 * k) mod 16 = 2" by presburger
    ultimately show "?a = 255 \<and> ?b mod 16 = 2" by (simp only: simp_thms)
  next
    assume "?a = 255 \<and> ?b mod 16 = 2"
    moreover have "?b = 16 * (?b div 16) + ?b mod 16" by simp
    ultimately have "?a * 256 + ?b = 0xFF02 + 16 * (?b div 16)" "?b div 16 < 16" using b by linarith+
    then show "\<exists>k < 16. ?a * 256 + ?b = 0xFF02 + 16 * k" by blast
  qed
  ultimately have m: "(\<exists>k < 16. in_block 128 ((0xFF02 + 16 * k) * 2 ^ 112) 16 ?n)
      = (ip ! 0 = 0xFF \<and> ip ! 1 AND 0x0F = 0x02)"
    by (simp add: byte_values byte_masks)
  show ?thesis unfolding reserved_v6_def l z p u m by blast
qed

lemma To4_length: "To4 ip = Some a \<Longrightarrow> length a = 4"
  by (auto simp: To4_def split: if_splits)

lemma unspecified_v4:
  assumes "To4 ip = Some a"
  shows "IsUnspecified ip = (a = replicate 4 0)"
proof (cases "length ip = 4")
  case True
  with assms show ?thesis
    by (auto simp: To4_def IsUnspecified_def ip_Equal_def IPv4zero_def IPv6unspecified_def numeral_eq_Suc)
next
  case False
  with assms have l: "length ip = 16" and t: "take 10 ip = replicate 10 0" and m: "ip ! 10 = 255" "ip ! 11 = 255"
    and a: "a = drop 12 ip" by (auto simp: To4_def split: if_splits)
  have "take 12 ip = take 10 ip @ [ip ! 10, ip ! 11]"
    using l by (simp add: take_Suc_conv_app_nth numeral_eq_Suc)
  then have "ip = replicate 10 0 @ [255, 255] @ a"
    using t m a append_take_drop_id [of 12 ip] by simp
  moreover have "ip \<noteq> IPv6unspecified" using m(1) l by (auto simp: IPv6unspecified_def)
  ultimately show ?thesis using l by (auto simp: IsUnspecified_def ip_Equal_def IPv4zero_def IPv6unspecified_def)
qed

lemma unspecified_v6: "To4 ip = None \<Longrightarrow> length ip = 16 \<Longrightarrow> IsUnspecified ip = (ip = IPv6unspecified)"
  by (auto simp: IsUnspecified_def ip_Equal_def IPv6unspecified_def To4_def IPv4zero_def nth_append split: if_splits)

lemma isBlocked_reserved:
  assumes "length ip = 4 \<or> length ip = 16"
  shows "isBlocked ip = reserved ip"
proof (cases "To4 ip")
  case (Some a)
  show ?thesis
    using v4_reserved [OF To4_length [OF Some]] unspecified_v4 [OF Some]
    by (auto simp: isBlocked_def reserved_def Some IsLoopback_def IsPrivate_def IsLinkLocalUnicast_def IsLinkLocalMulticast_def)
next
  case None
  with assms have l: "length ip = 16" by (auto simp: To4_def)
  have "ip_Equal ip IPv6loopback = (ip = IPv6loopback)" using l by (simp add: ip_Equal_def IPv6loopback_def)
  then show ?thesis
    using v6_reserved [OF l] unspecified_v6 [OF None l] l
    by (auto simp: isBlocked_def reserved_def None IsLoopback_def IsPrivate_def IsLinkLocalUnicast_def IsLinkLocalMulticast_def)
qed

text \<open>
  C25. The byte tests are the blocks: for every address of 4 or 16 bytes the guard refuses it exactly
  when it lies in 127/8, 10/8, 172.16/12, 192.168/16, 169.254/16 (the metadata service included),
  224.0.0/24 or is 0.0.0.0, also when it is written as an IPv4-mapped IPv6 address, or is ::1, :: or
  lies in fc00::/7, fe80::/10 or ff?2::/16.
\<close>

theorem isBlocked_iff_reserved:
  assumes "length ip = 4 \<or> length ip = 16"
  shows "isBlocked ip = reserved ip"
  by (rule isBlocked_reserved [OF assms])

text \<open>169.254.169.254 in its two forms, and a public address.\<close>

theorem isBlocked_iff_reserved_witness:
  "reserved [169, 254, 169, 254] \<and> isBlocked (replicate 10 0 @ [255, 255, 169, 254, 169, 254]) \<and> \<not> reserved [8, 8, 8, 8]"
proof -
  have b: "isBlocked [169, 254, 169, 254]" "isBlocked (replicate 10 0 @ [255, 255, 169, 254, 169, 254])"
    "\<not> isBlocked [8, 8, 8, 8]" by code_simp+
  with isBlocked_iff_reserved [of "[169, 254, 169, 254]"] isBlocked_iff_reserved [of "[8, 8, 8, 8]"] show ?thesis by simp
qed


definition demo_pending :: approval where
  "demo_pending =
     \<lparr>a_ID = ''a1'', a_AgentID = ''bot'', a_Tool = ''fs.write'', a_Params = None, a_PolicyRule = ''p'', a_TraceID = ''t'',
      a_CallbackURL = ''http://cb.example/done'', a_Status = StatusApproved, a_CreatedAt = 1, a_ResolvedBy = ''op'',
      a_ResolvedAt = 2, a_Reasoning = [], a_Confidence = Fin 0, a_Result = None\<rparr>"

definition demo_resolution :: resolution where
  "demo_resolution =
     \<lparr>rs_Status = StatusApproved, rs_ResolvedBy = ''op'', rs_ResolvedAt = 2, rs_Reasoning = [], rs_Confidence = Fin 0\<rparr>"


end
