(* ===== verification/Router.thy ===== *)
theory Router
  imports Views Policy_Edit Mcp_Sessions Outbound
begin

text \<open>
  The HTTP server as a whole (\<open>ServeHTTP\<close> and \<open>admin\<close> of \<open>proxy/handler.go\<close>): which handler a request
  reaches, which handlers stand behind the operator's credential, and what one request does to the
  state of the process. The state joins the gateway with the MCP handler, the policy files, the
  text of the configuration and the upstreams.
\<close>

section \<open>Who is an operator\<close>

record net_env =
  nn_split :: "string \<Rightarrow> string option"
  nn_ip :: "string \<Rightarrow> ip option"

text \<open>\<open>net.SplitHostPort\<close> and \<open>net.ParseIP\<close> are arguments.\<close>

definition isLoopback :: "net_env \<Rightarrow> string \<Rightarrow> bool" where
  "isLoopback n remoteAddr =
     (let host = (case nn_split n remoteAddr of None \<Rightarrow> remoteAddr | Some h \<Rightarrow> h) in
      case nn_ip n host of None \<Rightarrow> False | Some ip \<Rightarrow> IsLoopback ip)"

section \<open>Requests\<close>

text \<open>How the body of a request reads as the type each handler decodes it into.\<close>

record api_body =
  ab_params :: "params option"
  ab_decide :: "decide_request option"
  ab_pins :: "pins_request option"
  ab_policy :: "(string \<times> string) option"
  ab_settings :: "(settings \<times> string) option"
  ab_forget :: "(string \<times> string) option"
  ab_resolve :: resolve_request
  ab_grant :: "grant_request option"
  ab_halt :: "halt_request option"
  ab_resumed_by :: string
  ab_rpc :: "(string \<times> params) option"

record api_request =
  aq_Method :: string
  aq_Call :: http_call
  aq_Query :: "(string \<times> string) list"
  aq_MCPSession :: string
  aq_Body :: api_body

record mesh_env =
  xe_req :: request_env
  xe_net :: net_env
  xe_content :: content_env
  xe_supervisor :: supervisor_config
  xe_pin :: pin_env
  xe_edit :: edit_env
  xe_editing :: "policy_editing option"
  xe_settings :: settings_env
  xe_settings_path :: "string option"
  xe_mcp :: mcp_env
  xe_catalog :: "string \<times> (string \<times> catalog_group) list \<Rightarrow> string"
  xe_clients :: "(string \<times> string) list"
  xe_session :: string
  xe_build :: build_info
  xe_writes :: writer_stats
  xe_trace_path :: string
  xe_draws :: "nat \<Rightarrow> draw"

record mesh_state =
  xs_gateway :: gateway
  xs_mcp :: "http_handler option"
  xs_files :: files
  xs_config :: string
  xs_manager :: "manager option"

section \<open>Routes\<close>

datatype route =
    ToDecide | ToToolCall | ToListTools | ToMCPServers | ToHealth | ToVersion | ToMCP
  | ToToolDecisions | ToPinsPending | ToPinsAccept | ToPolicyEdit | ToTraces | ToTraceVerify | ToTraceWhy
  | ToOTELTraces | ToListApprovals | ToGetSettings | ToPutSettings | ToPrecedents | ToForget | ToGetApproval
  | ToApprove | ToDeny | ToListGrants | ToCreateGrant | ToRevokeGrant | ToListHalts | ToCreateHalt | ToResumeHalt
  | ToListSessions | ToSessionEvents | ToPolicies | ToMetrics
  | ToNothing

definition route_of :: "bool \<Rightarrow> string \<Rightarrow> string \<Rightarrow> route" where
  "route_of mcp verb path =
     (if verb = ''POST'' \<and> path = ''/decide'' then ToDecide
      else if verb = ''POST'' \<and> HasPrefix path ''/tool/'' then ToToolCall
      else if verb = ''GET'' \<and> path = ''/tools'' then ToListTools
      else if verb = ''GET'' \<and> path = ''/mcp-servers'' then ToMCPServers
      else if verb = ''GET'' \<and> path = ''/health'' then ToHealth
      else if verb = ''GET'' \<and> path = ''/version'' then ToVersion
      else if path = ''/mcp'' \<and> mcp then ToMCP
      else if verb = ''GET'' \<and> path = ''/tools/decisions'' then ToToolDecisions
      else if verb = ''GET'' \<and> path = ''/tools/pins'' then ToPinsPending
      else if verb = ''POST'' \<and> path = ''/tools/pins/accept'' then ToPinsAccept
      else if verb = ''PUT'' \<and> HasPrefix path ''/policies/'' then ToPolicyEdit
      else if verb = ''GET'' \<and> path = ''/traces'' then ToTraces
      else if verb = ''GET'' \<and> path = ''/traces/verify'' then ToTraceVerify
      else if verb = ''GET'' \<and> HasPrefix path ''/traces/'' \<and> HasSuffix path ''/why'' then ToTraceWhy
      else if verb = ''GET'' \<and> path = ''/otel-traces'' then ToOTELTraces
      else if verb = ''GET'' \<and> path = ''/approvals'' then ToListApprovals
      else if verb = ''GET'' \<and> path = ''/approvals/settings'' then ToGetSettings
      else if verb = ''PUT'' \<and> path = ''/approvals/settings'' then ToPutSettings
      else if verb = ''GET'' \<and> path = ''/approvals/precedents'' then ToPrecedents
      else if verb = ''POST'' \<and> path = ''/approvals/precedents/forget'' then ToForget
      else if verb = ''GET'' \<and> HasPrefix path ''/approvals/'' \<and> \<not> Contains (TrimPrefix path ''/approvals/'') ''/''
        then ToGetApproval
      else if verb = ''POST'' \<and> HasSuffix path ''/approve'' \<and> HasPrefix path ''/approvals/'' then ToApprove
      else if verb = ''POST'' \<and> HasSuffix path ''/deny'' \<and> HasPrefix path ''/approvals/'' then ToDeny
      else if verb = ''GET'' \<and> path = ''/grants'' then ToListGrants
      else if verb = ''POST'' \<and> path = ''/grants'' then ToCreateGrant
      else if verb = ''DELETE'' \<and> HasPrefix path ''/grants/'' then ToRevokeGrant
      else if verb = ''GET'' \<and> path = ''/halts'' then ToListHalts
      else if verb = ''POST'' \<and> path = ''/halts'' then ToCreateHalt
      else if verb = ''POST'' \<and> HasPrefix path ''/halts/'' \<and> HasSuffix path ''/resume'' then ToResumeHalt
      else if verb = ''GET'' \<and> path = ''/sessions'' then ToListSessions
      else if verb = ''GET'' \<and> HasPrefix path ''/sessions/'' then ToSessionEvents
      else if verb = ''GET'' \<and> path = ''/policies'' then ToPolicies
      else if verb = ''GET'' \<and> path = ''/metrics'' then ToMetrics
      else ToNothing)"

definition request_route :: "api_request \<Rightarrow> mesh_state \<Rightarrow> route" where
  "request_route r st = route_of (xs_mcp st \<noteq> None) (aq_Method r) (hc_Path (aq_Call r))"

section \<open>Answers\<close>

datatype api_answer =
    Unauthorized | DataPlane401 | NoPage
  | AnsCall call_result
  | AnsDecide decide_result
  | AnsTools "(tool \<times> classification) list"
  | AnsServers "server_status list"
  | AnsHealth health_view
  | AnsVersion "(string \<times> string) list"
  | AnsMCP http_reply
  | AnsDecisions "tool_decision list option"
  | AnsPins pins_answer
  | AnsEdit edit_answer
  | AnsTraces "trace_entry list option"
  | AnsVerify "chain_status option"
  | AnsWhy why_answer
  | AnsOTLP otlp_export
  | AnsApprovals "approval_view list"
  | AnsSettings settings_answer
  | AnsPrecedents precedents_answer
  | AnsForget forget_answer
  | AnsApproval "approval_detail option"
  | AnsResolved "int \<times> string"
  | AnsGrants "grant_view list"
  | AnsGrant grant_answer
  | AnsHalts "halt list"
  | AnsHalt halt_answer
  | AnsSessions "session_summary list"
  | AnsPolicies "policy list"
  | AnsMetrics "string list"

definition with_gateway :: "mesh_state \<Rightarrow> api_answer \<times> gateway \<Rightarrow> (api_answer \<times> mesh_state) option" where
  "with_gateway st x = Some (fst x, st\<lparr>xs_gateway := snd x\<rparr>)"

definition answer_with :: "mesh_state \<Rightarrow> api_answer \<Rightarrow> (api_answer \<times> mesh_state) option" where
  "answer_with st a = Some (a, st)"

definition mcp_call_of :: "api_request \<Rightarrow> mcp_call" where
  "mcp_call_of r =
     \<lparr>mp_Authorization = hc_Authorization (aq_Call r), mp_SessionID = aq_MCPSession r,
      mp_Traceparent = hc_Traceparent (aq_Call r), mp_XTraceId = hc_XTraceId (aq_Call r), mp_Body = ab_rpc (aq_Body r)\<rparr>"

text \<open>The data plane; \<open>None\<close> is a request that never returns.\<close>

definition serve_data ::
  "mesh_env \<Rightarrow> api_request \<Rightarrow> route \<Rightarrow> mesh_state \<Rightarrow> (api_answer \<times> mesh_state) option" where
  "serve_data v r rt st =
     (let g = xs_gateway st; call = aq_Call r; q = xe_req v in
      case rt of
        ToDecide \<Rightarrow> with_gateway st (map_prod AnsDecide id (handleDecide q call (ab_decide (aq_Body r)) g))
      | ToToolCall \<Rightarrow> with_gateway st (map_prod AnsCall id (handleToolCall q call (ab_params (aq_Body r)) g))
      | ToListTools \<Rightarrow> answer_with st (case handleListTools call g of None \<Rightarrow> DataPlane401 | Some ts \<Rightarrow> AnsTools ts)
      | ToMCPServers \<Rightarrow>
          answer_with st (case handleMCPServers call (xs_manager st) g of None \<Rightarrow> DataPlane401 | Some ss \<Rightarrow> AnsServers ss)
      | ToHealth \<Rightarrow> answer_with st (AnsHealth (handleHealth (xe_build v) g))
      | ToVersion \<Rightarrow> answer_with st (AnsVersion (handleVersion (xe_build v)))
      | _ \<Rightarrow>
          (case xs_mcp st of
             None \<Rightarrow> answer_with st NoPage
           | Some h \<Rightarrow>
               map_option (\<lambda>(reply, h1, g1). (AnsMCP reply, st\<lparr>xs_mcp := Some h1, xs_gateway := g1\<rparr>))
                 (mcp_ServeHTTP (xe_mcp v) (xe_catalog v) (xe_clients v) (xe_session v) (aq_Method r) (mcp_call_of r) h g)))"

definition serve_control ::
  "mesh_env \<Rightarrow> api_request \<Rightarrow> route \<Rightarrow> mesh_state \<Rightarrow> (api_answer \<times> mesh_state) option" where
  "serve_control v r rt st =
     (let g = xs_gateway st; call = aq_Call r; q = xe_req v; b = aq_Body r; path = hc_Path call; qs = aq_Query r in
      case rt of
        ToToolDecisions \<Rightarrow> answer_with st (AnsDecisions (handleToolDecisions (query_of qs ''agent'') g))
      | ToPinsPending \<Rightarrow> answer_with st (AnsPins (handlePinsPending g))
      | ToPinsAccept \<Rightarrow> with_gateway st (map_prod AnsPins id (handlePinsAccept q (xe_pin v) (ab_pins b) g))
      | ToPolicyEdit \<Rightarrow>
          (case handlePolicyEdit (xe_edit v) (xe_editing v) path (ab_policy b) (xs_files st) g of
             (a, fs, g1) \<Rightarrow> Some (AnsEdit a, st\<lparr>xs_files := fs, xs_gateway := g1\<rparr>))
      | ToTraces \<Rightarrow> answer_with st (AnsTraces (Some (handleTraces qs g)))
      | ToTraceVerify \<Rightarrow> answer_with st (AnsVerify (handleTraceVerify (qe_trace_rt q) (qe_trace q) (xe_trace_path v) g))
      | ToTraceWhy \<Rightarrow> answer_with st (AnsWhy (handleTraceWhy path qs g))
      | ToOTELTraces \<Rightarrow> answer_with st (AnsOTLP (handleOTELTraces (xe_draws v) qs g))
      | ToListApprovals \<Rightarrow>
          answer_with st (AnsApprovals (handleListApprovals (xe_content v) (xe_supervisor v) (qe_rt q) (qe_now q)
            (query_of qs ''status'') (query_of qs ''tool'') g))
      | ToGetSettings \<Rightarrow> answer_with st (AnsSettings (handleGetApprovalSettings (xe_settings_path v) g))
      | ToPutSettings \<Rightarrow>
          (case handlePutApprovalSettings (xe_settings v) (xe_settings_path v \<noteq> None) (ab_settings b) (xs_config st) g of
             (a, src, g1) \<Rightarrow> Some (AnsSettings a, st\<lparr>xs_config := src, xs_gateway := g1\<rparr>))
      | ToPrecedents \<Rightarrow> answer_with st (AnsPrecedents (handlePrecedents (qe_mem q) g))
      | ToForget \<Rightarrow> answer_with st (AnsForget (handleForgetPrecedents (qe_mem q) (ab_forget b) g))
      | ToGetApproval \<Rightarrow> answer_with st (AnsApproval (handleGetApproval (xe_content v) (xe_supervisor v) q path g))
      | ToApprove \<Rightarrow>
          Option.bind (handleApproveAction q call (ab_resolve b) g) (\<lambda>x. with_gateway st (map_prod AnsResolved id x))
      | ToDeny \<Rightarrow>
          Option.bind (handleDenyAction q call (ab_resolve b) g) (\<lambda>x. with_gateway st (map_prod AnsResolved id x))
      | ToListGrants \<Rightarrow> answer_with st (AnsGrants (map (toGrantView q) (handleListGrants (qe_now q) g)))
      | ToCreateGrant \<Rightarrow> with_gateway st (map_prod AnsGrant id (handleCreateGrant q call (ab_grant b) g))
      | ToRevokeGrant \<Rightarrow> with_gateway st (map_prod AnsGrant id (handleRevokeGrant call g))
      | ToListHalts \<Rightarrow> with_gateway st (map_prod AnsHalts id (handleListHalts q g))
      | ToCreateHalt \<Rightarrow>
          Option.bind (handleCreateHalt q call (ab_halt b) g) (\<lambda>x. with_gateway st (map_prod AnsHalt id x))
      | ToResumeHalt \<Rightarrow> with_gateway st (map_prod AnsHalt id (handleResumeHalt q call (ab_resumed_by b) g))
      | ToListSessions \<Rightarrow> answer_with st (AnsSessions (handleListSessions qs g))
      | ToSessionEvents \<Rightarrow> answer_with st (AnsTraces (handleSessionEvents path qs g))
      | ToPolicies \<Rightarrow> answer_with st (AnsPolicies (handlePolicies g))
      | ToMetrics \<Rightarrow> answer_with st (AnsMetrics (handleMetrics (xe_writes v) g))
      | _ \<Rightarrow> answer_with st NoPage)"

definition data_plane :: "route \<Rightarrow> bool" where
  "data_plane rt = (rt \<in> {ToDecide, ToToolCall, ToListTools, ToMCPServers, ToHealth, ToVersion, ToMCP})"

definition admin ::
  "mesh_env \<Rightarrow> api_request \<Rightarrow> mesh_state \<Rightarrow> (api_answer \<times> mesh_state) option \<Rightarrow> (api_answer \<times> mesh_state) option" where
  "admin v r st serve =
     (if adminAuthorized (isLoopback (xe_net v)) (aq_Call r) (xs_gateway st) then serve else answer_with st Unauthorized)"

definition ServeHTTP :: "mesh_env \<Rightarrow> api_request \<Rightarrow> mesh_state \<Rightarrow> (api_answer \<times> mesh_state) option" where
  "ServeHTTP v r st =
     (let rt = request_route r st in
      if data_plane rt then serve_data v r rt st
      else if rt = ToNothing then answer_with st NoPage
      else admin v r st (serve_control v r rt st))"

section \<open>What a caller without the credential can change\<close>

lemma record_usage_governs_nothing [simp]:
  "gw_Policy (record_usage q a t p g) = gw_Policy g" "gw_Registry (record_usage q a t p g) = gw_Registry g"
  "gw_Pins (record_usage q a t p g) = gw_Pins g" "gw_Grants (record_usage q a t p g) = gw_Grants g"
  "gw_Halts (record_usage q a t p g) = gw_Halts g" "gw_Approvals (record_usage q a t p g) = gw_Approvals g"
  by (simp_all add: record_usage_def)

lemma asks_only_execute_call: "asks_only q g (snd (execute_call q' tc sid who t tool p d gr g))"
  by (simp add: asks_only_def approval_at_def execute_call_def forward_def Let_def case_prod_unfold)

lemma asks_only_rate: "asks_only q g (snd (rate_check q' tc sid who t p g))"
  by (auto simp: asks_only_def approval_at_def rate_check_def Let_def split: option.split prod.split)

lemma asks_only_await: "asks_only q g (snd (await_approval q tc sid cb who t tool p d g))"
proof (cases "gw_Approvals g")
  case None
  then show ?thesis by (simp add: await_approval_def asks_only_record)
next
  case (Some s)
  obtain pa s1 where sub: "SubmitWithTrace (qe_now q) (qe_newID q) (id_AgentID who) t (d_Rule d) p cb (cx_TraceID tc) s = (pa, s1)"
    by fastforce
  have "map_of (as_pending s1) i = map_of (as_pending s) i" if "i \<noteq> qe_newID q" for i
    using Submit_others [OF that, of "qe_now q" "id_AgentID who" t "d_Rule d" p cb "cx_TraceID tc" s] sub by simp
  then have "asks_only q g (g\<lparr>gw_Approvals := Some s1\<rparr>)" using Some by (intro asks_only_approvals)
  then show ?thesis using Some sub by (simp add: await_approval_def asks_only_trans [OF _ asks_only_record])
qed

lemma asks_only_decided: "asks_only q g (snd (decided_call q tc sid cb who t tool p g))"
proof -
  let ?d = "ApplyFloors (gw_Pins g) (Evaluate (qe_rt q) (gw_Policy g) (id_AgentID who) t p) (Some tool)"
  obtain d1 gr where b: "by_grant q (id_AgentID who) t ?d g = (d1, gr)" by fastforce
  obtain d2 g1 where pr: "by_precedent q (id_AgentID who) t p d1 g = (d2, g1)" by fastforce
  have pre: "asks_only q g g1" using asks_only_precedent [of q g q "id_AgentID who" t p d1] pr by simp
  show ?thesis
    using b pr asks_only_record asks_only_trans [OF pre asks_only_await] asks_only_trans [OF pre asks_only_execute_call]
    by (simp add: decided_call_def Let_def case_prod_unfold)
qed

lemma asks_only_refused: "asks_only q g (RecordRefused q' tc sid t p rule msg code g)"
  by (simp add: RecordRefused_def asks_only_record)

lemma asks_only_halted: "asks_only q g (RecordHalted q' hl tc sid who t p g)"
  by (simp add: RecordHalted_def Let_def asks_only_record)

lemma asks_only_tool_call:
  "asks_only q g (snd (handleToolCall q r body g)) \<or> asks_only q (sync_halts q g) (snd (handleToolCall q r body g))"
proof (cases "extractIdentity r g")
  case (Inl e)
  then show ?thesis by (simp add: handleToolCall_def Let_def asks_only_refused)
next
  case (Inr who)
  let ?t = "TrimPrefix (hc_Path r) ''/tool/''" and ?s = "hc_SessionID r" and ?g = "sync_halts q g"
  let ?tc = "NewContext (tv_draw (qe_trace q)) (hc_Traceparent r) (hc_XTraceId r)"
  show ?thesis
  proof (cases "gw_RequireAuth g \<and> id_AgentID who = ''anonymous'' \<or> body = None")
    case True
    then show ?thesis using Inr by (auto simp: handleToolCall_def Let_def asks_only_refused)
  next
    case False
    then obtain p where p: "body = Some p" and auth: "\<not> (gw_RequireAuth g \<and> id_AgentID who = ''anonymous'')" by auto
    show ?thesis
    proof (cases rule: HaltFor_cases [of q "id_AgentID who" ?s g])
      case (2 hl)
      then show ?thesis using Inr p auth by (auto simp: handleToolCall_def Let_def asks_only_halted)
    next
      case 1
      show ?thesis
      proof (cases "resolveTool ?g ?t")
        case None
        then show ?thesis using Inr p auth 1 by (auto simp: handleToolCall_def Let_def)
      next
        case (Some tool)
        obtain x g2 where x: "rate_check q ?tc ?s who ?t p ?g = (x, g2)" by fastforce
        have rate: "asks_only q ?g g2" using asks_only_rate [of q ?g q ?tc ?s who ?t p] x by simp
        have "snd (handleToolCall q r body g)
            = (case x of Some _ \<Rightarrow> g2 | None \<Rightarrow> snd (decided_call q ?tc ?s (hc_CallbackURL r) who ?t tool p g2))"
          using Inr p auth 1 Some x by (auto simp: handleToolCall_def Let_def split: option.split)
        then show ?thesis using rate asks_only_trans [OF rate asks_only_decided] by (auto split: option.split)
      qed
    qed
  qed
qed

lemma asks_only_decided_answer: "asks_only q g (snd (decided_answer q tc sid who t p g))"
proof -
  let ?a = "id_AgentID who"
  let ?d = "ApplyFloors (gw_Pins g) (Evaluate (qe_rt q) (gw_Policy g) ?a t p) (resolveTool g t)"
  obtain d1 gr where b: "by_grant q ?a t ?d g = (d1, gr)" by fastforce
  let ?d1 = "case gr of None \<Rightarrow> d1 | Some x \<Rightarrow> d1\<lparr>d_Reason := ''temporal grant '' @ g_ID x\<rparr>"
  obtain d2 g1 where pr: "by_precedent q ?a t p ?d1 g = (d2, g1)" by fastforce
  have pre: "asks_only q g g1" using asks_only_precedent [of q g q ?a t p ?d1] pr by simp
  show ?thesis using b pr asks_only_trans [OF pre asks_only_record]
    by (simp add: decided_answer_def Let_def)
qed

lemma asks_only_decide:
  "asks_only q g (snd (handleDecide q r body g)) \<or> asks_only q (sync_halts q g) (snd (handleDecide q r body g))"
proof (cases "body = None \<or> (\<exists>req. body = Some req \<and> dq_Tool req = [])")
  case True
  then show ?thesis by (auto simp: handleDecide_def)
next
  case False
  then obtain req where req: "body = Some req" "dq_Tool req \<noteq> []" by auto
  show ?thesis
  proof (cases "extractIdentity r g")
    case (Inl e)
    then show ?thesis using req by (simp add: handleDecide_def Let_def asks_only_refused)
  next
    case (Inr who0)
    show ?thesis
    proof (cases "decide_agent (dq_Agent req) who0 g")
      case (DecideAs a)
      show ?thesis
      proof (cases rule: HaltFor_cases [of q a "hc_SessionID r" g])
        case (2 hl)
        then show ?thesis using req Inr DecideAs by (simp add: handleDecide_def Let_def asks_only_halted)
      next
        case 1
        then show ?thesis using req Inr DecideAs by (simp add: handleDecide_def Let_def asks_only_decided_answer)
      qed
    qed (use req Inr in \<open>simp_all add: handleDecide_def Let_def asks_only_refused\<close>)
  qed
qed

lemma serve_data_cases:
  assumes "serve_data v r rt st = Some (a, st')" "data_plane rt" "rt \<noteq> ToMCP"
  obtains "st' = st"
  | "st' = st\<lparr>xs_gateway := snd (handleDecide (xe_req v) (aq_Call r) (ab_decide (aq_Body r)) (xs_gateway st))\<rparr>"
  | "st' = st\<lparr>xs_gateway := snd (handleToolCall (xe_req v) (aq_Call r) (ab_params (aq_Body r)) (xs_gateway st))\<rparr>"
  using assms by (auto simp: serve_data_def data_plane_def with_gateway_def answer_with_def Let_def)


definition demo_net :: net_env where
  "demo_net = \<lparr>nn_split = (\<lambda>a. Some (takeWhile (\<lambda>c. c \<noteq> CHR '':'') a)),
     nn_ip = (\<lambda>h. if h = ''127.0.0.1'' then Some [127, 0, 0, 1] else Some [203, 0, 113, 7])\<rparr>"

definition demo_mesh_env :: mesh_env where
  "demo_mesh_env =
     \<lparr>xe_req = demo_request, xe_net = demo_net, xe_content = demo_content,
      xe_supervisor = \<lparr>sc_Enabled = None, sc_ExposeContent = None, sc_AutoApprove = None, sc_MinApprovals = 0,
        sc_AutoApproveWrites = False, sc_SupervisorAgents = []\<rparr>, xe_pin = demo_pin_env,
      xe_edit = demo_edit, xe_editing = Some \<lparr>pe_Dir = ''d'', pe_Reload = True\<rparr>, xe_settings = demo_settings_env,
      xe_settings_path = Some ''c.yaml'', xe_mcp = Mcp_Server.demo_env, xe_catalog = (\<lambda>_. []), xe_clients = [],
      xe_session = ''s1'', xe_build = \<lparr>bi_Version = [], bi_ConfigID = [], bi_Commit = [], bi_BuildDate = []\<rparr>,
      xe_writes = \<lparr>ws_Attempted = 0, ws_Succeeded = 0, ws_Failed = 0\<rparr>, xe_trace_path = ''f'', xe_draws = (\<lambda>_. demo_draw)\<rparr>"

definition demo_body :: api_body where
  "demo_body =
     \<lparr>ab_params = Some None, ab_decide = None, ab_pins = None, ab_policy = Some (''allow'', []), ab_settings = None,
      ab_forget = None, ab_resolve = \<lparr>rr_ResolvedBy = [], rr_Reasoning = [], rr_Confidence = Fin 0\<rparr>, ab_grant = None,
      ab_halt = None, ab_resumed_by = [], ab_rpc = None\<rparr>"

definition demo_api :: "string \<Rightarrow> string \<Rightarrow> string \<Rightarrow> api_request" where
  "demo_api verb path peer =
     \<lparr>aq_Method = verb, aq_Call = demo_call\<lparr>hc_Path := path, hc_RemoteAddr := peer\<rparr>, aq_Query = [], aq_MCPSession = [],
      aq_Body = demo_body\<rparr>"

definition demo_mesh_state :: mesh_state where
  "demo_mesh_state =
     \<lparr>xs_gateway = demo_editable, xs_mcp = None, xs_files = [(''bot.yaml'', demo_file)], xs_config = [], xs_manager = None\<rparr>"


end
