(* ===== verification/Doors.thy ===== *)
theory Doors
  imports Router
begin

text \<open>
  The two ways in, side by side: a call over HTTP (\<open>handleToolCall\<close>) and one over MCP
  (\<open>governed_call\<close>) pass the same contract, the locale \<open>door\<close>: a call forwards at most itself, only
  when its caller is not stopped, and leaves the emergency stop as it is, up to what other processes
  have written to its table. What follows for any mixture of calls is proved once in the locale.
\<close>

section \<open>The contract of a way in\<close>

locale door =
  fixes enter :: "'r \<Rightarrow> gateway \<Rightarrow> 'a \<times> gateway"
    and env :: "'r \<Rightarrow> request_env"
    and caller :: "'r \<Rightarrow> gateway \<Rightarrow> (string \<times> string) option"
  assumes halts_kept: "gw_Halts (snd (enter r g)) = gw_Halts g
      \<or> gw_Halts (snd (enter r g)) = gw_Halts (sync_halts (env r) g)"
    and forwards: "gw_forwarded (snd (enter r g)) \<noteq> gw_forwarded g \<Longrightarrow>
      \<exists>a sid x. caller r g = Some (a, sid) \<and> \<not> halted (env r) a sid g \<and> fw_Agent x = a
        \<and> gw_forwarded (snd (enter r g)) = gw_forwarded g @ [x]"
begin

lemma standing_enter:
  assumes "gw_Halts g = Some s" and "standing hl s"
  shows "\<exists>s'. gw_Halts (snd (enter r g)) = Some s' \<and> standing hl s'"
  using halts_kept [of r g] assms standing_sync [OF assms(2)] by (auto simp: sync_halts_def)

lemma standing_halts:
  "gw_Halts g = Some s \<Longrightarrow> standing hl s \<Longrightarrow> Covers hl a sid \<Longrightarrow> halted q a sid g"
  by (simp add: halted_def standing_stops)

definition visits :: "'r list \<Rightarrow> gateway \<Rightarrow> gateway" where
  "visits rs g = fold (\<lambda>r g. snd (enter r g)) rs g"

lemma visits_simps [simp]: "visits [] g = g" "visits (r # rs) g = visits rs (snd (enter r g))"
  by (simp_all add: visits_def)

lemma stopped_stay_out:
  assumes "gw_Halts g = Some s" and "standing hl s"
  shows "\<exists>new s'. gw_forwarded (visits rs g) = gw_forwarded g @ new \<and> gw_Halts (visits rs g) = Some s'
    \<and> standing hl s' \<and> (\<forall>x \<in> set new. \<exists>sid. \<not> Covers hl (fw_Agent x) sid)"
  using assms
proof (induction rs arbitrary: g s)
  case (Cons r rs)
  let ?g = "snd (enter r g)"
  obtain s1 where s1: "gw_Halts ?g = Some s1" "standing hl s1" using standing_enter [OF Cons.prems] by blast
  from Cons.IH [OF s1] obtain new s' where n: "gw_forwarded (visits rs ?g) = gw_forwarded ?g @ new"
    "gw_Halts (visits rs ?g) = Some s'" "standing hl s'" "\<forall>x \<in> set new. \<exists>sid. \<not> Covers hl (fw_Agent x) sid" by blast
  show ?case
  proof (cases "gw_forwarded ?g = gw_forwarded g")
    case True
    with n show ?thesis by auto
  next
    case False
    from forwards [OF this] obtain a sid x where f: "\<not> halted (env r) a sid g" "fw_Agent x = a"
      "gw_forwarded ?g = gw_forwarded g @ [x]" by blast
    then have "\<not> Covers hl (fw_Agent x) sid" using standing_halts [OF Cons.prems] by blast
    with n f(3) show ?thesis by (intro exI [of _ "x # new"] exI [of _ s']) auto
  qed
qed simp

end

section \<open>Both ways keep it\<close>

text \<open>A call at one of the doors.\<close>

datatype visit =
    AtHttp request_env http_call "params option"
  | AtMcp mcp_env mcp_server trace_context string params

definition visit_enter :: "visit \<Rightarrow> gateway \<Rightarrow> (call_result + mcp_result) \<times> gateway" where
  "visit_enter x g =
     (case x of
        AtHttp q r body \<Rightarrow> map_prod Inl id (handleToolCall q r body g)
      | AtMcp e sv tc toolName args \<Rightarrow> map_prod Inr id (governed_call e sv tc toolName args g))"

definition visit_env :: "visit \<Rightarrow> request_env" where
  "visit_env x = (case x of AtHttp q r body \<Rightarrow> q | AtMcp e sv tc toolName args \<Rightarrow> mv_req e)"

definition visit_caller :: "visit \<Rightarrow> gateway \<Rightarrow> (string \<times> string) option" where
  "visit_caller x g =
     (case x of
        AtHttp q r body \<Rightarrow>
          (case extractIdentity r g of Inl e \<Rightarrow> None | Inr who \<Rightarrow> Some (id_AgentID who, hc_SessionID r))
      | AtMcp e sv tc toolName args \<Rightarrow> Some (sv_AgentID sv, sv_SessionID sv))"

lemma asks_only_halts: "asks_only q g g' \<Longrightarrow> gw_Halts g' = gw_Halts g"
  by (simp add: asks_only_def)

interpretation http_door: door "\<lambda>(q, r, body). handleToolCall q r body" "\<lambda>(q, r, body). q"
  "\<lambda>(q, r, body) g. case extractIdentity r g of Inl e \<Rightarrow> None | Inr who \<Rightarrow> Some (id_AgentID who, hc_SessionID r)"
proof (unfold_locales, goal_cases)
  case (1 x g)
  obtain q r body where x: "x = (q, r, body)" by (cases x)
  show ?case unfolding x using asks_only_tool_call [of q g r body] by (auto dest: asks_only_halts)
next
  case (2 x g)
  then show ?case
    by (cases x) (auto simp: handleToolCall_forwards call_passes_def split: sum.splits option.splits if_splits)
qed

interpretation mcp_door: door "\<lambda>(e, sv, tc, t, args). governed_call e sv tc t args" "\<lambda>(e, sv, tc, t, args). mv_req e"
  "\<lambda>(e, sv, tc, t, args) g. Some (sv_AgentID sv, sv_SessionID sv)"
proof (unfold_locales, goal_cases)
  case (1 x g)
  obtain e sv tc t args where x: "x = (e, sv, tc, t, args)" by (cases x)
  show ?case unfolding x using asks_only_governed [of e g sv tc t args] by (auto dest: asks_only_halts)
next
  case (2 x g)
  then show ?case
    by (cases x) (auto simp: governed_call_forwards mcp_passes_def split: option.splits if_splits)
qed

interpretation doors: door visit_enter visit_env visit_caller
proof (unfold_locales, goal_cases)
  case (1 x g)
  show ?case
    using http_door.halts_kept [of "(q, r, b)" g for q r b] mcp_door.halts_kept [of "(e, sv, tc, t, args)" g for e sv tc t args]
    by (cases x) (auto simp: visit_enter_def visit_env_def)
next
  case (2 x g)
  then show ?case
    using http_door.forwards [of "(q, r, b)" g for q r b] mcp_door.forwards [of "(e, sv, tc, t, args)" g for e sv tc t args]
    by (cases x) (auto simp: visit_enter_def visit_env_def visit_caller_def)
qed

section \<open>Properties\<close>

text \<open>
  C8. A stop holds until it is lifted: once the operator has stopped all agents or an agent, no call that
  comes in afterwards, over HTTP or over MCP, in any number, order and mixture, reaches a backend
  under a stopped agent's name, and the stop is still in force after them, in memory and in the
  table. A stopped session's calls are refused in the same way, whoever makes them.
\<close>

theorem stop_holds_until_lifted:
  assumes "\<And>s. gw_Approvals g = Some s \<Longrightarrow> approvals_inv s"
    and "handleCreateHalt q r (Some req) g = Some (HaltOpened hl n m, g1)"
  shows "\<exists>new s. gw_forwarded (fold (\<lambda>x g. snd (visit_enter x g)) xs g1) = gw_forwarded g @ new
    \<and> gw_Halts (fold (\<lambda>x g. snd (visit_enter x g)) xs g1) = Some s \<and> standing hl s
    \<and> (\<forall>x \<in> set new. h_Scope hl \<noteq> ''all'' \<and> \<not> (h_Scope hl = ''agent'' \<and> Glob (h_Target hl) (fw_Agent x)))
    \<and> (\<forall>q' a. Covers hl a (h_Target hl) \<longrightarrow> halted q' a (h_Target hl) (fold (\<lambda>x g. snd (visit_enter x g)) xs g1))"
proof -
  obtain hs hs1 rv where
    st: "halt_Start (qe_halt q) (qe_newID q) (rq_Scope req) (rq_Target req) (rq_Reason req) (operator (rq_By req) r) hs
       = (Inr (hl, True), hs1)"
    and H: "gw_Halts g1 = Some (if rv = [] then hs1 else RecordRevoked (qe_halt q) (qe_newID q) rv hs1)"
    and F: "gw_forwarded g1 = gw_forwarded g"
    by (rule handleCreateHalt_openedE [OF assms]) simp_all
  let ?hs2 = "if rv = [] then hs1 else RecordRevoked (qe_halt q) (qe_newID q) rv hs1"
  have "standing hl ?hs2" using started_stands [OF st] standing_RecordRevoked by simp
  from doors.stopped_stay_out [OF H this, of xs] obtain new s where
    n: "gw_forwarded (doors.visits xs g1) = gw_forwarded g @ new" "gw_Halts (doors.visits xs g1) = Some s"
      "standing hl s" "\<forall>x \<in> set new. \<exists>sid. \<not> Covers hl (fw_Agent x) sid"
    unfolding F by blast
  moreover have "\<forall>q' a. Covers hl a (h_Target hl) \<longrightarrow> halted q' a (h_Target hl) (doors.visits xs g1)"
    using doors.standing_halts [OF n(2,3)] by blast
  ultimately show ?thesis unfolding doors.visits_def by (intro exI [of _ new] exI [of _ s]) (auto simp: Covers_def)
qed

theorem stop_holds_until_lifted_witness:
  "\<exists>hl n m g1. handleCreateHalt demo_request demo_call (Some demo_stop) demo_control = Some (HaltOpened hl n m, g1)
     \<and> gw_forwarded (fold (\<lambda>x g. snd (visit_enter x g))
          [AtHttp demo_request demo_call (Some None),
           AtMcp Mcp_Server.demo_env demo_session (NewContext demo_draw [] []) ''t'' None] g1) = []"
proof -
  let ?xs = "[AtHttp demo_request demo_call (Some None),
    AtMcp Mcp_Server.demo_env demo_session (NewContext demo_draw [] []) ''t'' None]"
  obtain hl n m g1 where h:
      "handleCreateHalt demo_request demo_call (Some demo_stop) demo_control = Some (HaltOpened hl n m, g1)"
    using demo_lifted by (auto split: option.splits prod.splits halt_answer.splits)
  have "h_Scope hl = ''all''" by (rule demo_stop_scope [OF h])
  moreover have "gw_forwarded demo_control = []" by (simp add: demo_control_def demo_gateway_def)
  ultimately have "gw_forwarded (fold (\<lambda>x g. snd (visit_enter x g)) ?xs g1) = []"
    using stop_holds_until_lifted [OF demo_approvals h, of ?xs] by (metis append_Nil list.set_cases neq_Nil_conv list.set_intros(1))
  with h show ?thesis by blast
qed

text \<open>
  A waiting call looks at its approval only: one that was approved before the stop was opened runs
  after it.
\<close>

lemma waiting_call_ignores_stops:
  "resume_call q w (g\<lparr>gw_Halts := h\<rparr>)
     = map_option (\<lambda>(answer, g'). (answer, g'\<lparr>gw_Halts := h\<rparr>)) (resume_call q w g)"
  by (simp add: resume_call_def run_approved_def forward_def record_usage_def update_trace_def Let_def case_prod_unfold
      split: option.split status.split)

end
