(* ===== verification/Transports.thy ===== *)
theory Transports
  imports Mcp_Sessions
begin

text \<open>
  How the mesh speaks to upstream servers (\<open>mcp/transport_sse.go\<close>, \<open>mcp/transport_streamable.go\<close>,
  \<open>mcp/transport_stdio.go\<close>): the framing of messages, the address requests are posted to, the
  redirects that are followed. And the relay of a standard input to a running daemon
  (\<open>cmd/mesh7/proxy_stdio.go\<close>). The parser of URLs (scheme and host) and the answers of the servers
  are arguments; a stream is the list of lines its scanner returns.
\<close>

type_synonym url_parser = "string \<Rightarrow> (string \<times> string) option"

section \<open>Origins and redirects\<close>

definition sameOrigin :: "url_parser \<Rightarrow> string \<Rightarrow> string \<Rightarrow> bool" where
  "sameOrigin pu a b =
     (case (pu a, pu b) of (Some ua, Some ub) \<Rightarrow> ua = ub | _ \<Rightarrow> False)"

fun Index :: "string \<Rightarrow> string \<Rightarrow> nat option" where
  "Index [] sub = (if sub = [] then Some 0 else None)"
| "Index (c # s) sub = (if prefix sub (c # s) then Some 0 else map_option Suc (Index s sub))"

definition resolveRelativeURL :: "string \<Rightarrow> string \<Rightarrow> string" where
  "resolveRelativeURL base relative =
     (case Index base ''://'' of
        None \<Rightarrow> relative
      | Some idx \<Rightarrow>
          (case Index (drop (idx + 3) base) ''/'' of
             None \<Rightarrow> base @ relative
           | Some hostEnd \<Rightarrow> take (idx + 3 + hostEnd) base @ relative))"

text \<open>
  A redirect policy looks at the requests made so far, the first one first, and at the next one.
  Without a policy of its own a client of \<open>net/http\<close> follows up to ten.
\<close>

definition CheckRedirect :: "url_parser \<Rightarrow> string list \<Rightarrow> string \<Rightarrow> string option" where
  "CheckRedirect pu via url =
     (if via = [] then None
      else if \<not> sameOrigin pu (hd via) url then Some ''cross-origin redirect refused''
      else if length via \<ge> 5 then Some ''too many redirects''
      else None)"

definition default_redirect :: "string list \<Rightarrow> string \<Rightarrow> string option" where
  "default_redirect via url = (if length via \<ge> 10 then Some ''stopped after 10 redirects'' else None)"

text \<open>The requests a client makes from a URL on; \<open>redirects\<close> is where each server sends it.\<close>

fun follow ::
  "(string list \<Rightarrow> string \<Rightarrow> string option) \<Rightarrow> (string \<Rightarrow> string option) \<Rightarrow> nat \<Rightarrow> string list \<Rightarrow> string
     \<Rightarrow> string list \<times> string option" where
  "follow policy redirects 0 via url = (via @ [url], Some ''out of fuel'')"
| "follow policy redirects (Suc fuel) via url =
     (case redirects url of
        None \<Rightarrow> (via @ [url], None)
      | Some url1 \<Rightarrow>
          (case policy (via @ [url]) url1 of
             Some e \<Rightarrow> (via @ [url], Some e)
           | None \<Rightarrow> follow policy redirects fuel (via @ [url]) url1))"

section \<open>Server-sent events\<close>

text \<open>
  The SSE transport while it reads: where to post, how often the channel \<open>postReady\<close> was closed (a
  second time would panic), the event being read, the messages handed on.
\<close>

record sse =
  se_URL :: string
  se_Headers :: "(string \<times> string) list"
  se_postURL :: string
  se_ready :: nat
  se_event :: string
  se_data :: "string list"
  se_out :: "string list"

definition newSSETransport :: "string \<Rightarrow> (string \<times> string) list \<Rightarrow> sse" where
  "newSSETransport url headers =
     \<lparr>se_URL = url, se_Headers = headers, se_postURL = [], se_ready = 0, se_event = [], se_data = [], se_out = []\<rparr>"

definition handleSSEEvent :: "url_parser \<Rightarrow> string \<Rightarrow> string \<Rightarrow> sse \<Rightarrow> sse" where
  "handleSSEEvent pu eventType data t =
     (if eventType = ''endpoint'' then
        (let d = TrimSpace data;
             postURL = (if HasPrefix d ''http'' then d else resolveRelativeURL (se_URL t) d) in
         if \<not> sameOrigin pu (se_URL t) postURL then t
         else t\<lparr>se_postURL := postURL, se_ready := (if se_postURL t = [] then Suc (se_ready t) else se_ready t)\<rparr>)
      else if eventType = ''message'' \<or> eventType = [] then
        (if data \<noteq> [] then t\<lparr>se_out := se_out t @ [data]\<rparr> else t)
      else t)"

definition data_of :: "string \<Rightarrow> string" where
  "data_of line = TrimSpace (TrimPrefix line ''data:'')"

definition sse_line :: "url_parser \<Rightarrow> string \<Rightarrow> sse \<Rightarrow> sse" where
  "sse_line pu line t =
     (if line = [] then
        (if se_data t \<noteq> [] then handleSSEEvent pu (se_event t) (Join (se_data t) [CHR 0x0A]) t else t)
          \<lparr>se_event := [], se_data := []\<rparr>
      else if HasPrefix line ''event:'' then t\<lparr>se_event := TrimSpace (TrimPrefix line ''event:'')\<rparr>
      else if HasPrefix line ''data:'' then t\<lparr>se_data := se_data t @ [data_of line]\<rparr>
      else t)"

definition sse_ReadLoop :: "url_parser \<Rightarrow> string list \<Rightarrow> sse \<Rightarrow> sse" where
  "sse_ReadLoop pu stream t = fold (sse_line pu) stream t"

text \<open>Opening the stream: the answer of the server, a status or an error.\<close>

definition sse_Start :: "string + int \<Rightarrow> string option" where
  "sse_Start answer =
     (case answer of
        Inl e \<Rightarrow> Some (''SSE connect: '' @ e)
      | Inr status \<Rightarrow> if status \<noteq> 200 then Some (''SSE connect: status '' @ Itoa status) else None)"

definition set_headers :: "(string \<times> string) list \<Rightarrow> (string \<times> string) list \<Rightarrow> (string \<times> string) list" where
  "set_headers headers own = fold (\<lambda>(k, v). AList.update k v) headers own"

text \<open>Posting a request: what is posted, when the endpoint is known, and the error for the caller.\<close>

definition sse_request :: "string \<Rightarrow> sse \<Rightarrow> (string \<times> (string \<times> string) list \<times> string) option" where
  "sse_request data t =
     (if se_ready t = 0 then None
      else Some (se_postURL t, set_headers (se_Headers t) [(''Content-Type'', ''application/json'')], data))"

definition sse_WriteRequest ::
  "(string \<times> (string \<times> string) list \<times> string \<Rightarrow> string + int) \<Rightarrow> string \<Rightarrow> sse \<Rightarrow> string option" where
  "sse_WriteRequest post data t =
     (case sse_request data t of
        None \<Rightarrow> Some ''SSE endpoint not discovered within timeout''
      | Some req \<Rightarrow>
          (case post req of
             Inl e \<Rightarrow> Some (''SSE POST: '' @ e)
           | Inr status \<Rightarrow> if status \<ge> 400 then Some (''SSE POST: status '' @ Itoa status) else None))"

section \<open>Streamable HTTP\<close>

record streamable =
  sm_URL :: string
  sm_Headers :: "(string \<times> string) list"
  sm_session :: string
  sm_incoming :: "string list"
  sm_closed :: bool

definition newStreamableTransport :: "string \<Rightarrow> (string \<times> string) list \<Rightarrow> streamable" where
  "newStreamableTransport url headers =
     \<lparr>sm_URL = url, sm_Headers = headers, sm_session = [], sm_incoming = [], sm_closed = False\<rparr>"

definition streamable_Start :: "url_parser \<Rightarrow> streamable \<Rightarrow> string option" where
  "streamable_Start pu t =
     (case pu (sm_URL t) of
        None \<Rightarrow> Some ''parse endpoint''
      | Some (scheme, host) \<Rightarrow>
          if scheme \<noteq> ''http'' \<and> scheme \<noteq> ''https''
          then Some (''endpoint must be http or https, got '' @ Quote scheme) else None)"

definition deliver :: "string \<Rightarrow> streamable \<Rightarrow> streamable" where
  "deliver msg t = (if sm_closed t then t else t\<lparr>sm_incoming := sm_incoming t @ [msg]\<rparr>)"

definition flush_data :: "string list \<Rightarrow> streamable \<Rightarrow> streamable" where
  "flush_data dataLines t =
     (let payload = Join dataLines [CHR 0x0A] in
      if dataLines = [] \<or> TrimSpace payload = [] then t else deliver payload t)"

fun consumeSSE :: "string list \<Rightarrow> string list \<Rightarrow> streamable \<Rightarrow> streamable" where
  "consumeSSE [] dataLines t = flush_data dataLines t"
| "consumeSSE (line # stream) dataLines t =
     (if line = [] then consumeSSE stream [] (flush_data dataLines t)
      else if HasPrefix line ''data:'' then consumeSSE stream (dataLines @ [data_of line]) t
      else consumeSSE stream dataLines t)"

record stream_answer =
  sa_Status :: int
  sa_Session :: string
  sa_ContentType :: string
  sa_Body :: "string option"
  sa_Lines :: "string list"

definition streamable_request :: "string \<Rightarrow> streamable \<Rightarrow> string \<times> (string \<times> string) list \<times> string" where
  "streamable_request data t =
     (let h = set_headers (sm_Headers t)
                [(''Content-Type'', ''application/json''), (''Accept'', ''application/json, text/event-stream'')] in
      (sm_URL t, if sm_session t \<noteq> [] then AList.update ''Mcp-Session-Id'' (sm_session t) h else h, data))"

definition streamable_WriteRequest ::
  "(string \<times> (string \<times> string) list \<times> string \<Rightarrow> string + stream_answer) \<Rightarrow> string \<Rightarrow> streamable
     \<Rightarrow> string option \<times> streamable" where
  "streamable_WriteRequest post data t =
     (case post (streamable_request data t) of
        Inl e \<Rightarrow> (Some (''streamable HTTP POST: '' @ e), t)
      | Inr a \<Rightarrow>
          (let t1 = (if sa_Session a \<noteq> [] then t\<lparr>sm_session := sa_Session a\<rparr> else t) in
           if sa_Status a \<ge> 400
           then (Some (''streamable HTTP POST: status '' @ Itoa (sa_Status a) @ '': ''
                   @ TrimSpace (take 4096 (case sa_Body a of None \<Rightarrow> [] | Some b \<Rightarrow> b))), t1)
           else if sa_Status a = 202 then (None, t1)
           else if Contains (sa_ContentType a) ''text/event-stream'' then (None, consumeSSE (sa_Lines a) [] t1)
           else
             (case sa_Body a of
                None \<Rightarrow> (Some ''streamable HTTP read body'', t1)
              | Some body \<Rightarrow> (None, if TrimSpace body \<noteq> [] then deliver body t1 else t1))))"

text \<open>\<open>Close\<close> and the request that ends the session, if there is one.\<close>

definition streamable_Close :: "streamable \<Rightarrow> (string \<times> (string \<times> string) list) option \<times> streamable" where
  "streamable_Close t =
     (if sm_session t = [] then None
      else Some (sm_URL t, set_headers (sm_Headers t) [(''Mcp-Session-Id'', sm_session t)]),
      t\<lparr>sm_closed := True\<rparr>)"

section \<open>Standard input and output\<close>

definition stdio_WriteRequest :: "string \<Rightarrow> string" where
  "stdio_WriteRequest data = data @ [CHR 0x0A]"

text \<open>The last piece of the stream has no line end and is dropped.\<close>

definition stdio_ReadLoop :: "string \<Rightarrow> string list" where
  "stdio_ReadLoop stream = filter (\<lambda>l. l \<noteq> []) (map TrimSpace (butlast (Split (CHR 0x0A) stream)))"

text \<open>
  The command of the upstream: its own variables come after those of the mesh, \<open>environ\<close>; with none
  of its own it inherits them (\<open>None\<close>). Starting it: the error of each pipe, then of the start.
\<close>

definition newStdioTransport :: "string list \<Rightarrow> (string \<times> string) list \<Rightarrow> string list option" where
  "newStdioTransport environ env =
     (if env = [] then None else Some (environ @ map (\<lambda>(k, v). k @ ''='' @ v) env))"

definition stdio_Start ::
  "string option \<Rightarrow> string option \<Rightarrow> string option \<Rightarrow> string option \<Rightarrow> string option" where
  "stdio_Start stdin stdout stderr process =
     (case stdin of Some e \<Rightarrow> Some (''stdin pipe: '' @ e)
      | None \<Rightarrow>
          (case stdout of Some e \<Rightarrow> Some (''stdout pipe: '' @ e)
           | None \<Rightarrow>
               (case stderr of Some e \<Rightarrow> Some (''stderr pipe: '' @ e)
                | None \<Rightarrow> map_option (\<lambda>e. ''start process: '' @ e) process)))"

datatype stdio_effect = CloseStdin | KillProcess | AwaitExit

definition stdio_Close :: "bool \<Rightarrow> bool \<Rightarrow> stdio_effect list" where
  "stdio_Close piped started =
     (if piped then [CloseStdin] else []) @ (if \<not> started then [] else [KillProcess, AwaitExit])"

section \<open>Properties\<close>

definition post_ok :: "url_parser \<Rightarrow> string \<Rightarrow> sse \<Rightarrow> bool" where
  "post_ok pu url t =
     (se_URL t = url \<and> (se_ready t > 0 \<longrightarrow> sameOrigin pu url (se_postURL t))
      \<and> (Index url ''://'' \<noteq> None \<longrightarrow> se_ready t = (if se_postURL t = [] then 0 else 1)))"

lemma Index_take: "Index s sub = Some i \<Longrightarrow> take (i + length sub) s \<noteq> [] \<or> sub = []"
  by (induction s arbitrary: i) (auto split: if_splits)

lemma resolveRelativeURL_nonempty:
  assumes "Index base ''://'' \<noteq> None"
  shows "resolveRelativeURL base relative \<noteq> []"
proof -
  from assms obtain i where i: "Index base ''://'' = Some i" by auto
  then have "base \<noteq> []" by (cases base) auto
  then show ?thesis using i by (auto simp: resolveRelativeURL_def split: option.split)
qed

lemma handleSSEEvent_post: "post_ok pu url t \<Longrightarrow> post_ok pu url (handleSSEEvent pu ev data t)"
  using resolveRelativeURL_nonempty [of url "TrimSpace data"]
  by (auto simp: post_ok_def handleSSEEvent_def HasPrefix_def Let_def split: if_splits)

lemma post_ok_cong [simp]: "post_ok pu url (t\<lparr>se_event := e, se_data := d\<rparr>) = post_ok pu url t"
  "post_ok pu url (t\<lparr>se_event := e\<rparr>) = post_ok pu url t" "post_ok pu url (t\<lparr>se_data := d\<rparr>) = post_ok pu url t"
  by (simp_all add: post_ok_def)

lemma sse_line_post: "post_ok pu url t \<Longrightarrow> post_ok pu url (sse_line pu line t)"
  by (simp add: sse_line_def handleSSEEvent_post)

lemma sse_ReadLoop_post: "post_ok pu url t \<Longrightarrow> post_ok pu url (sse_ReadLoop pu stream t)"
  unfolding sse_ReadLoop_def by (induction stream arbitrary: t) (simp_all add: sse_line_post)


text \<open>Scheme and host of an absolute URL, enough for the examples.\<close>

definition demo_url :: url_parser where
  "demo_url u =
     (case Index u ''://'' of
        None \<Rightarrow> Some ([], [])
      | Some i \<Rightarrow> Some (take i u, takeWhile (\<lambda>c. c \<noteq> CHR ''/'') (drop (i + 3) u)))"

definition demo_stream :: "string list" where
  "demo_stream =
     [''event: endpoint'', ''data: http://evil.example/rpc'', [], ''event: endpoint'', ''data: /messages?id=1'', []]"


lemma follow_stays:
  assumes "follow (CheckRedirect pu) redirects fuel via url = (visited, e)" "length via + fuel \<ge> 6" "length via \<le> 4"
    and "\<forall>v \<in> set (via @ [url]). v = hd (via @ [url]) \<or> sameOrigin pu (hd (via @ [url])) v"
  shows "length visited \<le> 5 \<and> hd visited = hd (via @ [url]) \<and> e \<noteq> Some ''out of fuel''
    \<and> (\<forall>v \<in> set visited. v = hd (via @ [url]) \<or> sameOrigin pu (hd (via @ [url])) v)"
  using assms
proof (induction fuel arbitrary: via url)
  case (Suc fuel)
  show ?case
  proof (cases "redirects url")
    case None
    with Suc.prems show ?thesis by auto
  next
    case (Some url1)
    show ?thesis
    proof (cases "CheckRedirect pu (via @ [url]) url1")
      case bad: (Some e1)
      then have "e1 \<noteq> ''out of fuel''" by (auto simp: CheckRedirect_def split: if_splits)
      with bad Some Suc.prems show ?thesis by auto
    next
      case None
      then have ok: "sameOrigin pu (hd (via @ [url])) url1" "length (via @ [url]) < 5"
        by (auto simp: CheckRedirect_def split: if_splits)
      have h: "hd ((via @ [url]) @ [url1]) = hd (via @ [url])" by (cases via) simp_all
      have run: "follow (CheckRedirect pu) redirects fuel (via @ [url]) url1 = (visited, e)"
        using Suc.prems(1) Some None by simp
      have "\<forall>v \<in> set ((via @ [url]) @ [url1]). v = hd ((via @ [url]) @ [url1]) \<or> sameOrigin pu (hd ((via @ [url]) @ [url1])) v"
        using Suc.prems(4) ok(1) unfolding h by auto
      from Suc.IH [OF run _ _ this] ok(2) Suc.prems(2) show ?thesis unfolding h by auto
    qed
  qed
qed auto

text \<open>
  Neither do redirects lead a request away from its server: over the streamable transport every
  address contacted has the scheme and the host of the endpoint, there are at most five, and the
  chain ends.
\<close>

theorem redirects_stay_on_origin:
  assumes "follow (CheckRedirect pu) redirects 10 [] url = (visited, e)"
  shows "length visited \<le> 5 \<and> e \<noteq> Some ''out of fuel''
    \<and> (\<forall>v \<in> set visited. v = url \<or> sameOrigin pu url v)"
  using follow_stays [OF assms] by simp

definition demo_redirects :: "string \<Rightarrow> string option" where
  "demo_redirects u =
     (if u = ''http://a.example/mcp'' then Some ''http://a.example/v2/mcp''
      else if u = ''http://a.example/v2/mcp'' then Some ''http://evil.example/mcp'' else None)"

theorem redirects_stay_on_origin_witness:
  "follow (CheckRedirect demo_url) demo_redirects 10 [] ''http://a.example/mcp''
     = ([''http://a.example/mcp'', ''http://a.example/v2/mcp''], Some ''cross-origin redirect refused'')
   \<and> sameOrigin demo_url ''http://a.example/mcp'' ''http://a.example/v2/mcp''"
proof -
  have r: "follow (CheckRedirect demo_url) demo_redirects 10 [] ''http://a.example/mcp''
     = ([''http://a.example/mcp'', ''http://a.example/v2/mcp''], Some ''cross-origin redirect refused'')" by code_simp
  from redirects_stay_on_origin [OF r] r show ?thesis by simp
qed

text \<open>The POST client of the SSE transport has no such policy: a redirect takes the request anywhere.\<close>

lemma sse_redirect_leaves_origin:
  "follow default_redirect demo_redirects 10 [] ''http://a.example/mcp''
     = ([''http://a.example/mcp'', ''http://a.example/v2/mcp'', ''http://evil.example/mcp''], None)
   \<and> \<not> sameOrigin demo_url ''http://a.example/mcp'' ''http://evil.example/mcp''"
  by code_simp

section \<open>Framing\<close>

text \<open>
  A message as an event stream carries it: one \<open>data:\<close> line for each of its lines and an empty line.
  The readers trim each line, so the lines of a plain message have no spaces at their ends.
\<close>

definition data_line :: "string \<Rightarrow> string" where
  "data_line l = ''data: '' @ l"

definition sse_frame :: "string \<Rightarrow> string list" where
  "sse_frame m = map data_line (Split (CHR 0x0A) m) @ [[]]"

definition plain_message :: "string \<Rightarrow> bool" where
  "plain_message m = (TrimSpace m \<noteq> [] \<and> list_all (\<lambda>l. TrimSpace l = l) (Split (CHR 0x0A) m))"

lemma data_line [simp]:
  "data_line l \<noteq> []" "HasPrefix (data_line l) ''data:''" "\<not> HasPrefix (data_line l) ''event:''"
  "TrimSpace l = l \<Longrightarrow> data_of (data_line l) = l"
  by (simp_all add: data_line_def HasPrefix_def data_of_def TrimPrefix_def TrimSpace_def is_space_def)

lemma consume_data:
  "list_all (\<lambda>l. TrimSpace l = l) ls \<Longrightarrow>
   consumeSSE (map data_line ls @ [] # stream) ds t = consumeSSE stream [] (flush_data (ds @ ls) t)"
  by (induction ls arbitrary: ds) simp_all

lemma flush_sse_frame: "plain_message m \<Longrightarrow> flush_data (Split (CHR 0x0A) m) t = deliver m t"
  by (simp add: flush_data_def plain_message_def)

lemma fold_deliver: "\<not> sm_closed t \<Longrightarrow> fold deliver ms t = t\<lparr>sm_incoming := sm_incoming t @ ms\<rparr>"
  by (induction ms arbitrary: t) (simp_all add: deliver_def)

lemma sse_data_lines:
  "list_all (\<lambda>l. TrimSpace l = l) ls \<Longrightarrow>
   fold (sse_line pu) (map data_line ls) t = t\<lparr>se_data := se_data t @ ls\<rparr>"
  by (induction ls arbitrary: t) (simp_all add: sse_line_def)

lemma plain_message_nonempty: "plain_message m \<Longrightarrow> m \<noteq> []"
  by (auto simp: plain_message_def TrimSpace_def)

text \<open>
  What the three readers share: on a frame an idle reader takes its message and is idle again, so
  frames one after the other give their messages in order, whatever follows them.
\<close>

locale framing =
  fixes frame :: "string \<Rightarrow> 'w list"
    and receive :: "'w list \<Rightarrow> 's \<Rightarrow> 's"
    and took :: "string \<Rightarrow> 's \<Rightarrow> 's"
    and idle :: "'s \<Rightarrow> bool"
    and sound :: "string \<Rightarrow> bool"
  assumes receive_frame: "sound m \<Longrightarrow> idle s \<Longrightarrow> receive (frame m @ w) s = receive w (took m s)"
    and stays_idle: "sound m \<Longrightarrow> idle s \<Longrightarrow> idle (took m s)"
begin

lemma receive_frames:
  "list_all sound ms \<Longrightarrow> idle s \<Longrightarrow> receive (concat (map frame ms) @ w) s = receive w (fold took ms s)"
  by (induction ms arbitrary: s) (simp_all add: receive_frame stays_idle)

lemma receive_all: "list_all sound ms \<Longrightarrow> idle s \<Longrightarrow> receive (concat (map frame ms)) s = receive [] (fold took ms s)"
  using receive_frames [of ms s "[]"] by simp

end

definition sse_take :: "string \<Rightarrow> sse \<Rightarrow> sse" where
  "sse_take m t = t\<lparr>se_out := se_out t @ [m]\<rparr>"

definition sse_idle :: "sse \<Rightarrow> bool" where
  "sse_idle t = (se_event t = [] \<and> se_data t = [])"

interpretation streamable_framing: framing sse_frame "\<lambda>w. consumeSSE w []" deliver "\<lambda>_. True" plain_message
proof (unfold_locales, goal_cases)
  case (1 m t w)
  then have "list_all (\<lambda>l. TrimSpace l = l) (Split (CHR 0x0A) m)" by (simp add: plain_message_def)
  then show ?case using 1 by (simp add: sse_frame_def consume_data flush_sse_frame)
qed simp

interpretation sse_framing: framing sse_frame "sse_ReadLoop pu" sse_take sse_idle plain_message for pu
proof (unfold_locales, goal_cases)
  case (1 m t w)
  then have "list_all (\<lambda>l. TrimSpace l = l) (Split (CHR 0x0A) m)" "m \<noteq> []"
    using plain_message_nonempty by (auto simp: plain_message_def)
  then have "fold (sse_line pu) (sse_frame m) t = sse_take m t"
    using 1(2) by (simp add: sse_frame_def sse_data_lines sse_line_def handleSSEEvent_def sse_take_def sse_idle_def)
  then show ?case by (simp add: sse_ReadLoop_def)
qed (simp add: sse_take_def sse_idle_def)

definition plain_text_line :: "string \<Rightarrow> bool" where
  "plain_text_line m = (CHR 0x0A \<notin> set m \<and> TrimSpace m = m \<and> m \<noteq> [])"

interpretation stdio_framing: framing stdio_WriteRequest "\<lambda>w ms. ms @ stdio_ReadLoop w" "\<lambda>m ms. ms @ [m]" "\<lambda>_. True"
  plain_text_line
  by unfold_locales (simp_all add: stdio_WriteRequest_def stdio_ReadLoop_def Split_append plain_text_line_def)

lemma fold_sse_take: "fold sse_take ms t = t\<lparr>se_out := se_out t @ ms\<rparr>"
  by (induction ms arbitrary: t) (simp_all add: sse_take_def)

lemma fold_collect: "fold (\<lambda>m ms. ms @ [m]) ms acc = acc @ ms"
  by (induction ms arbitrary: acc) simp_all

lemma plain_line: "CHR 0x0A \<notin> set m \<Longrightarrow> plain_message m \<Longrightarrow> TrimSpace m = m \<and> m \<noteq> []"
  using Split_last [of "CHR 0x0A" m] plain_message_nonempty [of m] by (auto simp: plain_message_def)



text \<open>The session an answer gives is in the header of the next request.\<close>

lemma session_is_echoed:
  assumes "sm_session t = s" "s \<noteq> []"
  shows "map_of (fst (snd (streamable_request data t))) ''Mcp-Session-Id'' = Some s"
  using assms by (simp add: streamable_request_def Let_def update_conv')

lemma flush_session [simp]: "sm_session (flush_data ds t) = sm_session t"
  by (simp add: flush_data_def deliver_def Let_def)

lemma consume_session [simp]: "sm_session (consumeSSE stream ds t) = sm_session t"
  by (induction stream arbitrary: ds t) simp_all

lemma WriteRequest_session:
  "sm_session (snd (streamable_WriteRequest post data t))
     = (case post (streamable_request data t) of
          Inl _ \<Rightarrow> sm_session t
        | Inr a \<Rightarrow> if sa_Session a \<noteq> [] then sa_Session a else sm_session t)"
  by (auto simp: streamable_WriteRequest_def deliver_def Let_def split: sum.split option.split)

end
