(* ===== verification/Stdio_Proxy.thy ===== *)
theory Stdio_Proxy
  imports Transports
begin

text \<open>
  \<open>mesh7 --mcp\<close> beside a running daemon (\<open>cmd/mesh7/proxy_stdio.go\<close>): whether it relays to the
  daemon it finds, and the relay of its standard input to the daemon's \<open>/mcp\<close>. The answers of the
  daemon and the hash of a path are arguments.
\<close>

section \<open>Which daemon\<close>

text \<open>The absolute path when it can be made, and the path behind its links when they resolve.\<close>

definition configID ::
  "(string \<Rightarrow> string option) \<Rightarrow> (string \<Rightarrow> string option) \<Rightarrow> (string \<Rightarrow> string) \<Rightarrow> string \<Rightarrow> string" where
  "configID absolute resolved hash8 path =
     (if path = [] then []
      else
        (let abs = (case absolute path of None \<Rightarrow> path | Some p \<Rightarrow> p);
             real = (case resolved abs of None \<Rightarrow> abs | Some p \<Rightarrow> p) in
         hash8 real))"

text \<open>The answer of \<open>/health\<close>: a status and the config it names, \<open>None\<close> without an answer.\<close>

definition daemonOnPort :: "(int \<times> string) option \<Rightarrow> bool \<times> string" where
  "daemonOnPort answer =
     (case answer of
        None \<Rightarrow> (False, [])
      | Some (status, config) \<Rightarrow> if status \<noteq> 200 then (False, []) else (True, config))"

datatype relay = Relay | RelayUnchecked | OtherConfig

definition proxyDecision :: "string \<Rightarrow> string \<Rightarrow> relay" where
  "proxyDecision mine theirs =
     (if theirs = [] then RelayUnchecked else if theirs = mine then Relay else OtherConfig)"

section \<open>The relay\<close>

record proxy_request =
  px_Method :: string
  px_Authorization :: string
  px_Session :: string
  px_Body :: string

record proxy_answer =
  py_Status :: int
  py_Session :: string
  py_Body :: "string option"

definition auth_header :: "string \<Rightarrow> string \<Rightarrow> string" where
  "auth_header agentID token = (if token \<noteq> [] then ''Bearer '' @ token else ''Bearer agent:'' @ agentID)"

definition trim_line_end :: "string \<Rightarrow> string" where
  "trim_line_end body = rev (dropWhile (\<lambda>c. c = CHR 0x0D \<or> c = CHR 0x0A) (rev body))"

text \<open>
  The relay reads line by line. The daemon is a function of its own state: its answer to a request,
  or the error of the connection. The result holds the requests made, the lines written, the session
  at the end and the error that ended the relay, if any.
\<close>

record 'd relay_run =
  rl_daemon :: 'd
  rl_session :: string
  rl_requests :: "proxy_request list"
  rl_out :: "string list"

fun relay_lines ::
  "(proxy_request \<Rightarrow> 'd \<Rightarrow> (string + proxy_answer) \<times> 'd) \<Rightarrow> string \<Rightarrow> string list \<Rightarrow> 'd relay_run
     \<Rightarrow> string option \<times> 'd relay_run" where
  "relay_lines ask auth [] r = (None, r)"
| "relay_lines ask auth (line # lns) r =
     (if line = [] then relay_lines ask auth lns r
      else
        (let q = \<lparr>px_Method = ''POST'', px_Authorization = auth, px_Session = rl_session r, px_Body = line\<rparr> in
         case ask q (rl_daemon r) of
           (Inl e, d) \<Rightarrow>
             (Some (''proxy: daemon unreachable: '' @ e), r\<lparr>rl_daemon := d, rl_requests := rl_requests r @ [q]\<rparr>)
         | (Inr a, d) \<Rightarrow>
             (let r1 = r\<lparr>rl_daemon := d, rl_requests := rl_requests r @ [q],
                         rl_session := (if py_Session a \<noteq> [] then py_Session a else rl_session r)\<rparr> in
              if py_Status a = 202 then relay_lines ask auth lns r1
              else
                (case py_Body a of
                   None \<Rightarrow> (Some ''proxy: read response'', r1)
                 | Some body \<Rightarrow> relay_lines ask auth lns (r1\<lparr>rl_out := rl_out r1 @ [trim_line_end body]\<rparr>)))))"

definition final_delete :: "string \<Rightarrow> proxy_request" where
  "final_delete session = \<lparr>px_Method = ''DELETE'', px_Authorization = [], px_Session = session, px_Body = []\<rparr>"

definition runStdioProxyWith ::
  "(proxy_request \<Rightarrow> 'd \<Rightarrow> (string + proxy_answer) \<times> 'd) \<Rightarrow> string \<Rightarrow> string \<Rightarrow> string list \<Rightarrow> 'd
     \<Rightarrow> string option \<times> 'd relay_run" where
  "runStdioProxyWith ask agentID token lns d =
     (case relay_lines ask (auth_header agentID token) lns
             \<lparr>rl_daemon = d, rl_session = [], rl_requests = [], rl_out = []\<rparr> of
        (Some e, r) \<Rightarrow> (Some e, r)
      | (None, r) \<Rightarrow>
          if rl_session r = [] then (None, r)
          else
            (let q = final_delete (rl_session r) in
             (None, r\<lparr>rl_daemon := snd (ask q (rl_daemon r)), rl_requests := rl_requests r @ [q]\<rparr>)))"

section \<open>Properties\<close>

definition typed :: "string list \<Rightarrow> string list" where
  "typed lns = filter (\<lambda>l. l \<noteq> []) lns"

definition posts_ok :: "string \<Rightarrow> string list \<Rightarrow> proxy_request list \<Rightarrow> bool" where
  "posts_ok auth lns qs =
     (list_all (\<lambda>q. px_Method q = ''POST'' \<and> px_Authorization q = auth) qs
      \<and> map px_Body qs = take (length qs) (typed lns))"

lemma relay_lines_posts:
  assumes "relay_lines ask auth lns r = (e, r')"
  shows "\<exists>qs. rl_requests r' = rl_requests r @ qs \<and> posts_ok auth lns qs
    \<and> (e = None \<longrightarrow> length qs = length (typed lns)) \<and> length (rl_out r') \<le> length (rl_out r) + length qs"
  using assms
proof (induction lns arbitrary: r)
  case Nil
  then show ?case by (auto simp: posts_ok_def typed_def)
next
  case (Cons line lns)
  show ?case
  proof (cases "line = []")
    case True
    with Cons show ?thesis by (simp add: typed_def posts_ok_def)
  next
    case False
    let ?q = "\<lparr>px_Method = ''POST'', px_Authorization = auth, px_Session = rl_session r, px_Body = line\<rparr>"
    obtain x d where ask: "ask ?q (rl_daemon r) = (x, d)" by fastforce
    have one: "posts_ok auth (line # lns) [?q]" using False by (simp add: posts_ok_def typed_def)
    have more: "\<exists>qs. rl_requests r' = rl_requests r @ qs \<and> posts_ok auth (line # lns) qs
        \<and> (e = None \<longrightarrow> length qs = length (typed (line # lns))) \<and> length (rl_out r') \<le> length (rl_out r) + length qs"
      if run: "relay_lines ask auth lns r2 = (e, r')" and reqs: "rl_requests r2 = rl_requests r @ [?q]"
        and out: "length (rl_out r2) \<le> Suc (length (rl_out r))" for r2
    proof -
      from Cons.IH [OF run] obtain qs where "rl_requests r' = rl_requests r2 @ qs" "posts_ok auth lns qs"
        "e = None \<longrightarrow> length qs = length (typed lns)" "length (rl_out r') \<le> length (rl_out r2) + length qs" by blast
      then show ?thesis using False reqs out
        by (intro exI [of _ "?q # qs"]) (simp add: posts_ok_def typed_def)
    qed
    show ?thesis
    proof (cases x)
      case (Inl err)
      then show ?thesis using Cons.prems False ask one by (intro exI [of _ "[?q]"]) (auto simp: Let_def)
    next
      case (Inr a)
      let ?r1 = "r\<lparr>rl_daemon := d, rl_requests := rl_requests r @ [?q],
                    rl_session := (if py_Session a \<noteq> [] then py_Session a else rl_session r)\<rparr>"
      consider "py_Status a = 202" | "py_Status a \<noteq> 202" "py_Body a = None"
        | body where "py_Status a \<noteq> 202" "py_Body a = Some body" by blast
      then show ?thesis
      proof cases
        case 1
        then show ?thesis using Cons.prems False ask Inr by (intro more [of ?r1]) (simp_all add: Let_def)
      next
        case 2
        then show ?thesis using Cons.prems False ask Inr one by (intro exI [of _ "[?q]"]) (auto simp: Let_def)
      next
        case 3
        then show ?thesis using Cons.prems False ask Inr
          by (intro more [of "?r1\<lparr>rl_out := rl_out ?r1 @ [trim_line_end body]\<rparr>"]) (simp_all add: Let_def)
      qed
    qed
  qed
qed

text \<open>
  The relay adds nothing and loses nothing: its POST requests carry the lines of the input that are
  not empty, in order and each once, all of them when it ends without an error, under the credential
  of its agent; no more lines are written than were read, and a daemon without a validator takes
  that credential for the agent itself.
\<close>

theorem relay_speaks_for_its_agent:
  assumes "runStdioProxyWith ask agentID token lns d = (e, r)"
  shows "posts_ok (auth_header agentID token) lns (filter (\<lambda>q. px_Method q = ''POST'') (rl_requests r))
    \<and> (e = None \<longrightarrow> map px_Body (filter (\<lambda>q. px_Method q = ''POST'') (rl_requests r)) = typed lns)
    \<and> length (rl_out r) \<le> length (typed lns)
    \<and> ResolveIdentity (auth_header agentID []) None allowLegacy = Inr \<lparr>id_AgentID = agentID, id_UserID = []\<rparr>"
proof -
  let ?r0 = "\<lparr>rl_daemon = d, rl_session = [], rl_requests = [], rl_out = []\<rparr>"
  obtain e1 r1 where run: "relay_lines ask (auth_header agentID token) lns ?r0 = (e1, r1)" by fastforce
  from relay_lines_posts [OF run] obtain qs where qs: "rl_requests r1 = qs" "posts_ok (auth_header agentID token) lns qs"
    "e1 = None \<longrightarrow> length qs = length (typed lns)" "length (rl_out r1) \<le> length qs" by auto
  have posts: "filter (\<lambda>q. px_Method q = ''POST'') qs = qs"
    using qs(2) by (auto simp: posts_ok_def list_all_iff intro: filter_True)
  have "e = e1" "rl_out r = rl_out r1" "filter (\<lambda>q. px_Method q = ''POST'') (rl_requests r) = qs"
    using assms run posts qs(1)
    by (auto simp: runStdioProxyWith_def final_delete_def Let_def split: option.splits if_splits)
  moreover have "length qs \<le> length (typed lns)"
    using qs(2) by (metis length_map length_take min.cobounded1 posts_ok_def)
  moreover have "map px_Body qs = typed lns" if "e1 = None"
    using qs(2,3) that by (simp add: posts_ok_def)
  moreover have "ResolveIdentity (auth_header agentID []) None allowLegacy = Inr \<lparr>id_AgentID = agentID, id_UserID = []\<rparr>"
    by (simp add: ResolveIdentity_def auth_header_def TrimPrefix_def HasPrefix_def Let_def)
  ultimately show ?thesis using qs(2,4) by auto
qed

text \<open>A daemon that answers with the number of requests it has seen.\<close>

definition demo_daemon :: "proxy_request \<Rightarrow> nat \<Rightarrow> (string + proxy_answer) \<times> nat" where
  "demo_daemon q n =
     (Inr \<lparr>py_Status = (if n = 1 then 202 else 200), py_Session = (if n = 0 then ''s1'' else []),
           py_Body = Some (Itoa (int n) @ [CHR 0x0A])\<rparr>, Suc n)"

theorem relay_speaks_for_its_agent_witness:
  "rl_out (snd (runStdioProxyWith demo_daemon ''bot'' [] [''init'', [], ''note'', ''call''] 0)) = [''0'', ''2'']
   \<and> map px_Body (filter (\<lambda>q. px_Method q = ''POST'')
        (rl_requests (snd (runStdioProxyWith demo_daemon ''bot'' [] [''init'', [], ''note'', ''call''] 0))))
      = [''init'', ''note'', ''call'']"
proof -
  let ?run = "runStdioProxyWith demo_daemon ''bot'' [] [''init'', [], ''note'', ''call''] 0"
  have e: "fst ?run = None \<and> rl_out (snd ?run) = [''0'', ''2'']" by code_simp
  have "typed [''init'', [], ''note'', ''call''] = [''init'', ''note'', ''call'']" by (simp add: typed_def)
  moreover have "?run = (fst ?run, snd ?run)" by simp
  note relay_speaks_for_its_agent [OF this, of True]
  ultimately show ?thesis using e by simp
qed

text \<open>
  The request that should end the session names no agent, so the daemon refuses it and keeps the
  session of any agent but the anonymous one.
\<close>

lemma final_delete_is_refused:
  assumes "map_of (hh_sessions h) s = Some sv" "sv_AgentID sv \<noteq> ''anonymous''" "s \<noteq> []"
  shows "handleDelete \<lparr>mp_Authorization = px_Authorization (final_delete s), mp_SessionID = px_Session (final_delete s),
           mp_Traceparent = [], mp_XTraceId = [], mp_Body = None\<rparr> h
       = (if hh_RequireAuth h then PlainFailure 401 ''authentication required''
          else PlainFailure 403 ''session belongs to another agent'', h)"
  using assms
  by (simp add: handleDelete_def final_delete_def mcp_extractIdentity_def ResolveIdentity_def TrimPrefix_def Let_def)

text \<open>A daemon is used without a check only when it does not name its config.\<close>

lemma relay_to_own_config: "proxyDecision mine theirs = Relay \<Longrightarrow> theirs = mine"
  by (simp add: proxyDecision_def split: if_splits)

end
