(* ===== verification/Discover.thy ===== *)
theory Discover
  imports Upstreams
begin

text \<open>
  \<open>mesh7 discover\<close> (\<open>cmd/mesh7/discover.go\<close>): the tools of the configured servers, grouped by where they
  come from, and the draft policy it suggests for them. What the servers and the specification
  answer is an argument.
\<close>

section \<open>Groups\<close>

record tool_group =
  tg_label :: string
  tg_tools :: "tool list"

definition group_key :: "tool \<Rightarrow> string" where
  "group_key t = (if tl_MCPServer t \<noteq> [] then ''mcp:'' @ tl_MCPServer t else tl_Source t)"

definition group_label :: "string \<Rightarrow> string" where
  "group_label key =
     (if HasPrefix key ''mcp:'' then ''MCP server '' @ [CHR 0x22] @ TrimPrefix key ''mcp:'' @ [CHR 0x22]
      else if key = ''openapi'' then ''OpenAPI'' else key)"

text \<open>The groups stand in the order in which their first tools do.\<close>

definition groupTools :: "tool list \<Rightarrow> tool_group list" where
  "groupTools tools =
     map (\<lambda>key. \<lparr>tg_label = group_label key, tg_tools = filter (\<lambda>t. group_key t = key) tools\<rparr>)
       (rev (remdups (rev (map group_key tools))))"

section \<open>The draft policy\<close>

definition formatToolList :: "string list \<Rightarrow> string" where
  "formatToolList tools =
     (let quoted = map Quote tools; joined = Join quoted '', '' in
      if length joined > 80
      then nl @ ''          '' @ Join quoted ('','' @ nl @ ''          '') @ nl @ ''        ''
      else joined)"

definition access_text :: "access \<Rightarrow> string" where
  "access_text a = (case a of AccessRead \<Rightarrow> ''read'' | AccessWrite \<Rightarrow> ''write'' | AccessUnknown \<Rightarrow> ''unknown'')"

definition reason_line :: "tool \<Rightarrow> string" where
  "reason_line t =
     (let c = Classify (Some t);
          tag = (if cl_Family c = FamilyGeneric then ''GENERIC, the argument decides'' else access_text (cl_Access c)) in
      ''      #   '' @ tl_Name t @ '' ['' @ tag @ ''] '' @ Join (cl_Reasons c) ''; '')"

definition printRule :: "string \<Rightarrow> string \<Rightarrow> string \<Rightarrow> tool list \<Rightarrow> string list" where
  "printRule label what action tools =
     (if tools = [] then []
      else
        [''      # '' @ label @ '': '' @ what] @ map reason_line tools
        @ [''      - tools: ['' @ formatToolList (map tl_Name tools) @ '']'', ''        action: '' @ action])"

text \<open>The rules of a group, as \<open>printRule\<close> is called for them.\<close>

definition allowed :: "tool \<Rightarrow> bool" where
  "allowed t = (SuggestedAction (Classify (Some t)) = ''allow'')"

definition group_rules :: "tool_group \<Rightarrow> (string \<times> string \<times> tool list) list" where
  "group_rules g =
     [(''reads through a named tool'', ''allow'', filter allowed (tg_tools g)),
      (''writes, generic tools, or no signal'', ''human_approval'', filter (\<lambda>t. \<not> allowed t) (tg_tools g))]"

definition generatePolicy :: "tool_group list \<Rightarrow> string list" where
  "generatePolicy groups =
     [''policies:'', ''  - name: draft'', ''    agent: '' @ Quote ''*'', ''    rules:'']
     @ concat (map (\<lambda>g. concat (map (\<lambda>(what, action, tools). printRule (tg_label g) what action tools)
         (group_rules g))) groups)
     @ [[], ''  - name: default'', ''    agent: '' @ Quote ''*'', ''    rules:'',
        ''      - tools: ['' @ Quote ''*'' @ '']'', ''        action: deny'']"

text \<open>The same document as the data it spells: what reading it back as a configuration gives.\<close>

definition draft_policies :: "tool_group list \<Rightarrow> policy list" where
  "draft_policies groups =
     [\<lparr>p_Name = ''draft'', p_Agent = ''*'', p_RateLimit = None,
       p_Rules = concat (map (\<lambda>g. map (\<lambda>(what, action, tools).
           \<lparr>r_Tools = map tl_Name tools, r_Action = action, r_Condition = None\<rparr>)
         (filter (\<lambda>(what, action, tools). tools \<noteq> []) (group_rules g))) groups), p_SourceFile = []\<rparr>,
      \<lparr>p_Name = ''default'', p_Agent = ''*'', p_RateLimit = None,
       p_Rules = [\<lparr>r_Tools = [''*''], r_Action = ''deny'', r_Condition = None\<rparr>], p_SourceFile = []\<rparr>]"

section \<open>The command\<close>

datatype discover_source = NoSource | BadSpec string | BadConfig config_error | NothingConfigured | Discovered registry

text \<open>
  The registry \<open>runDiscover\<close> builds: the specification, then, with a configuration, its declared
  commands and what its servers answer. \<open>spec\<close> and \<open>cfg\<close> are what loading them gives, \<open>None\<close> where
  the flag is absent; a server that cannot be reached is skipped.
\<close>

definition discover_server ::
  "mcp_server_config \<times> string option \<times> (string + wire_tool list) \<Rightarrow> registry \<Rightarrow> registry" where
  "discover_server x reg =
     (case x of
        (sc, started, shaken) \<Rightarrow>
          (case new_upstream_client sc of
             None \<Rightarrow> reg
           | Some c0 \<Rightarrow>
               (case client_Connect started shaken c0 of
                  (Some e, _) \<Rightarrow> reg
                | (None, c) \<Rightarrow> LoadMCP (ms_Name sc) (convertMCPTools (client_Tools c)) reg)))"

definition discover_registry ::
  "(registry \<Rightarrow> string option \<times> registry) option \<Rightarrow> (config_error + config) option
     \<Rightarrow> (mcp_server_config \<Rightarrow> string option \<times> (string + wire_tool list)) \<Rightarrow> discover_source" where
  "discover_registry spec cfg answers =
     (if spec = None \<and> cfg = None then NoSource
      else
        (case (case spec of None \<Rightarrow> (None, registry_New) | Some load \<Rightarrow> load registry_New) of
           (Some e, _) \<Rightarrow> BadSpec e
         | (None, reg) \<Rightarrow>
             (case cfg of
                None \<Rightarrow> Discovered reg
              | Some (Inl e) \<Rightarrow> BadConfig e
              | Some (Inr c) \<Rightarrow>
                  if spec = None \<and> cfg_MCPServers c = [] \<and> cfg_CLITools c = [] then NothingConfigured
                  else
                    (let reg1 = (if cfg_CLITools c \<noteq> [] then LoadCLI (cfg_CLITools c) reg else reg) in
                     Discovered (fold (\<lambda>sc. discover_server (sc, answers sc)) (cfg_MCPServers c) reg1)))))"

text \<open>The listing: tools in the order of their names (\<open>names_before\<close> compares them bytewise), by group.\<close>

definition pad_right :: "nat \<Rightarrow> string \<Rightarrow> string" where
  "pad_right n s = s @ replicate (n - length s) (CHR '' '')"

definition tool_line :: "tool \<Rightarrow> string" where
  "tool_line t =
     (let desc = (if length (tl_Description t) > 60 then take 57 (tl_Description t) @ ''...'' else tl_Description t) in
      ''    '' @ pad_right 40 (tl_Name t) @ '' '' @ (if desc = [] then ''-'' else desc))"

definition discover_output :: "bool \<Rightarrow> tool list \<Rightarrow> string list" where
  "discover_output genPolicy tools =
     (if tools = [] then []
      else
        (let groups = groupTools tools in
         [[], ''Discovered '' @ Itoa (int (length tools)) @ '' tools:'']
         @ concat (map (\<lambda>g. [[], ''  '' @ tg_label g @ '' ('' @ Itoa (int (length (tg_tools g))) @ '' tools):'']
             @ map tool_line (tg_tools g)) groups)
         @ (if genPolicy
            then [[], ''# Draft policy: named reads allowed, everything else asks. Review each line.'',
                  ''# See docs/internal/design-tool-families.md.'', []] @ generatePolicy groups
            else [])))"

section \<open>Properties\<close>

lemma set_groupTools: "(\<Union>g \<in> set (groupTools tools). set (tg_tools g)) = set tools"
  by (auto simp: groupTools_def)

lemma groupTools_tool: "g \<in> set (groupTools tools) \<Longrightarrow> t \<in> set (tg_tools g) \<Longrightarrow> t \<in> set tools"
  by (auto simp: groupTools_def)

lemma matchTool_names:
  "list_all meta_free ns \<Longrightarrow> matchTool ns n \<longleftrightarrow> n \<in> set ns"
  by (induction ns) (auto simp: matchTool_def GlobAny_iff Glob_literal)

text \<open>A rule of the draft is for the tools of one group that are suggested its action.\<close>

lemma draft_rule:
  assumes "r \<in> set (p_Rules (hd (draft_policies (groupTools tools))))"
  shows "r_Condition r = None \<and> (\<forall>n \<in> set (r_Tools r). \<exists>t \<in> set tools. tl_Name t = n
    \<and> r_Action r = SuggestedAction (Classify (Some t)))"
  using assms groupTools_tool
  by (fastforce simp: draft_policies_def group_rules_def allowed_def SuggestedAction_def split: if_splits)

lemma draft_covers:
  assumes "t \<in> set tools"
  shows "\<exists>r \<in> set (p_Rules (hd (draft_policies (groupTools tools)))). tl_Name t \<in> set (r_Tools r)"
proof -
  obtain g where g: "g \<in> set (groupTools tools)" "t \<in> set (tg_tools g)" using assms set_groupTools [of tools] by auto
  show ?thesis
    using g by (cases "allowed t") (auto simp: draft_policies_def group_rules_def filter_empty_conv intro!: bexI [OF _ g(1)])
qed

lemma evaluate_rules_unconditional:
  "list_all (\<lambda>r. r_Condition r = None) rs \<Longrightarrow>
   evaluate_rules rt pol n ps rs = map_option (\<lambda>r. decide pol r n) (find (\<lambda>r. matchTool (r_Tools r) n) rs)"
  by (induction rs) auto


definition demo_tools :: "tool list" where
  "demo_tools = [no_tool\<lparr>tl_Name := ''fs.read_file'', tl_MCPServer := ''fs'', tl_Source := ''mcp''\<rparr>,
     no_tool\<lparr>tl_Name := ''fs.delete_file'', tl_MCPServer := ''fs'', tl_Source := ''mcp''\<rparr>]"


text \<open>A server that names a tool with a wildcard gets a rule that covers its other tools.\<close>

lemma wildcard_name_widens_the_draft:
  "d_Action (Evaluate rt (NewEngine (draft_policies (groupTools
       [no_tool\<lparr>tl_Name := ''fs.get_*'', tl_MCPServer := ''fs''\<rparr>,
        no_tool\<lparr>tl_Name := ''fs.get_and_delete'', tl_MCPServer := ''fs''\<rparr>]))) ''bot'' ''fs.get_and_delete'' None)
   = ''allow''
   \<and> SuggestedAction (Classify (Some (no_tool\<lparr>tl_Name := ''fs.get_and_delete'', tl_MCPServer := ''fs''\<rparr>)))
     = ''human_approval''"
  by code_simp

end
