(* ===== verification/Operator.thy ===== *)
theory Operator
  imports Router
begin

text \<open>
  The operator's command line (\<open>cmd/mesh/main.go\<close>, \<open>cmd/mesh/halt.go\<close>): flags, the requests each
  command sends to the control plane, and what it makes of the answers. The mesh on the other side
  is an argument, \<open>console\<close> instantiates it with the HTTP server of the mesh. A command is its exit
  code and its lines on the two outputs; table columns are separated by tabs. The text of an age, of
  a value and of the usage are arguments.
\<close>

section \<open>Requests and answers\<close>

datatype cli_request =
    CliPending
  | CliApproval string
  | CliResolve string string string
  | CliGrant grant_request
  | CliHalt halt_request
  | CliHalts
  | CliResume string string

record cli_approval =
  ca_ID :: string
  ca_AgentID :: string
  ca_Tool :: string
  ca_Params :: "(string \<times> gval) list"
  ca_TraceID :: string
  ca_PolicyRule :: string
  ca_Status :: string
  ca_CreatedAt :: time
  ca_Remaining :: string

definition no_approval :: cli_approval where
  "no_approval = \<lparr>ca_ID = [], ca_AgentID = [], ca_Tool = [], ca_Params = [], ca_TraceID = [], ca_PolicyRule = [],
     ca_Status = [], ca_CreatedAt = zero_time, ca_Remaining = []\<rparr>"

record cli_halt =
  ch_Halt :: halt
  ch_AlreadyActive :: bool
  ch_Revoked :: nat
  ch_Denied :: nat
  ch_Restored :: nat
  ch_Error :: string

definition no_halt :: halt where
  "no_halt = \<lparr>h_ID = [], h_Scope = [], h_Target = [], h_Reason = [], h_CreatedBy = [], h_CreatedAt = zero_time,
     h_ResumedBy = [], h_ResumedAt = zero_time, h_RevokedGrants = []\<rparr>"

text \<open>What a body decodes to. An object with an error decodes as any other with its fields empty.\<close>

datatype cli_body =
    ErrorBody string
  | ApprovalsBody "cli_approval list"
  | ApprovalBody cli_approval
  | GrantBody string string
  | HaltBody cli_halt
  | HaltsBody "halt list"

definition decode_approval :: "cli_body \<Rightarrow> cli_approval option" where
  "decode_approval b =
     (case b of ApprovalBody a \<Rightarrow> Some a | ErrorBody e \<Rightarrow> Some no_approval | _ \<Rightarrow> None)"

definition decode_halt :: "cli_body \<Rightarrow> cli_halt" where
  "decode_halt b =
     (let none = \<lparr>ch_Halt = no_halt, ch_AlreadyActive = False, ch_Revoked = 0, ch_Denied = 0, ch_Restored = 0,
        ch_Error = []\<rparr> in
      case b of HaltBody h \<Rightarrow> h | ErrorBody e \<Rightarrow> none\<lparr>ch_Error := e\<rparr> | _ \<Rightarrow> none)"

type_synonym 's cli_http = "cli_request \<Rightarrow> 's \<Rightarrow> (string + int \<times> cli_body) \<times> 's"

record cli_run =
  cr_Exit :: int
  cr_Out :: "string list"
  cr_Err :: "string list"

definition failed_with :: "string \<Rightarrow> cli_run" where
  "failed_with e = \<lparr>cr_Exit = 1, cr_Out = [], cr_Err = [e]\<rparr>"

definition printed :: "string list \<Rightarrow> cli_run" where
  "printed ls = \<lparr>cr_Exit = 0, cr_Out = ls, cr_Err = []\<rparr>"

abbreviation tab :: string where
  "tab \<equiv> [CHR 0x09]"

section \<open>Flags\<close>

fun approve_flags :: "string \<Rightarrow> string \<Rightarrow> string list \<Rightarrow> string + string \<times> string" where
  "approve_flags duration tools [] = Inr (duration, tools)"
| "approve_flags duration tools (f # fs) =
     (if f = ''--grant'' then
        (case fs of [] \<Rightarrow> Inl ''--grant needs a duration (e.g. 1h)'' | v # rest \<Rightarrow> approve_flags v tools rest)
      else if f = ''--tools'' then
        (case fs of [] \<Rightarrow> Inl ''--tools needs a pattern'' | v # rest \<Rightarrow> approve_flags duration v rest)
      else Inl (''unknown flag: '' @ f))"

definition parseApproveFlags :: "string list \<Rightarrow> string + string \<times> string" where
  "parseApproveFlags flags =
     (case approve_flags [] [] flags of
        Inl e \<Rightarrow> Inl e
      | Inr (duration, tools) \<Rightarrow>
          if tools \<noteq> [] \<and> duration = [] then Inl ''--tools only makes sense with --grant''
          else if duration \<noteq> [] \<and> ParseDuration duration = None then Inl (''invalid duration '' @ Quote duration)
          else Inr (duration, tools))"

text \<open>\<open>scopes\<close> counts the scopes given; a value does not begin with two dashes.\<close>

fun halt_flags :: "halt_request \<Rightarrow> nat \<Rightarrow> string list \<Rightarrow> string + halt_request \<times> nat" where
  "halt_flags req scopes [] = Inr (req, scopes)"
| "halt_flags req scopes (f # fs) =
     (if f = ''--all'' then halt_flags (req\<lparr>rq_Scope := ''all''\<rparr>) (Suc scopes) fs
      else if f \<in> {''--agent'', ''--session'', ''--reason''} then
        (case fs of
           [] \<Rightarrow> Inl (f @ '' needs a value'')
         | v # rest \<Rightarrow>
             if HasPrefix v ''--'' then Inl (f @ '' needs a value'')
             else if f = ''--reason'' then halt_flags (req\<lparr>rq_Reason := v\<rparr>) scopes rest
             else halt_flags (req\<lparr>rq_Scope := TrimPrefix f ''--'', rq_Target := v\<rparr>) (Suc scopes) rest)
      else Inl (''unknown flag: '' @ f))"

definition parseHaltFlags :: "string list \<Rightarrow> string + halt_request" where
  "parseHaltFlags args =
     (case halt_flags \<lparr>rq_Scope = [], rq_Target = [], rq_Reason = [], rq_By = []\<rparr> 0 args of
        Inl e \<Rightarrow> Inl e
      | Inr (req, scopes) \<Rightarrow>
          if scopes \<noteq> 1 then Inl ''give exactly one of --all, --agent <id>, --session <id>'' else Inr req)"

section \<open>Approvals\<close>

definition cli_short :: "string \<Rightarrow> string" where
  "cli_short i = (if length i > 8 then take 8 i else i)"

text \<open>\<open>a.ID[:8]\<close> panics on a shorter identifier: \<open>None\<close>.\<close>

definition id8 :: "string \<Rightarrow> string option" where
  "id8 i = (if length i < 8 then None else Some (take 8 i))"

fun pending_rows :: "(time \<Rightarrow> string) \<Rightarrow> cli_approval list \<Rightarrow> string list option" where
  "pending_rows age [] = Some []"
| "pending_rows age (a # as) =
     (case id8 (ca_ID a) of
        None \<Rightarrow> None
      | Some i \<Rightarrow>
          map_option (Cons (Join [i, age (ca_CreatedAt a), ca_AgentID a, ca_Tool a, ca_Remaining a] tab))
            (pending_rows age as))"

definition cmdPending :: "(time \<Rightarrow> string) \<Rightarrow> 's cli_http \<Rightarrow> 's \<Rightarrow> cli_run option \<times> 's" where
  "cmdPending age http st =
     (case http CliPending st of
        (Inl e, st1) \<Rightarrow> (Some (failed_with (''error: '' @ e)), st1)
      | (Inr (code, ApprovalsBody as), st1) \<Rightarrow>
          (if as = [] then Some (printed [''no pending approvals''])
           else map_option (\<lambda>rows. printed (Join [''ID'', ''AGE'', ''AGENT'', ''TOOL'', ''REMAINING''] tab # rows))
                  (pending_rows age as), st1)
      | (Inr (code, b), st1) \<Rightarrow> (Some (failed_with ''error decoding response''), st1))"

definition param_line :: "(gval \<Rightarrow> string) \<Rightarrow> nat \<Rightarrow> string \<Rightarrow> string \<times> gval \<Rightarrow> string" where
  "param_line show_value limit indent kv =
     (let s = show_value (snd kv) in
      indent @ fst kv @ '': '' @ (if length s > limit then take limit s @ ''...'' else s))"

definition cmdShow ::
  "(time \<Rightarrow> string) \<Rightarrow> (gval \<Rightarrow> string) \<Rightarrow> 's cli_http \<Rightarrow> string \<Rightarrow> 's \<Rightarrow> cli_run \<times> 's" where
  "cmdShow age show_value http i st =
     (case http (CliApproval i) st of
        (Inl e, st1) \<Rightarrow> (failed_with (''error: '' @ e), st1)
      | (Inr (code, b), st1) \<Rightarrow>
          (if code = 404 then failed_with (''approval '' @ i @ '' not found'')
           else
             (case decode_approval b of
                None \<Rightarrow> failed_with ''error decoding response''
              | Some a \<Rightarrow>
                  printed
                    ([''ID:       '' @ ca_ID a, ''Agent:    '' @ ca_AgentID a, ''Tool:     '' @ ca_Tool a,
                      ''Policy:   '' @ ca_PolicyRule a, ''Status:   '' @ ca_Status a,
                      ''Age:      '' @ age (ca_CreatedAt a)]
                     @ (if ca_Remaining a \<noteq> [] then [''Timeout:  '' @ ca_Remaining a @ '' remaining''] else [])
                     @ (if ca_Params a \<noteq> [] then ''Params:'' # map (param_line show_value 120 ''  '') (ca_Params a)
                        else []))), st1))"

definition fetchApproval :: "'s cli_http \<Rightarrow> string \<Rightarrow> 's \<Rightarrow> cli_approval option \<times> 's" where
  "fetchApproval http i st =
     (case http (CliApproval i) st of
        (Inl e, st1) \<Rightarrow> (None, st1)
      | (Inr (code, b), st1) \<Rightarrow> (if code \<noteq> 200 then None else decode_approval b, st1))"

text \<open>
  \<open>resolve\<close>: outside the interactive mode every failure ends the program, so the run's exit code
  tells whether what follows it in the caller happens.
\<close>

definition cli_resolve :: "'s cli_http \<Rightarrow> string \<Rightarrow> string \<Rightarrow> string \<Rightarrow> bool \<Rightarrow> 's \<Rightarrow> cli_run \<times> 's" where
  "cli_resolve http user i action interactive st =
     (let verb = (if action = ''deny'' then ''Denied'' else ''Approved'');
          fails = (\<lambda>inline message.
            \<lparr>cr_Exit = (if interactive then 0 else 1), cr_Out = [], cr_Err = [if interactive then inline else message]\<rparr>) in
      case http (CliResolve i action (''cli:'' @ user)) st of
        (Inl e, st1) \<Rightarrow> (fails (''  error: '' @ e) (''error: '' @ e), st1)
      | (Inr (code, b), st1) \<Rightarrow>
          (if code = 200 then printed [if interactive then ''  '' @ verb else verb @ '': '' @ i]
           else if code = 404 then fails ''  not found'' (''approval '' @ i @ '' not found'')
           else if code = 409 then
             (if interactive then printed [''  already resolved'']
              else failed_with (''approval '' @ i @ '' already resolved''))
           else fails (''  error: status '' @ Itoa code) (''unexpected status: '' @ Itoa code), st1))"

definition createGrant ::
  "'s cli_http \<Rightarrow> cli_approval \<Rightarrow> string \<Rightarrow> string \<Rightarrow> bool \<Rightarrow> 's \<Rightarrow> cli_run \<times> 's" where
  "createGrant http a tools duration interactive st =
     (let indent = (if interactive then ''  '' else []);
          lost = (\<lambda>why. \<lparr>cr_Exit = 0, cr_Out = [], cr_Err = [indent @ ''approved, but the grant failed: '' @ why]\<rparr>) in
      case http (CliGrant \<lparr>gq_Agent = ca_AgentID a, gq_Tools = tools, gq_Duration = duration,
                   gq_ApprovalID = ca_ID a, gq_TraceID = ca_TraceID a\<rparr>) st of
        (Inl e, st1) \<Rightarrow> (lost e, st1)
      | (Inr (code, b), st1) \<Rightarrow>
          (if code \<noteq> 201 then lost (''status '' @ Itoa code)
           else
             (let (i, remaining) = (case b of GrantBody i r \<Rightarrow> (i, r) | _ \<Rightarrow> ([], [])) in
              printed
                ((indent @ ''Grant '' @ cli_short i @ '' '' @ emdash @ '' '' @ ca_AgentID a @ '' on '' @ tools @ '' for ''
                   @ remaining)
                 # (if ca_TraceID a = []
                    then [indent @ ''  (no origin trace on this approval '' @ emdash @ '' the chain will stop here)'']
                    else []))), st1))"

definition then_run :: "cli_run \<Rightarrow> cli_run \<Rightarrow> cli_run" where
  "then_run a b = \<lparr>cr_Exit = cr_Exit b, cr_Out = cr_Out a @ cr_Out b, cr_Err = cr_Err a @ cr_Err b\<rparr>"

definition cmdApprove :: "'s cli_http \<Rightarrow> string \<Rightarrow> string \<Rightarrow> string list \<Rightarrow> 's \<Rightarrow> cli_run \<times> 's" where
  "cmdApprove http user i flags st =
     (case parseApproveFlags flags of
        Inl e \<Rightarrow> (failed_with (''error: '' @ e), st)
      | Inr (duration, tools) \<Rightarrow>
          if duration = [] then cli_resolve http user i ''approve'' False st
          else
            (case fetchApproval http i st of
               (None, st1) \<Rightarrow> (failed_with (''approval '' @ i @ '' not found''), st1)
             | (Some target, st1) \<Rightarrow>
                 (case cli_resolve http user i ''approve'' False st1 of
                    (resolved, st2) \<Rightarrow>
                      if cr_Exit resolved \<noteq> 0 then (resolved, st2)
                      else
                        (case createGrant http target (if tools = [] then ca_Tool target else tools) duration False st2 of
                           (given, st3) \<Rightarrow> (then_run resolved given, st3)))))"

section \<open>The watch loop\<close>

definition grantDuration :: "string \<Rightarrow> string" where
  "grantDuration env = (if env \<noteq> [] then env else ''1h'')"

datatype watch_choice = Approve | Grant | Deny | Skip

definition read_choice :: "string \<Rightarrow> watch_choice option" where
  "read_choice text =
     (let s = TrimSpace (ToLower text) in
      if s \<in> {''a'', ''approve''} then Some Approve
      else if s \<in> {''g'', ''grant''} then Some Grant
      else if s \<in> {''d'', ''deny''} then Some Deny
      else if s \<in> {''s'', ''skip''} then Some Skip
      else None)"

text \<open>The prompt asks until the line is one of these (the first component counts the others); the end
  of the input ends the program.\<close>

fun ask :: "string list \<Rightarrow> nat \<times> (watch_choice \<times> string list) option" where
  "ask [] = (0, None)"
| "ask (l # ls) = (case read_choice l of Some c \<Rightarrow> (0, Some (c, ls)) | None \<Rightarrow> map_prod Suc id (ask ls))"

definition coloured :: "string \<Rightarrow> string \<Rightarrow> string" where
  "coloured code s = CHR 0x1B # ''['' @ code @ ''m'' @ s @ CHR 0x1B # ''[0m''"

text \<open>What the choice does with an approval; the identifier is cut to eight characters.\<close>

definition act_on ::
  "'s cli_http \<Rightarrow> string \<Rightarrow> string \<Rightarrow> cli_approval \<Rightarrow> string \<Rightarrow> watch_choice \<Rightarrow> 's \<Rightarrow> string list \<times> 's" where
  "act_on http user duration a i c st =
     (case c of
        Approve \<Rightarrow> map_prod (\<lambda>r. cr_Out r @ cr_Err r) id (cli_resolve http user i ''approve'' True st)
      | Grant \<Rightarrow>
          (case cli_resolve http user i ''approve'' True st of
             (r, st1) \<Rightarrow>
               (case createGrant http a (ca_Tool a) duration True st1 of
                  (g, st2) \<Rightarrow> (cr_Out r @ cr_Err r @ cr_Out g @ cr_Err g, st2)))
      | Deny \<Rightarrow> map_prod (\<lambda>r. cr_Out r @ cr_Err r) id (cli_resolve http user i ''deny'' True st)
      | Skip \<Rightarrow> ([], st))"

text \<open>
  One round over the pending approvals: the lines printed, what is left of the input (\<open>None\<close> when the
  program ended on it), the identifiers seen. \<open>watch\<close> makes a number of rounds.
\<close>

fun watch_round ::
  "'s cli_http \<Rightarrow> string \<Rightarrow> string \<Rightarrow> (gval \<Rightarrow> string) \<Rightarrow> cli_approval list \<Rightarrow> string list \<Rightarrow> string list \<Rightarrow> 's
     \<Rightarrow> (string list \<times> string list option \<times> string list \<times> 's) option" where
  "watch_round http user duration show_value [] inputs seen st = Some ([], Some inputs, seen, st)"
| "watch_round http user duration show_value (a # as) inputs seen st =
     (if ca_ID a \<in> set seen then watch_round http user duration show_value as inputs seen st
      else
        (case id8 (ca_ID a) of
           None \<Rightarrow> None
         | Some i \<Rightarrow>
             (let shown = (coloured ''1;33'' ''>> NEW'' @ ''  '' @ i @ ''  '' @ ca_AgentID a @ ''  '' @ ca_Tool a)
                    # map (param_line show_value 80 ''        '') (ca_Params a)
                    @ [''        remaining: '' @ ca_Remaining a] in
              case ask inputs of
                (bad, None) \<Rightarrow> Some (shown @ replicate bad ''  type a, g, d, or s'', None, seen, st)
              | (bad, Some (c, inputs1)) \<Rightarrow>
                  (case act_on http user duration a i c st of
                     (out, st1) \<Rightarrow>
                       map_option (\<lambda>(out1, rest).
                           (shown @ replicate bad ''  type a, g, d, or s'' @ out @ [[]] @ out1, rest))
                         (watch_round http user duration show_value as inputs1 (ca_ID a # seen) st1)))))"

definition fetchPending :: "'s cli_http \<Rightarrow> 's \<Rightarrow> cli_approval list \<times> 's" where
  "fetchPending http st =
     (case http CliPending st of
        (Inr (code, ApprovalsBody as), st1) \<Rightarrow> (as, st1)
      | (_, st1) \<Rightarrow> ([], st1))"

fun watch ::
  "'s cli_http \<Rightarrow> string \<Rightarrow> string \<Rightarrow> (gval \<Rightarrow> string) \<Rightarrow> nat \<Rightarrow> string list \<Rightarrow> string list \<Rightarrow> 's
     \<Rightarrow> (string list \<times> string list option \<times> string list \<times> 's) option" where
  "watch http user duration show_value 0 inputs seen st = Some ([], Some inputs, seen, st)"
| "watch http user duration show_value (Suc rounds) inputs seen st =
     (case fetchPending http st of
        (as, st1) \<Rightarrow>
          (case watch_round http user duration show_value as inputs seen st1 of
             None \<Rightarrow> None
           | Some (out, None, seen1, st2) \<Rightarrow> Some (out, None, seen1, st2)
           | Some (out, Some inputs1, seen1, st2) \<Rightarrow>
               map_option (\<lambda>(out1, rest). (out @ out1, rest))
                 (watch http user duration show_value rounds inputs1 seen1 st2)))"

section \<open>Emergency stops\<close>

definition describe :: "halt \<Rightarrow> string" where
  "describe h =
     (if h_Scope h = ''all'' then ''all agents''
      else if h_Scope h = ''agent'' then ''agent '' @ h_Target h
      else if h_Scope h = ''session'' then ''session '' @ h_Target h
      else h_Scope h)"

definition cmdHalt :: "'s cli_http \<Rightarrow> string \<Rightarrow> string list \<Rightarrow> 's \<Rightarrow> cli_run \<times> 's" where
  "cmdHalt http user args st =
     (case parseHaltFlags args of
        Inl e \<Rightarrow>
          (\<lparr>cr_Exit = 1, cr_Out = [], cr_Err = [''error: '' @ e,
             ''usage: mesh halt --all | --agent <id> | --session <id> [--reason '' @ [CHR 0x22] @ ''...'' @ [CHR 0x22] @ '']'']\<rparr>,
           st)
      | Inr req \<Rightarrow>
          (case http (CliHalt (req\<lparr>rq_By := ''cli:'' @ user\<rparr>)) st of
             (Inl e, st1) \<Rightarrow> (failed_with (''error: '' @ e), st1)
           | (Inr (code, b), st1) \<Rightarrow>
               (let a = decode_halt b; h = ch_Halt a in
                if code = 201 then
                  printed [coloured ''1;31'' ''HALTED'' @ '' '' @ describe h @ ''  (halt '' @ cli_short (h_ID h) @ '')'',
                    ''  '' @ Itoa (int (ch_Revoked a)) @ '' grant(s) revoked, '' @ Itoa (int (ch_Denied a))
                      @ '' pending approval(s) denied'',
                    ''  lift it with: mesh resume '' @ cli_short (h_ID h)]
                else if code = 200 then
                  printed [''already halted: '' @ describe h @ '' (halt '' @ cli_short (h_ID h) @ '')'']
                else failed_with (''halt failed: status '' @ Itoa code @ '' '' @ ch_Error a), st1)))"

definition cmdHalts :: "(time \<Rightarrow> string) \<Rightarrow> 's cli_http \<Rightarrow> 's \<Rightarrow> cli_run \<times> 's" where
  "cmdHalts age http st =
     (case http CliHalts st of
        (Inl e, st1) \<Rightarrow> (failed_with (''error: '' @ e), st1)
      | (Inr (code, b), st1) \<Rightarrow>
          (if code \<noteq> 200 then failed_with (''unexpected status: '' @ Itoa code)
           else
             (case b of
                HaltsBody hs \<Rightarrow>
                  (if hs = [] then printed [''no emergency stop in force'']
                   else printed (Join [''ID'', ''SINCE'', ''STOPS'', ''BY'', ''REASON''] tab
                     # map (\<lambda>h. Join [cli_short (h_ID h), age (h_CreatedAt h), describe h, h_CreatedBy h, h_Reason h] tab)
                         hs))
              | _ \<Rightarrow> failed_with ''error decoding response''), st1))"

definition cmdResume :: "'s cli_http \<Rightarrow> string \<Rightarrow> string \<Rightarrow> 's \<Rightarrow> cli_run \<times> 's" where
  "cmdResume http user i st =
     (case http (CliResume i (''cli:'' @ user)) st of
        (Inl e, st1) \<Rightarrow> (failed_with (''error: '' @ e), st1)
      | (Inr (code, b), st1) \<Rightarrow>
          (let a = decode_halt b; h = ch_Halt a in
           if code = 200 then
             printed [''resumed: '' @ describe h @ '' (halt '' @ cli_short (h_ID h) @ ''), '' @ Itoa (int (ch_Restored a))
               @ '' grant(s) restored'']
           else if code = 404 then failed_with (''no active halt '' @ i)
           else failed_with (''resume failed: status '' @ Itoa code @ '' '' @ ch_Error a), st1))"

section \<open>The program\<close>

text \<open>
  \<open>main\<close> of \<open>cmd/mesh\<close>: which command the arguments name. A panic is \<open>None\<close>; \<open>watch\<close> goes on for ever,
  here it makes \<open>rounds\<close> rounds or ends with its input.
\<close>

record cli_env =
  ce_User :: string
  ce_GrantDuration :: string
  ce_Usage :: string
  ce_age :: "time \<Rightarrow> string"
  ce_value :: "gval \<Rightarrow> string"

definition with_id :: "string \<Rightarrow> string list \<Rightarrow> (string \<Rightarrow> string list \<Rightarrow> 's \<Rightarrow> cli_run \<times> 's) \<Rightarrow> 's \<Rightarrow> (cli_run \<times> 's) option" where
  "with_id use args run st = Some (case args of [] \<Rightarrow> (failed_with use, st) | i # rest \<Rightarrow> run i rest st)"

definition cmdWatch :: "cli_env \<Rightarrow> 's cli_http \<Rightarrow> nat \<Rightarrow> string list \<Rightarrow> 's \<Rightarrow> (cli_run \<times> 's) option" where
  "cmdWatch e http rounds inputs st =
     map_option (\<lambda>(out, left, seen, st1).
         (printed ([''mesh watch '' @ emdash @ '' waiting for approvals (ctrl+c to quit)'', []] @ out), st1))
       (watch http (ce_User e) (grantDuration (ce_GrantDuration e)) (ce_value e) rounds inputs [] st)"

definition console_main ::
  "cli_env \<Rightarrow> 's cli_http \<Rightarrow> nat \<Rightarrow> string list \<Rightarrow> string list \<Rightarrow> 's \<Rightarrow> (cli_run \<times> 's) option" where
  "console_main e http rounds inputs args st =
     (case args of
        [] \<Rightarrow> Some (failed_with (ce_Usage e), st)
      | c # rest \<Rightarrow>
          if c = ''pending'' then
            (case cmdPending (ce_age e) http st of (r, st1) \<Rightarrow> map_option (\<lambda>r. (r, st1)) r)
          else if c = ''show'' then with_id ''usage: mesh show <id>'' rest (\<lambda>i _. cmdShow (ce_age e) (ce_value e) http i) st
          else if c = ''approve'' then
            with_id ''usage: mesh approve <id> [--grant <duration>] [--tools <glob>]'' rest (cmdApprove http (ce_User e)) st
          else if c = ''deny'' then
            with_id ''usage: mesh deny <id>'' rest (\<lambda>i _. cli_resolve http (ce_User e) i ''deny'' False) st
          else if c = ''watch'' then cmdWatch e http rounds inputs st
          else if c = ''halt'' then Some (cmdHalt http (ce_User e) rest st)
          else if c = ''halts'' then Some (cmdHalts (ce_age e) http st)
          else if c = ''resume'' then
            with_id ''usage: mesh resume <halt-id>'' rest (\<lambda>i _. cmdResume http (ce_User e) i) st
          else Some (\<lparr>cr_Exit = 1, cr_Out = [], cr_Err = [''unknown command: '' @ c, ce_Usage e]\<rparr>, st))"

section \<open>The mesh at the other end\<close>

text \<open>
  A request as the server of the mesh sees it. Only the commands on emergency stops carry the
  operator's token (\<open>adminDo\<close>); the others use the default client.
\<close>

definition cli_call :: "string \<Rightarrow> string \<Rightarrow> string \<Rightarrow> http_call" where
  "cli_call peer auth path =
     \<lparr>hc_Path = path, hc_Authorization = auth, hc_Traceparent = [], hc_XTraceId = [], hc_SessionID = [],
      hc_CallbackURL = [], hc_RemoteAddr = peer\<rparr>"

definition no_body :: api_body where
  "no_body =
     \<lparr>ab_params = None, ab_decide = None, ab_pins = None, ab_policy = None, ab_settings = None, ab_forget = None,
      ab_resolve = \<lparr>rr_ResolvedBy = [], rr_Reasoning = [], rr_Confidence = Fin 0\<rparr>, ab_grant = None, ab_halt = None,
      ab_resumed_by = [], ab_rpc = None\<rparr>"

definition bearer :: "string \<Rightarrow> string" where
  "bearer tok = (if tok \<noteq> [] then ''Bearer '' @ tok else [])"

definition api_of :: "string \<Rightarrow> string \<Rightarrow> cli_request \<Rightarrow> api_request" where
  "api_of peer tok r =
     (let req = (\<lambda>verb auth path query body.
        \<lparr>aq_Method = verb, aq_Call = cli_call peer auth path, aq_Query = query, aq_MCPSession = [], aq_Body = body\<rparr>) in
      case r of
        CliPending \<Rightarrow> req ''GET'' [] ''/approvals'' [(''status'', ''pending'')] no_body
      | CliApproval i \<Rightarrow> req ''GET'' [] (''/approvals/'' @ i) [] no_body
      | CliResolve i action by \<Rightarrow>
          req ''POST'' [] (''/approvals/'' @ i @ ''/'' @ action) []
            (no_body\<lparr>ab_resolve := \<lparr>rr_ResolvedBy = by, rr_Reasoning = [], rr_Confidence = Fin 0\<rparr>\<rparr>)
      | CliGrant g \<Rightarrow> req ''POST'' [] ''/grants'' [] (no_body\<lparr>ab_grant := Some g\<rparr>)
      | CliHalt h \<Rightarrow> req ''POST'' (bearer tok) ''/halts'' [] (no_body\<lparr>ab_halt := Some h\<rparr>)
      | CliHalts \<Rightarrow> req ''GET'' (bearer tok) ''/halts'' [] no_body
      | CliResume i by \<Rightarrow>
          req ''POST'' (bearer tok) (''/halts/'' @ i @ ''/resume'') [] (no_body\<lparr>ab_resumed_by := by\<rparr>))"

definition cli_view :: "(int \<Rightarrow> string) \<Rightarrow> approval_view \<Rightarrow> cli_approval" where
  "cli_view text v =
     (let a = av_Approval v in
      \<lparr>ca_ID = a_ID a, ca_AgentID = a_AgentID a, ca_Tool = a_Tool a, ca_Params = entries (av_Params v),
       ca_TraceID = a_TraceID a, ca_PolicyRule = a_PolicyRule a, ca_Status = status_text (a_Status a),
       ca_CreatedAt = a_CreatedAt a, ca_Remaining = (case av_Remaining v of None \<Rightarrow> [] | Some r \<Rightarrow> text r)\<rparr>)"

definition halt_body :: "halt_answer \<Rightarrow> int \<times> cli_body" where
  "halt_body a =
     (let body = (\<lambda>h active revoked denied restored.
        HaltBody \<lparr>ch_Halt = h, ch_AlreadyActive = active, ch_Revoked = revoked, ch_Denied = denied,
          ch_Restored = restored, ch_Error = []\<rparr>) in
      case a of
        HaltError code e \<Rightarrow> (code, ErrorBody e)
      | HaltActive h \<Rightarrow> (200, body h True 0 0 0)
      | HaltOpened h n m \<Rightarrow> (201, body h False n m 0)
      | HaltLifted h n \<Rightarrow> (200, body h False 0 0 n))"

definition reply_of :: "(int \<Rightarrow> string) \<Rightarrow> api_answer \<Rightarrow> int \<times> cli_body" where
  "reply_of text a =
     (case a of
        Unauthorized \<Rightarrow> (401, ErrorBody ''unauthorized'')
      | AnsApprovals vs \<Rightarrow> (200, ApprovalsBody (map (cli_view text) vs))
      | AnsApproval (Some d) \<Rightarrow> (200, ApprovalBody (cli_view text (ad_View d)))
      | AnsResolved (code, m) \<Rightarrow> (code, ErrorBody m)
      | AnsGrant (GrantMade g) \<Rightarrow> (201, GrantBody (g_ID g) [])
      | AnsGrant (GrantError code e) \<Rightarrow> (code, ErrorBody e)
      | AnsHalt h \<Rightarrow> halt_body h
      | AnsHalts hs \<Rightarrow> (200, HaltsBody hs)
      | _ \<Rightarrow> (404, ErrorBody ''not found''))"

definition console :: "mesh_env \<Rightarrow> (int \<Rightarrow> string) \<Rightarrow> string \<Rightarrow> string \<Rightarrow> mesh_state cli_http" where
  "console v text peer tok r st =
     (case ServeHTTP v (api_of peer tok r) st of
        None \<Rightarrow> (Inl ''no answer'', st)
      | Some (a, st1) \<Rightarrow> (Inr (reply_of text a), st1))"

section \<open>Properties\<close>

text \<open>A mesh that answers as \<open>respond\<close> says, and keeps the requests it got.\<close>

definition logged :: "(cli_request list \<Rightarrow> cli_request \<Rightarrow> string + int \<times> cli_body) \<Rightarrow> cli_request list cli_http" where
  "logged respond r sent = (respond sent r, sent @ [r])"

lemma createGrant_log:
  "snd (createGrant (logged respond) a tools duration dialog sent) = sent @ [CliGrant \<lparr>gq_Agent = ca_AgentID a,
     gq_Tools = tools, gq_Duration = duration, gq_ApprovalID = ca_ID a, gq_TraceID = ca_TraceID a\<rparr>]"
  by (simp add: createGrant_def logged_def Let_def split: sum.split prod.split)

lemma cli_resolve_log:
  "cli_resolve (logged respond) user i action False sent = (r, sent') \<Longrightarrow>
   sent' = sent @ [CliResolve i action (''cli:'' @ user)]
   \<and> (cr_Exit r = 0 \<longrightarrow> (\<exists>b. respond sent (CliResolve i action (''cli:'' @ user)) = Inr (200, b)))"
  by (auto simp: cli_resolve_def logged_def Let_def failed_with_def split: sum.splits prod.splits if_splits)

lemma fetchApproval_log:
  "fetchApproval (logged respond) i sent = (x, sent') \<Longrightarrow> sent' = sent @ [CliApproval i]
   \<and> (\<forall>a. x = Some a \<longrightarrow> (\<exists>b. respond sent (CliApproval i) = Inr (200, b) \<and> decode_approval b = Some a))"
  by (auto simp: fetchApproval_def logged_def split: sum.splits prod.splits if_splits)

text \<open>
  A grant follows a decision: whatever the mesh answers, \<open>mesh approve\<close> asks for a grant only after the
  approval was read in full and then resolved by this very command, and the grant it asks for names
  the agent, the full identifier and the trace that were read; its tools are those of the approval
  unless the operator gave others, its duration is one the mesh can read.
\<close>

theorem grant_follows_decision:
  assumes "cmdApprove (logged respond) user i flags sent = (run, sent')"
    and "CliGrant gq \<in> set (drop (length sent) sent')"
  shows "\<exists>duration tools a b c. parseApproveFlags flags = Inr (duration, tools) \<and> duration \<noteq> []
    \<and> sent' = sent @ [CliApproval i, CliResolve i ''approve'' (''cli:'' @ user), CliGrant gq]
    \<and> respond sent (CliApproval i) = Inr (200, b) \<and> decode_approval b = Some a
    \<and> respond (sent @ [CliApproval i]) (CliResolve i ''approve'' (''cli:'' @ user)) = Inr (200, c)
    \<and> gq = \<lparr>gq_Agent = ca_AgentID a, gq_Tools = (if tools = [] then ca_Tool a else tools), gq_Duration = duration,
            gq_ApprovalID = ca_ID a, gq_TraceID = ca_TraceID a\<rparr>"
proof (cases "parseApproveFlags flags")
  case (Inl e)
  with assms show ?thesis by (simp add: cmdApprove_def)
next
  case (Inr p)
  obtain duration tools where p: "p = (duration, tools)" by (cases p)
  show ?thesis
  proof (cases "duration = []")
    case True
    then have "cli_resolve (logged respond) user i ''approve'' False sent = (run, sent')"
      using assms(1) Inr p by (simp add: cmdApprove_def)
    from cli_resolve_log [OF this] assms(2) show ?thesis by auto
  next
    case dur: False
    obtain x sent1 where f: "fetchApproval (logged respond) i sent = (x, sent1)" by fastforce
    note sent1 = fetchApproval_log [OF f]
    show ?thesis
    proof (cases x)
      case None
      then have "sent' = sent1" using assms(1) Inr p dur f by (simp add: cmdApprove_def)
      then show ?thesis using assms(2) sent1 by simp
    next
      case (Some a)
      obtain r sent2 where rs: "cli_resolve (logged respond) user i ''approve'' False sent1 = (r, sent2)" by fastforce
      note sent2 = cli_resolve_log [OF rs]
      show ?thesis
      proof (cases "cr_Exit r = 0")
        case False
        then have "sent' = sent2" using assms(1) Inr p dur f Some rs by (simp add: cmdApprove_def)
        then show ?thesis using assms(2) sent1 sent2 by auto
      next
        case True
        let ?tools = "if tools = [] then ca_Tool a else tools"
        let ?gq = "\<lparr>gq_Agent = ca_AgentID a, gq_Tools = ?tools, gq_Duration = duration, gq_ApprovalID = ca_ID a,
            gq_TraceID = ca_TraceID a\<rparr>"
        obtain given sent3 where cg: "createGrant (logged respond) a ?tools duration False sent2 = (given, sent3)"
          by fastforce
        then have "sent' = snd (createGrant (logged respond) a ?tools duration False sent2)"
          using assms(1) Inr p dur f Some rs True by (simp add: cmdApprove_def)
        then have l: "sent' = sent @ [CliApproval i, CliResolve i ''approve'' (''cli:'' @ user), CliGrant ?gq]"
          using sent1 sent2 by (simp add: createGrant_log)
        then have g: "gq = ?gq" using assms(2) by auto
        obtain b c where "respond sent (CliApproval i) = Inr (200, b)" "decode_approval b = Some a"
          "respond (sent @ [CliApproval i]) (CliResolve i ''approve'' (''cli:'' @ user)) = Inr (200, c)"
          using sent1 sent2 Some True by auto
        then show ?thesis using l dur Inr p unfolding g
          by (intro exI [of _ duration] exI [of _ tools] exI [of _ a] exI [of _ b] exI [of _ c]) simp
      qed
    qed
  qed
qed

definition demo_approval :: cli_approval where
  "demo_approval = no_approval\<lparr>ca_ID := ''0123456789ab'', ca_AgentID := ''bot'', ca_Tool := ''fs.write'',
     ca_TraceID := ''t1''\<rparr>"

definition demo_respond :: "int \<Rightarrow> cli_request list \<Rightarrow> cli_request \<Rightarrow> string + int \<times> cli_body" where
  "demo_respond code sent r =
     (case r of
        CliApproval i \<Rightarrow> Inr (200, ApprovalBody demo_approval)
      | CliResolve i act by \<Rightarrow> Inr (code, ErrorBody [])
      | _ \<Rightarrow> Inr (201, GrantBody ''g1'' ''1h''))"

theorem grant_follows_decision_witness:
  "\<exists>run sent' gq. cmdApprove (logged (demo_respond 200)) ''ann'' ''0123'' [''--grant'', ''1h''] [] = (run, sent')
     \<and> sent' = [CliApproval ''0123'', CliResolve ''0123'' ''approve'' ''cli:ann'', CliGrant gq]
     \<and> gq_ApprovalID gq = ''0123456789ab'' \<and> gq_Tools gq = ''fs.write''"
proof -
  let ?c = "cmdApprove (logged (demo_respond 200)) ''ann'' ''0123'' [''--grant'', ''1h''] []"
  let ?gq = "\<lparr>gq_Agent = ''bot'', gq_Tools = ''fs.write'', gq_Duration = ''1h'', gq_ApprovalID = ''0123456789ab'',
      gq_TraceID = ''t1''\<rparr>"
  have "CliGrant ?gq \<in> set (drop (length ([] :: cli_request list)) (snd ?c))" by code_simp
  from grant_follows_decision [OF prod.collapse [symmetric] this]
  obtain duration tools a b where "parseApproveFlags [''--grant'', ''1h''] = Inr (duration, tools)"
    and l: "snd ?c = [] @ [CliApproval ''0123'', CliResolve ''0123'' ''approve'' (''cli:'' @ ''ann''), CliGrant ?gq]"
    by blast
  then show ?thesis by (intro exI [of _ "fst ?c"] exI [of _ "snd ?c"] exI [of _ ?gq]) (simp add: prod_eq_iff)
qed

text \<open>In the watch loop the answer to the approval is not looked at: the grant is asked for in any case.\<close>

lemma watch_grants_after_refusal:
  "last (snd (act_on (logged (demo_respond 409)) ''ann'' ''1h'' demo_approval ''01234567'' Grant []))
     = CliGrant \<lparr>gq_Agent = ''bot'', gq_Tools = ''fs.write'', gq_Duration = ''1h'', gq_ApprovalID = ''0123456789ab'',
        gq_TraceID = ''t1''\<rparr>"
  by code_simp

text \<open>The commands on approvals send no token, so a mesh that asks for one refuses them all.\<close>

lemma approve_sends_no_token:
  assumes "gw_AdminToken (xs_gateway st) \<noteq> []"
  shows "cli_resolve (console v text peer tok) user i ''approve'' False st
    = (failed_with (''unexpected status: '' @ Itoa 401), st)"
proof -
  let ?r = "api_of peer tok (CliResolve i ''approve'' (''cli:'' @ user))"
  have path: "hc_Path (aq_Call ?r) = (''/approvals/'' @ i) @ ''/approve''" and verb: "aq_Method ?r = ''POST''"
    by (simp_all add: api_of_def cli_call_def)
  have "HasSuffix ((''/approvals/'' @ i) @ ''/approve'') ''/approve''" by (rule HasSuffix_append)
  then have "request_route ?r st = ToApprove"
    unfolding request_route_def path verb by (simp add: route_of_def HasPrefix_def)
  moreover have "\<not> adminAuthorized (isLoopback (xe_net v)) (aq_Call ?r) (xs_gateway st)"
    using assms by (simp add: adminAuthorized_def api_of_def cli_call_def TrimPrefix_def)
  ultimately have "ServeHTTP v ?r st = Some (Unauthorized, st)"
    by (simp add: ServeHTTP_def admin_def answer_with_def data_plane_def)
  then show ?thesis by (simp add: cli_resolve_def console_def reply_of_def failed_with_def)
qed

lemma serve_halt:
  assumes "request_route r st = ToCreateHalt"
  shows "ServeHTTP v r st = (if adminAuthorized (isLoopback (xe_net v)) (aq_Call r) (xs_gateway st)
      then Option.bind (handleCreateHalt (xe_req v) (aq_Call r) (ab_halt (aq_Body r)) (xs_gateway st))
             (\<lambda>x. with_gateway st (map_prod AnsHalt id x))
      else Some (Unauthorized, st))"
  unfolding ServeHTTP_def Let_def assms by (simp add: data_plane_def admin_def serve_control_def answer_with_def)

lemma handleCreateHalt_answers_are:
  assumes "handleCreateHalt q r (Some req) g = Some (a, g1)"
  obtains code e where "a = HaltError code e" "code \<in> {400, 501}"
  | hl hs hs1 where "a = HaltActive hl" "gw_Halts g1 = Some hs1" "gw_forwarded g1 = gw_forwarded g"
      "halt_Start (qe_halt q) (qe_newID q) (rq_Scope req) (rq_Target req) (rq_Reason req) (operator (rq_By req) r) hs
         = (Inr (hl, False), hs1)"
  | hl n m where "a = HaltOpened hl n m"
  using assms by (auto simp: handleCreateHalt_def enforce_halt_def Let_def
      split: option.splits sum.splits prod.splits if_splits)

lemma cmdHalt_exits:
  assumes "cmdHalt http user args st = (run, st')" and "cr_Exit run = 0"
  shows "\<exists>req code b. parseHaltFlags args = Inr req
    \<and> http (CliHalt (req\<lparr>rq_By := ''cli:'' @ user\<rparr>)) st = (Inr (code, b), st') \<and> code \<in> {200, 201}
    \<and> (code = 201 \<longleftrightarrow> length (cr_Out run) = 3)"
  using assms by (auto simp: cmdHalt_def failed_with_def printed_def Let_def split: sum.splits prod.splits if_splits)

text \<open>
  C37. An exit code that can be trusted: when \<open>mesh halt\<close> ends well against a mesh, a stop of the scope
  and target that were asked for is in force there, nothing ran meanwhile, and, when the stop is a
  new one, it stands in the table of every process as well: every call it covers is halted.
\<close>

theorem halt_command_stops:
  assumes "\<And>s. gw_Approvals (xs_gateway st) = Some s \<Longrightarrow> approvals_inv s"
    and "cmdHalt (console v text peer tok) user args st = (run, st')" and "cr_Exit run = 0"
  shows "\<exists>req t hl s. parseHaltFlags args = Inr req \<and> normal_target (rq_Scope req) (rq_Target req) = Inr t
    \<and> h_Scope hl = rq_Scope req \<and> h_Target hl = t
    \<and> gw_Halts (xs_gateway st') = Some s \<and> list_ex (same_scope hl) (hs_active s)
    \<and> gw_forwarded (xs_gateway st') = gw_forwarded (xs_gateway st)
    \<and> (hs_db s = None \<or> length (cr_Out run) = 3 \<longrightarrow>
         (\<forall>q a sid. Covers hl a sid \<longrightarrow> halted q a sid (xs_gateway st')))"
proof -
  from cmdHalt_exits [OF assms(2,3)] obtain req code b where Inr: "parseHaltFlags args = Inr req"
    and sent: "console v text peer tok (CliHalt (req\<lparr>rq_By := ''cli:'' @ user\<rparr>)) st = (Inr (code, b), st')"
    and code: "code \<in> {200, 201}" "code = 201 \<longleftrightarrow> length (cr_Out run) = 3" by blast
  let ?req = "req\<lparr>rq_By := ''cli:'' @ user\<rparr>" and ?g = "xs_gateway st" and ?q = "xe_req v"
  let ?r = "api_of peer tok (CliHalt ?req)"
  have rt: "request_route ?r st = ToCreateHalt"
    by (simp add: request_route_def api_of_def cli_call_def route_of_def HasPrefix_def HasSuffix_def)
  have body: "ab_halt (aq_Body ?r) = Some ?req" by (simp add: api_of_def)
  obtain x where x: "ServeHTTP v ?r st = Some (x, st')" "reply_of text x = (code, b)"
    using sent by (auto simp: console_def split: option.splits)
  have "x \<noteq> Unauthorized" using x(2) code(1) by (auto simp: reply_of_def)
  with x(1) obtain a g1 where H: "handleCreateHalt ?q (aq_Call ?r) (Some ?req) ?g = Some (a, g1)"
    and xa: "x = AnsHalt a" and st': "st' = st\<lparr>xs_gateway := g1\<rparr>"
    unfolding serve_halt [OF rt] body
    by (cases "handleCreateHalt ?q (aq_Call ?r) (Some ?req) ?g") (auto simp: with_gateway_def split: if_splits)
  have run: "halt_body a = (code, b)" using x(2) xa by (simp add: reply_of_def)
  from H show ?thesis
  proof (cases rule: handleCreateHalt_answers_are)
    case (1 code e)
    with run code show ?thesis by (auto simp: halt_body_def)
  next
    case (2 hl hs hs1)
    from halt_Start_cases [OF 2(4)] obtain t where t: "normal_target (rq_Scope req) (rq_Target req) = Inr t"
      "h_Scope hl = rq_Scope req" "h_Target hl = t" "hl \<in> set (hs_active hs1)" by auto
    have "length (cr_Out run) \<noteq> 3" using run code 2(1) by (auto simp: halt_body_def Let_def)
    moreover have "halted q a sid g1" if "hs_db hs1 = None" "Covers hl a sid" for q a sid
      using that t(4) 2(2) by (auto simp: halted_def stopped_def syncIfStale_def)
    ultimately show ?thesis using t 2 Inr
      by (intro exI [of _ req] exI [of _ t] exI [of _ hl] exI [of _ hs1])
        (auto simp: st' list_ex_iff same_scope_def)
  next
    case (3 hl n m)
    obtain hs hs1 rv where
      S: "halt_Start (qe_halt ?q) (qe_newID ?q) (rq_Scope ?req) (rq_Target ?req) (rq_Reason ?req)
            (operator (rq_By ?req) (aq_Call ?r)) hs = (Inr (hl, True), hs1)"
      and Hs: "gw_Halts g1 = Some (if rv = [] then hs1 else RecordRevoked (qe_halt ?q) (qe_newID ?q) rv hs1)"
      and F: "gw_forwarded g1 = gw_forwarded ?g"
      by (rule handleCreateHalt_openedE [OF assms(1) H [unfolded 3]]) simp_all
    let ?hs2 = "if rv = [] then hs1 else RecordRevoked (qe_halt ?q) (qe_newID ?q) rv hs1"
    have "standing hl ?hs2" using started_stands [OF S] standing_RecordRevoked by simp
    then have "list_ex (same_scope hl) (hs_active ?hs2)"
      and "\<forall>q a sid. Covers hl a sid \<longrightarrow> halted q a sid g1"
      using Hs standing_stops by (auto simp: halted_def standing_def list_ex_iff)
    moreover from halt_Start_cases [OF S] obtain t where "normal_target (rq_Scope req) (rq_Target req) = Inr t"
      "h_Scope hl = rq_Scope req" "h_Target hl = t" by auto
    ultimately show ?thesis using Hs F Inr
      by (intro exI [of _ req] exI [of _ t] exI [of _ hl] exI [of _ ?hs2]) (simp add: st')
  qed
qed

theorem halt_command_stops_witness:
  "\<exists>run st'. cmdHalt (console demo_mesh_env Itoa ''127.0.0.1:9'' []) ''ann'' [''--all'']
        (demo_mesh_state\<lparr>xs_gateway := demo_control\<rparr>) = (run, st')
     \<and> cr_Exit run = 0 \<and> halted demo_request ''bot'' [] (xs_gateway st')"
proof -
  let ?st = "demo_mesh_state\<lparr>xs_gateway := demo_control\<rparr>"
  let ?c = "cmdHalt (console demo_mesh_env Itoa ''127.0.0.1:9'' []) ''ann'' [''--all''] ?st"
  let ?req = "\<lparr>rq_Scope = ''all'', rq_Target = [], rq_Reason = [], rq_By = ''cli:ann''\<rparr>"
  let ?r = "api_of ''127.0.0.1:9'' [] (CliHalt ?req)"
  have "case handleCreateHalt demo_request (aq_Call ?r) (Some ?req) demo_control of
      Some (HaltOpened hl n m, g1) \<Rightarrow> True | _ \<Rightarrow> False" by code_simp
  then obtain hl n m g1 where h: "handleCreateHalt demo_request (aq_Call ?r) (Some ?req) demo_control
      = Some (HaltOpened hl n m, g1)"
    by (auto split: option.splits prod.splits halt_answer.splits)
  have rt: "request_route ?r ?st = ToCreateHalt"
    by (simp add: request_route_def api_of_def cli_call_def route_of_def HasPrefix_def HasSuffix_def)
  have env: "xe_req demo_mesh_env = demo_request" "xs_gateway ?st = demo_control" "ab_halt (aq_Body ?r) = Some ?req"
    by (simp_all add: demo_mesh_env_def api_of_def)
  have "adminAuthorized (isLoopback (xe_net demo_mesh_env)) (aq_Call ?r) demo_control" by code_simp
  then have "ServeHTTP demo_mesh_env ?r ?st = Some (AnsHalt (HaltOpened hl n m), ?st\<lparr>xs_gateway := g1\<rparr>)"
    unfolding serve_halt [OF rt] env h by (simp add: with_gateway_def)
  then have "console demo_mesh_env Itoa ''127.0.0.1:9'' [] (CliHalt ?req) ?st
      = (Inr (halt_body (HaltOpened hl n m)), ?st\<lparr>xs_gateway := g1\<rparr>)"
    by (simp add: console_def reply_of_def)
  then have ok: "cr_Exit (fst ?c) = 0" "length (cr_Out (fst ?c)) = 3"
    by (simp_all add: cmdHalt_def parseHaltFlags_def halt_body_def Let_def printed_def)
  have "approvals_inv s" if "gw_Approvals (xs_gateway ?st) = Some s" for s
    using that by (simp add: demo_approvals)
  from halt_command_stops [OF this prod.collapse [symmetric] ok(1)]
  obtain req hl where p: "parseHaltFlags [''--all''] = Inr req" and sc: "h_Scope hl = rq_Scope req"
    and h: "\<forall>q a sid. Covers hl a sid \<longrightarrow> halted q a sid (xs_gateway (snd ?c))"
    using ok(2) by blast
  have "rq_Scope req = ''all''" using p by (auto simp: parseHaltFlags_def)
  then have "Covers hl ''bot'' []" using sc by (simp add: Covers_def)
  with h ok(1) show ?thesis by (intro exI [of _ "fst ?c"] exI [of _ "snd ?c"]) (simp add: prod_eq_iff)
qed

end
