(* ===== verification/Service.thy ===== *)
theory Service
  imports Router Upstreams
begin

text \<open>
  The running mesh as a whole: requests, calls that go on after their approval, timers, reloads and
  upstreams that connect, in any order, on one state (\<open>proxy/handler.go\<close>, \<open>approval/store.go\<close>,
  \<open>cmd/mesh7/mesh.go\<close>). The theory shows that nothing on the way blocks for ever on a channel.
\<close>

section \<open>Approvals in order\<close>

definition sound :: "gateway \<Rightarrow> bool" where
  "sound g = (case gw_Approvals g of None \<Rightarrow> True | Some s \<Rightarrow> approvals_inv s)"

named_theorems sound_intros

lemma sound_same: "gw_Approvals g' = gw_Approvals g \<Longrightarrow> sound g' = sound g"
  by (simp add: sound_def)

lemma soundD: "sound g \<Longrightarrow> gw_Approvals g = Some s \<Longrightarrow> approvals_inv s"
  by (simp add: sound_def)

lemma sound_frame [simp]:
  "sound (record_trace q e g) = sound g" "sound (update_trace q i fn g) = sound g"
  "sound (record_usage q a t p g) = sound g" "sound (sync_halts q g) = sound g"
  "sound (g\<lparr>gw_forwarded := fs\<rparr>) = sound g" "sound (g\<lparr>gw_Halts := hs\<rparr>) = sound g"
  "sound (g\<lparr>gw_Grants := gs\<rparr>) = sound g" "sound (g\<lparr>gw_Pins := ps\<rparr>) = sound g"
  "sound (g\<lparr>gw_RateLimiter := l\<rparr>) = sound g" "sound (g\<lparr>gw_Registry := r\<rparr>) = sound g"
  by (simp_all add: sound_def)

lemma sound_store [simp]: "sound (g\<lparr>gw_Approvals := Some s\<rparr>) = approvals_inv s"
  by (simp add: sound_def)

lemma sound_resolved_trace [simp]: "sound (resolved_trace q pa fn g) = sound g"
  by (simp add: resolved_trace_def)

lemma approvals_inv_written [simp]: "approvals_inv (WriteDecision pa res s) = approvals_inv s"
  by (simp add: approvals_inv_def)

lemma approvals_inv_Apply [simp]: "approvals_inv (Apply st s) = approvals_inv s"
  by (simp add: approvals_inv_def Apply_def Let_def)

lemma TryAutoResolveSafe_inv:
  "approvals_inv s \<Longrightarrow> approvals_inv (snd (TryAutoResolveSafe rt mem now i a t p s))"
  by (auto simp: TryAutoResolveSafe_def TryAutoResolve_def Let_def split: option.split)

lemma ClaimApproved_inv: "approvals_inv s \<Longrightarrow> approvals_inv (snd (ClaimApproved now a t p w s))"
  and ClaimDenied_inv: "approvals_inv s \<Longrightarrow> approvals_inv (snd (ClaimDenied now a t p w s))"
  by (simp_all add: ClaimApproved_def ClaimDenied_def claim_status_inv)

lemma Resolve_returns:
  assumes "approvals_inv s" and "st \<in> {StatusApproved, StatusDenied}"
  shows "\<exists>e s'. Resolve now i st opts s = Some (e, s') \<and> approvals_inv s'"
  using Resolve_spec [OF assms, of i now opts] assms(1) settled_inv [OF assms(1)] assms(2) by fastforce

section \<open>The calls\<close>

lemma sound_precedent [sound_intros]: "sound g \<Longrightarrow> sound (snd (by_precedent q a t p d g))"
proof -
  assume g: "sound g"
  have "approvals_inv s1" if "gw_Approvals g = Some s" "TryAutoResolveSafe rt mem now i a t p s = (x, s1)"
    for s x s1 rt mem now i
    using TryAutoResolveSafe_inv [OF soundD [OF g that(1)], of rt mem now i a t p] that(2) by simp
  then show "sound (snd (by_precedent q a t p d g))"
    using g by (auto simp: by_precedent_def split: option.split prod.split)
qed

lemma sound_execute_call [sound_intros]: "sound g \<Longrightarrow> sound (snd (execute_call q tc sid who t tool p d gr g))"
  by (simp add: execute_call_def forward_def Let_def case_prod_unfold)

lemma sound_await [sound_intros]: "sound g \<Longrightarrow> sound (snd (await_approval q tc sid cb who t tool p d g))"
  by (auto simp: await_approval_def case_prod_unfold Submit_inv soundD split: option.split)

lemma sound_rate [sound_intros]: "sound g \<Longrightarrow> sound (snd (rate_check q tc sid who t p g))"
  by (auto simp: rate_check_def Let_def split: option.split prod.split)

lemma sound_decided_call [sound_intros]: "sound g \<Longrightarrow> sound (snd (decided_call q tc sid cb who t tool p g))"
  by (auto simp: decided_call_def Let_def case_prod_unfold intro: sound_intros)

lemma sound_halted [simp]: "sound (RecordHalted q hl tc sid who t p g) = sound g"
  and sound_refused [simp]: "sound (RecordRefused q tc sid t p rule msg code g) = sound g"
  by (simp_all add: RecordHalted_def RecordRefused_def Let_def)

text \<open>What a call does once it is known who calls, that no stop covers it, and what it names.\<close>

lemma sound_tool_call [sound_intros]:
  assumes "sound g" shows "sound (snd (handleToolCall q r body g))"
proof (cases "extractIdentity r g")
  case (Inl e)
  then show ?thesis using assms by (simp add: handleToolCall_def Let_def)
next
  case (Inr who)
  let ?t = "TrimPrefix (hc_Path r) ''/tool/''" and ?s = "hc_SessionID r" and ?g = "sync_halts q g"
  let ?tc = "NewContext (tv_draw (qe_trace q)) (hc_Traceparent r) (hc_XTraceId r)"
  show ?thesis
  proof (cases "gw_RequireAuth g \<and> id_AgentID who = ''anonymous'' \<or> body = None")
    case True
    then show ?thesis using Inr assms by (auto simp: handleToolCall_def Let_def)
  next
    case False
    then obtain p where p: "body = Some p" and auth: "\<not> (gw_RequireAuth g \<and> id_AgentID who = ''anonymous'')" by auto
    show ?thesis
    proof (cases rule: HaltFor_cases [of q "id_AgentID who" ?s g])
      case (2 hl)
      then show ?thesis using Inr p auth assms by (auto simp: handleToolCall_def Let_def)
    next
      case 1
      show ?thesis
      proof (cases "resolveTool ?g ?t")
        case None
        then show ?thesis using Inr p auth 1 assms by (auto simp: handleToolCall_def Let_def)
      next
        case (Some tool)
        obtain x g2 where x: "rate_check q ?tc ?s who ?t p ?g = (x, g2)" by fastforce
        have rate: "sound g2" using sound_rate [of ?g q ?tc ?s who ?t p] x assms by simp
        have "snd (handleToolCall q r body g)
            = (case x of Some _ \<Rightarrow> g2 | None \<Rightarrow> snd (decided_call q ?tc ?s (hc_CallbackURL r) who ?t tool p g2))"
          using Inr p auth 1 Some x by (auto simp: handleToolCall_def Let_def split: option.split)
        then show ?thesis using rate sound_decided_call [OF rate] by (auto split: option.split)
      qed
    qed
  qed
qed

lemma sound_decided_answer [sound_intros]: "sound g \<Longrightarrow> sound (snd (decided_answer q tc sid who t p g))"
  by (auto simp: decided_answer_def Let_def case_prod_unfold intro: sound_intros)

lemma sound_decide [sound_intros]:
  assumes "sound g" shows "sound (snd (handleDecide q r body g))"
proof (cases "body = None \<or> (\<exists>req. body = Some req \<and> dq_Tool req = [])")
  case True
  then show ?thesis using assms by (auto simp: handleDecide_def)
next
  case False
  then obtain req where req: "body = Some req" "dq_Tool req \<noteq> []" by auto
  show ?thesis
  proof (cases "extractIdentity r g")
    case (Inl e)
    then show ?thesis using req assms by (simp add: handleDecide_def Let_def)
  next
    case (Inr who0)
    show ?thesis
    proof (cases "decide_agent (dq_Agent req) who0 g")
      case (DecideAs a)
      show ?thesis
        using assms req Inr DecideAs
        by (cases rule: HaltFor_cases [of q a "hc_SessionID r" g])
          (simp_all add: handleDecide_def Let_def sound_decided_answer)
    qed (use req Inr assms in \<open>simp_all add: handleDecide_def Let_def\<close>)
  qed
qed

lemma sound_resume_call:
  assumes "sound g" "resume_call q w g = Some (a, g')" shows "sound g'"
proof -
  obtain s r s1 where s: "gw_Approvals g = Some s" "receive (wc_ID w) s = Some (r, s1)"
    using assms(2) by (auto simp: resume_call_def split: option.splits)
  then have "approvals_inv s1" using receive_inv soundD assms(1) by blast
  then show ?thesis
    using assms(2) s
    by (auto simp: resume_call_def run_approved_def forward_def Let_def case_prod_unfold split: status.splits)
qed

section \<open>The calls over MCP\<close>

lemma sound_execute [sound_intros]: "sound g \<Longrightarrow> sound (snd (mcp_execute e sv tc t tool p d g))"
  and sound_tty [sound_intros]: "sound g \<Longrightarrow> sound (snd (tty_decided e sv tc t tool p x ok by g))"
  by (simp_all add: mcp_execute_def tty_decided_def forward_def Let_def case_prod_unfold)

lemma sound_resolution [simp]: "sound (snd (handleResolution e sv pa i res t p g)) = sound g"
  by (rule sound_same) (rule resolution_approvals)

lemma sound_submit:
  assumes "approvals_inv s" shows "sound (snd (submit_call e sv t p d x s g))"
  using Submit_inv [OF assms] by (auto simp: submit_call_def Let_def case_prod_unfold)

lemma sound_queue [sound_intros]:
  assumes "sound g" shows "sound (snd (queue_call e sv t p d x g))"
proof (cases "gw_Approvals g")
  case None
  then show ?thesis using assms by (simp add: queue_call_def)
next
  case (Some s)
  let ?q = "mv_req e" and ?a = "sv_AgentID sv"
  note inv = soundD [OF assms Some]
  obtain c1 s1 where C1: "ClaimApproved (qe_now ?q) ?a t p (as_timeout s) s = (c1, s1)"
    by (cases "ClaimApproved (qe_now ?q) ?a t p (as_timeout s) s")
  obtain c2 s2 where C2: "ClaimDenied (qe_now ?q) ?a t p (as_timeout s1) s1 = (c2, s2)"
    by (cases "ClaimDenied (qe_now ?q) ?a t p (as_timeout s1) s1")
  have inv1: "approvals_inv s1" using ClaimApproved_inv [OF inv, of "qe_now ?q" ?a t p "as_timeout s"] C1 by simp
  have inv2: "approvals_inv s2" using ClaimDenied_inv [OF inv1, of "qe_now ?q" ?a t p "as_timeout s1"] C2 by simp
  show ?thesis
  proof (cases "sv_SupervisorMode sv")
    case True
    then show ?thesis using Some sound_submit [OF inv] by (simp add: queue_call_def)
  next
    case False
    show ?thesis
    proof (cases c1)
      case None
      then show ?thesis using False Some C1 C2 inv2 sound_submit [OF inv2]
        by (auto simp: queue_call_def split: option.split)
    next
      case pa: (Some pa)
      then show ?thesis using False Some C1 inv1
        by (auto simp: queue_call_def Let_def case_prod_unfold)
    qed
  qed
qed

lemma sound_needs [sound_intros]: "sound g \<Longrightarrow> sound (snd (needs_approval e sv tc t tool p d g))"
  by (auto simp: needs_approval_def Let_def case_prod_unfold split: option.split intro: sound_intros)

lemma sound_governed [sound_intros]:
  assumes "sound g" shows "sound (snd (governed_call e sv tc t p g))"
proof -
  let ?g = "sync_halts (mv_req e) g"
  have s: "sound ?g" using assms by simp
  obtain d g2 where pr: "by_precedent (mv_req e) (sv_AgentID sv) t p
      (ApplyFloors (gw_Pins ?g) (Evaluate (qe_rt (mv_req e)) (gw_Policy ?g) (sv_AgentID sv) t p) (resolveTool ?g t)) ?g
      = (d, g2)" by fastforce
  have g2: "sound g2" using sound_precedent [OF s] pr by (metis snd_conv)
  show ?thesis
    using s pr sound_needs [OF g2] sound_execute [OF g2]
    by (cases rule: HaltFor_cases [of "mv_req e" "sv_AgentID sv" "sv_SessionID sv" g]; cases "resolveTool ?g t")
      (simp_all add: governed_call_def Let_def case_prod_unfold)
qed

lemma approval_resolve_returns:
  assumes "sound g" shows "\<exists>a g'. handleApprovalResolve e sv p g = Some (a, g') \<and> sound g'"
proof (cases "gw_Approvals g")
  case None
  then show ?thesis using assms by (simp add: handleApprovalResolve_def Let_def)
next
  case (Some s)
  note inv = soundD [OF assms Some]
  have D: "\<exists>x s'. Deny now i who s = Some (x, s') \<and> approvals_inv s'"
    and A: "\<exists>x s'. Approve now i who s = Some (x, s') \<and> approvals_inv s'" for now i who
    using Resolve_returns [OF inv] by (simp_all add: Deny_def Approve_def)
  have R: "sound g2" if "run_resolved e who pa g1 = (a, g2)" "sound g1" for who pa g1 a g2
    using that by (auto simp: run_resolved_def forward_def Let_def case_prod_unfold split: option.splits)
  let ?i = "str_arg p ''id''" and ?now = "qe_now (mv_req e)" and ?by = "''mcp:'' @ sv_AgentID sv"
  obtain x1 s1 where 1: "Deny ?now ?i ?by s = Some (x1, s1)" "approvals_inv s1" using D by blast
  obtain x2 s2 where 2: "Approve ?now ?i ?by s = Some (x2, s2)" "approvals_inv s2" using A by blast
  show ?thesis
    using Some 1 2 assms
    by (cases x1; cases x2; cases "approval_Get ?i s"; cases "run_resolved e ?by (the (approval_Get ?i s)) (g\<lparr>gw_Approvals := Some s2\<rparr>)")
      (auto simp: handleApprovalResolve_def Let_def intro: R)
qed

lemma virtual_call_returns:
  assumes "sound g" shows "\<exists>a g'. virtual_call e show_catalog clients sv t p g = Some (a, g') \<and> sound g'"
proof -
  have "sound (snd (handleGrantCreate e sv p g))" "sound (snd (handleGrantRevoke p g))"
    using assms by (simp_all add: handleGrantCreate_def handleGrantRevoke_def Let_def case_prod_unfold split: option.split bool.split)
  then show ?thesis
    using approval_resolve_returns [OF assms, of e sv p] assms
    by (cases "handleGrantCreate e sv p g"; cases "handleGrantRevoke p g") (auto simp: virtual_call_def)
qed

lemma HandleRequest_returns:
  assumes "sound g"
  shows "\<exists>x sv' g'. HandleRequestWith e show_catalog clients newID meth p tc sv g = Some (x, sv', g') \<and> sound g'"
proof -
  have "\<exists>x g'. handleToolsCall e show_catalog clients sv p tc g = Some (x, g') \<and> sound g'"
  proof (cases "str_arg p ''name'' \<in> set virtual_names")
    case True
    then show ?thesis using assms
        virtual_call_returns [OF assms, of e show_catalog clients sv "str_arg p ''name''"
          "case map_of (entries p) ''arguments'' of Some (VMap m) \<Rightarrow> Some m | _ \<Rightarrow> None"]
      by (auto simp: handleToolsCall_def Let_def)
  next
    case False
    then show ?thesis using assms sound_governed [OF assms] by (simp add: handleToolsCall_def Let_def prod_eq_iff)
  qed
  then show ?thesis using assms by (auto simp: HandleRequestWith_def)
qed

lemma mcp_returns:
  assumes "sound g"
  shows "\<exists>reply h' g'. mcp_ServeHTTP e show_catalog clients newID verb c h g = Some (reply, h', g') \<and> sound g'"
proof -
  have "\<exists>reply sv h' g'. serve_post e show_catalog clients newID c req h g = Some (reply, sv, h', g') \<and> sound g'" for req
  proof -
    obtain sid who meth p where req: "req = (sid, who, meth, p)" by (cases req)
    obtain sv h1 where s: "getOrCreateSession newID sid who h = (sv, h1)" by fastforce
    obtain x sv' g' where "HandleRequestWith e show_catalog clients newID meth p
        (NewContext (tv_draw (qe_trace (mv_req e))) (mp_Traceparent c) (mp_XTraceId c)) sv g = Some (x, sv', g')" "sound g'"
      using HandleRequest_returns [OF assms] by metis
    then show ?thesis by (simp add: serve_post_def req s Let_def)
  qed
  then have "\<exists>reply h' g'. handlePost e show_catalog clients newID c h g = Some (reply, h', g') \<and> sound g'"
    using assms by (cases "check_post h c") (force simp: handlePost_def)+
  then show ?thesis using assms by (auto simp: mcp_ServeHTTP_def split: prod.split)
qed

lemma sound_resume_tools_call:
  assumes "sound g" "resume_tools_call e sv w g = Some (a, g')" shows "sound g'"
proof -
  obtain s r s1 where s: "gw_Approvals g = Some s" "receive (a_ID (pc_Approval w)) s = Some (r, s1)"
    using assms(2) by (auto simp: resume_tools_call_def split: option.splits)
  then have inv1: "approvals_inv s1" using receive_inv soundD assms(1) by blast
  obtain ok s2 where c: "Claim (a_ID (pc_Approval w)) s1 = (ok, s2)" by fastforce
  have inv2: "approvals_inv s2" using Claim_inv [OF inv1, of "a_ID (pc_Approval w)"] c by simp
  have "sound (snd (a, g'))"
    using assms(2) s c inv1 inv2 by (auto simp: resume_tools_call_def split: if_splits bool.splits)
      (metis sound_resolution sound_store snd_conv)+
  then show ?thesis by simp
qed

section \<open>The control plane\<close>

lemma denyPending_returns:
  assumes "sound g" shows "\<exists>denied g'. denyPendingFor now hl g = Some (denied, g') \<and> sound g'"
proof (cases "gw_Approvals g")
  case None
  then show ?thesis using assms by (simp add: denyPendingFor_def)
next
  case (Some s)
  note inv = soundD [OF assms Some]
  let ?in = "if h_Scope hl = ''session''
     then map te_TraceID (QueryBySession (h_Target hl) 1000000 (gw_Traces g)) else []"
  obtain denied s' where "deny_each now (''halt:'' @ h_ID hl) (in_halt_scope hl ?in) (ListPending s) s = Some (denied, s')"
    "approvals_inv s'"
    using deny_each_spec [OF inv, of now "''halt:'' @ h_ID hl" "in_halt_scope hl ?in" "ListPending s"] by blast
  then show ?thesis using Some by (simp add: denyPendingFor_def)
qed

lemma create_halt_returns:
  assumes "sound g" shows "\<exists>a g'. handleCreateHalt q r body g = Some (a, g') \<and> sound g'"
proof -
  have E: "\<exists>a g'. enforce_halt q who hl g1 = Some (a, g') \<and> sound g'" if "sound g1" for who hl g1
  proof -
    obtain rv g2 where R: "revokeGrantsFor (qe_now q) hl g1 = (rv, g2)" by fastforce
    let ?g = "if rv \<noteq> [] then g2\<lparr>gw_Halts := map_option (RecordRevoked (qe_halt q) (h_ID hl) rv) (gw_Halts g2)\<rparr> else g2"
    have "sound ?g" using that revokeGrantsFor_frame(2) [OF R] by (simp add: sound_def)
    then obtain d g3 where "denyPendingFor (qe_now q) hl ?g = Some (d, g3)" "sound g3"
      using denyPending_returns by blast
    then show ?thesis by (simp add: enforce_halt_def R Let_def)
  qed
  show ?thesis
  proof (cases "gw_Halts g")
    case None
    then show ?thesis using assms by (simp add: handleCreateHalt_def)
  next
    case (Some hs)
    have s: "sound (g\<lparr>gw_Halts := Some hs1\<rparr>)" for hs1 using assms by simp
    show ?thesis
    proof (cases body)
      case None
      then show ?thesis using Some assms by (simp add: handleCreateHalt_def)
    next
      case req: (Some req)
      obtain x hs1 where "halt_Start (qe_halt q) (qe_newID q) (rq_Scope req) (rq_Target req) (rq_Reason req)
          (operator (rq_By req) r) hs = (x, hs1)" by fastforce
      then show ?thesis using Some req assms E [OF s, of "operator (rq_By req) r" _ hs1]
        by (cases x) (auto simp: handleCreateHalt_def Let_def)
    qed
  qed
qed

lemma sound_resume_halt: "sound g \<Longrightarrow> sound (snd (handleResumeHalt q r who g))"
  by (auto simp: handleResumeHalt_def Let_def case_prod_unfold split: option.split sum.split)

lemma resolve_action_returns:
  assumes "sound g" "st \<in> {StatusApproved, StatusDenied}"
  shows "\<exists>a g'. handleResolveAction q r st req g = Some (a, g') \<and> sound g'"
proof (cases "gw_Approvals g")
  case None
  then show ?thesis using assms by (simp add: handleResolveAction_def)
next
  case (Some s)
  obtain e s' where "Resolve (qe_now q) (approval_id_of (hc_Path r)) st
      \<lparr>ro_ResolvedBy = (if rr_ResolvedBy req = [] then ''http:'' @ hc_RemoteAddr r else rr_ResolvedBy req),
       ro_Reasoning = rr_Reasoning req, ro_Confidence = rr_Confidence req\<rparr> s = Some (e, s')" "approvals_inv s'"
    using Resolve_returns [OF soundD [OF assms(1) Some] assms(2)] by blast
  then show ?thesis using Some
    by (cases e) (auto simp: handleResolveAction_def Let_def split: approval_error.split)
qed

lemma sound_pins_accept: "sound g \<Longrightarrow> sound (snd (handlePinsAccept q pe body g))"
proof -
  have "gw_Approvals (fold (\<lambda>v. record_trace q (pin_accept_entry q who v)) vs g1) = gw_Approvals g1" for who vs g1
    by (induction vs arbitrary: g1) simp_all
  then have "sound (fold (\<lambda>v. record_trace q (pin_accept_entry q who v)) vs g1) = sound g1" for who vs g1
    by (rule sound_same)
  then show "sound g \<Longrightarrow> sound (snd (handlePinsAccept q pe body g))"
    by (auto simp: handlePinsAccept_def Let_def case_prod_unfold split: option.split)
qed

lemma sound_policies [simp]: "sound (applyPolicies ps g) = sound g" "sound (g\<lparr>gw_Policy := pol\<rparr>) = sound g"
  by (simp_all add: applyPolicies_def sound_def Let_def)

lemma policy_edit_approvals:
  "handlePolicyEdit v editing path body fs g = (a, fs', g') \<Longrightarrow> gw_Approvals g' = gw_Approvals g"
  by (auto simp: handlePolicyEdit_def Let_def applyPolicies_def split: option.splits sum.splits if_splits prod.splits)

lemma sound_policy_edit: "sound g \<Longrightarrow> sound (snd (snd (handlePolicyEdit v editing path body fs g)))"
  by (cases "handlePolicyEdit v editing path body fs g") (simp add: sound_same [OF policy_edit_approvals])

lemma sound_put_settings: "sound g \<Longrightarrow> sound (snd (snd (handlePutApprovalSettings v ed body src g)))"
  unfolding handlePutApprovalSettings_def Let_def
  by (auto simp: case_prod_unfold dest: soundD split: option.split sum.split bool.split)

lemma sound_grants_over_http:
  "sound g \<Longrightarrow> sound (snd (handleCreateGrant q r grant_body g))" "sound g \<Longrightarrow> sound (snd (handleRevokeGrant r g))"
  "sound g \<Longrightarrow> sound (snd (handleListHalts q g))"
  by (auto simp: handleCreateGrant_def handleRevokeGrant_def handleListHalts_def Let_def case_prod_unfold
      split: option.split bool.split)

section \<open>Every request is answered\<close>

definition answered :: "(api_answer \<times> mesh_state) option \<Rightarrow> bool" where
  "answered x = (case x of None \<Rightarrow> False | Some (a, st) \<Rightarrow> sound (xs_gateway st))"

lemma answered_intros [intro]:
  "sound (xs_gateway st) \<Longrightarrow> answered (answer_with st a)"
  "sound (snd x) \<Longrightarrow> answered (with_gateway st x)"
  "sound (snd y) \<Longrightarrow> answered (with_gateway st (map_prod f id y))"
  by (simp_all add: answered_def answer_with_def with_gateway_def)

lemma answered_bind:
  "\<exists>a g'. x = Some (a, g') \<and> sound g' \<Longrightarrow> answered (Option.bind x (\<lambda>y. with_gateway st (map_prod f id y)))"
  by (auto simp: answered_def with_gateway_def)

lemma serve_data_answers:
  assumes "sound (xs_gateway st)" shows "answered (serve_data v r rt st)"
proof -
  have mcp: "answered (case xs_mcp st of None \<Rightarrow> answer_with st NoPage
      | Some h \<Rightarrow> map_option (\<lambda>(reply, h1, g1). (AnsMCP reply, st\<lparr>xs_mcp := Some h1, xs_gateway := g1\<rparr>))
           (mcp_ServeHTTP (xe_mcp v) (xe_catalog v) (xe_clients v) (xe_session v) (aq_Method r) (mcp_call_of r) h
              (xs_gateway st)))"
  proof (cases "xs_mcp st")
    case None
    then show ?thesis using assms by (simp add: answered_def answer_with_def)
  next
    case (Some h)
    obtain reply h' g' where "mcp_ServeHTTP (xe_mcp v) (xe_catalog v) (xe_clients v) (xe_session v) (aq_Method r)
        (mcp_call_of r) h (xs_gateway st) = Some (reply, h', g')" "sound g'"
      using mcp_returns [OF assms] by metis
    then show ?thesis using Some by (simp add: answered_def)
  qed
  show ?thesis
    using assms mcp sound_decide [OF assms] sound_tool_call [OF assms] unfolding serve_data_def Let_def
    by (cases rt) auto
qed

lemma serve_control_answers:
  assumes "sound (xs_gateway st)" shows "answered (serve_control v r rt st)"
proof -
  note same = answered_intros(1) [OF assms]
  have edit: "answered (case handlePolicyEdit e x path b fs (xs_gateway st) of
      (a, fs, g1) \<Rightarrow> Some (AnsEdit a, st\<lparr>xs_files := fs, xs_gateway := g1\<rparr>))" for e x path b fs
    using sound_policy_edit [OF assms, of e x path b fs] by (simp add: answered_def case_prod_unfold)
  have sets: "answered (case handlePutApprovalSettings e x b src (xs_gateway st) of
      (a, src, g1) \<Rightarrow> Some (AnsSettings a, st\<lparr>xs_config := src, xs_gateway := g1\<rparr>))" for e x b src
    using sound_put_settings [OF assms, of e x b src] by (simp add: answered_def case_prod_unfold)
  note changing = answered_intros(3) [OF sound_pins_accept [OF assms]]
    answered_intros(3) [OF sound_resume_halt [OF assms]]
    answered_intros(3) [OF sound_grants_over_http(1) [OF assms]]
    answered_intros(3) [OF sound_grants_over_http(2) [OF assms]]
    answered_intros(3) [OF sound_grants_over_http(3) [OF assms]]
    answered_bind [OF create_halt_returns [OF assms]]
  have ap: "\<exists>a g'. handleApproveAction q c b (xs_gateway st) = Some (a, g') \<and> sound g'"
    and dn: "\<exists>a g'. handleDenyAction q c b (xs_gateway st) = Some (a, g') \<and> sound g'" for q c b
    using resolve_action_returns [OF assms] by (simp_all add: handleApproveAction_def handleDenyAction_def)
  show ?thesis
    unfolding serve_control_def Let_def
    by (cases rt) (simp_all only: route.case same edit sets changing answered_bind [OF ap] answered_bind [OF dn])
qed

lemma request_is_answered:
  assumes "sound (xs_gateway st)"
  shows "\<exists>a st'. ServeHTTP v r st = Some (a, st') \<and> sound (xs_gateway st')"
proof -
  have "answered (ServeHTTP v r st)"
    using serve_data_answers [OF assms] serve_control_answers [OF assms] assms
    by (auto simp: ServeHTTP_def admin_def Let_def)
  then show ?thesis by (auto simp: answered_def split: option.splits)
qed

section \<open>The mesh at work\<close>

text \<open>
  Whether precedents may approve a tool: the function \<open>initMesh\<close> gives to the approval store. It reads
  the settings and the registry when it is called; the store of the model holds a function of the
  tool alone, which \<open>current\<close> renews before each request.
\<close>

definition auto_approvable :: "registry \<Rightarrow> approval_store \<Rightarrow> string \<Rightarrow> bool" where
  "auto_approvable reg s tool =
     (if st_AutoApproveWrites (Settings s) then True
      else
        (case registry_Get reg tool of
           None \<Rightarrow> False
         | Some t \<Rightarrow> (let c = Classify (Some t) in cl_Family c = FamilyNamed \<and> cl_Access c = AccessRead)))"

definition current :: "mesh_state \<Rightarrow> mesh_state" where
  "current st =
     (let g = xs_gateway st in
      st\<lparr>xs_gateway := g\<lparr>gw_Approvals := map_option
          (\<lambda>s. s\<lparr>as_AutoApprovable := map_option (\<lambda>_. auto_approvable (gw_Registry g) s) (as_AutoApprovable s)\<rparr>)
          (gw_Approvals g)\<rparr>\<rparr>)"

text \<open>An upstream that was away has connected: its tools are registered and compared with their pins.\<close>

definition upstream_joins :: "pin_env \<Rightarrow> mcp_client \<Rightarrow> string \<Rightarrow> manager \<Rightarrow> mesh_state \<Rightarrow> mesh_state" where
  "upstream_joins env c name m st =
     (let g = xs_gateway st;
          u = register_upstream env c name \<lparr>mu_manager = m, mu_reg = gw_Registry g, mu_pins = gw_Pins g\<rparr> in
      st\<lparr>xs_manager := Some (mu_manager u), xs_gateway := g\<lparr>gw_Registry := mu_reg u, gw_Pins := mu_pins u\<rparr>\<rparr>)"

datatype mesh_event =
    Requested api_request api_answer
  | CallWentOn string call_result
  | ToolsCallWentOn string mcp_answer
  | TimerEnded string
  | PoliciesReloaded "policy list"
  | UpstreamConnected string

inductive mesh_step :: "mesh_state \<Rightarrow> mesh_event \<Rightarrow> mesh_state \<Rightarrow> bool" where
  request: "ServeHTTP v r (current st) = Some (a, st') \<Longrightarrow> mesh_step st (Requested r a) st'"
| call: "resume_call q w (xs_gateway st) = Some (a, g) \<Longrightarrow>
    mesh_step st (CallWentOn (wc_ID w) a) (st\<lparr>xs_gateway := g\<rparr>)"
| tools_call: "resume_tools_call e sv p (xs_gateway st) = Some (a, g) \<Longrightarrow>
    mesh_step st (ToolsCallWentOn (a_ID (pc_Approval p)) a) (st\<lparr>xs_gateway := g\<rparr>)"
| timer: "gw_Approvals (xs_gateway st) = Some s \<Longrightarrow> timeoutAfter now i s = Some s' \<Longrightarrow>
    mesh_step st (TimerEnded i) (st\<lparr>xs_gateway := (xs_gateway st)\<lparr>gw_Approvals := Some s'\<rparr>\<rparr>)"
| reload: "mesh_step st (PoliciesReloaded ps) (st\<lparr>xs_gateway := applyPolicies ps (xs_gateway st)\<rparr>)"
| upstream: "xs_manager st = Some m \<Longrightarrow> mesh_step st (UpstreamConnected name) (upstream_joins env c name m st)"

inductive mesh_run :: "mesh_state \<Rightarrow> mesh_event list \<Rightarrow> mesh_state \<Rightarrow> bool" where
  idle: "mesh_run st [] st"
| step: "mesh_run st es st1 \<Longrightarrow> mesh_step st1 e st2 \<Longrightarrow> mesh_run st (es @ [e]) st2"

lemma current_frame [simp]:
  "xs_mcp (current st) = xs_mcp st" "xs_files (current st) = xs_files st" "xs_config (current st) = xs_config st"
  "xs_manager (current st) = xs_manager st" "gw_Halts (xs_gateway (current st)) = gw_Halts (xs_gateway st)"
  by (simp_all add: current_def Let_def)

lemma sound_current [simp]: "sound (xs_gateway (current st)) = sound (xs_gateway st)"
  by (cases "gw_Approvals (xs_gateway st)") (simp_all add: current_def sound_def approvals_inv_def Let_def)

lemma sound_joins [simp]: "sound (xs_gateway (upstream_joins env c name m st)) = sound (xs_gateway st)"
  by (simp add: upstream_joins_def sound_def Let_def)

text \<open>A timer never blocks, and whoever waits for the approval of a call that is still open then goes on.\<close>

lemma timer_returns:
  assumes "approvals_inv s"
  shows "\<exists>s'. timeoutAfter now i s = Some s' \<and> approvals_inv s'
    \<and> (\<forall>pa. map_of (as_pending s) i = Some pa \<and> a_Status pa = StatusPending \<longrightarrow> receive i s' \<noteq> None)"
  using timeoutAfter_spec [OF assms, of now i]
proof (elim disjE exE conjE)
  fix s'
  let ?res = "\<lparr>rs_Status = StatusTimeout, rs_ResolvedBy = ''system:timeout'', rs_ResolvedAt = now,
      rs_Reasoning = [], rs_Confidence = Fin 0\<rparr>"
  assume s': "timeoutAfter now i s = Some s'" "settled i ?res s s'"
  then have "approvals_inv s'" using settled_inv [OF assms] by simp
  moreover have "receive i s' \<noteq> None" using s'(2) by (auto simp: settled_def receive_def)
  ultimately show ?thesis using s'(1) by blast
qed (use assms in blast)

lemma mesh_step_sound:
  assumes "mesh_step st e st'" and "sound (xs_gateway st)" shows "sound (xs_gateway st')"
  using assms
proof (cases rule: mesh_step.cases)
  case (request v r a)
  then show ?thesis using request_is_answered [of "current st" v r] assms(2) by auto
next
  case (timer s now i s')
  then show ?thesis using timer_returns [OF soundD [OF assms(2)], of s now i] by auto
qed (use assms(2) in \<open>auto intro: sound_resume_call sound_resume_tools_call\<close>)

lemma mesh_run_sound: "mesh_run st es st' \<Longrightarrow> sound (xs_gateway st) \<Longrightarrow> sound (xs_gateway st')"
  by (induction rule: mesh_run.induct) (auto dest: mesh_step_sound)

lemma running_mesh_answers:
  assumes "sound (xs_gateway st)"
  shows "\<exists>a st'. ServeHTTP v r (current st) = Some (a, st') \<and> mesh_step st (Requested r a) st'"
  using request_is_answered [of "current st" v r] assms by (auto intro: mesh_step.request)

lemma resume_call_returns:
  assumes "gw_Approvals g = Some s" "receive (wc_ID w) s \<noteq> None" shows "\<exists>x. resume_call q w g = Some x"
  using assms by (auto simp: resume_call_def Let_def)

lemma waiting_call_ends:
  assumes "sound (xs_gateway st)" "approval_at (wc_ID w) (xs_gateway st) = Some pa" "a_Status pa = StatusPending"
  shows "\<exists>st1 a st2. mesh_step st (TimerEnded (wc_ID w)) st1 \<and> resume_call q w (xs_gateway st1) = Some (a, xs_gateway st2)
    \<and> mesh_step st1 (CallWentOn (wc_ID w) a) st2"
proof -
  obtain s where s: "gw_Approvals (xs_gateway st) = Some s" "map_of (as_pending s) (wc_ID w) = Some pa"
    using assms(2) by (auto simp: approval_at_def bind_eq_Some_conv)
  obtain s' where t: "timeoutAfter 0 (wc_ID w) s = Some s'" "receive (wc_ID w) s' \<noteq> None"
    using timer_returns [OF soundD [OF assms(1) s(1)], of 0 "wc_ID w"] s(2) assms(3) by auto
  let ?st = "st\<lparr>xs_gateway := (xs_gateway st)\<lparr>gw_Approvals := Some s'\<rparr>\<rparr>"
  obtain a g where c: "resume_call q w (xs_gateway ?st) = Some (a, g)"
    using resume_call_returns [of "xs_gateway ?st" s' w q] t(2) by auto
  show ?thesis
    using mesh_step.timer [OF s(1) t(1)] mesh_step.call [OF c] c
    by (intro exI [of _ ?st] exI [of _ a] exI [of _ "?st\<lparr>xs_gateway := g\<rparr>"]) simp
qed

end
