(* ===== verification/Storage.thy ===== *)
theory Storage
  imports Prelude
begin

text \<open>
  The state database (\<open>storage/sqlite.go\<close>): how it is opened and its schema brought up to date. SQLite
  is third-party code: what a statement does to a database is an argument, and \<open>sqlite_like\<close> states
  its documented behaviour on the few statements the migrations use.
\<close>

section \<open>Statements\<close>

datatype sql =
    Pragma string
  | CreateTable string "string list"
  | CreateIndex string string string
  | AddColumn string string
  | SetUserVersion nat

type_synonym 'db sql_exec = "sql \<Rightarrow> 'db \<Rightarrow> string + 'db"

text \<open>Statements run one by one, outside a transaction: what ran before an error stays.\<close>

fun exec_all :: "'db sql_exec \<Rightarrow> sql list \<Rightarrow> 'db \<Rightarrow> string option \<times> 'db" where
  "exec_all exec [] db = (None, db)"
| "exec_all exec (s # ss) db =
     (case exec s db of Inl e \<Rightarrow> (Some e, db) | Inr db1 \<Rightarrow> exec_all exec ss db1)"

definition schemaVersion :: nat where
  "schemaVersion = 4"

definition approval_columns :: "string list" where
  "approval_columns =
     [''id'', ''agent_id'', ''tool'', ''params'', ''policy_rule'', ''trace_id'', ''callback_url'', ''status'',
      ''created_at'', ''resolved_by'', ''resolved_at'', ''reasoning'', ''confidence'']"

definition grant_columns :: "string list" where
  "grant_columns = [''id'', ''agent'', ''tools'', ''expires_at'', ''granted_by'', ''created_at'']"

definition pin_columns :: "string list" where
  "pin_columns = [''tool'', ''server'', ''fingerprint'', ''description'', ''pinned_at'']"

definition halt_columns :: "string list" where
  "halt_columns =
     [''id'', ''scope'', ''target'', ''reason'', ''created_by'', ''created_at'', ''resumed_by'', ''resumed_at'',
      ''revoked_grants'']"

definition schema_v1 :: "sql list" where
  "schema_v1 =
     [CreateTable ''approvals'' approval_columns,
      CreateIndex ''idx_approvals_status'' ''approvals'' ''status'',
      CreateIndex ''idx_approvals_agent'' ''approvals'' ''agent_id'',
      CreateTable ''grants'' grant_columns, SetUserVersion 1]"

definition schema_v2 :: "sql list" where
  "schema_v2 = [AddColumn ''grants'' ''approval_id'', AddColumn ''grants'' ''origin_trace_id'', SetUserVersion 2]"

definition schema_v3 :: "sql list" where
  "schema_v3 = [CreateTable ''tool_pins'' pin_columns, SetUserVersion 3]"

definition schema_v4 :: "sql list" where
  "schema_v4 =
     [CreateTable ''halts'' halt_columns, CreateIndex ''idx_halts_active'' ''halts'' ''resumed_at'',
      SetUserVersion schemaVersion]"

definition schema_steps :: "(nat \<times> string \<times> sql list) list" where
  "schema_steps =
     [(1, ''schema v1: '', schema_v1), (2, ''schema v2: '', schema_v2), (3, ''schema v3: '', schema_v3),
      (4, ''schema v4: '', schema_v4)]"

section \<open>Migration\<close>

text \<open>The version is read once, before the first step; a query that fails leaves it at zero.\<close>

fun migrate_steps ::
  "'db sql_exec \<Rightarrow> nat \<Rightarrow> (nat \<times> string \<times> sql list) list \<Rightarrow> 'db \<Rightarrow> string option \<times> 'db" where
  "migrate_steps exec version [] db = (None, db)"
| "migrate_steps exec version ((n, label, stmts) # steps) db =
     (if version < n then
        (case exec_all exec stmts db of
           (Some e, db1) \<Rightarrow> (Some (label @ e), db1)
         | (None, db1) \<Rightarrow> migrate_steps exec version steps db1)
      else migrate_steps exec version steps db)"

definition migrate :: "('db \<Rightarrow> nat option) \<Rightarrow> 'db sql_exec \<Rightarrow> 'db \<Rightarrow> string option \<times> 'db" where
  "migrate read_version exec db =
     migrate_steps exec (case read_version db of None \<Rightarrow> 0 | Some v \<Rightarrow> v) schema_steps db"

definition pragmas :: "string list" where
  "pragmas = [''PRAGMA journal_mode=WAL'', ''PRAGMA busy_timeout=5000'', ''PRAGMA synchronous=NORMAL'']"

text \<open>\<open>opened\<close> is what \<open>sql.Open\<close> answers; the database keeps what ran before an error.\<close>

fun run_pragmas :: "'db sql_exec \<Rightarrow> string list \<Rightarrow> 'db \<Rightarrow> string option \<times> 'db" where
  "run_pragmas exec [] db = (None, db)"
| "run_pragmas exec (p # ps) db =
     (case exec (Pragma p) db of Inl e \<Rightarrow> (Some (p @ '': '' @ e), db) | Inr db1 \<Rightarrow> run_pragmas exec ps db1)"

definition Open ::
  "('db \<Rightarrow> nat option) \<Rightarrow> 'db sql_exec \<Rightarrow> string \<Rightarrow> string + 'db \<Rightarrow> string + 'db" where
  "Open read_version exec path opened =
     (case opened of
        Inl e \<Rightarrow> Inl (''open '' @ path @ '': '' @ e)
      | Inr db \<Rightarrow>
          (case run_pragmas exec pragmas db of
             (Some e, _) \<Rightarrow> Inl e
           | (None, db1) \<Rightarrow>
               (case migrate read_version exec db1 of
                  (Some e, _) \<Rightarrow> Inl (''migrate: '' @ e)
                | (None, db2) \<Rightarrow> Inr db2)))"

section \<open>What SQLite does\<close>

text \<open>A database as far as the migrations see it: the user version, and the columns of each table.\<close>

type_synonym schema = "nat \<times> (string \<times> string list) list"

fun sql_effect :: "sql \<Rightarrow> schema \<Rightarrow> schema option" where
  "sql_effect (Pragma p) (v, ts) = Some (v, ts)"
| "sql_effect (CreateTable t cs) (v, ts) = Some (v, if map_of ts t = None then ts @ [(t, cs)] else ts)"
| "sql_effect (CreateIndex i t c) (v, ts) = (if map_of ts t = None then None else Some (v, ts))"
| "sql_effect (AddColumn t c) (v, ts) =
     (case map_of ts t of
        None \<Rightarrow> None
      | Some cs \<Rightarrow> if c \<in> set cs then None else Some (v, AList.update t (cs @ [c]) ts))"
| "sql_effect (SetUserVersion n) (v, ts) = Some (n, ts)"

definition sqlite_like :: "('db \<Rightarrow> schema) \<Rightarrow> 'db sql_exec \<Rightarrow> bool" where
  "sqlite_like schema_of exec =
     (\<forall>s db. case sql_effect s (schema_of db) of
        None \<Rightarrow> \<exists>e. exec s db = Inl e
      | Some sch \<Rightarrow> \<exists>db'. exec s db = Inr db' \<and> schema_of db' = sch)"

fun effect_all :: "sql list \<Rightarrow> schema \<Rightarrow> schema option" where
  "effect_all [] sch = Some sch"
| "effect_all (s # ss) sch = Option.bind (sql_effect s sch) (effect_all ss)"

fun effect_steps :: "nat \<Rightarrow> (nat \<times> string \<times> sql list) list \<Rightarrow> schema \<Rightarrow> schema option" where
  "effect_steps v [] sch = Some sch"
| "effect_steps v ((n, label, stmts) # steps) sch =
     (if v < n then Option.bind (effect_all stmts sch) (effect_steps v steps) else effect_steps v steps sch)"

lemma exec_all_effect:
  assumes "sqlite_like schema_of exec"
  shows "case effect_all ss (schema_of db) of
      None \<Rightarrow> fst (exec_all exec ss db) \<noteq> None
    | Some sch \<Rightarrow> \<exists>db'. exec_all exec ss db = (None, db') \<and> schema_of db' = sch"
proof (induction ss arbitrary: db)
  case (Cons s ss)
  have s: "case sql_effect s (schema_of db) of
      None \<Rightarrow> \<exists>e. exec s db = Inl e
    | Some sch \<Rightarrow> \<exists>db'. exec s db = Inr db' \<and> schema_of db' = sch"
    using assms unfolding sqlite_like_def by blast
  show ?case
  proof (cases "sql_effect s (schema_of db)")
    case None
    with s show ?thesis by auto
  next
    case (Some sch)
    with s obtain db' where "exec s db = Inr db'" "schema_of db' = sch" by auto
    with Some Cons [of db'] show ?thesis by (auto split: option.splits)
  qed
qed simp

lemma migrate_effect:
  assumes "sqlite_like schema_of exec"
  shows "case effect_steps v steps (schema_of db) of
      None \<Rightarrow> fst (migrate_steps exec v steps db) \<noteq> None
    | Some sch \<Rightarrow> \<exists>db'. migrate_steps exec v steps db = (None, db') \<and> schema_of db' = sch"
proof (induction steps arbitrary: db)
  case (Cons x steps)
  obtain n label stmts where x: "x = (n, label, stmts)" by (cases x)
  note all = exec_all_effect [OF assms, of stmts db]
  show ?case
  proof (cases "v < n")
    case True
    show ?thesis
    proof (cases "effect_all stmts (schema_of db)")
      case None
      then show ?thesis using all True x by (cases "exec_all exec stmts db") auto
    next
      case (Some sch)
      with all obtain db' where "exec_all exec stmts db = (None, db')" "schema_of db' = sch" by auto
      then show ?thesis using Cons [of db'] Some True x by (auto split: option.splits)
    qed
  qed (use Cons [of db] x in \<open>auto split: option.splits\<close>)
qed simp

section \<open>Properties\<close>

text \<open>The schema of each version, on a database that may hold other tables \<open>more\<close> behind them.\<close>

fun schema_at :: "nat \<Rightarrow> schema" where
  "schema_at 0 = (0, [])"
| "schema_at (Suc n) = (case effect_all (snd (snd (schema_steps ! n))) (schema_at n) of Some sch \<Rightarrow> sch | None \<Rightarrow> (0, []))"

lemmas schema_defs = schema_steps_def schema_v1_def schema_v2_def schema_v3_def schema_v4_def schemaVersion_def

lemma effect_from:
  assumes "v \<le> 4"
  shows "effect_steps v schema_steps (schema_at v) = Some (schema_at 4)"
proof -
  have "v \<in> {0, 1, 2, 3, 4}" using assms by auto
  moreover have "list_all (\<lambda>v. effect_steps v schema_steps (schema_at v) = Some (schema_at 4)) [0, 1, 2, 3, 4]"
    by code_simp
  ultimately show ?thesis by auto
qed

lemma fst_schema_at_4: "fst (schema_at 4) = 4" by code_simp


definition demo_exec :: "schema sql_exec" where
  "demo_exec s db = (case sql_effect s db of None \<Rightarrow> Inl ''error'' | Some db' \<Rightarrow> Inr db')"

lemma demo_sqlite: "sqlite_like id demo_exec"
  by (simp add: sqlite_like_def demo_exec_def split: option.split)


text \<open>
  A step that was cut short is not always repaired by the next start: between the two statements of
  the second version that add columns and the one that records it, the database answers the next
  start with an error, at every start.
\<close>

lemma interrupted_migration_is_stuck:
  "\<exists>db'. exec_all demo_exec (take 1 schema_v2) (schema_at 1) = (None, db')
     \<and> fst (migrate (\<lambda>d. Some (fst d)) demo_exec db') = Some ''schema v2: error''
     \<and> snd (migrate (\<lambda>d. Some (fst d)) demo_exec db') = db'"
proof -
  let ?db = "snd (exec_all demo_exec (take 1 schema_v2) (schema_at 1))"
  have "fst (exec_all demo_exec (take 1 schema_v2) (schema_at 1)) = None
      \<and> migrate (\<lambda>d. Some (fst d)) demo_exec ?db = (Some ''schema v2: error'', ?db)" by code_simp
  then show ?thesis by (intro exI [of _ ?db]) (simp add: prod_eq_iff)
qed

text \<open>The other steps can be cut short anywhere: the next start completes them.\<close>

lemma other_interruptions_are_repaired:
  "list_all (\<lambda>(n, k). case exec_all demo_exec (take k (snd (snd (schema_steps ! n)))) (schema_at n) of
       (e, db) \<Rightarrow> e = None \<and> migrate (\<lambda>d. Some (fst d)) demo_exec db = (None, schema_at 4))
     [(0, 0), (0, 1), (0, 2), (0, 3), (0, 4), (2, 0), (2, 1), (3, 0), (3, 1), (3, 2)]"
  by code_simp

end
