(* ===== verification/Watcher.thy ===== *)
theory Watcher
  imports Policy_Edit
begin

text \<open>
  Hot reload of policies (\<open>policy/watcher.go\<close>): which events of the file system count, the timer that
  waits for a quiet moment, and the reload. The events come from the package fsnotify; they, the
  working directory behind \<open>filepath.Abs\<close> and what the files hold at each moment are arguments.
\<close>

section \<open>Paths\<close>

text \<open>\<open>filepath.Clean\<close>, component by component.\<close>

definition clean_step :: "bool \<Rightarrow> string \<Rightarrow> string list \<Rightarrow> string list" where
  "clean_step rooted c out =
     (if c = [] \<or> c = ''.'' then out
      else if c = ''..'' then
        (if out \<noteq> [] \<and> last out \<noteq> ''..'' then butlast out else if rooted then out else out @ [c])
      else out @ [c])"

definition filepath_Clean :: "string \<Rightarrow> string" where
  "filepath_Clean path =
     (let rooted = (path \<noteq> [] \<and> hd path = CHR ''/'');
          out = Join (fold (clean_step rooted) (Split (CHR ''/'') path) []) ''/'' in
      if rooted then CHR ''/'' # out else if out = [] then ''.'' else out)"

definition IsAbs :: "string \<Rightarrow> bool" where
  "IsAbs path = (path \<noteq> [] \<and> hd path = CHR ''/'')"

text \<open>\<open>filepath.Dir\<close> and \<open>filepath.Ext\<close>.\<close>

definition filepath_Dir :: "string \<Rightarrow> string" where
  "filepath_Dir path = filepath_Clean (rev (dropWhile (\<lambda>c. c \<noteq> CHR ''/'') (rev path)))"

definition filepath_Ext :: "string \<Rightarrow> string" where
  "filepath_Ext path =
     (let r = rev path; e = takeWhile (\<lambda>c. c \<noteq> CHR ''.'' \<and> c \<noteq> CHR ''/'') r; rest = drop (length e) r in
      if rest \<noteq> [] \<and> hd rest = CHR ''.'' then CHR ''.'' # rev e else [])"

text \<open>Where the policy files are: a relative directory is beside the configuration.\<close>

definition resolve_policyDir :: "string \<Rightarrow> string \<Rightarrow> string" where
  "resolve_policyDir configPath policyDir =
     (if policyDir = [] \<or> IsAbs policyDir then policyDir
      else filepath_Clean (filepath_Dir configPath @ ''/'' @ policyDir))"

section \<open>The watcher\<close>

datatype fs_op = FsCreate | FsWrite | FsRemove | FsRename | FsChmod

record fs_event =
  fv_Name :: string
  fv_Op :: "fs_op list"

definition isRelevant :: "(string \<Rightarrow> string option) \<Rightarrow> fs_event \<Rightarrow> string \<Rightarrow> string \<Rightarrow> bool" where
  "isRelevant absolute ev configPath policyDir =
     (list_ex (\<lambda>o'. o' \<in> {FsWrite, FsCreate, FsRemove, FsRename}) (fv_Op ev)
      \<and> (case absolute (fv_Name ev) of
           None \<Rightarrow> False
         | Some p \<Rightarrow>
             p = configPath
             \<or> (policyDir \<noteq> [] \<and> filepath_Dir p = policyDir \<and> filepath_Ext p = ''.yaml'')))"

text \<open>\<open>wr_debounce\<close> is when the armed timer ends, if one is armed.\<close>

record watcher =
  wr_configPath :: string
  wr_policyDir :: string
  wr_debounce :: "time option"
  wr_closed :: bool

definition debounce_wait :: duration where
  "debounce_wait = 200 * 1000000"

text \<open>
  The watcher of a configuration: \<open>added\<close> tells whether its directory can be watched, \<open>dir\<close> is the
  policy directory its first reading gives (empty when the configuration is refused).
\<close>

definition NewWatcher :: "(string \<Rightarrow> string option) \<Rightarrow> bool \<Rightarrow> string \<Rightarrow> string \<Rightarrow> watcher option" where
  "NewWatcher absolute added dir configPath =
     (case absolute configPath of
        None \<Rightarrow> None
      | Some p \<Rightarrow>
          if \<not> added then None
          else Some \<lparr>wr_configPath = p, wr_policyDir = dir, wr_debounce = None, wr_closed = False\<rparr>)"

text \<open>A reload keeps the current policies when the files are refused.\<close>

type_synonym files_at = "time \<Rightarrow> dir_listing \<times> (config_error + config)"

definition watcher_reload :: "files_at \<Rightarrow> time \<Rightarrow> gateway \<Rightarrow> gateway" where
  "watcher_reload content now g =
     (case LoadPolicies (fst (content now)) (snd (content now)) of
        Inl e \<Rightarrow> g
      | Inr policies \<Rightarrow> applyPolicies policies g)"

text \<open>The timer ends when its time has come; every relevant event sets it anew.\<close>

definition timer_due :: "files_at \<Rightarrow> time \<Rightarrow> watcher \<times> gateway \<Rightarrow> watcher \<times> gateway" where
  "timer_due content now st =
     (case st of
        (w, g) \<Rightarrow>
          (case wr_debounce w of
             None \<Rightarrow> (w, g)
           | Some t \<Rightarrow> if t \<le> now then (w\<lparr>wr_debounce := None\<rparr>, watcher_reload content t g) else (w, g)))"

datatype watch_input = FsSeen fs_event | FsFailed string | WatchClose

definition watcher_loop :: "(string \<Rightarrow> string option) \<Rightarrow> time \<Rightarrow> watch_input \<Rightarrow> watcher \<Rightarrow> watcher" where
  "watcher_loop absolute now inp w =
     (if wr_closed w then w
      else
        (case inp of
           WatchClose \<Rightarrow> w\<lparr>wr_debounce := None, wr_closed := True\<rparr>
         | FsFailed e \<Rightarrow> w
         | FsSeen ev \<Rightarrow>
             if isRelevant absolute ev (wr_configPath w) (wr_policyDir w)
             then w\<lparr>wr_debounce := Some (now + debounce_wait)\<rparr> else w))"

text \<open>A run: inputs with their times, and the moment it is looked at.\<close>

fun watch_run ::
  "(string \<Rightarrow> string option) \<Rightarrow> files_at \<Rightarrow> (time \<times> watch_input) list \<Rightarrow> time \<Rightarrow> watcher \<times> gateway
     \<Rightarrow> watcher \<times> gateway" where
  "watch_run absolute content [] until st = timer_due content until st"
| "watch_run absolute content ((now, inp) # es) until st =
     watch_run absolute content es until (map_prod (watcher_loop absolute now inp) id (timer_due content now st))"

section \<open>Properties\<close>

text \<open>Inputs that do not count: events elsewhere and errors of the watching itself.\<close>

definition quiet :: "(string \<Rightarrow> string option) \<Rightarrow> watcher \<Rightarrow> watch_input \<Rightarrow> bool" where
  "quiet absolute w inp =
     (case inp of
        WatchClose \<Rightarrow> False
      | FsFailed e \<Rightarrow> True
      | FsSeen ev \<Rightarrow> \<not> isRelevant absolute ev (wr_configPath w) (wr_policyDir w))"

lemma quiet_debounce [simp]: "quiet absolute (w\<lparr>wr_debounce := x\<rparr>) inp = quiet absolute w inp"
  by (simp add: quiet_def split: watch_input.split)

lemma quiet_loop: "quiet absolute w inp \<Longrightarrow> watcher_loop absolute now inp w = w"
  by (auto simp: quiet_def watcher_loop_def split: watch_input.splits)

lemma quiet_run:
  assumes "list_all (\<lambda>(t, inp). quiet absolute w inp) es" and "wr_debounce w = Some d"
    and "wr_debounce w' = None" "w' = w\<lparr>wr_debounce := None\<rparr>" and "d \<le> until"
  shows "watch_run absolute content es until (w, g) = (w', watcher_reload content d g)
    \<and> watch_run absolute content es until (w', g1) = (w', g1)"
  using assms
proof (induction es arbitrary: g1)
  case Nil
  then show ?case by (simp add: timer_due_def)
next
  case (Cons e es)
  obtain t inp where e: "e = (t, inp)" by (cases e)
  have q: "quiet absolute w inp" "quiet absolute w' inp" using Cons.prems e by simp_all
  have rest: "watch_run absolute content es until (w, g) = (w', watcher_reload content d g)"
    "watch_run absolute content es until (w', x) = (w', x)" for x
    using Cons.IH [of x] Cons.prems by (simp_all add: e)
  have w': "w\<lparr>wr_debounce := None\<rparr> = w'" using Cons.prems(4) by simp
  show ?case using Cons.prems(2,3) rest q by (auto simp: e timer_due_def quiet_loop w')
qed

lemma reload_policies:
  "gw_Policy (watcher_reload content now g)
     = (case LoadPolicies (fst (content now)) (snd (content now)) of
          Inl e \<Rightarrow> gw_Policy g | Inr ps \<Rightarrow> Reload ps (gw_Policy g))"
  by (simp add: watcher_reload_def applyPolicies_def Let_def split: sum.split)


definition demo_abs :: "string \<Rightarrow> string option" where
  "demo_abs p = Some (filepath_Clean (if IsAbs p then p else ''/srv/'' @ p))"

definition demo_watcher :: watcher where
  "demo_watcher = \<lparr>wr_configPath = ''/srv/config.yaml'', wr_policyDir = ''/srv/policies'', wr_debounce = None,
     wr_closed = False\<rparr>"


text \<open>
  The directory of an event is always clean, the configured one only when it is relative: an absolute
  \<open>policy_dir\<close> that ends in a slash matches no event, and its files are not reloaded.
\<close>

lemma trailing_slash_is_not_watched:
  "\<not> isRelevant demo_abs \<lparr>fv_Name = ''/srv/policies/bot.yaml'', fv_Op = [FsWrite]\<rparr> ''/srv/config.yaml''
       (resolve_policyDir ''/srv/config.yaml'' ''/srv/policies/'')
   \<and> isRelevant demo_abs \<lparr>fv_Name = ''/srv/policies/bot.yaml'', fv_Op = [FsWrite]\<rparr> ''/srv/config.yaml''
       (resolve_policyDir ''/srv/config.yaml'' ''policies/'')"
  by code_simp

end
