(* ===== verification/Startup.thy ===== *)
theory Startup
  imports Service Stdio_Proxy Storage Watcher
begin

text \<open>
  The start of the daemon (\<open>initMesh\<close> of \<open>cmd/mesh7/mesh.go\<close>, \<open>main\<close> and \<open>trace\<close> of \<open>cmd/mesh7\<close>): what
  is built from a configuration and the state of the last run, in the order of the code, and which
  failures end it. What the start finds outside is the record \<open>start_env\<close>.
\<close>

section \<open>What a start finds\<close>

text \<open>
  The database once \<open>Open\<close> of theory \<open>Storage\<close> has opened it, as the rows of its tables; \<open>sd_readable\<close> tells whether a table can be
  read. A row of approvals holds no channel.
\<close>

record state_db =
  sd_approvals :: "approval list"
  sd_grants :: "grant list"
  sd_pins :: "pin_row list"
  sd_halts :: "halt list"
  sd_readable :: "string \<Rightarrow> bool"

record start_env =
  bt_getenv :: "string \<Rightarrow> string"
  bt_expand :: "string \<Rightarrow> string"
  bt_list :: dir_listing
  bt_config :: "config_error + config"
  bt_url :: host_parser
  bt_fetch :: "string \<Rightarrow> string + string option"
  bt_decode :: "string \<Rightarrow> gval option"
  bt_read :: "string \<Rightarrow> string option"
  bt_trace_rt :: trace_rt
  bt_trace :: trace_env
  bt_trace_file :: "string list option"
  bt_trace_old :: "string list option"
  bt_now :: time
  bt_opened :: "string + state_db"
  bt_order :: "approval list \<Rightarrow> approval list"
  bt_text_before :: "time \<Rightarrow> time \<Rightarrow> bool"
  bt_halt :: halt_env
  bt_b64 :: base64
  bt_jwt_parser :: "string \<Rightarrow> string \<Rightarrow> jwt_parser"
  bt_jwks :: "string \<Rightarrow> jwks_answer"
  bt_pin :: pin_env
  bt_answers :: "mcp_server_config \<Rightarrow> string option \<times> (string + wire_tool list)"
  bt_absolute :: "string \<Rightarrow> string option"
  bt_resolved :: "string \<Rightarrow> string option"
  bt_hash8 :: "string \<Rightarrow> string"
  bt_watches :: bool
  bt_files :: files
  bt_text :: string
  bt_version :: "string \<times> string \<times> string"

datatype start_error =
    ConfigRefused string config_error
  | SpecFailed string string
  | TraceFileFailed string
  | DatabaseFailed string string
  | PinsFailed
  | HaltsFailed halt_error
  | JWTFailed auth_error

definition load_config :: "start_env \<Rightarrow> string \<Rightarrow> int \<Rightarrow> start_error + config" where
  "load_config e path port =
     (case Load (bt_expand e) (bt_list e) (bt_config e) of
        Inl err \<Rightarrow> Inl (ConfigRefused path err)
      | Inr cfg \<Rightarrow> Inr (if port > 0 then cfg\<lparr>cfg_Port := port\<rparr> else cfg))"

section \<open>The parts\<close>

fun load_specs :: "start_env \<Rightarrow> openapi_config list \<Rightarrow> registry \<Rightarrow> start_error + registry" where
  "load_specs e [] r = Inr r"
| "load_specs e (oa # oas) r =
     (let source = (if oa_URL oa \<noteq> [] then oa_URL oa else oa_File oa) in
      case (if oa_URL oa \<noteq> [] then LoadOpenAPI (bt_url e) (bt_fetch e) (bt_decode e) (oa_URL oa) (oa_BackendURL oa) [] r
            else LoadOpenAPIFile (bt_read e) (bt_decode e) (oa_File oa) (oa_BackendURL oa) r) of
        (Some err, _) \<Rightarrow> Inl (SpecFailed source err)
      | (None, r1) \<Rightarrow> load_specs e oas r1)"

definition init_registry :: "start_env \<Rightarrow> string \<Rightarrow> string \<Rightarrow> config \<Rightarrow> start_error + registry" where
  "init_registry e specURL backendURL cfg =
     (if specURL \<noteq> [] then
        (case LoadOpenAPI (bt_url e) (bt_fetch e) (bt_decode e) specURL backendURL [] registry_New of
           (Some err, _) \<Rightarrow> Inl (SpecFailed specURL err)
         | (None, r) \<Rightarrow> load_specs e (cfg_OpenAPIs cfg) r)
      else load_specs e (cfg_OpenAPIs cfg) registry_New)"

definition init_traces :: "start_env \<Rightarrow> config \<Rightarrow> start_error + trace_store" where
  "init_traces e cfg =
     (let key = bt_getenv e ''MESH_TRACE_KEY'';
          exported = (\<lambda>t. t\<lparr>ts_OTEL := (if cfg_OTELEndpoint cfg \<noteq> [] then Some [] else None)\<rparr>) in
      if cfg_TraceFile cfg \<noteq> [] then
        (case NewPersistentStore (bt_trace_rt e) (bt_trace e) 10000 (bt_trace_file e) (bt_trace_old e) of
           None \<Rightarrow> Inl (TraceFileFailed (cfg_TraceFile cfg))
         | Some t \<Rightarrow> Inr (exported (if key \<noteq> [] then SetKey key t else t)))
      else Inr (exported (trace_NewStore 10000)))"

definition init_approvals :: "config \<Rightarrow> registry \<Rightarrow> approval_store" where
  "init_approvals cfg reg =
     (let a = cfg_Approval cfg; sup = cfg_Supervisor cfg; mem = cfg_MemoryURL cfg;
          s = approval_NewStore (ac_TimeoutSeconds a * second);
          s1 = (if mem \<noteq> [] then s\<lparr>as_reader := Some (NewMemoryReader mem (GetMinApprovals sup)),
                                as_AutoApprovable := Some (auto_approvable reg s)\<rparr> else s) in
      Apply \<lparr>st_TimeoutSeconds = ac_TimeoutSeconds a, st_WaitSeconds = ac_WaitSeconds a,
             st_AutoApprove = (IsAutoApproveEnabled sup \<and> mem \<noteq> []), st_MinApprovals = GetMinApprovals sup,
             st_AutoApproveWrites = sc_AutoApproveWrites sup\<rparr> s1)"

definition open_state :: "start_env \<Rightarrow> config \<Rightarrow> start_error + state_db option" where
  "open_state e cfg =
     (if cfg_StoragePath cfg = [] then Inr None
      else (case bt_opened e of Inl err \<Rightarrow> Inl (DatabaseFailed (cfg_StoragePath cfg) err) | Inr db \<Rightarrow> Inr (Some db)))"

text \<open>A table that cannot be read is logged and the store starts empty.\<close>

definition restore_approvals :: "start_env \<Rightarrow> state_db \<Rightarrow> approval_store \<Rightarrow> approval_store" where
  "restore_approvals e db s =
     (let s1 = s\<lparr>as_db := Some (map (\<lambda>r. r\<lparr>a_Result := None\<rparr>) (sd_approvals db))\<rparr> in
      if sd_readable db ''approvals'' then snd (approval_LoadAll (bt_order e) (bt_now e) s1) else s1)"

definition restore_grants :: "start_env \<Rightarrow> state_db \<Rightarrow> grant_store \<Rightarrow> grant_store" where
  "restore_grants e db s =
     (let s1 = grant_SetDB (sd_grants db) s in
      if sd_readable db ''grants'' then snd (grant_LoadAll (bt_text_before e) (bt_now e) s1) else s1)"

definition init_pins :: "config \<Rightarrow> state_db option \<Rightarrow> start_error + pin_store option" where
  "init_pins cfg db =
     (if \<not> cfg_PinTools cfg then Inr None
      else
        (case db of
           None \<Rightarrow> Inr (Some (pin_NewStore None))
         | Some d \<Rightarrow> if sd_readable d ''tool_pins'' then Inr (Some (pin_NewStore (Some (sd_pins d)))) else Inl PinsFailed))"

definition init_limiter :: "policy list \<Rightarrow> limiter" where
  "init_limiter policies =
     fold (\<lambda>p l. case p_RateLimit p of
         None \<Rightarrow> l
       | Some rl \<Rightarrow> SetLimit (p_Name p) \<lparr>lm_MaxPerMinute = rl_MaxPerMinute rl, lm_MaxTotal = rl_MaxTotal rl\<rparr> l)
       policies limiter_New"

definition init_halts :: "start_env \<Rightarrow> state_db option \<Rightarrow> start_error + halt_store" where
  "init_halts e db =
     (case halt_NewStore (bt_halt e) (map_option sd_halts db) of Inl err \<Rightarrow> Inl (HaltsFailed err) | Inr hs \<Rightarrow> Inr hs)"

definition init_auth :: "start_env \<Rightarrow> config \<Rightarrow> start_error + validator option \<times> bool" where
  "init_auth e cfg =
     (case au_JWT (cfg_Auth cfg) of
        None \<Rightarrow> Inr (None, False)
      | Some jc \<Rightarrow>
          (case NewValidator (bt_b64 e) (bt_jwt_parser e) (bt_jwks e (jc_JWKSURL jc)) jc of
             Inl err \<Rightarrow> Inl (JWTFailed err)
           | Inr v \<Rightarrow> Inr (Some v, jc_AllowLegacy jc)))"

definition admin_token :: "start_env \<Rightarrow> config \<Rightarrow> string" where
  "admin_token e cfg =
     (if bt_getenv e ''MESH_ADMIN_TOKEN'' \<noteq> [] then bt_getenv e ''MESH_ADMIN_TOKEN'' else au_AdminToken (cfg_Auth cfg))"

text \<open>The policy directory, when the policies of the configuration can be loaded.\<close>

definition policy_dir_of :: "start_env \<Rightarrow> string \<Rightarrow> string" where
  "policy_dir_of e path =
     (case (LoadPolicies (bt_list e) (bt_config e), bt_config e) of
        (Inr ps, Inr parsed) \<Rightarrow> resolve_policyDir path (cfg_PolicyDir parsed)
      | _ \<Rightarrow> [])"

section \<open>The whole\<close>

record mesh_process =
  mh_config :: config
  mh_mesh :: mesh_state
  mh_editing :: "policy_editing option"
  mh_settings_path :: "string option"
  mh_build :: build_info
  mh_watcher :: "watcher option"

definition started_gateway ::
  "start_env \<Rightarrow> config \<Rightarrow> registry \<Rightarrow> trace_store \<Rightarrow> state_db option \<Rightarrow> pin_store option \<Rightarrow> halt_store
     \<Rightarrow> validator option \<times> bool \<Rightarrow> gateway" where
  "started_gateway e cfg reg traces db pins halts auth =
     (let ap = init_approvals cfg reg in
      \<lparr>gw_Registry = (if cfg_CLITools cfg \<noteq> [] then LoadCLI (cfg_CLITools cfg) reg else reg),
       gw_Policy = NewEngine (cfg_Policies cfg), gw_Pins = pins, gw_Traces = traces,
       gw_Approvals = Some (case db of None \<Rightarrow> ap | Some d \<Rightarrow> restore_approvals e d ap),
       gw_RateLimiter = Some (init_limiter (cfg_Policies cfg)),
       gw_Grants = Some (case db of None \<Rightarrow> grant_NewStore | Some d \<Rightarrow> restore_grants e d grant_NewStore),
       gw_Halts = Some halts, gw_JWTValidator = fst auth, gw_AllowLegacyAgent = snd auth,
       gw_RequireAuth = au_RequireAuthentication (cfg_Auth cfg), gw_AdminToken = admin_token e cfg, gw_forwarded = []\<rparr>)"

definition started_handler :: "config \<Rightarrow> gateway \<Rightarrow> http_handler" where
  "started_handler cfg g =
     \<lparr>hh_JWTValidator = gw_JWTValidator g, hh_AllowLegacyAgent = gw_AllowLegacyAgent g,
      hh_RequireAuth = gw_RequireAuth g, hh_SupervisorMode = IsEnabled (cfg_Supervisor cfg),
      hh_SupervisorAgents = sc_SupervisorAgents (cfg_Supervisor cfg), hh_ApprovalChannel = ac_Channel (cfg_Approval cfg),
      hh_HideDenied = cfg_HideDeniedTools cfg, hh_ApprovalWait = 0, hh_sessions = []\<rparr>"

definition started_mesh :: "start_env \<Rightarrow> config \<Rightarrow> gateway \<Rightarrow> mesh_state" where
  "started_mesh e cfg g =
     (let u = connect_upstreams (bt_pin e) (map (\<lambda>sc. (sc, bt_answers e sc)) (cfg_MCPServers cfg))
                \<lparr>mu_manager = NewManager, mu_reg = gw_Registry g, mu_pins = gw_Pins g\<rparr>;
          g1 = g\<lparr>gw_Registry := mu_reg u, gw_Pins := mu_pins u\<rparr> in
      \<lparr>xs_gateway = g1, xs_mcp = Some (started_handler cfg g1), xs_files = bt_files e, xs_config = bt_text e,
       xs_manager = (if cfg_MCPServers cfg \<noteq> [] then Some (mu_manager u) else None)\<rparr>)"

text \<open>The first step that fails ends the start.\<close>

definition and_then :: "'e + 'a \<Rightarrow> ('a \<Rightarrow> 'e + 'b) \<Rightarrow> 'e + 'b" where
  "and_then x f = (case x of Inl e \<Rightarrow> Inl e | Inr a \<Rightarrow> f a)"

definition initMesh :: "start_env \<Rightarrow> string \<Rightarrow> int \<Rightarrow> string \<Rightarrow> string \<Rightarrow> start_error + mesh_process" where
  "initMesh e path port specURL backendURL =
     and_then (load_config e path port) (\<lambda>cfg.
     and_then (init_registry e specURL backendURL cfg) (\<lambda>reg.
     and_then (init_traces e cfg) (\<lambda>traces.
     and_then (open_state e cfg) (\<lambda>db.
     and_then (init_pins cfg db) (\<lambda>pins.
     and_then (init_halts e db) (\<lambda>halts.
     and_then (init_auth e cfg) (\<lambda>auth.
       let dir = policy_dir_of e path;
           g = started_gateway e cfg reg traces db pins halts auth in
       Inr \<lparr>mh_config = cfg, mh_mesh = started_mesh e cfg g,
            mh_editing = (if dir \<noteq> [] then Some \<lparr>pe_Dir = dir, pe_Reload = True\<rparr> else None),
            mh_settings_path = (if path \<noteq> [] then Some path else None),
            mh_build = \<lparr>bi_Version = fst (bt_version e), bi_ConfigID = configID (bt_absolute e) (bt_resolved e) (bt_hash8 e) path,
              bi_Commit = fst (snd (bt_version e)), bi_BuildDate = snd (snd (bt_version e))\<rparr>,
            mh_watcher = NewWatcher (bt_absolute e) (bt_watches e)
              (policy_dir_of e (case bt_absolute e path of None \<Rightarrow> [] | Some p \<Rightarrow> p)) path\<rparr>)))))))"

text \<open>What of a request's surroundings the start has fixed.\<close>

definition served_by :: "mesh_process \<Rightarrow> mesh_env \<Rightarrow> mesh_env" where
  "served_by m v =
     v\<lparr>xe_supervisor := cfg_Supervisor (mh_config m), xe_editing := mh_editing m, xe_settings_path := mh_settings_path m,
       xe_build := mh_build m, xe_trace_path := cfg_TraceFile (mh_config m)\<rparr>"

section \<open>The program\<close>

text \<open>Where the daemon listens; \<open>mesh7 --mcp\<close> opens its HTTP server beside standard input without TLS.\<close>

record listener =
  ls_Addr :: string
  ls_TLS :: bool

definition mesh_listener :: "config \<Rightarrow> listener" where
  "mesh_listener cfg = \<lparr>ls_Addr = '':'' @ Itoa (cfg_Port cfg), ls_TLS = tls_Enabled (cfg_TLS cfg)\<rparr>"

definition mcp_listener :: "config \<Rightarrow> listener" where
  "mcp_listener cfg = \<lparr>ls_Addr = '':'' @ Itoa (cfg_Port cfg), ls_TLS = False\<rparr>"

definition stdio_server :: "config \<Rightarrow> string \<Rightarrow> string \<Rightarrow> mcp_server" where
  "stdio_server cfg agent session =
     \<lparr>sv_AgentID = agent, sv_HideDenied = cfg_HideDeniedTools cfg, sv_UserID = [], sv_SessionID = session,
      sv_SupervisorMode = IsEnabled (cfg_Supervisor cfg), sv_SupervisorAgents = sc_SupervisorAgents (cfg_Supervisor cfg),
      sv_ApprovalChannel = ac_Channel (cfg_Approval cfg), sv_ApprovalWait = 0\<rparr>"

record mesh7_flags =
  fl_version :: bool
  fl_config :: string
  fl_openapi :: string
  fl_backend :: string
  fl_port :: int
  fl_mcp :: bool
  fl_agent :: string
  fl_session :: string

datatype mesh7_run =
    ShowsVersion
  | RelaysTo int
  | RefusesDaemon int
  | InitFailed start_error
  | RunsStdio mesh_process mcp_server listener
  | RunsHTTP mesh_process listener

text \<open>\<open>health p\<close> is the answer to the request for \<open>/health\<close> on the port.\<close>

definition beside_daemon :: "start_env \<Rightarrow> (int \<Rightarrow> (int \<times> string) option) \<Rightarrow> mesh7_flags \<Rightarrow> mesh7_run option" where
  "beside_daemon e health fl =
     (case Load (bt_expand e) (bt_list e) (bt_config e) of
        Inl err \<Rightarrow> None
      | Inr cfg \<Rightarrow>
          (let p = (if fl_port fl > 0 then fl_port fl else cfg_Port cfg) in
           case daemonOnPort (health p) of
             (False, theirs) \<Rightarrow> None
           | (True, theirs) \<Rightarrow>
               Some (if proxyDecision (configID (bt_absolute e) (bt_resolved e) (bt_hash8 e) (fl_config fl)) theirs
                        = OtherConfig
                     then RefusesDaemon p else RelaysTo p)))"

definition mesh7_main :: "start_env \<Rightarrow> (int \<Rightarrow> (int \<times> string) option) \<Rightarrow> mesh7_flags \<Rightarrow> mesh7_run" where
  "mesh7_main e health fl =
     (if fl_version fl then ShowsVersion
      else
        (case (if fl_mcp fl then beside_daemon e health fl else None) of
           Some x \<Rightarrow> x
         | None \<Rightarrow>
             (case initMesh e (fl_config fl) (fl_port fl) (fl_openapi fl) (fl_backend fl) of
                Inl err \<Rightarrow> InitFailed err
              | Inr m \<Rightarrow>
                  if fl_mcp fl
                  then RunsStdio m (stdio_server (mh_config m) (fl_agent fl) (fl_session fl)) (mcp_listener (mh_config m))
                  else RunsHTTP m (mesh_listener (mh_config m)))))"

text \<open>\<open>mesh7 serve\<close> takes no specification and no standard input.\<close>

definition runServe :: "start_env \<Rightarrow> string \<Rightarrow> int \<Rightarrow> mesh7_run" where
  "runServe e path port =
     (case initMesh e path port [] [] of
        Inl err \<Rightarrow> InitFailed err
      | Inr m \<Rightarrow> RunsHTTP m (mesh_listener (mh_config m)))"

text \<open>
  \<open>mesh7 trace verify\<close>: the exit code and the lines, once the flags are read; \<open>files\<close> are the files that
  were named, with their lines where they can be read.
\<close>

abbreviation middot :: string where
  "middot \<equiv> [CHR 0xC2, CHR 0xB7]"

abbreviation arrow :: string where
  "arrow \<equiv> [CHR 0xE2, CHR 0x86, CHR 0x92]"

definition report_lines :: "report \<Rightarrow> string list" where
  "report_lines r =
     [''lines '' @ Itoa (int (rp_Lines r)) @ '' '' @ middot @ '' chained '' @ Itoa (int (rp_Chained r)) @ '' '' @ middot
        @ '' unchained (before the chain) '' @ Itoa (int (rp_Unchained r))]
     @ (if rp_Chained r > 0 then
          [''seq '' @ Itoa (uint (rp_FirstSeq r)) @ '' '' @ arrow @ '' '' @ Itoa (uint (rp_LastSeq r)) @ '' '' @ middot
             @ '' alg '' @ rp_Alg r, ''head '' @ rp_Head r]
          @ (if rp_Anchor r \<noteq> [] then [''anchor '' @ rp_Anchor r @ '' (last hash of the previous file)''] else [])
        else [])
     @ (case rp_Break r of
          Some b \<Rightarrow> [''BROKEN '' @ bk_File b @ '':'' @ Itoa (int (bk_Line b)) @ '' seq '' @ Itoa (uint (bk_Seq b)) @ '': ''
                      @ bk_Reason b]
        | None \<Rightarrow> if rp_Chained r > 0 then [''OK''] else [])"

definition runTrace ::
  "hash_rt \<Rightarrow> (string \<Rightarrow> envelope option) \<Rightarrow> (report \<Rightarrow> string) option \<Rightarrow> string \<Rightarrow> (string \<times> string list option) list
     \<Rightarrow> int \<times> string list" where
  "runTrace hs other as_json key files =
     (if files = [] then (2, [])
      else
        (case Verify hs other files (if key = [] then None else Some key) of
           (False, r) \<Rightarrow> (2, [])
         | (True, r) \<Rightarrow>
             (if rp_Break r = None then 0 else 1,
              case as_json of Some show \<Rightarrow> [show r] | None \<Rightarrow> report_lines r)))"

section \<open>What has started\<close>

lemma and_then_Inr: "and_then x f = Inr b \<longleftrightarrow> (\<exists>a. x = Inr a \<and> f a = Inr b)"
  by (cases x) (auto simp: and_then_def)

lemma initMeshE:
  assumes "initMesh e path port specURL backendURL = Inr m"
  obtains cfg reg traces db pins halts auth where
    "load_config e path port = Inr cfg" "init_registry e specURL backendURL cfg = Inr reg"
    "init_traces e cfg = Inr traces" "open_state e cfg = Inr db" "init_pins cfg db = Inr pins"
    "init_halts e db = Inr halts" "init_auth e cfg = Inr auth" "mh_config m = cfg"
    "mh_mesh m = started_mesh e cfg (started_gateway e cfg reg traces db pins halts auth)"
  using assms by (auto simp: initMesh_def and_then_Inr Let_def)

lemma load_row_inv [inv_intros]:
  "approvals_inv s \<Longrightarrow> a_Result pa = None \<Longrightarrow> approvals_inv (load_row now pa s)"
  by (auto simp: load_row_def expireLoaded_def approvals_inv_def approval_ok_def Let_def intro!: list_all_update)

lemma load_rows_inv:
  "approvals_inv s \<Longrightarrow> \<forall>r \<in> set rows. a_Result r = None \<Longrightarrow> approvals_inv (fold (load_row now) rows s)"
  by (induction rows arbitrary: s) (auto intro: load_row_inv)

lemma init_approvals_inv: "approvals_inv (init_approvals cfg reg)"
  by (simp add: init_approvals_def approvals_inv_def approval_NewStore_def Apply_def Let_def)

lemma restore_approvals_inv:
  assumes "\<And>rows. set (bt_order e rows) \<subseteq> set rows" and "approvals_inv s"
  shows "approvals_inv (restore_approvals e db s)"
proof -
  let ?rows = "map (\<lambda>r. r\<lparr>a_Result := None\<rparr>) (sd_approvals db)"
  let ?s = "s\<lparr>as_db := Some ?rows\<rparr>"
  have "approvals_inv ?s" using assms(2) by (simp add: approvals_inv_def)
  moreover have "\<forall>r \<in> set (bt_order e ?rows). a_Result r = None" using assms(1) [of ?rows] by auto
  ultimately have "approvals_inv (fold (load_row (bt_now e)) (bt_order e ?rows) ?s)" by (rule load_rows_inv)
  then show ?thesis using \<open>approvals_inv ?s\<close> by (simp add: restore_approvals_def approval_LoadAll_def Let_def)
qed

lemma started_sound:
  assumes "initMesh e path port specURL backendURL = Inr m" and "\<And>rows. set (bt_order e rows) \<subseteq> set rows"
  shows "sound (xs_gateway (mh_mesh m))"
  using assms(1)
proof (rule initMeshE)
  fix cfg reg traces db pins halts auth
  assume m: "mh_mesh m = started_mesh e cfg (started_gateway e cfg reg traces db pins halts auth)"
  show ?thesis
    using init_approvals_inv restore_approvals_inv [OF assms(2) init_approvals_inv]
    by (auto simp: m started_mesh_def started_gateway_def sound_def Let_def split: option.split)
qed


text \<open>The stops of the table are in force, at the start and at every later moment while the table keeps them.\<close>

lemma restored_stops:
  assumes "halt_NewStore env (Some rows) = Inr hs" and "hl \<in> set rows" "h_ResumedAt hl = zero_time" "Covers hl a sid"
  shows "stopped (syncIfStale env' hs) a sid"
proof -
  have "hl \<in> set (active_rows x rows)" for x using assms(2,3) by (simp add: active_rows_def)
  then have "\<exists>h \<in> set (active_rows x rows). Covers h a sid" for x using assms(4) by blast
  then show ?thesis using assms(1)
    by (auto simp: halt_NewStore_def halt_reload_def stopped_def syncIfStale_def Let_def split: if_splits)
qed

lemma connect_upstreams_pins: "mu_pins (connect_upstreams env xs u) = None \<longleftrightarrow> mu_pins u = None"
proof -
  have "mu_pins (start_upstream env x u) = None \<longleftrightarrow> mu_pins u = None" for x u
    by (auto simp: start_upstream_def connect_upstream_def register_upstream_def Let_def
        split: prod.split option.split)
  then show ?thesis unfolding connect_upstreams_def by (induction xs arbitrary: u) simp_all
qed

lemma started_mesh_frame [simp]:
  "gw_JWTValidator (xs_gateway (started_mesh e cfg g)) = gw_JWTValidator g"
  "gw_AllowLegacyAgent (xs_gateway (started_mesh e cfg g)) = gw_AllowLegacyAgent g"
  "gw_RequireAuth (xs_gateway (started_mesh e cfg g)) = gw_RequireAuth g"
  "gw_AdminToken (xs_gateway (started_mesh e cfg g)) = gw_AdminToken g"
  "gw_Halts (xs_gateway (started_mesh e cfg g)) = gw_Halts g"
  "(gw_Pins (xs_gateway (started_mesh e cfg g)) = None) = (gw_Pins g = None)"
  by (simp_all add: started_mesh_def Let_def connect_upstreams_pins)

lemma started_mesh_door: "\<exists>h. xs_mcp (started_mesh e cfg g) = Some h \<and> hh_JWTValidator h = gw_JWTValidator g
    \<and> hh_AllowLegacyAgent h = gw_AllowLegacyAgent g \<and> hh_RequireAuth h = gw_RequireAuth g"
  by (simp add: started_mesh_def started_handler_def Let_def)

lemma started_gateway_frame [simp]:
  "gw_JWTValidator (started_gateway e cfg reg traces db pins halts auth) = fst auth"
  "gw_AllowLegacyAgent (started_gateway e cfg reg traces db pins halts auth) = snd auth"
  "gw_RequireAuth (started_gateway e cfg reg traces db pins halts auth) = au_RequireAuthentication (cfg_Auth cfg)"
  "gw_AdminToken (started_gateway e cfg reg traces db pins halts auth) = admin_token e cfg"
  "gw_Halts (started_gateway e cfg reg traces db pins halts auth) = Some halts"
  "gw_Pins (started_gateway e cfg reg traces db pins halts auth) = pins"
  by (simp_all add: started_gateway_def Let_def)

text \<open>Without the legacy form an identity is anonymous or the token's.\<close>

lemma strict_identity:
  assumes "extractIdentity r g = Inr who" "gw_JWTValidator g = Some v" "\<not> gw_AllowLegacyAgent g"
  shows "who = \<lparr>id_AgentID = ''anonymous'', id_UserID = []\<rparr> \<or> vouched v (TrimPrefix (hc_Authorization r) ''Bearer '') who"
  using assms by (auto simp: extractIdentity_def strict_posture Let_def split: if_splits)

lemma init_auth_posture:
  assumes "init_auth e cfg = Inr (v, legacy)"
  shows "(v = None) = (au_JWT (cfg_Auth cfg) = None)"
    and "legacy \<longleftrightarrow> (case au_JWT (cfg_Auth cfg) of None \<Rightarrow> False | Some jc \<Rightarrow> jc_AllowLegacy jc)"
  using assms by (auto simp: init_auth_def split: option.splits sum.splits)

text \<open>
  C3. A start fails closed: a mesh that has started runs with the whole of the posture it was
  configured for, on both of its doors. With \<open>auth.jwt\<close> and no legacy form every identity is
  anonymous or vouched for by a token; authentication is required where the configuration says so;
  the operator's token is that of the environment, else of the file; tools are pinned if asked for;
  and every stop of the database that was not lifted is in force. What cannot be set up (keys,
  database, stops, pins, specification) ends the start.
\<close>

theorem start_fails_closed:
  assumes "initMesh e path port specURL backendURL = Inr m"
  shows "\<exists>h. xs_mcp (mh_mesh m) = Some h
    \<and> hh_JWTValidator h = gw_JWTValidator (xs_gateway (mh_mesh m))
    \<and> hh_AllowLegacyAgent h = gw_AllowLegacyAgent (xs_gateway (mh_mesh m))
    \<and> hh_RequireAuth h = gw_RequireAuth (xs_gateway (mh_mesh m))
    \<and> gw_RequireAuth (xs_gateway (mh_mesh m)) = au_RequireAuthentication (cfg_Auth (mh_config m))
    \<and> gw_AdminToken (xs_gateway (mh_mesh m)) = admin_token e (mh_config m)
    \<and> (gw_Pins (xs_gateway (mh_mesh m)) = None) = (\<not> cfg_PinTools (mh_config m))
    \<and> (\<forall>jc r who. au_JWT (cfg_Auth (mh_config m)) = Some jc \<and> \<not> jc_AllowLegacy jc
         \<and> extractIdentity r (xs_gateway (mh_mesh m)) = Inr who \<longrightarrow>
           who = \<lparr>id_AgentID = ''anonymous'', id_UserID = []\<rparr>
           \<or> (\<exists>v. gw_JWTValidator (xs_gateway (mh_mesh m)) = Some v
                \<and> vouched v (TrimPrefix (hc_Authorization r) ''Bearer '') who))
    \<and> (cfg_StoragePath (mh_config m) \<noteq> [] \<longrightarrow>
        (\<exists>db. bt_opened e = Inr db \<and> (\<forall>hl \<in> set (sd_halts db). \<forall>q a sid.
           h_ResumedAt hl = zero_time \<and> Covers hl a sid \<longrightarrow> halted q a sid (xs_gateway (mh_mesh m)))))"
  using assms
proof (rule initMeshE)
  fix cfg reg traces db pins halts auth
  assume I: "open_state e cfg = Inr db" "init_pins cfg db = Inr pins" "init_halts e db = Inr halts"
    "init_auth e cfg = Inr auth" "mh_config m = cfg"
    and m: "mh_mesh m = started_mesh e cfg (started_gateway e cfg reg traces db pins halts auth)"
  obtain v legacy where auth: "auth = (v, legacy)" by (cases auth)
  note posture = init_auth_posture [OF I(4) [unfolded auth]]
  let ?g = "xs_gateway (mh_mesh m)"
  have jwt: "who = \<lparr>id_AgentID = ''anonymous'', id_UserID = []\<rparr>
      \<or> (\<exists>v. gw_JWTValidator ?g = Some v \<and> vouched v (TrimPrefix (hc_Authorization r) ''Bearer '') who)"
    if jc: "au_JWT (cfg_Auth (mh_config m)) = Some jc" "\<not> jc_AllowLegacy jc" and who: "extractIdentity r ?g = Inr who"
    for jc r who
  proof -
    obtain vd where v: "v = Some vd" using posture(1) jc(1) I(5) by auto
    have "gw_JWTValidator ?g = Some vd" "\<not> gw_AllowLegacyAgent ?g"
      using posture(2) jc I(5) v by (simp_all add: m auth)
    then show ?thesis using strict_identity [OF who] by blast
  qed
  have pins: "(pins = None) = (\<not> cfg_PinTools cfg)"
    using I(2) by (auto simp: init_pins_def split: if_splits option.splits)
  have stops: "\<exists>d. bt_opened e = Inr d \<and> (\<forall>hl \<in> set (sd_halts d). \<forall>q a sid.
      h_ResumedAt hl = zero_time \<and> Covers hl a sid \<longrightarrow> halted q a sid ?g)" if path: "cfg_StoragePath cfg \<noteq> []"
  proof -
    obtain d where d: "bt_opened e = Inr d" "db = Some d"
      using I(1) path by (auto simp: open_state_def split: sum.splits)
    then have "halt_NewStore (bt_halt e) (Some (sd_halts d)) = Inr halts"
      using I(3) by (auto simp: init_halts_def split: sum.splits)
    from restored_stops [OF this] d(1) show ?thesis by (auto simp: halted_def m)
  qed
  have door: "\<exists>h. xs_mcp (mh_mesh m) = Some h \<and> hh_JWTValidator h = gw_JWTValidator ?g
      \<and> hh_AllowLegacyAgent h = gw_AllowLegacyAgent ?g \<and> hh_RequireAuth h = gw_RequireAuth ?g"
    using started_mesh_door [of e cfg "started_gateway e cfg reg traces db pins halts auth"] by (simp add: m)
  show ?thesis using door jwt pins stops I(5) by (auto simp: m)
qed

definition demo_config :: config where
  "demo_config =
     \<lparr>cfg_Port = 0, cfg_StoragePath = ''state.db'', cfg_TraceFile = [], cfg_OTELEndpoint = [], cfg_OTELHeaders = [],
      cfg_OTELCACert = [], cfg_OTELInsecureSkipVerify = False,
      cfg_Auth = \<lparr>au_JWT = Some \<lparr>jc_JWKSURL = ''https://id/keys'', jc_Issuer = [], jc_Audience = [], jc_AgentClaim = ''azp'',
          jc_UserClaim = [], jc_AllowLegacy = False\<rparr>, au_AdminToken = ''t'', au_RequireAuthentication = True\<rparr>,
      cfg_TLS = \<lparr>tls_CertFile = ''c'', tls_KeyFile = ''k''\<rparr>,
      cfg_Approval = \<lparr>ac_TimeoutSeconds = 0, ac_NotifyURL = [], ac_Channel = [], ac_WaitSeconds = Fin 0\<rparr>,
      cfg_Supervisor = \<lparr>sc_Enabled = None, sc_ExposeContent = None, sc_AutoApprove = None, sc_MinApprovals = 0,
          sc_AutoApproveWrites = False, sc_SupervisorAgents = []\<rparr>,
      cfg_MemoryURL = [], cfg_MemoryToken = [], cfg_Policies = [], cfg_PolicyDir = [], cfg_MCPServers = [],
      cfg_CLITools = [], cfg_OpenAPIs = [], cfg_HideDeniedTools = False, cfg_PinTools = True\<rparr>"

definition demo_open :: approval where
  "demo_open = \<lparr>a_ID = ''a'', a_AgentID = ''bot'', a_Tool = ''t'', a_Params = None, a_PolicyRule = [], a_TraceID = [],
     a_CallbackURL = [], a_Status = StatusPending, a_CreatedAt = 0, a_ResolvedBy = [], a_ResolvedAt = 0, a_Reasoning = [],
     a_Confidence = Fin 0, a_Result = None\<rparr>"

definition demo_start :: start_env where
  "demo_start =
     \<lparr>bt_getenv = (\<lambda>_. []), bt_expand = id, bt_list = DirMissing, bt_config = Inr demo_config, bt_url = (\<lambda>_. None),
      bt_fetch = (\<lambda>_. Inl []), bt_decode = (\<lambda>_. None), bt_read = (\<lambda>_. None), bt_trace_rt = demo_trace_rt,
      bt_trace = demo_trace_env, bt_trace_file = None, bt_trace_old = None, bt_now = 5,
      bt_opened = Inr \<lparr>sd_approvals = [demo_open], sd_grants = [], sd_pins = [], sd_halts = [demo_halt], sd_readable = (\<lambda>_. True)\<rparr>,
      bt_order = id, bt_text_before = (<), bt_halt = qe_halt demo_request, bt_b64 = (\<lambda>_. Some [3]),
      bt_jwt_parser = (\<lambda>_ _ _ _. None), bt_jwks = (\<lambda>_. Some (200, [\<lparr>jk_Kty = ''RSA'', jk_Kid = ''k'', jk_N = ''n'', jk_E = ''e'',
        jk_Crv = [], jk_X = [], jk_Y = []\<rparr>])),
      bt_pin = demo_pin_env, bt_answers = (\<lambda>_. (None, Inl [])), bt_absolute = (\<lambda>p. Some (''/'' @ p)), bt_resolved = (\<lambda>_. None),
      bt_hash8 = id, bt_watches = True, bt_files = [], bt_text = [], bt_version = (''dev'', ''none'', ''unknown'')\<rparr>"

definition demo_loaded :: config where
  "demo_loaded = demo_config\<lparr>cfg_Port := 9090,
     cfg_Approval := \<lparr>ac_TimeoutSeconds = 300, ac_NotifyURL = [], ac_Channel = ''tty-fallback'', ac_WaitSeconds = Fin 0\<rparr>\<rparr>"

lemma demo_loads: "load_config demo_start ''c.yaml'' 0 = Inr demo_loaded"
  by (simp add: load_config_def demo_start_def demo_config_def demo_loaded_def Load_def apply_defaults_def
      loadPolicyDir_def validatePolicyNames_def validateCLITools_def validateOpenAPIs_def Let_def)

definition demo_state :: state_db where
  "demo_state = \<lparr>sd_approvals = [demo_open], sd_grants = [], sd_pins = [], sd_halts = [demo_halt], sd_readable = (\<lambda>_. True)\<rparr>"

lemma demo_opened: "bt_opened demo_start = Inr demo_state"
  by (simp add: demo_start_def demo_state_def)

lemma demo_auth: obtains v where "init_auth demo_start demo_loaded = Inr (Some v, False)"
proof -
  have "case init_auth demo_start demo_loaded of Inr (Some v, l) \<Rightarrow> \<not> l | _ \<Rightarrow> False" by code_simp
  then show ?thesis using that by (auto split: sum.splits option.splits)
qed

lemma demo_halts_start: obtains hs where "init_halts demo_start (Some db) = Inr hs"
  by (simp add: init_halts_def halt_NewStore_def halt_reload_def demo_start_def demo_request_def Halts.demo_env_def Let_def)

lemma demo_parts:
  "init_registry demo_start [] [] demo_loaded = Inr registry_New"
  "init_traces demo_start demo_loaded = Inr (trace_NewStore 10000)"
  "open_state demo_start demo_loaded = Inr (Some demo_state)"
  "init_pins demo_loaded (Some demo_state) = Inr (Some (pin_NewStore (Some [])))"
  by (simp_all add: init_registry_def init_traces_def open_state_def init_pins_def demo_opened trace_NewStore_def
      demo_loaded_def demo_config_def Let_def) (simp_all add: demo_state_def)

lemma demo_restored:
  "map_of (as_pending (restore_approvals demo_start demo_state (init_approvals demo_loaded registry_New))) ''a''
     = Some (demo_open\<lparr>a_Result := Some []\<rparr>)"
  by (simp add: restore_approvals_def approval_LoadAll_def demo_start_def demo_state_def load_row_def demo_open_def
      init_approvals_def demo_loaded_def demo_config_def approval_NewStore_def Apply_def Let_def)

lemma demo_starts: "\<exists>m. initMesh demo_start ''c.yaml'' 0 [] [] = Inr m
   \<and> approval_at ''a'' (xs_gateway (mh_mesh m)) = Some (demo_open\<lparr>a_Result := Some []\<rparr>) \<and> mh_config m = demo_loaded"
proof -
  obtain v where v: "init_auth demo_start demo_loaded = Inr (Some v, False)" by (rule demo_auth)
  obtain hs where hs: "init_halts demo_start (Some demo_state) = Inr hs" by (rule demo_halts_start)
  have "gw_Approvals (xs_gateway (started_mesh e cfg g)) = gw_Approvals g" for e cfg g
    by (simp add: started_mesh_def Let_def)
  then show ?thesis
    by (simp add: initMesh_def and_then_def demo_loads demo_parts v hs Let_def approval_at_def started_gateway_def
        demo_restored)
qed


theorem start_fails_closed_witness:
  "\<exists>m h. initMesh demo_start ''c.yaml'' 0 [] [] = Inr m \<and> gw_RequireAuth (xs_gateway (mh_mesh m))
     \<and> xs_mcp (mh_mesh m) = Some h \<and> hh_RequireAuth h \<and> halted demo_request ''bot-1'' [] (xs_gateway (mh_mesh m))"
proof -
  obtain m where m: "initMesh demo_start ''c.yaml'' 0 [] [] = Inr m" "mh_config m = demo_loaded"
    using demo_starts by blast
  have hl: "demo_halt \<in> set (sd_halts demo_state)" by (simp add: demo_state_def)
  have c: "h_ResumedAt demo_halt = zero_time" "Covers demo_halt ''bot-1'' []" by code_simp+
  have a: "au_RequireAuthentication (cfg_Auth (mh_config m))" "cfg_StoragePath (mh_config m) \<noteq> []"
    by (simp_all add: m(2) demo_loaded_def demo_config_def)
  from start_fails_closed [OF m(1)] a demo_opened obtain h where
    "xs_mcp (mh_mesh m) = Some h" "hh_RequireAuth h" "gw_RequireAuth (xs_gateway (mh_mesh m))"
    "\<forall>hl \<in> set (sd_halts demo_state). \<forall>q a sid. h_ResumedAt hl = zero_time \<and> Covers hl a sid
       \<longrightarrow> halted q a sid (xs_gateway (mh_mesh m))"
    by auto
  then show ?thesis using m(1) hl c by blast
qed

text \<open>Beside standard input the HTTP server takes no notice of the certificate that is configured.\<close>

lemma mcp_mode_ignores_tls:
  "\<exists>m sv. mesh7_main demo_start (\<lambda>_. None)
       \<lparr>fl_version = False, fl_config = ''c.yaml'', fl_openapi = [], fl_backend = [], fl_port = 0, fl_mcp = True,
        fl_agent = ''claude'', fl_session = []\<rparr> = RunsStdio m sv \<lparr>ls_Addr = '':'' @ Itoa 9090, ls_TLS = False\<rparr>
     \<and> tls_Enabled (cfg_TLS (mh_config m))"
proof -
  obtain m where m: "initMesh demo_start ''c.yaml'' 0 [] [] = Inr m" "mh_config m = demo_loaded"
    using demo_starts by blast
  obtain cfg where "Load (bt_expand demo_start) (bt_list demo_start) (bt_config demo_start) = Inr cfg"
    using demo_loads by (auto simp: load_config_def split: sum.splits)
  then have alone: "beside_daemon demo_start (\<lambda>_. None) fl = None" for fl
    by (simp add: beside_daemon_def daemonOnPort_def Let_def)
  have l: "mcp_listener demo_loaded = \<lparr>ls_Addr = '':'' @ Itoa 9090, ls_TLS = False\<rparr>" "tls_Enabled (cfg_TLS demo_loaded)"
    by (simp_all add: mcp_listener_def demo_loaded_def demo_config_def tls_Enabled_def)
  show ?thesis unfolding mesh7_main_def alone mesh7_flags.simps m(1)
    by (intro exI [of _ m] exI [of _ "stdio_server demo_loaded ''claude'' []"]) (simp add: m(2) l)
qed

end
