(* ===== verification/Mem7.thy ===== *)
theory Mem7
  imports Precedents Integrity
begin

text \<open>
  The mesh as a client of mem7 (\<open>approval/memory.go\<close>): the request each call sends, what is read of
  the answer, and the fact a decision is stored as. mem7 itself is an argument; \<open>lists_facts\<close> states
  its documented behaviour: it lists the facts that carry every tag.
\<close>

section \<open>Calls\<close>

record mem_request =
  mq_URL :: string
  mq_Authorization :: string
  mq_ID :: int
  mq_Tool :: string
  mq_Arguments :: "(string \<times> gval) list"

text \<open>No answer, or its status and the typed contents its body decodes to.\<close>

type_synonym mem_reply = "(int \<times> (string \<times> string) list option) option"

definition rpc_request :: "string \<Rightarrow> string \<Rightarrow> int \<Rightarrow> string \<Rightarrow> (string \<times> gval) list \<Rightarrow> mem_request" where
  "rpc_request url token n name args =
     \<lparr>mq_URL = url @ ''/rpc'', mq_Authorization = (if token \<noteq> [] then ''Bearer '' @ token else []), mq_ID = n,
      mq_Tool = name, mq_Arguments = args\<rparr>"

definition mem_call ::
  "(mem_request \<Rightarrow> mem_reply) \<Rightarrow> string \<Rightarrow> string \<Rightarrow> int \<Rightarrow> string \<Rightarrow> (string \<times> gval) list \<Rightarrow> string option" where
  "mem_call post url token n name args =
     (case post (rpc_request url token n name args) of
        None \<Rightarrow> None
      | Some (status, body) \<Rightarrow>
          if status \<ge> 400 then None
          else map_option (\<lambda>content. case find (\<lambda>c. fst c = ''text'') content of None \<Rightarrow> [] | Some c \<Rightarrow> snd c) body)"

text \<open>The calls of the reader take tags only.\<close>

definition mem_reader_calls :: "(mem_request \<Rightarrow> mem_reply) \<Rightarrow> string \<Rightarrow> string \<Rightarrow> int \<Rightarrow> mem7" where
  "mem_reader_calls post url token n name tags =
     mem_call post url token n name [(''tags'', VList (map VStr tags))]"

section \<open>Facts\<close>

record fact =
  fc_Key :: string
  fc_Value :: string
  fc_Tags :: "string list"

definition decision_fact :: "approval \<Rightarrow> resolution \<Rightarrow> fact" where
  "decision_fact pa res =
     (let action = (if rs_Status res = StatusDenied then ''rejected''
                    else if rs_Status res = StatusTimeout then ''timed out'' else ''approved'') in
      \<lparr>fc_Key = ''decision.'' @ a_Tool pa @ ''.'' @ a_ID pa,
       fc_Value = action @ '' by '' @ rs_ResolvedBy res @ '' '' @ emdash @ '' agent:'' @ a_AgentID pa @ '' tool:'' @ a_Tool pa
         @ (if rs_Reasoning res \<noteq> [] then '' reason:'' @ rs_Reasoning res else []),
       fc_Tags = decision_tags pa res\<rparr>)"

definition store_arguments :: "fact \<Rightarrow> (string \<times> gval) list" where
  "store_arguments f =
     [(''key'', VStr (fc_Key f)), (''value'', VStr (fc_Value f)), (''tags'', VList (map VStr (fc_Tags f))),
      (''agent'', VStr ''flux7-mesh'')]"

text \<open>\<open>store\<close>: the request that is sent, and the counters after its answer.\<close>

definition store_fact ::
  "(mem_request \<Rightarrow> mem_reply) \<Rightarrow> string \<Rightarrow> string \<Rightarrow> int \<Rightarrow> fact \<Rightarrow> writer_stats \<Rightarrow> mem_request \<times> writer_stats" where
  "store_fact post url token n f w =
     (let r = rpc_request url token n ''memory_store'' (store_arguments f) in
      (r, memory_store (map_option (\<lambda>(status, _). nat status) (post r)) w))"

text \<open>\<open>WriteDecision\<close>: nothing without a writer or its address.\<close>

definition write_decision ::
  "(mem_request \<Rightarrow> mem_reply) \<Rightarrow> (string \<times> string) option \<Rightarrow> int \<Rightarrow> approval \<Rightarrow> resolution \<Rightarrow> writer_stats
     \<Rightarrow> mem_request option \<times> writer_stats" where
  "write_decision post writer n pa res w =
     (case writer of
        None \<Rightarrow> (None, w)
      | Some (url, token) \<Rightarrow>
          if url = [] then (None, w)
          else (case store_fact post url token n (decision_fact pa res) w of (r, w1) \<Rightarrow> (Some r, w1)))"

section \<open>What mem7 answers\<close>

definition tagged :: "string list \<Rightarrow> fact list \<Rightarrow> fact list" where
  "tagged tags facts = filter (\<lambda>f. set tags \<subseteq> set (fc_Tags f)) facts"

definition list_answer :: "nat \<Rightarrow> string \<Rightarrow> string" where
  "list_answer n rest =
     (if n = 0 then ''No memories found''
      else Itoa (int n) @ (if n = 1 then '' memory:'' else '' memories:'') @ nl @ rest)"

definition lists_facts :: "mem7 \<Rightarrow> fact list \<Rightarrow> bool" where
  "lists_facts mem facts =
     (\<forall>tags. \<exists>rest. mem ''memory_list'' tags = Some (list_answer (length (tagged tags facts)) rest))"

lemma count_line_text:
  assumes "n > 0" and "t \<in> {'' memory:'', '' memories:''}"
  shows "list_count_line (Itoa (int n) @ t) = Some (Itoa (int n))"
proof -
  have d: "list_all is_digit (Itoa (int n))" and v: "int_of_digits (Itoa (int n)) = int n" using Itoa_ok [of "int n"] by auto
  have "Itoa (int n) \<noteq> []" using v assms(1) by (auto simp: int_of_digits_def number_val_def)
  moreover have "takeWhile is_digit (Itoa (int n) @ t) = Itoa (int n)" "dropWhile is_digit (Itoa (int n) @ t) = t"
    using d assms(2) by (auto simp: list_all_iff takeWhile_append dropWhile_append is_digit_def)
  ultimately show ?thesis using assms(2) by (auto simp: list_count_line_def HasPrefix_def Let_def)
qed

lemma mem_count_answer:
  assumes "mem ''memory_list'' tags = Some (list_answer n rest)" and "int n < 2 ^ 63"
  shows "mem_count mem tags = Some (int n)"
proof (cases "n = 0")
  case True
  have "first_count (Split (CHR 0x0A) ''No memories found'') = None" "Contains ''No memories found'' ''No memories found''"
    by code_simp+
  then show ?thesis using True assms(1) by (simp add: mem_count_def list_answer_def)
next
  case False
  let ?t = "if n = 1 then '' memory:'' else '' memories:''"
  have t: "?t \<in> {'' memory:'', '' memories:''}" by simp
  have v: "int_of_digits (Itoa (int n)) = int n" "list_all is_digit (Itoa (int n))" using Itoa_ok [of "int n"] by auto
  have "\<not> is_digit (CHR 0x0A)" by code_simp
  then have "CHR 0x0A \<notin> set (Itoa (int n) @ ?t)" using v(2) by (auto simp: list_all_iff)
  from Split_append [OF this, of rest]
  have "Split (CHR 0x0A) (list_answer n rest) = (Itoa (int n) @ ?t) # Split (CHR 0x0A) rest"
    using False by (simp add: list_answer_def)
  then show ?thesis using assms count_line_text [OF _ t, of n] False v(1) by (simp add: mem_count_def)
qed

section \<open>Precedents\<close>

text \<open>A decision on a call of the tool by the agent; without an agent, by any.\<close>

definition concerns :: "string \<Rightarrow> string \<Rightarrow> approval \<times> resolution \<Rightarrow> bool" where
  "concerns tool agent d = (a_Tool (fst d) = tool \<and> (agent = [] \<or> a_AgentID (fst d) = agent))"

definition human_approval :: "approval \<times> resolution \<Rightarrow> bool" where
  "human_approval d = (rs_Status (snd d) = StatusApproved \<and> resolverKind (rs_ResolvedBy (snd d)) = ''human'')"

definition refusal :: "approval \<times> resolution \<Rightarrow> bool" where
  "refusal d = (rs_Status (snd d) = StatusDenied)"

text \<open>A tool whose name is none of the other tags.\<close>

definition plain_tool :: "string \<Rightarrow> bool" where
  "plain_tool t =
     (t \<notin> {''decision'', ''approved'', ''denied'', ''pending'', ''timeout''} \<and> \<not> HasPrefix t ''by:'' \<and> \<not> HasPrefix t ''agent:'')"

definition facts_of :: "(approval \<times> resolution) list \<Rightarrow> fact list" where
  "facts_of ds = map (\<lambda>(pa, res). decision_fact pa res) ds"

lemma tag_iff:
  "x \<in> set (decision_tags pa res) \<longleftrightarrow> x = ''decision'' \<or> x = status_text (rs_Status res) \<or> x = a_Tool pa
     \<or> x = ''by:'' @ resolverKind (rs_ResolvedBy res) \<or> (a_AgentID pa \<noteq> [] \<and> x = ''agent:'' @ a_AgentID pa)"
  by (auto simp: decision_tags_def)

lemma plain_toolD:
  assumes "plain_tool t"
  shows "t \<noteq> ''decision''" "t \<noteq> status_text st" "t \<noteq> ''by:'' @ x" "t \<noteq> ''agent:'' @ x" "t \<noteq> ''approved''" "t \<noteq> ''denied''"
proof -
  have n: "t \<notin> {''decision'', ''approved'', ''denied'', ''pending'', ''timeout''}" and b: "\<not> HasPrefix t ''by:''"
    and a: "\<not> HasPrefix t ''agent:''"
    using assms [unfolded plain_tool_def, THEN conjunct1] assms [unfolded plain_tool_def, THEN conjunct2, THEN conjunct1]
      assms [unfolded plain_tool_def, THEN conjunct2, THEN conjunct2] by (simp_all only: simp_thms)
  show "t \<noteq> ''decision''" "t \<noteq> ''approved''" "t \<noteq> ''denied''" using n by (simp_all only: insert_iff de_Morgan_disj simp_thms)
  show "t \<noteq> status_text st" using n by (cases st) (simp_all add: status_text_def)
  have "HasPrefix (''by:'' @ x) ''by:''" "HasPrefix (''agent:'' @ x) ''agent:''" unfolding HasPrefix_def by simp_all
  then show "t \<noteq> ''by:'' @ x" "t \<noteq> ''agent:'' @ x" using b a by metis+
qed

lemma tool_tag: "plain_tool t \<Longrightarrow> t \<in> set (decision_tags pa res) \<longleftrightarrow> a_Tool pa = t"
  using plain_toolD [of t] by (auto simp: tag_iff)

lemma other_tags:
  assumes "plain_tool (a_Tool pa)"
  shows "''approved'' \<in> set (decision_tags pa res) \<longleftrightarrow> rs_Status res = StatusApproved"
    and "''denied'' \<in> set (decision_tags pa res) \<longleftrightarrow> rs_Status res = StatusDenied"
    and "''by:human'' \<in> set (decision_tags pa res) \<longleftrightarrow> resolverKind (rs_ResolvedBy res) = ''human''"
    and "agent \<noteq> [] \<Longrightarrow> ''agent:'' @ agent \<in> set (decision_tags pa res) \<longleftrightarrow> a_AgentID pa = agent"
proof -
  note p = plain_toolD [OF assms]
  have h: "''by:human'' = ''by:'' @ ''human''" by simp
  show "''approved'' \<in> set (decision_tags pa res) \<longleftrightarrow> rs_Status res = StatusApproved"
    and "''denied'' \<in> set (decision_tags pa res) \<longleftrightarrow> rs_Status res = StatusDenied"
    using p(5,6) unfolding tag_iff by (cases "rs_Status res"; force simp: status_text_def)+
  have "a_Tool pa \<noteq> ''by:human''" using p(3) [of "''human''"] by simp
  then show "''by:human'' \<in> set (decision_tags pa res) \<longleftrightarrow> resolverKind (rs_ResolvedBy res) = ''human''"
    unfolding tag_iff by (cases "rs_Status res"; force simp: status_text_def)
  show "''agent:'' @ agent \<in> set (decision_tags pa res) \<longleftrightarrow> a_AgentID pa = agent" if "agent \<noteq> []"
    using p(4) [of agent] that unfolding tag_iff by (cases "rs_Status res"; force simp: status_text_def)
qed

lemma decision_tag [simp]: "''decision'' \<in> set (decision_tags pa res)"
  by (simp add: tag_iff)

lemma tags_concern:
  assumes "plain_tool tool"
  shows "set ([''approved'', ''by:human''] @ decision_scope tool agent) \<subseteq> set (decision_tags pa res)
       \<longleftrightarrow> human_approval (pa, res) \<and> concerns tool agent (pa, res)"
    and "set (''denied'' # decision_scope tool agent) \<subseteq> set (decision_tags pa res)
       \<longleftrightarrow> refusal (pa, res) \<and> concerns tool agent (pa, res)"
proof -
  have scope: "set (decision_scope tool agent) \<subseteq> set (decision_tags pa res) \<longleftrightarrow> concerns tool agent (pa, res)"
    using tool_tag [OF assms, of pa res] other_tags(4) [of pa agent res] assms
    by (auto simp: decision_scope_def concerns_def)
  show "set ([''approved'', ''by:human''] @ decision_scope tool agent) \<subseteq> set (decision_tags pa res)
       \<longleftrightarrow> human_approval (pa, res) \<and> concerns tool agent (pa, res)"
    using scope other_tags(1,3) [of pa res] assms by (auto simp: human_approval_def concerns_def)
  show "set (''denied'' # decision_scope tool agent) \<subseteq> set (decision_tags pa res)
       \<longleftrightarrow> refusal (pa, res) \<and> concerns tool agent (pa, res)"
    using scope other_tags(2) [of pa res] assms by (auto simp: refusal_def concerns_def)
qed

lemma tagged_facts:
  assumes "plain_tool tool"
  shows "length (tagged ([''approved'', ''by:human''] @ decision_scope tool agent) (facts_of ds))
       = length (filter (\<lambda>d. human_approval d \<and> concerns tool agent d) ds)"
    and "length (tagged (''denied'' # decision_scope tool agent) (facts_of ds))
       = length (filter (\<lambda>d. refusal d \<and> concerns tool agent d) ds)"
proof -
  have t: "fc_Tags (decision_fact pa res) = decision_tags pa res" for pa res by (simp add: decision_fact_def Let_def)
  have m: "length (tagged tags (facts_of ds)) = length (filter P ds)"
    if "\<And>pa res. set tags \<subseteq> set (decision_tags pa res) \<longleftrightarrow> P (pa, res)" for tags P
    by (simp add: tagged_def facts_of_def filter_map o_def case_prod_unfold t that)
  show "length (tagged ([''approved'', ''by:human''] @ decision_scope tool agent) (facts_of ds))
       = length (filter (\<lambda>d. human_approval d \<and> concerns tool agent d) ds)"
    by (rule m) (rule tags_concern(1) [OF assms])
  show "length (tagged (''denied'' # decision_scope tool agent) (facts_of ds))
       = length (filter (\<lambda>d. refusal d \<and> concerns tool agent d) ds)"
    by (rule m) (rule tags_concern(2) [OF assms])
qed


definition demo_fact_call :: "string \<Rightarrow> string \<Rightarrow> approval \<times> resolution" where
  "demo_fact_call who tool =
     (\<lparr>a_ID = ''a'', a_AgentID = ''bot'', a_Tool = tool, a_Params = None, a_PolicyRule = [], a_TraceID = [],
       a_CallbackURL = [], a_Status = StatusApproved, a_CreatedAt = 0, a_ResolvedBy = who, a_ResolvedAt = 0,
       a_Reasoning = [], a_Confidence = Fin 0, a_Result = None\<rparr>,
      \<lparr>rs_Status = StatusApproved, rs_ResolvedBy = who, rs_ResolvedAt = 9, rs_Reasoning = [], rs_Confidence = Fin 0\<rparr>)"

definition demo_mem7 :: "fact list \<Rightarrow> mem7" where
  "demo_mem7 facts name tags = Some (list_answer (length (tagged tags facts)) [])"

lemma demo_mem7_lists: "lists_facts (demo_mem7 facts) facts"
  by (auto simp: lists_facts_def demo_mem7_def)


text \<open>
  The tags share one name space: a tool called \<open>decision\<close> finds every decision of its agent, and passes
  on approvals of other tools.
\<close>

lemma tool_named_like_a_tag:
  "ar_Action (AutoResolve (demo_mem7 (facts_of [demo_fact_call ''ann'' ''fs.read'', demo_fact_call ''ann'' ''fs.list'']))
     (Some \<lparr>mr_url = ''m'', mr_min = 2\<rparr>) ''decision'' ''bot'') = ''approve''"
  by code_simp

end
