(* ===== verification/Prompt.thy ===== *)
theory Prompt
  imports Mcp_Server
begin

text \<open>
  The prompt on the terminal (\<open>promptTTY\<close> of \<open>mcp/server.go\<close>): when it is shown, what it prints, how
  the line that was typed is read. The rest of the development takes the answer of the terminal as an
  argument (\<open>mv_tty\<close>); here it is the code's own function.
\<close>

section \<open>The prompt\<close>

text \<open>
  The surroundings of the process: the system, whether its standard input is something other than a
  character device, what is read from \<open>/dev/tty\<close> up to the end of the line (\<open>None\<close> where it cannot be
  opened) and the variable \<open>USER\<close>.
\<close>

record terminal =
  tm_Windows :: bool
  tm_StdinPiped :: bool
  tm_Line :: "string option"
  tm_USER :: string

definition nl :: string where
  "nl = [CHR 0x0A]"

definition esc :: "string \<Rightarrow> string" where
  "esc code = CHR 0x1B # ''['' @ code @ ''m''"

definition prompt_value :: "string \<Rightarrow> string" where
  "prompt_value str = (if length str > 80 then take 80 str @ ''...'' else str)"

text \<open>The parameters in the order the map is ranged over.\<close>

definition prompt_text :: "go_rt \<Rightarrow> string \<Rightarrow> string \<Rightarrow> params \<Rightarrow> string" where
  "prompt_text rt agentID toolName p =
     nl @ esc ''1;33'' @ ''>> APPROVAL REQUIRED'' @ esc ''0'' @ nl
     @ ''   agent: '' @ agentID @ nl
     @ ''   tool:  '' @ toolName @ nl
     @ concat (map (\<lambda>(k, v). ''   '' @ k @ '': '' @ prompt_value (Sprint rt v) @ nl) (entries p))
     @ nl @ ''   '' @ esc ''1'' @ ''[a]pprove / [d]eny ?'' @ esc ''0'' @ '' ''"

definition prompt_verdict :: "bool \<Rightarrow> string" where
  "prompt_verdict approved =
     ''   '' @ (if approved then esc ''32'' @ ''Approved'' else esc ''31'' @ ''Denied'') @ esc ''0'' @ nl @ nl"

text \<open>The answer and who gave it, and all that was printed.\<close>

definition promptTTY ::
  "go_rt \<Rightarrow> terminal \<Rightarrow> string \<Rightarrow> string \<Rightarrow> params \<Rightarrow> (bool \<times> string) option \<times> string" where
  "promptTTY rt tm agentID toolName p =
     (if tm_Windows tm then (None, [])
      else if tm_StdinPiped tm then (None, [])
      else
        (case tm_Line tm of
           None \<Rightarrow> (None, [])
         | Some line \<Rightarrow>
             (let input = TrimSpace (ToLower line);
                  approved = (input = ''a'' \<or> input = ''approve'') in
              (Some (approved, ''tty:'' @ tm_USER tm),
               prompt_text rt agentID toolName p @ prompt_verdict approved))))"

section \<open>What the prompt lets pass\<close>

definition typed_approval :: "terminal \<Rightarrow> bool" where
  "typed_approval tm =
     (\<not> tm_Windows tm \<and> \<not> tm_StdinPiped tm
      \<and> (case tm_Line tm of None \<Rightarrow> False | Some line \<Rightarrow> TrimSpace (ToLower line) \<in> {''a'', ''approve''}))"

lemma promptTTY_approves:
  "map_option fst (fst (promptTTY rt tm a t p)) = Some True \<longleftrightarrow> typed_approval tm"
  by (auto simp: promptTTY_def typed_approval_def Let_def split: option.splits)

lemma human_agrees_tty:
  assumes "mv_tty e = (\<lambda>t p. fst (promptTTY rt tm (sv_AgentID sv) t p))" and "sv_ApprovalChannel sv = ''tty''"
  shows "human_agrees e sv t tool args g = typed_approval tm"
proof -
  let ?answer = "map_option fst (fst (promptTTY rt tm (sv_AgentID sv) t args))"
  have "human_agrees e sv t tool args g = (?answer = Some True)"
    using assms by (cases "fst (promptTTY rt tm (sv_AgentID sv) t args)") (auto simp: human_agrees_def terminal_answer_def)
  then show ?thesis by (simp only: promptTTY_approves)
qed

text \<open>
  On the channel \<open>tty\<close> a call that needs a person runs exactly when somebody typed an approval at the
  terminal of the mesh: any other line, an end of file, a terminal that cannot be opened and a piped
  standard input refuse it.
\<close>

theorem terminal_decides:
  assumes "mv_tty e = (\<lambda>t p. fst (promptTTY rt tm (sv_AgentID sv) t p))" and "sv_ApprovalChannel sv = ''tty''"
    and "resolveTool g t = Some tool" and "\<not> halted (mv_req e) (sv_AgentID sv) (sv_SessionID sv) g"
    and "verdict_on (mv_req e) (sv_AgentID sv) (Some tool) t args g = ''human_approval''"
    and "\<not> precedented (mv_req e) (sv_AgentID sv) t args g"
  shows "gw_forwarded (snd (governed_call e sv tc t args g)) = gw_forwarded g @
     (if typed_approval tm then [\<lparr>fw_Tool = tool, fw_Params = args, fw_Agent = sv_AgentID sv\<rparr>] else [])"
  using assms by (simp add: governed_call_forwards mcp_passes_def human_agrees_tty Let_def)

lemma empty_line_refuses: "\<not> typed_approval (tm\<lparr>tm_Line := Some []\<rparr>)"
  by (simp add: typed_approval_def ToLower_def TrimSpace_def)

lemma piped_session_refuses: "tm_StdinPiped tm \<Longrightarrow> \<not> typed_approval tm"
  by (simp add: typed_approval_def)

section \<open>What the prompt does not show\<close>

text \<open>
  The values are printed as they are: a line break in one value shows the same prompt as a call with
  another argument, and of a long value the first 80 bytes are shown.
\<close>

definition one_argument :: params where
  "one_argument = Some [(''path'', VStr (''/tmp'' @ nl @ ''   mode: read''))]"

definition two_arguments :: params where
  "two_arguments = Some [(''path'', VStr ''/tmp''), (''mode'', VStr ''read'')]"

lemma different_calls_same_prompt:
  "Marshal one_argument \<noteq> Marshal two_arguments
   \<and> prompt_text rt a t one_argument = prompt_text rt a t two_arguments"
  by (simp add: one_argument_def two_arguments_def Marshal_def prompt_text_def prompt_value_def entries_def nl_def)

lemma prompt_shows_80_bytes:
  assumes "length u > 80" and "length v > 80" and "take 80 u = take 80 v"
  shows "prompt_text rt a t (Some [(k, VStr u)]) = prompt_text rt a t (Some [(k, VStr v)])"
  using assms by (simp add: prompt_text_def prompt_value_def entries_def)

end
