(* ===== verification/Schemas.thy ===== *)
theory Schemas
  imports Upstreams Mcp_Server
begin

text \<open>
  The schema of a tool's parameters on its way through the mesh: decoded from the catalogue of an
  upstream (\<open>MCPProp.UnmarshalJSON\<close> of \<open>mcp/server.go\<close>), converted and registered (\<open>main.go\<close>,
  \<open>registry/mcp.go\<close>), listed to the agent and encoded again (\<open>MCPProp.MarshalJSON\<close>). A JSON text is
  the value it denotes, its members in their order.
\<close>

section \<open>Decoding and encoding a property\<close>

record mcp_property =
  pr_Type :: string
  pr_Description :: string
  pr_Raw :: "gval option"

text \<open>
  The shallow decode: the names of the members are compared without case, a later member overwrites
  an earlier one, null and a value of another kind leave the field. Its error is ignored.
\<close>

definition shallow_member :: "string \<times> gval \<Rightarrow> mcp_property \<Rightarrow> mcp_property" where
  "shallow_member = (\<lambda>(k, v) p. case v of
       VStr s \<Rightarrow> if ToLower k = ''type'' then p\<lparr>pr_Type := s\<rparr>
         else if ToLower k = ''description'' then p\<lparr>pr_Description := s\<rparr> else p
     | _ \<Rightarrow> p)"

definition MCPProp_UnmarshalJSON :: "gval \<Rightarrow> mcp_property" where
  "MCPProp_UnmarshalJSON data =
     fold shallow_member (case data of VMap m \<Rightarrow> m | _ \<Rightarrow> [])
       \<lparr>pr_Type = [], pr_Description = [], pr_Raw = Some data\<rparr>"

definition MCPProp_MarshalJSON :: "mcp_prop \<Rightarrow> gval" where
  "MCPProp_MarshalJSON p =
     (case p of
        RawProp raw \<Rightarrow> raw
      | PlainProp ty desc \<Rightarrow>
          VMap ((if ty = [] then [] else [(''type'', VStr ty)])
                @ (if desc = [] then [] else [(''description'', VStr desc)])))"

text \<open>The member \<open>properties\<close> of a schema, a map: the last of two members of one name stays.\<close>

definition schema_Properties :: "(string \<times> gval) list \<Rightarrow> (string \<times> mcp_property) list" where
  "schema_Properties ps = fold (\<lambda>(n, d) m. AList.update n (MCPProp_UnmarshalJSON d) m) ps []"

text \<open>What \<open>convertMCPTools\<close> hands to the registry of each property.\<close>

definition wire_properties :: "(string \<times> mcp_property) list \<Rightarrow> (string \<times> mcp_prop_def) list" where
  "wire_properties = map (\<lambda>(n, p). (n, \<lparr>mp_Type = pr_Type p, mp_RawSchema = pr_Raw p\<rparr>))"

definition encode_Properties :: "mcp_listing \<Rightarrow> (string \<times> gval) list" where
  "encode_Properties l = map (\<lambda>(n, p). (n, MCPProp_MarshalJSON p)) (ml_Props l)"

section \<open>The schema an agent sees\<close>

lemma fold_shallow_Raw: "pr_Raw (fold shallow_member m p) = pr_Raw p"
  by (induction m arbitrary: p) (auto simp: shallow_member_def split: gval.split)

lemma Raw_kept [simp]: "pr_Raw (MCPProp_UnmarshalJSON d) = Some d"
  by (simp add: MCPProp_UnmarshalJSON_def fold_shallow_Raw)

lemma map_of_schema_fold:
  "map_of (fold (\<lambda>(n, d) m. AList.update n (MCPProp_UnmarshalJSON d) m) ps m) n =
     (case map_of (rev ps) n of Some d \<Rightarrow> Some (MCPProp_UnmarshalJSON d) | None \<Rightarrow> map_of m n)"
  by (induction ps arbitrary: m) (auto simp: update_conv map_add_def split: option.split)

lemma map_of_schema_Properties:
  "map_of (schema_Properties ps) n = map_option MCPProp_UnmarshalJSON (map_of (rev ps) n)"
  by (simp add: schema_Properties_def map_of_schema_fold split: option.split)

lemma distinct_schema_Properties: "distinct (map fst (schema_Properties ps))"
proof -
  have "distinct (map fst m) \<Longrightarrow>
      distinct (map fst (fold (\<lambda>(n, d) m. AList.update n (MCPProp_UnmarshalJSON d) m) ps m))" for m
    by (induction ps arbitrary: m) (auto simp: distinct_update)
  then show ?thesis by (simp add: schema_Properties_def)
qed

lemma map_of_map_pair: "map_of (map (\<lambda>(k, p). (k, f k p)) ps) n = map_option (f n) (map_of ps n)"
  by (induction ps) auto

lemma map_of_update_each:
  "distinct (map f xs) \<Longrightarrow>
     map_of (fold (\<lambda>x m. AList.update (f x) (h x) m) xs m) n = (map_of m ++ map_of (map (\<lambda>x. (f x, h x)) xs)) n"
proof (induction xs arbitrary: m)
  case (Cons x xs)
  then have "map_of (map (\<lambda>x. (f x, h x)) xs) (f x) = None"
    by (auto simp: map_of_eq_None_iff image_image)
  with Cons show ?case
    by (auto simp: update_conv map_add_def split: option.split)
qed simp


lemma plain_schema_decodes:
  "MCPProp_UnmarshalJSON (MCPProp_MarshalJSON (PlainProp ty desc)) =
     \<lparr>pr_Type = ty, pr_Description = desc, pr_Raw = Some (MCPProp_MarshalJSON (PlainProp ty desc))\<rparr>"
  by (simp add: MCPProp_UnmarshalJSON_def MCPProp_MarshalJSON_def shallow_member_def ToLower_def lower_char_def)

end
