(* ===== verification/Spec2Isabelle.thy ===== *)
theory Spec2Isabelle
  imports Doors Stdio_Proxy Discover Operator Startup Mem7 Prompt Schemas
begin

text \<open>
  flux7-mesh (the \<open>mesh7\<close> daemon) stands between agents and the tools they call. An agent calls a
  tool over HTTP (\<open>POST /tool/<name>\<close>) or over MCP (\<open>tools/call\<close>, on standard input or over
  Streamable HTTP); the mesh decides whether the call goes to its backend (an OpenAPI service, a
  declared command, an upstream MCP server), waits for a human, or is refused, and keeps a trace of
  it. An operator governs through the HTTP control plane.

  \<^bold>\<open>How a call runs.\<close> Both doors do the same in the same order: who calls (\<open>Auth\<close>), is the caller
  stopped (\<open>Halts\<close>), does the tool exist (\<open>Registry\<close>), is the rate kept (\<open>Ratelimit\<close>, HTTP only), what
  does the policy say (\<open>Policy\<close>, over \<open>Config\<close> and \<open>Glob\<close>), tightened by the floor of a new or changed
  tool (\<open>Pins\<close>), is there a temporal grant (\<open>Grants\<close>, HTTP only) or a verdict remembered by mem7
  (\<open>Precedents\<close>, \<open>Approvals\<close>, with the guards of \<open>Supervisor\<close>), else a queued approval (\<open>Approvals\<close>);
  then the backend (\<open>Forward\<close>, \<open>Exec\<close>, \<open>Upstreams\<close>), and a trace (\<open>Trace_Context\<close>, \<open>Traces\<close>, sealed by
  \<open>Integrity\<close>, exported by \<open>Otel\<close>). \<open>Gateway\<close> composes these for HTTP and \<open>Mcp_Server\<close> for MCP over one
  state, the record \<open>gateway\<close>, whose fields are the components' states; \<open>Control\<close> holds the
  operator's handlers on the same state, and \<open>Router\<close> the whole HTTP server on it.

  \<^bold>\<open>Theories and sources\<close> (all paths under \<open>src/\<close>):
  \<^item> \<open>Prelude\<close>: Go values, strings, maps, times and durations, and the facts everything shares; the
    collections \<open>frame_simps\<close> (what an operation leaves alone) and \<open>inv_intros\<close>.
  \<^item> \<open>Glob\<close>: \<open>internal/match\<close> with the pattern language of \<open>path.Match\<close>. \<open>Config\<close>: \<open>config/config.go\<close>.
    \<open>Policy\<close>: \<open>policy/engine.go\<close>, \<open>tighten.go\<close>. \<open>Registry\<close>: \<open>registry/\<close>.
  \<^item> \<open>Grants\<close>: \<open>grant/\<close>. \<open>Halts\<close>: \<open>halt/halt.go\<close>. \<open>Pins\<close>: \<open>pin/pin.go\<close>. \<open>Ratelimit\<close>: \<open>ratelimit/limiter.go\<close>.
    \<open>Supervisor\<close>: \<open>supervisor/\<close>. \<open>Approvals\<close>, \<open>Precedents\<close>, \<open>Mem7\<close>: \<open>approval/store.go\<close>, \<open>persist.go\<close>, \<open>memory.go\<close>.
    \<open>Auth\<close>: \<open>auth/\<close>. \<open>Exec\<close>: \<open>exec/runner.go\<close>. \<open>Forward\<close>: the \<open>Forward\<close> functions of \<open>proxy/handler.go\<close>.
  \<^item> \<open>Trace_Context\<close>, \<open>Integrity\<close>, \<open>Traces\<close>, \<open>Otel\<close>: \<open>trace/\<close>.
  \<^item> \<open>Gateway\<close>, \<open>Control\<close>, \<open>Views\<close>, \<open>Router\<close>: \<open>proxy/handler.go\<close>, \<open>halts.go\<close>, \<open>pins.go\<close>. \<open>Text_Edit\<close>,
    \<open>Policy_Edit\<close>: \<open>policy/edit.go\<close>, \<open>config/edit.go\<close>, \<open>proxy/policy_edit.go\<close>, \<open>approval_settings.go\<close>.
  \<^item> \<open>Mcp_Server\<close>, \<open>Prompt\<close>, \<open>Schemas\<close>, \<open>Mcp_Sessions\<close>: \<open>mcp/server.go\<close>, \<open>http_server.go\<close>, \<open>retry.go\<close>.
  \<^item> \<open>Mcp_Client\<close>, \<open>Transports\<close>, \<open>Upstreams\<close>: \<open>mcp/client.go\<close>, \<open>transport_*.go\<close>, \<open>manager.go\<close>, and the
    connection of upstreams in \<open>cmd/mesh7/mesh.go\<close> and \<open>main.go\<close>. \<open>Stdio_Proxy\<close>: \<open>cmd/mesh7/proxy_stdio.go\<close>.
  \<^item> \<open>Outbound\<close>: \<open>internal/ssrf\<close>, \<open>approval/notify.go\<close>, the fetch of \<open>registry/openapi.go\<close>. \<open>Storage\<close>:
    \<open>storage/sqlite.go\<close>. \<open>Watcher\<close>: \<open>policy/watcher.go\<close>. \<open>Discover\<close>: \<open>cmd/mesh7/discover.go\<close>.
  \<^item> \<open>Doors\<close>: what both ways in have in common. \<open>Operator\<close>: the operator's command line, \<open>cmd/mesh\<close>, against
    the HTTP server of the mesh. \<open>Service\<close>: the running mesh as a sequence of steps (requests, calls that
    go on, timers, reloads, upstreams). \<open>Startup\<close>: \<open>initMesh\<close>, \<open>main\<close>, \<open>serve\<close> and \<open>trace\<close> of \<open>cmd/mesh7\<close>.

  \<^bold>\<open>Conventions.\<close> A Go map is an association list with distinct keys, so its iteration order is a
  list order; where the code's result depends on that order the theory says so. A struct is a
  record, an error a value of a sum type, a store with a database two components (memory and rows).
  Clocks, random bytes and identifiers are arguments. A channel of capacity one is an option; an
  operation that would block for ever is \<open>None\<close>, and liveness theorems show it is not. Concurrency is
  a sequence of atomic steps (one per critical section), in the step relations \<open>approval_step\<close>,
  \<open>grant_step\<close>, \<open>limiter_run\<close>, \<open>client_run\<close>, \<open>otel_step\<close>, \<open>transport_step\<close>, \<open>trace_run\<close>,
  and \<open>mesh_step\<close> for the mesh as a whole. Times are integers in
  nanoseconds. The calls that reach a backend are recorded in the field \<open>gw_forwarded\<close>, which has no
  counterpart in the code: it is how theorems speak about calls that were made.

  \<^bold>\<open>What the lemmas show.\<close> For each component: its invariant and that every operation keeps it
  (\<open>approvals_inv\<close>, \<open>grants_inv\<close>, \<open>upstream_ok\<close>, \<open>sessions_ok\<close> and others), the result of each operation on
  every branch, and its contract. Across components: which calls reach a backend
  (\<open>forwarded_iff_permitted\<close>, \<open>tools_call_iff_permitted\<close>), that a stop reaches calls, grants and approvals
  and that lifting it gives grants back, that a decision is final and used once, that agents cannot
  govern, that announcements (\<open>POST /decide\<close>, explanations, the console's list of precedents) agree
  with what happens, that edits are applied whole or not at all, that a session serves its owner,
  that the control plane asks for its credential on the state of the whole process, that a command of
  the operator's command line that ends well did what it says, that a start fails closed and that from
  then on no request and no waiting call hangs, and that a draft policy allows no more
  than it announces. Locales
  state the contracts shared by several operations: \<open>matcher\<close> (\<open>Glob\<close>), \<open>restorable\<close> (grants under a stop),
  \<open>flooring\<close> (tightening by pins), \<open>framing\<close> (the three transports), \<open>door\<close> (the two ways in).

  \<^bold>\<open>Parameters\<close>, for code that is not in the repository: SHA-256, base64, signature checks, the YAML and
  JSON decoders on arbitrary text, the URL parser, the resolver and \<open>ParseIP\<close>, the answers of
  databases, files, backends, upstream servers and mem7. Theorems name what they need of them
  (distinct digests, a resolver that answers with addresses of the right length) as hypotheses,
  and their witnesses instantiate them.

  \<^bold>\<open>Bounds.\<close> Recursion is structural or by a measure nearly everywhere. Fuel stands only where the
  code itself counts: redirects (\<open>follow\<close>, five for the streamable transport and ten for \<open>net/http\<close>;
  \<open>redirects_stay_on_origin\<close> shows it is enough), the depth of a trace's chain (\<open>chain_walk\<close>), the digits
  of a number (\<open>digits_aux\<close>, as many as the number itself). The loop of \<open>mesh watch\<close> does not end; \<open>watch\<close>
  makes as many rounds as it is told.

  \<^bold>\<open>Not modelled\<close>: the parsing of the daemon's flags, sockets and signals, the layout of printed tables
  and usage texts, log messages, the text of JSON answers (a handler's answer is the value it
  encodes), starting and killing processes, TLS handshakes, metrics names of third-party packages,
  and examples, scripts and tests.
\<close>

end
